(* ===== verification/Prelude.thy ===== *)
theory Prelude
  imports Main "HOL-Library.Word"
begin

text \<open>
  Shared vocabulary of the kernel model: the fixed-width integers of
  \<open>student-distrib/types.h\<close>, byte memory, the outcome of a C function that may index out of an
  array or never return, the loop rules and word lemmas that the components use, and the two
  generic interfaces (an operation kept by an invariant, and a transition system).
\<close>

unbundle bit_operations_syntax

named_theorems outcome_simps \<open>evaluation of the outcome type\<close>
named_theorems layout_simps \<open>addresses and masks of the kernel's memory layout\<close>

section \<open>Fixed-width integers and memory\<close>

type_synonym u8 = "8 word"
type_synonym u16 = "16 word"
type_synonym u32 = "32 word"

text \<open>
  A C \<open>int32_t\<close> is kept as its bit pattern in a \<^typ>\<open>u32\<close>; signed comparisons read it with
  \<^const>\<open>sint\<close>.
\<close>

type_synonym i32 = "32 word"

text \<open>Byte-addressed memory as the running code sees it, and a pointer read as an array.\<close>

type_synonym memory = "u32 \<Rightarrow> u8"
type_synonym cstr = "u32 \<Rightarrow> u8"

definition ptr :: "memory \<Rightarrow> u32 \<Rightarrow> cstr" where
  "ptr m p = (\<lambda>i. m (p + i))"

text \<open>Constants of \<open>types.h\<close>.\<close>

definition NULL_PTR :: u32 where "NULL_PTR = 0"
definition SZ_4KB :: u32 where "SZ_4KB = 0x1000"
definition SZ_4MB :: u32 where "SZ_4MB = 0x00400000"
definition SZ_8MB :: u32 where "SZ_8MB = 0x00800000"
definition SZ_8KB :: u32 where "SZ_8KB = 0x2000"
definition SZ_128MB :: u32 where "SZ_128MB = 0x08000000"
definition ALIGN_8KB :: u32 where "ALIGN_8KB = 0xFFFFE000"

lemmas size_defs = NULL_PTR_def SZ_4KB_def SZ_4MB_def SZ_8MB_def SZ_8KB_def SZ_128MB_def
  ALIGN_8KB_def

text \<open>A little-endian 32-bit load, the layout of every \<open>uint32_t\<close> field in memory.\<close>

definition load32 :: "memory \<Rightarrow> u32 \<Rightarrow> u32" where
  "load32 m a = ucast (m a) OR push_bit 8 (ucast (m (a + 1))) OR push_bit 16 (ucast (m (a + 2)))
     OR push_bit 24 (ucast (m (a + 3)))"

definition store32 :: "memory \<Rightarrow> u32 \<Rightarrow> u32 \<Rightarrow> memory" where
  "store32 m a v = m(a := ucast v, a + 1 := ucast (drop_bit 8 v), a + 2 := ucast (drop_bit 16 v),
     a + 3 := ucast (drop_bit 24 v))"

section \<open>Outcomes\<close>

text \<open>
  \<open>Fault\<close> is an access outside the C object it names (or a division by zero): behaviour C does
  not define. \<open>No_Return\<close> is a loop that never ends.
\<close>

datatype fault = Out_Of_Bounds | Divide_Error | Null_Call

datatype 'a outcome = Ok 'a | Fault fault | No_Return

fun obind :: "'a outcome \<Rightarrow> ('a \<Rightarrow> 'b outcome) \<Rightarrow> 'b outcome" where
  "obind (Ok x) f = f x"
| "obind (Fault e) f = Fault e"
| "obind No_Return f = No_Return"

definition of_loop :: "'a option \<Rightarrow> 'a outcome" where
  "of_loop r = (case r of None \<Rightarrow> No_Return | Some x \<Rightarrow> Ok x)"

lemma of_loop_simps [simp, outcome_simps]:
  "of_loop None = No_Return" "of_loop (Some x) = Ok x"
  by (simp_all add: of_loop_def)

lemma obind_eq_Ok [outcome_simps]:
  "obind r f = Ok y \<longleftrightarrow> (\<exists>x. r = Ok x \<and> f x = Ok y)"
  by (cases r) auto

lemma obind_assoc: "obind (obind r f) g = obind r (\<lambda>x. obind (f x) g)"
  by (cases r) auto

section \<open>Words\<close>

lemma unat_Suc_less:
  fixes i n :: "'a::len word"
  assumes "i < n"
  shows "unat (i + 1) = Suc (unat i)"
proof -
  have "unat i + 1 < 2 ^ LENGTH('a)"
    using assms unsigned_less [of n, where ?'a = nat] unfolding word_less_nat_alt by linarith
  then show ?thesis by (simp add: unat_word_ariths)
qed

lemma word_loop_measure:
  fixes i n :: "'a::len word"
  assumes "i < n"
  shows "unat n - unat (i + 1) < unat n - unat i"
  using unat_Suc_less [OF assms] assms by (simp add: word_less_nat_alt)

lemma unat_eq_Suc_dec:
  assumes "unat w = Suc k"
  shows "w \<noteq> 0" and "unat (w - 1) = k"
proof -
  show "w \<noteq> 0" using assms by auto
  then show "unat (w - 1) = k" using assms by (simp add: unat_minus_one)
qed

lemma unat_u32_lt: "unat (w :: u32) < 4294967296"
  using unsigned_less [of w, where ?'a = nat] by simp

lemma u32_of_unat: "of_nat (unat w) = (w :: u32)"
  by simp

lemma unat_of_nat_u32: "n < 2 ^ 32 \<Longrightarrow> unat (of_nat n :: u32) = n"
  by (simp add: unat_of_nat take_bit_nat_eq_self)

lemma of_nat_u32_eq_iff:
  "a < 2 ^ 32 \<Longrightarrow> b < 2 ^ 32 \<Longrightarrow> (of_nat a :: u32) = of_nat b \<longleftrightarrow> a = b"
  by (metis unat_of_nat_u32)

lemma unat_Suc_u32: "Suc n < 2 ^ 32 \<Longrightarrow> unat (of_nat n + 1 :: u32) = Suc n"
  by (metis of_nat_Suc add.commute unat_of_nat_u32)

lemma sint_small:
  assumes "unat (w :: u32) < 2 ^ 31"
  shows "sint w = int (unat w)"
proof -
  have "int (unat w) < int (2 ^ 31)" using assms by (simp only: of_nat_less_iff)
  then have u: "uint w < 2 ^ 31" by simp
  have "sint w = signed_take_bit 31 (uint w)" by (simp add: sint_uint)
  also have "\<dots> = uint w"
  proof (rule signed_take_bit_int_eq_self)
    show "- (2 ^ 31) \<le> uint w" by (rule order.trans [OF _ uint_ge_0]) simp
    show "uint w < 2 ^ 31" by (rule u)
  qed
  finally show ?thesis by simp
qed

section \<open>Writing a run of bytes\<close>

text \<open>
  The reference description of every copying loop: the \<open>n\<close> bytes from address \<open>d\<close> are taken from
  \<open>f\<close>, every other byte is unchanged.
\<close>

definition blit :: "memory \<Rightarrow> u32 \<Rightarrow> nat \<Rightarrow> (u32 \<Rightarrow> u8) \<Rightarrow> memory" where
  "blit m d n f = (\<lambda>a. if unat (a - d) < n then f (a - d) else m a)"

lemma blit_0 [simp]: "blit m d 0 f = m"
  by (simp add: blit_def)

lemma blit_Suc:
  assumes "n < 2 ^ 32"
  shows "(blit m d n f)(d + of_nat n := f (of_nat n)) = blit m d (Suc n) f"
proof
  fix a
  have "unat (a - d) = n \<longleftrightarrow> a = d + of_nat n"
    using assms unat_of_nat_u32 [of n]
    by (metis add_diff_cancel_left' diff_add_cancel add.commute u32_of_unat)
  then show "((blit m d n f)(d + of_nat n := f (of_nat n))) a = blit m d (Suc n) f a"
    by (auto simp: blit_def less_Suc_eq)
qed

lemma blit_outside: "n \<le> unat (a - d) \<Longrightarrow> blit m d n f a = m a"
  by (simp add: blit_def)

lemma blit_at: "i < n \<Longrightarrow> n \<le> 2 ^ 32 \<Longrightarrow> blit m d n f (d + of_nat i) = f (of_nat i)"
  by (simp add: blit_def unat_of_nat_u32)

lemma blit_cong: "(\<And>i. i < n \<Longrightarrow> f (of_nat i) = g (of_nat i)) \<Longrightarrow> blit m d n f = blit m d n g"
  by (auto simp: blit_def fun_eq_iff) (metis u32_of_unat)

lemma blit_append:
  assumes "n + k \<le> 2 ^ 32"
  shows "blit (blit m d n f) (d + of_nat n) k (\<lambda>i. f (of_nat n + i)) = blit m d (n + k) f"
  using assms
proof (induction k)
  case 0
  then show ?case by simp
next
  case (Suc k)
  then have "blit (blit m d n f) (d + of_nat n) (Suc k) (\<lambda>i. f (of_nat n + i)) =
      (blit m d (n + k) f)(d + of_nat (n + k) := f (of_nat (n + k)))"
    by (subst blit_Suc [symmetric]) (simp_all add: add.assoc)
  also have "\<dots> = blit m d (Suc (n + k)) f"
    using Suc.prems by (intro blit_Suc) simp
  finally show ?case by simp
qed

text \<open>Two runs of \<open>n\<close> and \<open>k\<close> bytes that share no address.\<close>

definition disjoint_runs :: "u32 \<Rightarrow> nat \<Rightarrow> u32 \<Rightarrow> nat \<Rightarrow> bool" where
  "disjoint_runs d n e k \<longleftrightarrow> n \<le> unat (e - d) \<and> k \<le> unat (d - e)"

lemma disjoint_runs_outside:
  assumes "disjoint_runs d n e k" and "i < k"
  shows "n \<le> unat (e + of_nat i - d)"
proof (cases "unat (e - d) + i < 2 ^ 32")
  case True
  then have "unat (e - d + of_nat i) = unat (e - d) + i"
    by (simp add: unat_word_ariths unat_of_nat_u32 take_bit_nat_eq_self unat_of_nat)
  then show ?thesis
    using assms by (simp add: disjoint_runs_def algebra_simps)
next
  case False
  have "unat (d - e) \<le> 2 ^ 32 - unat (e - d)"
    using unat_u32_lt [of d] by (auto simp: unat_sub_if_size word_size)
  then have False
    using assms False unfolding disjoint_runs_def by linarith
  then show ?thesis ..
qed

lemma disjoint_runs_sub:
  assumes "disjoint_runs d n e k" and "i + l \<le> k" and "i < k" and "n' \<le> n"
  shows "disjoint_runs d n' (e + of_nat i) l"
proof -
  have "unat (d - (e + of_nat i)) = unat (d - e) - i"
    using assms unat_u32_lt [of "d - e"] unfolding disjoint_runs_def
    by (subst diff_diff_eq [symmetric]) (auto simp: unat_sub_if_size word_size unat_of_nat_u32)
  then show ?thesis
    using assms disjoint_runs_outside [OF assms(1,3)] by (auto simp: disjoint_runs_def)
qed

section \<open>Arrays read as lists\<close>

lemma upt_Suc_insert:
  assumes "k \<le> n" and "\<And>i. i < k \<Longrightarrow> g i = f i" and "g k = c"
    and "\<And>i. k \<le> i \<Longrightarrow> i < n \<Longrightarrow> g (Suc i) = f i"
  shows "map g [0..<Suc n] = take k (map f [0..<n]) @ c # drop k (map f [0..<n])"
proof (rule nth_equalityI)
  fix i
  assume "i < length (map g [0..<Suc n])"
  then have i: "i < Suc n" by simp
  have r: "map g [0..<Suc n] ! i = g i" using i by (simp del: upt_Suc)
  consider "i < k" | "i = k" | j where "i = Suc j" "k \<le> j" by (metis less_Suc_eq_le linorder_cases not0_implies_Suc not_less_zero)
  then show "map g [0..<Suc n] ! i = (take k (map f [0..<n]) @ c # drop k (map f [0..<n])) ! i"
    unfolding r using assms i by cases (auto simp: nth_append Suc_diff_le)
qed (use assms in simp)

lemma upt_delete:
  assumes "k < n" and "\<And>i. i < k \<Longrightarrow> g i = f i" and "\<And>i. k \<le> i \<Longrightarrow> Suc i < n \<Longrightarrow> g i = f (Suc i)"
  shows "map g [0..<n - 1] = take k (map f [0..<n]) @ drop (Suc k) (map f [0..<n])"
  by (rule nth_equalityI) (use assms in \<open>auto simp: nth_append\<close>)

section \<open>Operations that keep an invariant\<close>

text \<open>
  A client that applies one operation for every element of a buffer keeps whatever each single
  application keeps.
\<close>

locale kept_by =
  fixes op :: "'a \<Rightarrow> 's \<Rightarrow> 's" and inv :: "'s \<Rightarrow> bool"
  assumes op_inv: "inv s \<Longrightarrow> inv (op x s)"
begin

lemma fold_inv: "inv s \<Longrightarrow> inv (fold op xs s)"
  by (induction xs arbitrary: s) (auto simp: op_inv)

end

text \<open>An operation that moreover refines an abstract one, so that a whole buffer does.\<close>

locale refined_by = kept_by op inv
  for op :: "'a \<Rightarrow> 's \<Rightarrow> 's" and inv :: "'s \<Rightarrow> bool" +
  fixes abs :: "'s \<Rightarrow> 't" and aop :: "'a \<Rightarrow> 't \<Rightarrow> 't"
  assumes op_abs: "inv s \<Longrightarrow> abs (op x s) = aop x (abs s)"
begin

lemma fold_abs: "inv s \<Longrightarrow> abs (fold op xs s) = fold aop xs (abs s)"
  by (induction xs arbitrary: s) (auto simp: op_inv op_abs)

end

text \<open>A transition system: states reachable from the initial ones satisfy a kept invariant.\<close>

locale transitions =
  fixes init :: "'s \<Rightarrow> bool" and step :: "'s \<Rightarrow> 's \<Rightarrow> bool" and inv :: "'s \<Rightarrow> bool"
  assumes inv_init: "init s \<Longrightarrow> inv s"
    and inv_step: "inv s \<Longrightarrow> step s t \<Longrightarrow> inv t"
begin

lemma inv_reachable: "init s \<Longrightarrow> step\<^sup>*\<^sup>* s t \<Longrightarrow> inv t"
  by (rotate_tac 1, induction rule: rtranclp_induct) (auto intro: inv_init inv_step)

end

text \<open>A transition system whose steps are steps of an abstract one, or stutter.\<close>

locale simulation = transitions init step inv
  for init :: "'s \<Rightarrow> bool" and step :: "'s \<Rightarrow> 's \<Rightarrow> bool" and inv :: "'s \<Rightarrow> bool" +
  fixes abs :: "'s \<Rightarrow> 't" and astep :: "'t \<Rightarrow> 't \<Rightarrow> bool"
  assumes sim_step: "inv s \<Longrightarrow> step s t \<Longrightarrow> abs t = abs s \<or> astep (abs s) (abs t)"
begin

lemma sim_reachable: "init s \<Longrightarrow> step\<^sup>*\<^sup>* s t \<Longrightarrow> astep\<^sup>*\<^sup>* (abs s) (abs t)"
proof (rotate_tac 1, induction rule: rtranclp_induct)
  case (step t u)
  then have "astep\<^sup>*\<^sup>* (abs s) (abs t)" and "abs u = abs t \<or> astep (abs t) (abs u)"
    using inv_reachable [of s t] sim_step by auto
  then show ?case by (metis rtranclp.rtrancl_into_rtrancl)
qed simp

end

section \<open>Sequential reads\<close>

text \<open>
  A client that reads a file in consecutive chunks, advancing its position by what each call
  delivered, as every program that loops over the \<open>read\<close> system call does.
\<close>

fun read_seq ::
  "('s \<Rightarrow> nat \<Rightarrow> nat \<Rightarrow> 'a list \<times> 's) \<Rightarrow> nat list \<Rightarrow> nat \<Rightarrow> 's \<Rightarrow> 'a list \<times> 's" where
  "read_seq rd [] offset s = ([], s)"
| "read_seq rd (len # lens) offset s =
     (let (xs, s) = rd s offset len; (ys, s) = read_seq rd lens (offset + length xs) s in (xs @ ys, s))"

locale sequential_reader =
  fixes rd :: "'s \<Rightarrow> nat \<Rightarrow> nat \<Rightarrow> 'a list \<times> 's" and inv :: "'s \<Rightarrow> bool"
    and contents :: "'s \<Rightarrow> 'a list" and cap :: nat
  assumes rd_chunk: "inv s \<Longrightarrow> len \<le> cap \<Longrightarrow> offset \<le> length (contents s) \<Longrightarrow>
      fst (rd s offset len) = take len (drop offset (contents s))"
    and rd_inv: "inv s \<Longrightarrow> len \<le> cap \<Longrightarrow> offset \<le> length (contents s) \<Longrightarrow> inv (snd (rd s offset len))"
    and rd_contents: "inv s \<Longrightarrow> len \<le> cap \<Longrightarrow> offset \<le> length (contents s) \<Longrightarrow>
      contents (snd (rd s offset len)) = contents s"
begin

lemma read_seq_eq:
  assumes "inv s" and "\<forall>len\<in>set lens. len \<le> cap" and "offset \<le> length (contents s)"
  shows "fst (read_seq rd lens offset s) = take (sum_list lens) (drop offset (contents s))"
  using assms
proof (induction lens arbitrary: offset s)
  case Nil
  then show ?case by simp
next
  case (Cons len lens)
  obtain xs t where xt: "rd s offset len = (xs, t)" by (cases "rd s offset len")
  have xs: "xs = take len (drop offset (contents s))" and t: "inv t" "contents t = contents s"
    using rd_chunk [of s len offset] rd_inv [of s len offset] rd_contents [of s len offset]
      Cons.prems xt by auto
  have "fst (read_seq rd lens (offset + length xs) t) =
      take (sum_list lens) (drop (offset + length xs) (contents s))"
    using Cons.IH [of t "offset + length xs"] Cons.prems t xs by auto
  moreover have "take (len + sum_list lens) (drop offset (contents s)) =
      xs @ take (sum_list lens) (drop (offset + length xs) (contents s))"
    using xs by (cases "len \<le> length (contents s) - offset") (auto simp: take_add add.commute)
  ultimately show ?case
    by (simp add: xt case_prod_beta)
qed

end

end
