(* ===== verification/Machine.thy ===== *)
theory Machine
  imports Prelude
begin

text \<open>
  The part of the machine the C code touches directly: byte memory, the interrupt flag and the I/O
  ports. \<open>inb\<close>, \<open>outb\<close>, \<open>cli\<close> and \<open>sti\<close> are the inline functions and macros of
  \<open>student-distrib/lib.h\<close>. Port traffic is recorded in order; what a device answers is a function
  of the traffic so far and of the port, and is an argument of every operation that reads a port.
\<close>

datatype io_event = Out u16 u8 | In u16 u8

type_synonym device = "io_event list \<Rightarrow> u16 \<Rightarrow> u8"

record machine =
  mem :: memory
  io :: "io_event list"
  interrupts_on :: bool

definition outb :: "u8 \<Rightarrow> u16 \<Rightarrow> 'a machine_scheme \<Rightarrow> 'a machine_scheme" where
  "outb data port s = s\<lparr>io := io s @ [Out port data]\<rparr>"

definition inb :: "device \<Rightarrow> u16 \<Rightarrow> 'a machine_scheme \<Rightarrow> u8 \<times> 'a machine_scheme" where
  "inb dev port s = (let v = dev (io s) port in (v, s\<lparr>io := io s @ [In port v]\<rparr>))"

definition cli :: "'a machine_scheme \<Rightarrow> 'a machine_scheme" where
  "cli s = s\<lparr>interrupts_on := False\<rparr>"

definition sti :: "'a machine_scheme \<Rightarrow> 'a machine_scheme" where
  "sti s = s\<lparr>interrupts_on := True\<rparr>"

text \<open>
  A busy-wait on a \<open>volatile\<close> variable. What runs between two tests is an interrupt handler; the
  handlers that come in are given as a list, one for each round. \<^const>\<open>None\<close> says that the loop is
  still spinning after the last of them.
\<close>

fun spin_while :: "('s \<Rightarrow> bool) \<Rightarrow> ('s \<Rightarrow> 's) list \<Rightarrow> 's \<Rightarrow> 's option" where
  "spin_while waiting [] s = (if waiting s then None else Some s)"
| "spin_while waiting (h # hs) s = (if waiting s then spin_while waiting hs (h s) else Some s)"

fun run_all :: "('s \<Rightarrow> 's) list \<Rightarrow> 's \<Rightarrow> 's" where
  "run_all [] s = s"
| "run_all (h # hs) s = run_all hs (h s)"

lemma run_all_append [simp]: "run_all (hs @ ks) s = run_all ks (run_all hs s)"
  by (induction hs arbitrary: s) auto

lemma spin_while_Some: "spin_while waiting hs s = Some t \<Longrightarrow> \<not> waiting t \<and> (\<exists>n \<le> length hs. t = run_all (take n hs) s)"
proof (induction hs arbitrary: s)
  case Nil
  then show ?case by (auto split: if_splits)
next
  case (Cons h hs)
  show ?case
  proof (cases "waiting s")
    case True
    then obtain n where "n \<le> length hs" "t = run_all (take n hs) (h s)" "\<not> waiting t"
      using Cons by auto
    then show ?thesis by (auto intro!: exI [of _ "Suc n"])
  next
    case False
    then show ?thesis using Cons.prems by (auto intro!: exI [of _ 0])
  qed
qed

lemma spin_while_ends:
  assumes "\<exists>n \<le> length hs. \<not> waiting (run_all (take n hs) s)"
  shows "\<exists>t. spin_while waiting hs s = Some t"
  using assms
proof (induction hs arbitrary: s)
  case Nil
  then show ?case by auto
next
  case (Cons h hs)
  then obtain n where n: "n \<le> length (h # hs)" "\<not> waiting (run_all (take n (h # hs)) s)" by auto
  then show ?case using Cons.IH [of "h s"] by (cases n) auto
qed

text \<open>The bytes written to one port, in order.\<close>

fun written_to :: "u16 \<Rightarrow> io_event list \<Rightarrow> u8 list" where
  "written_to p [] = []"
| "written_to p (Out q v # es) = (if p = q then v # written_to p es else written_to p es)"
| "written_to p (In q v # es) = written_to p es"

lemma written_to_append [simp]: "written_to p (es @ fs) = written_to p es @ written_to p fs"
  by (induction p es rule: written_to.induct) auto

lemma machine_io_simps [simp]:
  "mem (outb d p s) = mem s" "io (outb d p s) = io s @ [Out p d]"
  "mem (cli s) = mem s" "io (cli s) = io s" "mem (sti s) = mem s" "io (sti s) = io s"
  "interrupts_on (outb d p s) = interrupts_on s" "interrupts_on (cli s) = False"
  "interrupts_on (sti s) = True"
  by (simp_all add: outb_def cli_def sti_def)

end
