(* ===== verification/Lib_Memory.thy ===== *)
theory Lib_Memory
  imports Prelude
begin

text \<open>
  The memory half of \<open>student-distrib/lib.c\<close>: \<open>memset\<close>, \<open>memset_word\<close>, \<open>memset_dword\<close>,
  \<open>memcpy\<close> and \<open>memmove\<close>, whose bodies are inline assembly. Each definition follows the labels
  and the string instructions of that assembly, with the registers as arguments; the lemmas show
  that the alignment loop, the four-byte main loop and the tail together write the run of bytes
  the C interface promises.
\<close>

section \<open>The routines\<close>

text \<open>\<open>rep movsl\<close> and \<open>rep stosl\<close> with the direction flag clear.\<close>

function rep_movsl :: "memory \<Rightarrow> u32 \<Rightarrow> u32 \<Rightarrow> u32 \<Rightarrow> memory \<times> u32 \<times> u32" where
  "rep_movsl m edi esi ecx =
     (if ecx = 0 then (m, edi, esi)
      else rep_movsl (store32 m edi (load32 m esi)) (edi + 4) (esi + 4) (ecx - 1))"
  by pat_completeness auto
termination
  by (relation "measure (\<lambda>(m, edi, esi, ecx). unat ecx)") (auto simp: unat_minus_one unat_gt_0)

function memcpy_bottom :: "memory \<Rightarrow> u32 \<Rightarrow> u32 \<Rightarrow> u32 \<Rightarrow> memory" where
  "memcpy_bottom m edi esi edx =
     (if edx = 0 then m else memcpy_bottom (m(edi := m esi)) (edi + 1) (esi + 1) (edx - 1))"
  by pat_completeness auto
termination
  by (relation "measure (\<lambda>(m, edi, esi, edx). unat edx)") (auto simp: unat_minus_one unat_gt_0)

definition memcpy_aligned :: "memory \<Rightarrow> u32 \<Rightarrow> u32 \<Rightarrow> u32 \<Rightarrow> memory" where
  "memcpy_aligned m edi esi ecx =
     (let (m1, edi1, esi1) = rep_movsl m edi esi (drop_bit 2 ecx)
      in memcpy_bottom m1 edi1 esi1 (ecx AND 3))"

function memcpy_top :: "memory \<Rightarrow> u32 \<Rightarrow> u32 \<Rightarrow> u32 \<Rightarrow> memory" where
  "memcpy_top m edi esi ecx =
     (if ecx = 0 then m
      else if edi AND 3 = 0 then memcpy_aligned m edi esi ecx
      else memcpy_top (m(edi := m esi)) (edi + 1) (esi + 1) (ecx - 1))"
  by pat_completeness auto
termination
  by (relation "measure (\<lambda>(m, edi, esi, ecx). unat ecx)") (auto simp: unat_minus_one unat_gt_0)

definition memcpy :: "memory \<Rightarrow> u32 \<Rightarrow> u32 \<Rightarrow> u32 \<Rightarrow> memory" where
  "memcpy m dest src n = memcpy_top m dest src n"

function rep_stosl :: "memory \<Rightarrow> u32 \<Rightarrow> u32 \<Rightarrow> u32 \<Rightarrow> memory \<times> u32" where
  "rep_stosl m edi eax ecx =
     (if ecx = 0 then (m, edi) else rep_stosl (store32 m edi eax) (edi + 4) eax (ecx - 1))"
  by pat_completeness auto
termination
  by (relation "measure (\<lambda>(m, edi, eax, ecx). unat ecx)") (auto simp: unat_minus_one unat_gt_0)

function memset_bottom :: "memory \<Rightarrow> u32 \<Rightarrow> u8 \<Rightarrow> u32 \<Rightarrow> memory" where
  "memset_bottom m edi al edx =
     (if edx = 0 then m else memset_bottom (m(edi := al)) (edi + 1) al (edx - 1))"
  by pat_completeness auto
termination
  by (relation "measure (\<lambda>(m, edi, al, edx). unat edx)") (auto simp: unat_minus_one unat_gt_0)

definition memset_aligned :: "memory \<Rightarrow> u32 \<Rightarrow> u32 \<Rightarrow> u32 \<Rightarrow> memory" where
  "memset_aligned m edi eax ecx =
     (let (m1, edi1) = rep_stosl m edi eax (drop_bit 2 ecx)
      in memset_bottom m1 edi1 (ucast eax) (ecx AND 3))"

function memset_top :: "memory \<Rightarrow> u32 \<Rightarrow> u32 \<Rightarrow> u32 \<Rightarrow> memory" where
  "memset_top m edi eax ecx =
     (if ecx = 0 then m
      else if edi AND 3 = 0 then memset_aligned m edi eax ecx
      else memset_top (m(edi := ucast eax)) (edi + 1) eax (ecx - 1))"
  by pat_completeness auto
termination
  by (relation "measure (\<lambda>(m, edi, eax, ecx). unat ecx)") (auto simp: unat_minus_one unat_gt_0)

definition memset :: "memory \<Rightarrow> u32 \<Rightarrow> i32 \<Rightarrow> u32 \<Rightarrow> memory" where
  "memset m s c n =
     (let c1 = c AND 0xFF
      in memset_top m s (push_bit 24 c1 OR push_bit 16 c1 OR push_bit 8 c1 OR c1) n)"

definition memset_dword :: "memory \<Rightarrow> u32 \<Rightarrow> i32 \<Rightarrow> u32 \<Rightarrow> memory" where
  "memset_dword m s c n = fst (rep_stosl m s c n)"

function rep_stosw :: "memory \<Rightarrow> u32 \<Rightarrow> u32 \<Rightarrow> u32 \<Rightarrow> memory" where
  "rep_stosw m edi eax ecx =
     (if ecx = 0 then m
      else rep_stosw (m(edi := ucast eax, edi + 1 := ucast (drop_bit 8 eax))) (edi + 2) eax (ecx - 1))"
  by pat_completeness auto
termination
  by (relation "measure (\<lambda>(m, edi, eax, ecx). unat ecx)") (auto simp: unat_minus_one unat_gt_0)

definition memset_word :: "memory \<Rightarrow> u32 \<Rightarrow> i32 \<Rightarrow> u32 \<Rightarrow> memory" where
  "memset_word m s c n = rep_stosw m s c n"

text \<open>\<open>rep movsb\<close>; \<open>df\<close> is the direction flag.\<close>

function rep_movsb :: "bool \<Rightarrow> memory \<Rightarrow> u32 \<Rightarrow> u32 \<Rightarrow> u32 \<Rightarrow> memory" where
  "rep_movsb df m edi esi ecx =
     (if ecx = 0 then m
      else rep_movsb df (m(edi := m esi)) (if df then edi - 1 else edi + 1)
             (if df then esi - 1 else esi + 1) (ecx - 1))"
  by pat_completeness auto
termination
  by (relation "measure (\<lambda>(df, m, edi, esi, ecx). unat ecx)") (auto simp: unat_minus_one unat_gt_0)

text \<open>
  \<open>memmove\<close>: \<open>cld\<close>, then the backward direction when the source is below the destination. The
  second component is the direction flag the routine leaves behind.
\<close>

definition memmove :: "memory \<Rightarrow> u32 \<Rightarrow> u32 \<Rightarrow> u32 \<Rightarrow> memory \<times> bool" where
  "memmove m dest src n =
     (if dest \<le> src then (rep_movsb False m dest src n, False)
      else (rep_movsb True m (dest + n - 1) (src + n - 1) n, True))"

declare rep_movsl.simps [simp del] memcpy_bottom.simps [simp del] memcpy_top.simps [simp del]
  rep_stosl.simps [simp del] memset_bottom.simps [simp del] memset_top.simps [simp del]
  rep_stosw.simps [simp del] rep_movsb.simps [simp del]

section \<open>Four bytes at a time\<close>

lemma byte_of_load32:
  "ucast (load32 m a) = m a"
  "ucast (drop_bit 8 (load32 m a)) = m (a + 1)"
  "ucast (drop_bit 16 (load32 m a)) = m (a + 2)"
  "ucast (drop_bit 24 (load32 m a)) = m (a + 3)"
  unfolding load32_def by (rule bit_word_eqI; auto simp: bit_simps dest: bit_imp_le_length)+

lemma load32_store32: "load32 (store32 m a v) a = v"
proof (rule bit_word_eqI)
  fix n :: nat
  assume "n < LENGTH(32)"
  then consider "n < 8" | "8 \<le> n" "n < 16" | "16 \<le> n" "n < 24" | "24 \<le> n" "n < 32"
    by fastforce
  then show "bit (load32 (store32 m a v) a) n = bit v n"
    unfolding load32_def store32_def by cases (auto simp: bit_simps)
qed

lemma copy32_eq:
  "store32 m d (load32 m s) = m(d := m s, d + 1 := m (s + 1), d + 2 := m (s + 2), d + 3 := m (s + 3))"
  by (simp add: store32_def byte_of_load32)

section \<open>Forward copies\<close>

text \<open>One more byte of a copy between disjoint runs.\<close>

lemma blit_copy_byte:
  assumes "disjoint_runs d n s n" and "k < n" and "n \<le> 2 ^ 32"
  shows "(blit m d k (ptr m s))(d + of_nat k := blit m d k (ptr m s) (s + of_nat k)) =
     blit m d (Suc k) (ptr m s)"
proof -
  have "blit m d k (ptr m s) (s + of_nat k) = ptr m s (of_nat k)"
    using disjoint_runs_outside [OF assms(1,2)] assms(2) by (simp add: blit_outside ptr_def)
  then show ?thesis using blit_Suc [of k m d "ptr m s"] assms(2,3) by simp
qed

lemma blit_copy_dword:
  assumes dis: "disjoint_runs d n s n" and i: "i + 4 \<le> n" and n: "n \<le> 2 ^ 32"
  shows "store32 (blit m d i (ptr m s)) (d + of_nat i) (load32 (blit m d i (ptr m s)) (s + of_nat i))
     = blit m d (i + 4) (ptr m s)"
proof -
  let ?B = "\<lambda>k. blit m d k (ptr m s)"
  have src: "?B i (s + of_nat (i + j)) = ptr m s (of_nat (i + j))" if "j < 4" for j
    using disjoint_runs_outside [OF dis, of "i + j"] that i
    by (simp add: blit_outside ptr_def del: of_nat_add)
  have step: "(?B (i + j))(d + of_nat (i + j) := ptr m s (of_nat (i + j))) = ?B (Suc (i + j))"
    if "j < 4" for j
    using that i n by (intro blit_Suc) simp
  have "store32 (?B i) (d + of_nat i) (load32 (?B i) (s + of_nat i)) =
      (?B i)(d + of_nat (i + 0) := ptr m s (of_nat (i + 0)), d + of_nat (i + 1) := ptr m s (of_nat (i + 1)),
        d + of_nat (i + 2) := ptr m s (of_nat (i + 2)), d + of_nat (i + 3) := ptr m s (of_nat (i + 3)))"
    using src [of 0] src [of 1] src [of 2] src [of 3]
    by (simp add: copy32_eq ac_simps)
  also have "\<dots> = ?B (i + 4)"
    using step [of 0] step [of 1] step [of 2] step [of 3] by (simp add: numeral_eq_Suc)
  finally show ?thesis .
qed

lemma rep_movsl_from:
  assumes dis: "disjoint_runs d n s n" and n: "n \<le> 2 ^ 32" and "i + 4 * unat c \<le> n"
  shows "rep_movsl (blit m d i (ptr m s)) (d + of_nat i) (s + of_nat i) c =
     (blit m d (i + 4 * unat c) (ptr m s), d + of_nat (i + 4 * unat c), s + of_nat (i + 4 * unat c))"
  using assms(3)
proof (induction "unat c" arbitrary: c i)
  case 0
  then show ?case by (subst rep_movsl.simps) (simp add: unat_0_iff)
next
  case (Suc k)
  note c = unat_eq_Suc_dec [OF Suc.hyps(2) [symmetric]]
  have "rep_movsl (blit m d (i + 4) (ptr m s)) (d + of_nat (i + 4)) (s + of_nat (i + 4)) (c - 1) =
     (blit m d (i + 4 * unat c) (ptr m s), d + of_nat (i + 4 * unat c), s + of_nat (i + 4 * unat c))"
    using Suc.hyps(1) [of "c - 1" "i + 4"] c Suc.prems Suc.hyps(2) [symmetric] by (simp add: ac_simps)
  then show ?case
    using c(1) blit_copy_dword [OF dis _ n, of i m] Suc.prems Suc.hyps(2)
    by (subst rep_movsl.simps) (simp add: ac_simps)
qed

lemma memcpy_bottom_from:
  assumes dis: "disjoint_runs d n s n" and n: "n \<le> 2 ^ 32" and "i + unat e = n"
  shows "memcpy_bottom (blit m d i (ptr m s)) (d + of_nat i) (s + of_nat i) e = blit m d n (ptr m s)"
  using assms(3)
proof (induction "unat e" arbitrary: e i)
  case 0
  then show ?case by (subst memcpy_bottom.simps) (simp add: unat_0_iff)
next
  case (Suc k)
  note e = unat_eq_Suc_dec [OF Suc.hyps(2) [symmetric]]
  have i: "i < n" using Suc by simp
  have "memcpy_bottom (blit m d (Suc i) (ptr m s)) (d + of_nat (Suc i)) (s + of_nat (Suc i)) (e - 1)
      = blit m d n (ptr m s)"
    using Suc.hyps(1) [of "e - 1" "Suc i"] e Suc.prems Suc.hyps(2) [symmetric] by simp
  then show ?case
    using e(1) blit_copy_byte [OF dis i n, of m]
    by (subst memcpy_bottom.simps) (simp add: ac_simps)
qed

lemma and_3_plus_4_div: "4 * unat (drop_bit 2 (w :: u32)) + unat (w AND 3) = unat w"
proof -
  have "unat (w AND 3) = unat w mod 4"
    using take_bit_eq_mod [of 2 "unat w"] take_bit_eq_mask [of 2 "unat w"]
    by (simp add: unsigned_and_eq mask_eq_exp_minus_1)
  then show ?thesis by (simp add: drop_bit_eq_div unat_div_distrib)
qed

lemma memcpy_aligned_from:
  assumes "disjoint_runs d n s n" and "n \<le> 2 ^ 32" and "i + unat c = n"
  shows "memcpy_aligned (blit m d i (ptr m s)) (d + of_nat i) (s + of_nat i) c = blit m d n (ptr m s)"
proof -
  have "i + 4 * unat (drop_bit 2 c) \<le> n" and "i + 4 * unat (drop_bit 2 c) + unat (c AND 3) = n"
    using and_3_plus_4_div [of c] assms(3) by auto
  then show ?thesis
    using rep_movsl_from [OF assms(1,2), of i "drop_bit 2 c" m]
      memcpy_bottom_from [OF assms(1,2), of "i + 4 * unat (drop_bit 2 c)" "c AND 3" m]
    by (simp add: memcpy_aligned_def)
qed

lemma memcpy_top_from:
  assumes dis: "disjoint_runs d n s n" and n: "n \<le> 2 ^ 32" and "i + unat c = n"
  shows "memcpy_top (blit m d i (ptr m s)) (d + of_nat i) (s + of_nat i) c = blit m d n (ptr m s)"
  using assms(3)
proof (induction "unat c" arbitrary: c i)
  case 0
  then show ?case by (subst memcpy_top.simps) (simp add: unat_0_iff)
next
  case (Suc k)
  note c = unat_eq_Suc_dec [OF Suc.hyps(2) [symmetric]]
  have i: "i < n" using Suc by simp
  have "memcpy_top (blit m d (Suc i) (ptr m s)) (d + of_nat (Suc i)) (s + of_nat (Suc i)) (c - 1)
      = blit m d n (ptr m s)"
    using Suc.hyps(1) [of "c - 1" "Suc i"] c Suc.prems Suc.hyps(2) [symmetric] by simp
  then show ?case
    using c(1) blit_copy_byte [OF dis i n, of m] memcpy_aligned_from [OF dis n Suc.prems, of m]
    by (subst memcpy_top.simps) (simp add: ac_simps)
qed

text \<open>
  The assembly \<open>memcpy\<close> copies exactly the \<open>n\<close> bytes, whatever the alignment of the destination
  and whatever \<open>n\<close> is modulo 4.
\<close>

lemma memcpy_eq:
  assumes "disjoint_runs dest (unat n) src (unat n)"
  shows "memcpy m dest src n = blit m dest (unat n) (ptr m src)"
  using memcpy_top_from [OF assms, of 0 n m] unat_u32_lt [of n] by (simp add: memcpy_def)

section \<open>Fills\<close>

lemma blit_fill_dword:
  assumes "i + 4 \<le> 2 ^ 32" and "f (of_nat i) = ucast v" and "f (of_nat (i + 1)) = ucast (drop_bit 8 v)"
    and "f (of_nat (i + 2)) = ucast (drop_bit 16 v)" and "f (of_nat (i + 3)) = ucast (drop_bit 24 v)"
  shows "store32 (blit m d i f) (d + of_nat i) v = blit m d (i + 4) f"
proof -
  have step: "(blit m d (i + j) f)(d + of_nat (i + j) := f (of_nat (i + j))) = blit m d (Suc (i + j)) f"
    if "j < 4" for j
    using that assms(1) by (intro blit_Suc) simp
  show ?thesis
    using step [of 0] step [of 1] step [of 2] step [of 3] assms(2-5)
    by (simp add: store32_def numeral_eq_Suc ac_simps)
qed

lemma rep_stosl_from:
  assumes "i + 4 * unat c \<le> 2 ^ 32"
    and "\<And>j. j < 2 ^ 32 \<Longrightarrow> f (of_nat j) = ucast (drop_bit (8 * (j mod 4)) v)" and "i mod 4 = 0"
  shows "rep_stosl (blit m d i f) (d + of_nat i) v c =
     (blit m d (i + 4 * unat c) f, d + of_nat (i + 4 * unat c))"
  using assms(1,3)
proof (induction "unat c" arbitrary: c i)
  case 0
  then show ?case by (subst rep_stosl.simps) (simp add: unat_0_iff)
next
  case (Suc k)
  note c = unat_eq_Suc_dec [OF Suc.hyps(2) [symmetric]]
  have i: "i + 4 \<le> 2 ^ 32" using Suc.prems Suc.hyps(2) by simp
  have "rep_stosl (blit m d (i + 4) f) (d + of_nat (i + 4)) v (c - 1) =
     (blit m d (i + 4 * unat c) f, d + of_nat (i + 4 * unat c))"
    using Suc.hyps(1) [of "c - 1" "i + 4"] c Suc.prems Suc.hyps(2) [symmetric] by (simp add: ac_simps)
  moreover have "(i + 1) mod 4 = 1" and "(i + 2) mod 4 = 2" and "(i + 3) mod 4 = 3"
    using Suc.prems(2) by presburger+
  then have "store32 (blit m d i f) (d + of_nat i) v = blit m d (i + 4) f"
    using i assms(2) [of i] assms(2) [of "i + 1"] assms(2) [of "i + 2"] assms(2) [of "i + 3"] Suc.prems(2)
    by (intro blit_fill_dword) (simp_all del: of_nat_add add_Suc_right)
  ultimately show ?case
    using c(1) by (subst rep_stosl.simps) (simp add: ac_simps)
qed

lemma memset_bottom_from:
  assumes "i + unat e \<le> 2 ^ 32"
  shows "memset_bottom (blit m d i (\<lambda>_. al)) (d + of_nat i) al e = blit m d (i + unat e) (\<lambda>_. al)"
  using assms
proof (induction "unat e" arbitrary: e i)
  case 0
  then show ?case by (subst memset_bottom.simps) (simp add: unat_0_iff)
next
  case (Suc k)
  note e = unat_eq_Suc_dec [OF Suc.hyps(2) [symmetric]]
  have "memset_bottom (blit m d (Suc i) (\<lambda>_. al)) (d + of_nat (Suc i)) al (e - 1) =
      blit m d (i + unat e) (\<lambda>_. al)"
    using Suc.hyps(1) [of "e - 1" "Suc i"] e Suc.prems Suc.hyps(2) [symmetric] by simp
  then show ?case
    using e(1) blit_Suc [of i m d "\<lambda>_. al"] Suc.prems Suc.hyps(2)
    by (subst memset_bottom.simps) (simp add: ac_simps)
qed

text \<open>A 32-bit word whose four bytes are equal.\<close>

definition splat :: "u8 \<Rightarrow> u32" where
  "splat c = push_bit 24 (ucast c) OR push_bit 16 (ucast c) OR push_bit 8 (ucast c) OR ucast c"

lemma splat_byte: "k < 4 \<Longrightarrow> ucast (drop_bit (8 * k) (splat c)) = c"
proof -
  have "ucast (splat c) = c" "ucast (drop_bit 8 (splat c)) = c" "ucast (drop_bit 16 (splat c)) = c"
    "ucast (drop_bit 24 (splat c)) = c"
    unfolding splat_def by (rule bit_word_eqI; auto simp: bit_simps dest: bit_imp_le_length)+
  moreover assume "k < 4"
  then have "k = 0 \<or> k = 1 \<or> k = 2 \<or> k = 3" by auto
  ultimately show ?thesis by auto
qed

lemma memset_aligned_eq:
  "memset_aligned m d (splat c) n = blit m d (unat n) (\<lambda>_. c)"
proof -
  have n: "4 * unat (drop_bit 2 n) + unat (n AND 3) = unat n" by (rule and_3_plus_4_div)
  then have "rep_stosl (blit m d 0 (\<lambda>_. c)) (d + of_nat 0) (splat c) (drop_bit 2 n) =
     (blit m d (0 + 4 * unat (drop_bit 2 n)) (\<lambda>_. c), d + of_nat (0 + 4 * unat (drop_bit 2 n)))"
    using unat_u32_lt [of n] by (intro rep_stosl_from) (auto simp: splat_byte)
  moreover have "memset_bottom (blit m d (4 * unat (drop_bit 2 n)) (\<lambda>_. c))
      (d + of_nat (4 * unat (drop_bit 2 n))) c (n AND 3) = blit m d (unat n) (\<lambda>_. c)"
    using memset_bottom_from [of "4 * unat (drop_bit 2 n)" "n AND 3" m d c] n unat_u32_lt [of n]
    by simp
  ultimately show ?thesis
    using splat_byte [of 0 c] by (simp add: memset_aligned_def)
qed

lemma memset_top_from:
  assumes "i + unat c \<le> 2 ^ 32"
  shows "memset_top (blit m d i (\<lambda>_. x)) (d + of_nat i) (splat x) c = blit m d (i + unat c) (\<lambda>_. x)"
  using assms
proof (induction "unat c" arbitrary: c i)
  case 0
  then show ?case by (subst memset_top.simps) (simp add: unat_0_iff)
next
  case (Suc k)
  note c = unat_eq_Suc_dec [OF Suc.hyps(2) [symmetric]]
  have "memset_top (blit m d (Suc i) (\<lambda>_. x)) (d + of_nat (Suc i)) (splat x) (c - 1) =
      blit m d (i + unat c) (\<lambda>_. x)"
    using Suc.hyps(1) [of "c - 1" "Suc i"] c Suc.prems Suc.hyps(2) [symmetric] by simp
  then show ?case
    using c(1) blit_Suc [of i m d "\<lambda>_. x"] blit_append [OF Suc.prems, of m d "\<lambda>_. x"] Suc.prems
      Suc.hyps(2) splat_byte [of 0 x]
    by (subst memset_top.simps) (simp add: memset_aligned_eq ac_simps)
qed

lemma memset_eq: "memset m s c n = blit m s (unat n) (\<lambda>_. ucast c)"
proof -
  have "push_bit 24 (c AND 0xFF) OR push_bit 16 (c AND 0xFF) OR push_bit 8 (c AND 0xFF) OR (c AND 0xFF)
      = splat (ucast c)"
  proof -
    have "c AND 0xFF = ucast (ucast c :: u8)"
      by (rule bit_word_eqI) (auto simp: bit_simps bit_numeral_rec numeral_eq_Suc less_Suc_eq)
    then show ?thesis by (simp add: splat_def)
  qed
  then show ?thesis
    using memset_top_from [of 0 n m s "ucast c"] unat_u32_lt [of n] by (simp add: memset_def)
qed

lemma memset_dword_eq:
  assumes "4 * unat n \<le> 2 ^ 32"
  shows "memset_dword m s c n = blit m s (4 * unat n) (\<lambda>i. ucast (drop_bit (8 * (unat i mod 4)) c))"
  using rep_stosl_from [of 0 n "\<lambda>i. ucast (drop_bit (8 * (unat i mod 4)) c)" c m s] assms
  by (simp add: memset_dword_def unat_of_nat_u32)

lemma blit_fill_word:
  assumes "i + 2 \<le> 2 ^ 32" and "f (of_nat i) = ucast v" and "f (of_nat (i + 1)) = ucast (drop_bit 8 v)"
  shows "(blit m d i f)(d + of_nat i := ucast v, d + of_nat i + 1 := ucast (drop_bit 8 v)) =
     blit m d (i + 2) f"
proof -
  have "(blit m d (i + j) f)(d + of_nat (i + j) := f (of_nat (i + j))) = blit m d (Suc (i + j)) f"
    if "j < 2" for j
    using that assms(1) by (intro blit_Suc) simp
  from this [of 0] this [of 1] show ?thesis
    using assms(2,3) by (simp add: numeral_eq_Suc ac_simps)
qed

lemma rep_stosw_from:
  assumes "i + 2 * unat c \<le> 2 ^ 32"
    and "\<And>j. j < 2 ^ 32 \<Longrightarrow> f (of_nat j) = ucast (drop_bit (8 * (j mod 2)) v)" and "i mod 2 = 0"
  shows "rep_stosw (blit m d i f) (d + of_nat i) v c = blit m d (i + 2 * unat c) f"
  using assms(1,3)
proof (induction "unat c" arbitrary: c i)
  case 0
  then show ?case by (subst rep_stosw.simps) (simp add: unat_0_iff)
next
  case (Suc k)
  note c = unat_eq_Suc_dec [OF Suc.hyps(2) [symmetric]]
  have i: "i + 2 \<le> 2 ^ 32" using Suc.prems Suc.hyps(2) by simp
  have "rep_stosw (blit m d (i + 2) f) (d + of_nat (i + 2)) v (c - 1) = blit m d (i + 2 * unat c) f"
    using Suc.hyps(1) [of "c - 1" "i + 2"] c Suc.prems Suc.hyps(2) [symmetric] by (simp add: ac_simps)
  moreover have "(i + 1) mod 2 = 1" using Suc.prems(2) by presburger
  then have "(blit m d i f)(d + of_nat i := ucast v, d + of_nat i + 1 := ucast (drop_bit 8 v)) =
      blit m d (i + 2) f"
    using i assms(2) [of i] assms(2) [of "i + 1"] Suc.prems(2)
    by (intro blit_fill_word) (simp_all del: of_nat_add add_Suc_right)
  ultimately show ?case
    using c(1) by (subst rep_stosw.simps) (simp add: ac_simps)
qed

lemma memset_word_eq:
  assumes "2 * unat n \<le> 2 ^ 32"
  shows "memset_word m s c n = blit m s (2 * unat n) (\<lambda>i. ucast (drop_bit (8 * (unat i mod 2)) c))"
  using rep_stosw_from [of 0 n "\<lambda>i. ucast (drop_bit (8 * (unat i mod 2)) c)" c m s] assms
  by (simp add: memset_word_def unat_of_nat_u32)

section \<open>Moves between overlapping runs\<close>

text \<open>
  A forward byte copy is right when the destination is not above the source, a backward one when
  it is; neither run may wrap around the end of the address space.
\<close>

lemma u32_run_less:
  assumes "unat (d :: u32) + n \<le> 2 ^ 32" and "i < n"
  shows "unat (d + of_nat i) = unat d + i"
  using assms by (subst unat_add_lem [THEN iffD1]) (auto simp: unat_of_nat_u32)

lemma unat_diff_run:
  assumes "unat d \<le> unat a"
  shows "unat (a - d) = unat a - unat d"
  using assms by (simp add: unat_sub_if_size)

lemma movsb_forward_from:
  assumes d: "unat d + n \<le> 2 ^ 32" and s: "unat s + n \<le> 2 ^ 32" and le: "unat d \<le> unat s"
    and "i + unat c = n"
  shows "rep_movsb False (blit m d i (ptr m s)) (d + of_nat i) (s + of_nat i) c = blit m d n (ptr m s)"
  using assms(4)
proof (induction "unat c" arbitrary: c i)
  case 0
  then show ?case by (subst rep_movsb.simps) (simp add: unat_0_iff)
next
  case (Suc k)
  note c = unat_eq_Suc_dec [OF Suc.hyps(2) [symmetric]]
  have i: "i < n" using Suc by simp
  have si: "unat (s + of_nat i) = unat s + i" using u32_run_less [OF s i] .
  then have "unat (s + of_nat i - d) = unat s + i - unat d"
    using le by (subst unat_diff_run) auto
  then have src: "blit m d i (ptr m s) (s + of_nat i) = ptr m s (of_nat i)"
    using le by (simp add: blit_outside ptr_def)
  have "rep_movsb False (blit m d (Suc i) (ptr m s)) (d + of_nat (Suc i)) (s + of_nat (Suc i)) (c - 1)
      = blit m d n (ptr m s)"
    using Suc.hyps(1) [of "c - 1" "Suc i"] c Suc.prems Suc.hyps(2) [symmetric] by simp
  then show ?case
    using c(1) src blit_Suc [of i m d "ptr m s"] i d
    by (subst rep_movsb.simps) (simp add: ac_simps)
qed

text \<open>The memory when the last bytes, from index \<open>c\<close> on, are already copied.\<close>

definition blit_tail :: "memory \<Rightarrow> u32 \<Rightarrow> nat \<Rightarrow> nat \<Rightarrow> (u32 \<Rightarrow> u8) \<Rightarrow> memory" where
  "blit_tail m d c n f = (\<lambda>a. if c \<le> unat (a - d) \<and> unat (a - d) < n then f (a - d) else m a)"

lemma blit_tail_step:
  assumes "c < n" and "n \<le> 2 ^ 32"
  shows "(blit_tail m d (Suc c) n f)(d + of_nat c := f (of_nat c)) = blit_tail m d c n f"
proof
  fix a
  have "a = d + of_nat c \<longleftrightarrow> unat (a - d) = c"
    using assms unat_of_nat_u32 [of c]
    by (metis add_diff_cancel_left' diff_add_cancel add.commute u32_of_unat less_le_trans)
  then show "((blit_tail m d (Suc c) n f)(d + of_nat c := f (of_nat c))) a = blit_tail m d c n f a"
    using assms by (auto simp: blit_tail_def)
qed

lemma movsb_backward_from:
  assumes d: "unat d + n \<le> 2 ^ 32" and s: "unat s + n \<le> 2 ^ 32" and lt: "unat s < unat d"
    and "unat c \<le> n"
  shows "rep_movsb True (blit_tail m d (unat c) n (ptr m s)) (d + c - 1) (s + c - 1) c =
     blit m d n (ptr m s)"
  using assms(4)
proof (induction "unat c" arbitrary: c)
  case 0
  have "c = 0" using 0 by (simp add: unat_0_iff)
  then have "blit_tail m d (unat c) n (ptr m s) = blit m d n (ptr m s)" by (simp add: blit_tail_def blit_def)
  then show ?case using \<open>c = 0\<close> by (subst rep_movsb.simps) simp
next
  case (Suc k)
  note c = unat_eq_Suc_dec [OF Suc.hyps(2) [symmetric]]
  have k: "k < n" using Suc by simp
  have ck: "c - 1 = of_nat k" using c(2) by (metis u32_of_unat)
  have sk: "unat (s + of_nat k) = unat s + k" using u32_run_less [OF s k] .
  have "unat (s + of_nat k - d) =
      (if unat d \<le> unat s + k then unat s + k - unat d else 2 ^ 32 + (unat s + k) - unat d)"
    using unat_sub_if_size [of "s + of_nat k" d] unfolding word_size sk by (auto simp: word_le_nat_alt)
  then have "\<not> (Suc k \<le> unat (s + of_nat k - d) \<and> unat (s + of_nat k - d) < n)"
    using lt d by (cases "unat d \<le> unat s + k") (simp_all only: if_True if_False, linarith+)
  then have src: "blit_tail m d (Suc k) n (ptr m s) (s + of_nat k) = ptr m s (of_nat k)"
    by (auto simp: blit_tail_def ptr_def)
  have "rep_movsb True (blit_tail m d k n (ptr m s)) (d + of_nat k - 1) (s + of_nat k - 1) (of_nat k)
      = blit m d n (ptr m s)"
    proof -
   have "unat (of_nat k :: u32) = k" using c(2) ck by metis
   then show ?thesis using Suc.hyps(1) [of "of_nat k"] k by (metis less_imp_le)
  qed
  moreover have "(blit_tail m d (Suc k) n (ptr m s))
      (d + of_nat k := blit_tail m d (Suc k) n (ptr m s) (s + of_nat k)) = blit_tail m d k n (ptr m s)"
    unfolding src using d by (intro blit_tail_step [OF k]) simp
  moreover have "c = of_nat k + 1" using ck by (metis diff_add_cancel)
  ultimately show ?case
    using c(1) Suc.hyps(2) [symmetric] by (subst rep_movsb.simps) simp
qed

text \<open>\<open>memmove\<close> is a copy of the original bytes even when the two runs overlap.\<close>

lemma memmove_eq:
  assumes "unat dest + unat n \<le> 2 ^ 32" and "unat src + unat n \<le> 2 ^ 32"
  shows "fst (memmove m dest src n) = blit m dest (unat n) (ptr m src)"
proof (cases "dest \<le> src")
  case True
  then show ?thesis
    using movsb_forward_from [OF assms, of 0 n m] by (simp add: memmove_def word_le_nat_alt)
next
  case False
  have "blit_tail m dest (unat n) (unat n) (ptr m src) = m"
    by (auto simp: blit_tail_def fun_eq_iff)
  then show ?thesis
    using movsb_backward_from [OF assms, of n m] False by (simp add: memmove_def word_le_nat_alt)
qed

lemma memmove_direction_flag: "snd (memmove m dest src n) \<longleftrightarrow> src < dest"
  by (auto simp: memmove_def)

section \<open>The C interface\<close>

text \<open>
  C37. The assembly \<open>memcpy\<close> (a byte loop up to a 4-byte boundary, \<open>rep movsl\<close>, a byte tail) copies
  exactly the \<open>n\<close> bytes of the source between disjoint runs, for every alignment and length, and
  changes nothing else.
\<close>
theorem memcpy_correct:
  assumes "disjoint_runs dest (unat n) src (unat n)"
  shows "memcpy m dest src n = blit m dest (unat n) (ptr m src)"
  using assms by (rule memcpy_eq)

theorem memcpy_correct_witness:
  "memcpy (\<lambda>a. ucast a) 0x1001 0x2002 7 = blit (\<lambda>a. ucast a) 0x1001 (unat (7 :: u32)) (ptr (\<lambda>a. ucast a) 0x2002)"
  by (rule memcpy_correct) (simp add: disjoint_runs_def)

text \<open>
  C38. \<open>memmove\<close> copies the original bytes of the source even when the two runs overlap in either
  direction; and it leaves the processor's direction flag set exactly when it copied backwards.
\<close>
theorem memmove_correct:
  assumes "unat dest + unat n \<le> 2 ^ 32" and "unat src + unat n \<le> 2 ^ 32"
  shows "fst (memmove m dest src n) = blit m dest (unat n) (ptr m src) \<and>
    (snd (memmove m dest src n) \<longleftrightarrow> src < dest)"
  using assms by (simp add: memmove_eq memmove_direction_flag)

theorem memmove_correct_witness:
  "fst (memmove (\<lambda>a. ucast a) 0x1002 0x1000 5) = blit (\<lambda>a. ucast a) 0x1002 (unat (5 :: u32)) (ptr (\<lambda>a. ucast a) 0x1000) \<and>
    (snd (memmove (\<lambda>a. ucast a) 0x1002 0x1000 5) \<longleftrightarrow> (0x1000 :: u32) < 0x1002)"
  by (rule memmove_correct) simp_all

text \<open>
  The three fills write exactly their run: \<open>memset\<close> the low byte of \<open>c\<close> in \<open>n\<close> bytes,
  \<open>memset_word\<close> the low 16 bits in \<open>n\<close> 16-bit words, \<open>memset_dword\<close> all of \<open>c\<close> in \<open>n\<close> 32-bit
  words, little-endian.
\<close>
theorem fills_correct:
  assumes "4 * unat n \<le> 2 ^ 32"
  shows "memset m s c n = blit m s (unat n) (\<lambda>_. ucast c) \<and>
    memset_word m s c n = blit m s (2 * unat n) (\<lambda>i. ucast (drop_bit (8 * (unat i mod 2)) c)) \<and>
    memset_dword m s c n = blit m s (4 * unat n) (\<lambda>i. ucast (drop_bit (8 * (unat i mod 4)) c))"
  using assms by (simp add: memset_eq memset_word_eq memset_dword_eq)

theorem fills_correct_witness:
  "memset (\<lambda>_. 0) 0x1003 0x141 6 = blit (\<lambda>_. 0) 0x1003 (unat (6 :: u32)) (\<lambda>_. ucast (0x141 :: u32)) \<and>
    memset_word (\<lambda>_. 0) 0x1003 0x141 6 =
      blit (\<lambda>_. 0) 0x1003 (2 * unat (6 :: u32)) (\<lambda>i. ucast (drop_bit (8 * (unat i mod 2)) (0x141 :: u32))) \<and>
    memset_dword (\<lambda>_. 0) 0x1003 0x141 6 =
      blit (\<lambda>_. 0) 0x1003 (4 * unat (6 :: u32)) (\<lambda>i. ucast (drop_bit (8 * (unat i mod 4)) (0x141 :: u32)))"
  by (rule fills_correct) simp

end
