(* ===== verification/Lib_Strings.thy ===== *)
theory Lib_Strings
  imports Prelude
begin

text \<open>
  The string half of \<open>student-distrib/lib.c\<close>: \<open>strlen\<close>, \<open>strncmp\<close>, \<open>strcpy\<close>, \<open>strncpy\<close>,
  \<open>strrev\<close> and \<open>itoa\<close>, each loop as the source writes it. A loop that runs until it meets a NUL
  byte is a \<open>partial_function\<close> with result \<^const>\<open>None\<close> when there is none. The lemmas relate
  each routine to the list of bytes before the terminator.
\<close>

section \<open>The routines\<close>

partial_function (option) strlen_loop :: "cstr \<Rightarrow> u32 \<Rightarrow> u32 option" where
  "strlen_loop s len = (if s len = 0 then Some len else strlen_loop s (len + 1))"

definition strlen :: "cstr \<Rightarrow> u32 option" where
  "strlen s = strlen_loop s 0"

text \<open>\<open>s1[i] - s2[i]\<close> on \<open>int8_t\<close> operands: both are sign-extended to \<open>int\<close>.\<close>

function strncmp_loop :: "cstr \<Rightarrow> cstr \<Rightarrow> u32 \<Rightarrow> u32 \<Rightarrow> i32" where
  "strncmp_loop s1 s2 n i =
     (if i < n then
        (if s1 i \<noteq> s2 i \<or> s1 i = 0 then scast (s1 i) - scast (s2 i)
         else strncmp_loop s1 s2 n (i + 1))
      else 0)"
  by pat_completeness auto
termination
  by (relation "measure (\<lambda>(s1, s2, n, i). unat n - unat i)") (auto intro: word_loop_measure)

definition strncmp :: "cstr \<Rightarrow> cstr \<Rightarrow> u32 \<Rightarrow> i32" where
  "strncmp s1 s2 n = strncmp_loop s1 s2 n 0"

partial_function (option) strcpy_loop :: "memory \<Rightarrow> u32 \<Rightarrow> u32 \<Rightarrow> u32 \<Rightarrow> memory option" where
  "strcpy_loop m dest src i =
     (if m (src + i) \<noteq> 0 then strcpy_loop (m(dest + i := m (src + i))) dest src (i + 1)
      else Some (m(dest + i := 0)))"

definition strcpy :: "memory \<Rightarrow> u32 \<Rightarrow> u32 \<Rightarrow> memory option" where
  "strcpy m dest src = strcpy_loop m dest src 0"

text \<open>
  The same loop when the destination is an array of \<open>cap\<close> bytes inside a C object (a local
  array or a field of a struct) and the source is another object: a write at an index outside
  the array is a fault.
\<close>

partial_function (option) strcpy_arr_loop ::
  "nat \<Rightarrow> cstr \<Rightarrow> cstr \<Rightarrow> u32 \<Rightarrow> cstr outcome option" where
  "strcpy_arr_loop cap dest src i =
     (if src i \<noteq> 0 then
        (if unat i < cap then strcpy_arr_loop cap (dest(i := src i)) src (i + 1)
         else Some (Fault Out_Of_Bounds))
      else Some (if unat i < cap then Ok (dest(i := 0)) else Fault Out_Of_Bounds))"

definition strcpy_arr :: "nat \<Rightarrow> cstr \<Rightarrow> cstr \<Rightarrow> cstr outcome" where
  "strcpy_arr cap dest src = obind (of_loop (strcpy_arr_loop cap dest src 0)) id"

function strncpy_copy :: "memory \<Rightarrow> u32 \<Rightarrow> u32 \<Rightarrow> u32 \<Rightarrow> u32 \<Rightarrow> memory \<times> u32" where
  "strncpy_copy m dest src n i =
     (if m (src + i) \<noteq> 0 \<and> i < n
      then strncpy_copy (m(dest + i := m (src + i))) dest src n (i + 1) else (m, i))"
  by pat_completeness auto
termination
  by (relation "measure (\<lambda>(m, dest, src, n, i). unat n - unat i)") (auto intro: word_loop_measure)

function strncpy_pad :: "memory \<Rightarrow> u32 \<Rightarrow> u32 \<Rightarrow> u32 \<Rightarrow> memory" where
  "strncpy_pad m dest n i = (if i < n then strncpy_pad (m(dest + i := 0)) dest n (i + 1) else m)"
  by pat_completeness auto
termination
  by (relation "measure (\<lambda>(m, dest, n, i). unat n - unat i)") (auto intro: word_loop_measure)

definition strncpy :: "memory \<Rightarrow> u32 \<Rightarrow> u32 \<Rightarrow> u32 \<Rightarrow> memory" where
  "strncpy m dest src n = (let (m1, i) = strncpy_copy m dest src n 0 in strncpy_pad m1 dest n i)"

text \<open>\<open>beg\<close> and \<open>end\<close> are \<open>int32_t\<close>; \<open>end\<close> is -1 for the empty string.\<close>

function strrev_loop :: "cstr \<Rightarrow> int \<Rightarrow> int \<Rightarrow> cstr" where
  "strrev_loop s beg en =
     (if beg < en
      then strrev_loop (s(word_of_int en := s (word_of_int beg), word_of_int beg := s (word_of_int en)))
             (beg + 1) (en - 1)
      else s)"
  by pat_completeness auto
termination
  by (relation "measure (\<lambda>(s, beg, en). nat (en - beg))") auto

definition strrev :: "cstr \<Rightarrow> cstr option" where
  "strrev s = map_option (\<lambda>n. strrev_loop s 0 (sint n - 1)) (strlen s)"

text \<open>\<open>itoa\<close>: the digit table with its terminator, the digit loop (\<open>k\<close> is \<open>newbuf - buf\<close>) and the whole routine.\<close>

definition itoa_lookup :: "u8 list" where
  "itoa_lookup = map of_char ''0123456789ABCDEFGHIJKLMNOPQRSTUVWXYZ'' @ [0]"

partial_function (option) itoa_loop ::
  "u32 \<Rightarrow> u32 \<Rightarrow> cstr \<Rightarrow> u32 \<Rightarrow> (cstr \<times> u32) outcome option" where
  "itoa_loop newval radix buf k =
     (if newval > 0 then
        (if radix = 0 then Some (Fault Divide_Error)
         else if unat (newval mod radix) < length itoa_lookup
         then itoa_loop (newval div radix) radix
                (buf(k := itoa_lookup ! unat (newval mod radix))) (k + 1)
         else Some (Fault Out_Of_Bounds))
      else Some (Ok (buf, k)))"

definition itoa :: "u32 \<Rightarrow> cstr \<Rightarrow> u32 \<Rightarrow> cstr outcome" where
  "itoa val buf radix =
     (if val = 0 then Ok (buf(0 := of_char CHR ''0'', 1 := 0))
      else obind (obind (of_loop (itoa_loop val radix buf 0)) id)
             (\<lambda>(b, k). of_loop (strrev (b(k := 0)))))"

declare strncmp_loop.simps [simp del] strncpy_copy.simps [simp del] strncpy_pad.simps [simp del]
  strrev_loop.simps [simp del]

section \<open>C strings as byte lists\<close>

definition is_cstr :: "cstr \<Rightarrow> nat \<Rightarrow> bool" where
  "is_cstr s n \<longleftrightarrow> n < 2 ^ 32 \<and> s (of_nat n) = 0 \<and> (\<forall>i<n. s (of_nat i) \<noteq> 0)"

definition bytes :: "cstr \<Rightarrow> nat \<Rightarrow> u8 list" where
  "bytes s n = map (\<lambda>i. s (of_nat i)) [0..<n]"

lemma length_bytes [simp]: "length (bytes s n) = n"
  by (simp add: bytes_def)

lemma nth_bytes [simp]: "i < n \<Longrightarrow> bytes s n ! i = s (of_nat i)"
  by (simp add: bytes_def)

lemma bytes_eq_iff: "bytes s n = bytes t n \<longleftrightarrow> (\<forall>i<n. s (of_nat i) = t (of_nat i))"
  by (auto simp: list_eq_iff_nth_eq)

lemma is_cstr_unique: "is_cstr s n \<Longrightarrow> is_cstr s k \<Longrightarrow> n = k"
  by (metis is_cstr_def linorder_neqE_nat)

lemma is_cstr_Least:
  assumes "s i = 0"
  obtains n where "is_cstr s n" and "n \<le> unat i"
proof -
  let ?P = "\<lambda>n. s (of_nat n) = 0"
  have "?P (unat i)" using assms by simp
  then have "?P (Least ?P)" and "Least ?P \<le> unat i" and "\<forall>k < Least ?P. \<not> ?P k"
    by (rule LeastI, rule Least_le) (blast dest: not_less_Least)
  moreover have "Least ?P < 2 ^ 32"
    using \<open>Least ?P \<le> unat i\<close> unat_u32_lt [of i] by simp
  ultimately show ?thesis using that by (auto simp: is_cstr_def)
qed

lemma strlen_loop_from:
  assumes "is_cstr s n" and "k \<le> n"
  shows "strlen_loop s (of_nat k) = Some (of_nat n)"
  using assms(2)
proof (induction k rule: inc_induct)
  case base
  then show ?case using assms(1) by (subst strlen_loop.simps) (simp add: is_cstr_def)
next
  case (step k)
  then have "s (of_nat k) \<noteq> 0" using assms(1) by (simp add: is_cstr_def)
  then show ?case using step.IH by (subst strlen_loop.simps) (simp add: add.commute)
qed

lemma strlen_is_cstr: "is_cstr s n \<Longrightarrow> strlen s = Some (of_nat n)"
  using strlen_loop_from [of s n 0] by (simp add: strlen_def)

lemma strlen_loop_stops: "strlen_loop s len = Some r \<Longrightarrow> s r = 0"
  by (rule strlen_loop.raw_induct [where P = "\<lambda>s len r. s r = 0"]) (auto split: if_splits)

lemma strlen_SomeD: "strlen s = Some n \<Longrightarrow> is_cstr s (unat n)"
proof -
  assume len: "strlen s = Some n"
  then have "s n = 0" by (auto simp: strlen_def dest: strlen_loop_stops)
  then obtain k where k: "is_cstr s k" by (rule is_cstr_Least)
  then have "n = of_nat k" and "k < 2 ^ 32"
    using len strlen_is_cstr [OF k] by (auto simp: is_cstr_def)
  then show "is_cstr s (unat n)" using k by (simp add: unat_of_nat_u32)
qed

text \<open>
  \<open>strlen\<close> returns exactly the index of the first NUL byte, and fails to return exactly
  when there is no NUL byte at all.
\<close>

lemma strlen_iff: "strlen s = Some n \<longleftrightarrow> is_cstr s (unat n)"
  using strlen_SomeD [of s n] strlen_is_cstr [of s "unat n"] by auto

lemma strlen_None_iff: "strlen s = None \<longleftrightarrow> (\<forall>i. s i \<noteq> 0)"
proof
  assume "strlen s = None"
  then show "\<forall>i. s i \<noteq> 0" by (metis is_cstr_Least strlen_is_cstr option.distinct(1))
next
  assume "\<forall>i. s i \<noteq> 0"
  then show "strlen s = None"
    by (cases "strlen s") (auto simp: strlen_def dest: strlen_loop_stops)
qed

section \<open>Comparison\<close>

lemma word_scast_inj: "(scast (a :: u8) :: i32) = scast b \<longleftrightarrow> a = b"
proof -
  have "(ucast (scast w :: i32) :: u8) = w" for w :: u8
    by (rule bit_word_eqI) (simp add: bit_simps)
  then show ?thesis by metis
qed

text \<open>Position \<open>i\<close> of the first string is compared only if no NUL byte came before it.\<close>

definition same_upto :: "cstr \<Rightarrow> cstr \<Rightarrow> nat \<Rightarrow> nat \<Rightarrow> bool" where
  "same_upto s1 s2 k n \<longleftrightarrow>
     (\<forall>i. k \<le> i \<and> i < n \<longrightarrow> (\<forall>j. k \<le> j \<and> j < i \<longrightarrow> s1 (of_nat j) \<noteq> 0)
        \<longrightarrow> s1 (of_nat i) = s2 (of_nat i))"

lemma same_upto_stop: "k < n \<Longrightarrow> s1 (of_nat k) = 0 \<Longrightarrow> same_upto s1 s2 k n \<longleftrightarrow> s2 (of_nat k) = 0"
  by (fastforce simp: same_upto_def le_less)

lemma same_upto_differ: "k < n \<Longrightarrow> s1 (of_nat k) \<noteq> s2 (of_nat k) \<Longrightarrow> \<not> same_upto s1 s2 k n"
  by (auto simp: same_upto_def)

lemma same_upto_step:
  assumes "k < n" and "s1 (of_nat k) = s2 (of_nat k)" and "s1 (of_nat k) \<noteq> 0"
  shows "same_upto s1 s2 k n \<longleftrightarrow> same_upto s1 s2 (Suc k) n"
  using assms unfolding same_upto_def by (metis Suc_le_eq le_less)

lemma strncmp_loop_zero:
  assumes "k \<le> unat n"
  shows "strncmp_loop s1 s2 n (of_nat k) = 0 \<longleftrightarrow> same_upto s1 s2 k (unat n)"
  using assms
proof (induction k rule: inc_induct)
  case base
  then show ?case by (subst strncmp_loop.simps) (auto simp: same_upto_def)
next
  case (step k)
  have lt: "(of_nat k :: u32) < n"
    using step.hyps unat_u32_lt [of n] by (simp add: word_less_nat_alt unat_of_nat_u32)
  show ?case
    using step lt same_upto_stop [of k "unat n" s1 s2] same_upto_differ [of k "unat n" s1 s2]
      same_upto_step [of k "unat n" s1 s2]
    by (subst strncmp_loop.simps) (auto simp: word_scast_inj word_scast_inj [of _ 0, simplified] add.commute)
qed

lemma strncmp_zero: "strncmp s1 s2 n = 0 \<longleftrightarrow> same_upto s1 s2 0 (unat n)"
  using strncmp_loop_zero [of 0 n s1 s2] by (simp add: strncmp_def)

text \<open>
  The test that \<open>read_dentry_by_name\<close> makes (equal lengths, then \<open>strncmp\<close> over that length)
  decides equality of the two names.
\<close>

lemma name_match_iff:
  assumes "is_cstr s1 n" and "is_cstr s2 k"
  shows "n = k \<and> strncmp s1 s2 (of_nat k) = 0 \<longleftrightarrow> bytes s1 n = bytes s2 k"
proof (cases "n = k")
  case True
  have "unat (of_nat k :: u32) = k" and "\<forall>i<n. s1 (of_nat i) \<noteq> 0"
    using assms by (auto simp: is_cstr_def unat_of_nat_u32)
  then have "strncmp s1 s2 (of_nat k) = 0 \<longleftrightarrow> (\<forall>i<n. s1 (of_nat i) = s2 (of_nat i))"
    using True by (auto simp: strncmp_zero same_upto_def)
  then show ?thesis using True by (simp add: bytes_eq_iff)
next
  case False
  then show ?thesis by (metis length_bytes)
qed

section \<open>Copies\<close>

lemma strcpy_arr_loop_from:
  assumes "is_cstr src n" and "k \<le> n" and "k \<le> cap"
  shows "strcpy_arr_loop cap (\<lambda>i. if unat i < k then src i else dest i) src (of_nat k) =
     Some (if n < cap then Ok (\<lambda>i. if unat i < n then src i else if unat i = n then 0 else dest i)
           else Fault Out_Of_Bounds)"
  using assms(2,3)
proof (induction k rule: inc_induct)
  case base
  have n: "unat (of_nat n :: u32) = n" and z: "src (of_nat n) = 0"
    using assms(1) by (auto simp: is_cstr_def unat_of_nat_u32)
  have "(\<lambda>i. if unat i < n then src i else dest i)(of_nat n := 0) =
      (\<lambda>i. if unat i < n then src i else if unat i = n then 0 else dest i)"
    using n by (auto simp: fun_eq_iff)
  then show ?case using n z by (subst strcpy_arr_loop.simps) simp
next
  case (step k)
  have k: "unat (of_nat k :: u32) = k" and nz: "src (of_nat k) \<noteq> 0"
    using assms(1) step.hyps by (auto simp: is_cstr_def unat_of_nat_u32)
  have upd: "(\<lambda>i. if unat i < k then src i else dest i)(of_nat k := src (of_nat k)) =
      (\<lambda>i. if unat i < Suc k then src i else dest i)"
    using k by (auto simp: fun_eq_iff less_Suc_eq)
  show ?case
  proof (cases "k < cap")
    case True
    then show ?thesis
      using k nz upd step.IH by (subst strcpy_arr_loop.simps) (simp add: add.commute)
  next
    case False
    then show ?thesis
      using k nz step.hyps by (subst strcpy_arr_loop.simps) simp
  qed
qed

text \<open>A bounded copy of an \<open>n\<close>-byte string succeeds exactly when its terminator fits too.\<close>

lemma strcpy_arr_eq:
  assumes "is_cstr src n"
  shows "strcpy_arr cap dest src =
     (if n < cap then Ok (\<lambda>i. if unat i < n then src i else if unat i = n then 0 else dest i)
      else Fault Out_Of_Bounds)"
  using strcpy_arr_loop_from [OF assms, of 0 cap dest] by (simp add: strcpy_arr_def)

lemma strcpy_loop_from:
  assumes str: "is_cstr (ptr m src) n" and dis: "disjoint_runs dest (Suc n) src (Suc n)"
    and "k \<le> n"
  shows "strcpy_loop (blit m dest k (ptr m src)) dest src (of_nat k) =
     Some (blit m dest (Suc n) (ptr m src))"
  using assms(3)
proof (induction k rule: inc_induct)
  case base
  have n: "n < 2 ^ 32" and z: "m (src + of_nat n) = 0"
    using str by (auto simp: is_cstr_def ptr_def)
  have "blit m dest n (ptr m src) (src + of_nat n) = m (src + of_nat n)"
    using disjoint_runs_outside [OF dis, of n] by (intro blit_outside) simp
  then show ?case
    using z blit_Suc [OF n, of m dest "ptr m src"]
    by (subst strcpy_loop.simps) (simp add: ptr_def)
next
  case (step k)
  have n: "k < 2 ^ 32" and nz: "m (src + of_nat k) \<noteq> 0"
    using str step.hyps by (auto simp: is_cstr_def ptr_def)
  have "blit m dest k (ptr m src) (src + of_nat k) = m (src + of_nat k)"
    using disjoint_runs_outside [OF dis, of k] step.hyps by (intro blit_outside) simp
  then show ?case
    using nz blit_Suc [OF n, of m dest "ptr m src"] step.IH
    by (subst strcpy_loop.simps) (simp add: ptr_def add.commute)
qed

lemma strcpy_eq:
  assumes "is_cstr (ptr m src) n" and "disjoint_runs dest (Suc n) src (Suc n)"
  shows "strcpy m dest src = Some (blit m dest (Suc n) (ptr m src))"
  using strcpy_loop_from [OF assms, of 0] by (simp add: strcpy_def)

lemma strncpy_pad_from:
  assumes "k \<le> unat n"
  shows "strncpy_pad (blit m dest k f) dest n (of_nat k) =
     blit m dest (unat n) (\<lambda>i. if unat i < k then f i else 0)"
  using assms
proof (induction k arbitrary: f rule: inc_induct)
  case base
  have "blit m dest (unat n) f = blit m dest (unat n) (\<lambda>i. if unat i < unat n then f i else 0)"
    by (rule blit_cong) (simp add: unat_of_nat_u32 less_trans [OF _ unat_u32_lt])
  then show ?case by (subst strncpy_pad.simps) simp
next
  case (step k)
  have k: "k < 2 ^ 32" using step.hyps unat_u32_lt [of n] by simp
  have lt: "(of_nat k :: u32) < n"
    using step.hyps k by (simp add: word_less_nat_alt unat_of_nat_u32)
  let ?g = "\<lambda>i. if unat i < k then f i else 0"
  have f: "blit m dest k f = blit m dest k ?g"
    using k by (intro blit_cong) (simp add: unat_of_nat_u32)
  have "strncpy_pad (blit m dest k f) dest n (of_nat k) =
      strncpy_pad ((blit m dest k ?g)(dest + of_nat k := ?g (of_nat k))) dest n (of_nat (Suc k))"
    using lt k f by (subst strncpy_pad.simps) (simp add: add.commute unat_of_nat_u32)
  also have "\<dots> = strncpy_pad (blit m dest (Suc k) ?g) dest n (of_nat (Suc k))"
    using k by (subst blit_Suc) auto
  also have "\<dots> = blit m dest (unat n) (\<lambda>i. if unat i < Suc k then ?g i else 0)"
    by (rule step.IH)
  also have "(\<lambda>i. if unat i < Suc k then ?g i else 0) = ?g" by auto
  finally show ?case .
qed

lemma strncpy_copy_from:
  assumes nz: "\<forall>i<l. m (src + of_nat i) \<noteq> 0" and len: "l \<le> unat n"
    and stop: "l = unat n \<or> m (src + of_nat l) = 0"
    and dis: "disjoint_runs dest (unat n) src (Suc l)" and "k \<le> l"
  shows "strncpy_copy (blit m dest k (ptr m src)) dest src n (of_nat k) =
     (blit m dest l (ptr m src), of_nat l)"
  using assms(5)
proof (induction k rule: inc_induct)
  case base
  have "blit m dest l (ptr m src) (src + of_nat l) = m (src + of_nat l)"
    using disjoint_runs_outside [OF dis, of l] len by (intro blit_outside) simp
  then show ?case using stop by (subst strncpy_copy.simps) auto
next
  case (step k)
  have k: "k < 2 ^ 32" using step.hyps len unat_u32_lt [of n] by simp
  have lt: "(of_nat k :: u32) < n"
    using step.hyps k len by (simp add: word_less_nat_alt unat_of_nat_u32)
  have "blit m dest k (ptr m src) (src + of_nat k) = m (src + of_nat k)"
    using disjoint_runs_outside [OF dis, of k] step.hyps len by (intro blit_outside) simp
  then show ?case
    using nz lt step blit_Suc [OF k, of m dest "ptr m src"]
    by (subst strncpy_copy.simps) (simp add: ptr_def add.commute)
qed

text \<open>\<open>strncpy\<close> writes exactly \<open>n\<close> bytes: the string up to its end, then zeros.\<close>

lemma strncpy_eq:
  assumes "\<forall>i<l. m (src + of_nat i) \<noteq> 0" and "l \<le> unat n"
    and "l = unat n \<or> m (src + of_nat l) = 0" and "disjoint_runs dest (unat n) src (Suc l)"
  shows "strncpy m dest src n = blit m dest (unat n) (\<lambda>i. if unat i < l then ptr m src i else 0)"
  using strncpy_copy_from [OF assms, of 0] strncpy_pad_from [OF assms(2)]
  by (simp add: strncpy_def)

section \<open>Reversal\<close>

text \<open>The string after \<open>b\<close> swaps: the outer \<open>b\<close> positions on each side are exchanged.\<close>

definition mirrored :: "cstr \<Rightarrow> nat \<Rightarrow> nat \<Rightarrow> cstr" where
  "mirrored s n b = (\<lambda>i. if unat i < n \<and> (unat i < b \<or> n \<le> unat i + b)
      then s (of_nat (n - 1 - unat i)) else s i)"

lemma mirrored_0 [simp]: "mirrored s n 0 = s"
  by (auto simp: mirrored_def fun_eq_iff)

lemma mirrored_swap:
  assumes "b < e" and "b + e + 1 = n" and "n < 2 ^ 32"
  shows "(mirrored s n b)(of_nat e := mirrored s n b (of_nat b), of_nat b := mirrored s n b (of_nat e))
     = mirrored s n (Suc b)"
proof
  fix i :: u32
  have b: "unat (of_nat b :: u32) = b" and e: "unat (of_nat e :: u32) = e"
    using assms by (auto simp: unat_of_nat_u32)
  have n: "n = Suc (b + e)" using assms(2) by simp
  consider "i = of_nat e" | "i = of_nat b" "i \<noteq> of_nat e" | "unat i \<noteq> b" "unat i \<noteq> e"
    by (metis u32_of_unat)
  then show "((mirrored s n b)(of_nat e := mirrored s n b (of_nat b),
      of_nat b := mirrored s n b (of_nat e))) i = mirrored s n (Suc b) i"
  proof cases
    case 3
    then have "i \<noteq> of_nat e" and "i \<noteq> of_nat b" using b e by auto
    then show ?thesis using 3 n by (auto simp: mirrored_def less_Suc_eq)
  qed (use assms b e n in \<open>auto simp: mirrored_def\<close>)
qed

lemma mirrored_done: "n \<le> 2 * b + 1 \<Longrightarrow> mirrored s n b = (\<lambda>i. if unat i < n then s (of_nat (n - 1 - unat i)) else s i)"
  unfolding mirrored_def
proof (rule ext)
  fix i :: u32
  assume n: "n \<le> 2 * b + 1"
  show "(if unat i < n \<and> (unat i < b \<or> n \<le> unat i + b) then s (of_nat (n - 1 - unat i)) else s i)
      = (if unat i < n then s (of_nat (n - 1 - unat i)) else s i)"
  proof (cases "unat i < n \<and> \<not> (unat i < b \<or> n \<le> unat i + b)")
    case True
    then have "n - 1 - unat i = unat i" using n by linarith
    then show ?thesis by simp
  qed auto
qed

lemma strrev_loop_from:
  assumes "n < 2 ^ 31" and "2 * b \<le> n + 1"
  shows "strrev_loop (mirrored s n b) (int b) (int n - 1 - int b) = mirrored s n (max b (n div 2))"
  using assms(2)
proof (induction "n - 2 * b" arbitrary: b rule: less_induct)
  case less
  show ?case
  proof (cases "int b < int n - 1 - int b")
    case True
    define e where "e = n - 1 - b"
    have e: "int n - 1 - int b = int e" and be: "b < e" and n: "b + e + 1 = n"
      using True by (auto simp: e_def)
    have IH: "strrev_loop (mirrored s n (Suc b)) (int (Suc b)) (int n - 1 - int (Suc b)) =
        mirrored s n (max (Suc b) (n div 2))"
      using True less.prems by (intro less.hyps) auto
    have "max (Suc b) (n div 2) = max b (n div 2)" using be n by auto
    then show ?thesis
      using IH True mirrored_swap [OF be n] assms(1) e
      by (subst strrev_loop.simps) (simp add: algebra_simps)
  next
    case False
    then have n: "n \<le> 2 * b + 1" by simp
    then have "mirrored s n (max b (n div 2)) = mirrored s n b"
      by (subst mirrored_done, simp) (simp add: mirrored_done n)
    then show ?thesis using False by (subst strrev_loop.simps) simp
  qed
qed

lemma strrev_eq:
  assumes "is_cstr s n" and "n < 2 ^ 31"
  shows "strrev s = Some (\<lambda>i. if unat i < n then s (of_nat (n - 1 - unat i)) else s i)"
proof -
  have "sint (of_nat n :: u32) = int n"
    using assms(2) by (simp add: signed_of_nat signed_take_bit_int_eq_self)
  then have "strrev s = Some (mirrored s n (n div 2))"
    using strrev_loop_from [OF assms(2), of 0 s] strlen_is_cstr [OF assms(1)]
    by (simp add: strrev_def)
  also have "mirrored s n (n div 2) = (\<lambda>i. if unat i < n then s (of_nat (n - 1 - unat i)) else s i)"
    by (rule mirrored_done) simp
  finally show ?thesis .
qed

section \<open>Numbers\<close>

text \<open>The digits of \<open>v\<close> in base \<open>r\<close>, least significant first, and what a digit string denotes.\<close>

fun digits :: "nat \<Rightarrow> nat \<Rightarrow> nat list" where
  "digits r v = (if v = 0 \<or> r < 2 then [] else v mod r # digits r (v div r))"

declare digits.simps [simp del]

definition digit_value :: "u8 \<Rightarrow> nat" where
  "digit_value c = (if c \<le> 57 then unat c - 48 else unat c - 55)"

definition parse_number :: "nat \<Rightarrow> u8 list \<Rightarrow> nat" where
  "parse_number r cs = foldl (\<lambda>a c. a * r + digit_value c) 0 cs"

lemma digits_0 [simp]: "digits r 0 = []"
  by (simp add: digits.simps)

lemma digits_less: "2 \<le> r \<Longrightarrow> d \<in> set (digits r v) \<Longrightarrow> d < r"
proof (induction r v rule: digits.induct)
  case (1 r v)
  then show ?case by (subst (asm) (2) digits.simps) (auto split: if_splits)
qed

lemma digits_sum: "2 \<le> r \<Longrightarrow> foldr (\<lambda>d a. a * r + d) (digits r v) 0 = v"
proof (induction r v rule: digits.induct)
  case (1 r v)
  then show ?case by (subst digits.simps) auto
qed

lemma digits_length: "2 \<le> r \<Longrightarrow> v < 2 ^ k \<Longrightarrow> length (digits r v) \<le> k"
proof (induction k arbitrary: v)
  case 0
  then show ?case by simp
next
  case (Suc k)
  have "v div r \<le> v div 2" using Suc.prems(1) by (rule div_le_mono2 [rotated]) simp
  also have "\<dots> < 2 ^ k" using Suc.prems(2) by (simp add: less_mult_imp_div_less)
  finally have "length (digits r (v div r)) \<le> k" using Suc by blast
  then show ?case by (subst digits.simps) simp
qed

lemma length_itoa_lookup [simp]: "length itoa_lookup = 37"
  by (simp add: itoa_lookup_def)

lemma digit_value_lookup: "d < 36 \<Longrightarrow> digit_value (itoa_lookup ! d) = d \<and> itoa_lookup ! d \<noteq> 0"
proof -
  have "\<forall>d \<in> set [0..<36]. digit_value (itoa_lookup ! d) = d \<and> itoa_lookup ! d \<noteq> 0"
    by (simp add: itoa_lookup_def digit_value_def upt_rec)
  then show "d < 36 \<Longrightarrow> ?thesis" by simp
qed

text \<open>The buffer after the digit loop: the digits from \<open>k\<close> on, the rest untouched.\<close>

definition holds_digits :: "cstr \<Rightarrow> u32 \<Rightarrow> nat list \<Rightarrow> cstr \<Rightarrow> bool" where
  "holds_digits buf k ds b \<longleftrightarrow>
     (\<forall>j < length ds. b (k + of_nat j) = itoa_lookup ! (ds ! j)) \<and>
     (\<forall>a. length ds \<le> unat (a - k) \<longrightarrow> b a = buf a)"

lemma holds_digits_Cons:
  assumes "holds_digits (buf(k := itoa_lookup ! d)) (k + 1) ds b" and "length ds < 2 ^ 31"
  shows "holds_digits buf k (d # ds) b"
  unfolding holds_digits_def
proof (intro conjI allI impI)
  have at: "b (k + 1 + of_nat j) = itoa_lookup ! (ds ! j)" if "j < length ds" for j
    using assms(1) that by (simp add: holds_digits_def)
  have out: "b a = (buf(k := itoa_lookup ! d)) a" if "length ds \<le> unat (a - (k + 1))" for a
    using assms(1) that unfolding holds_digits_def by blast
  have far: "unat (k - (k + 1)) = 2 ^ 32 - 1"
    by (simp add: unsigned_minus_1_eq_mask mask_eq_exp_minus_1)
  show "b (k + of_nat j) = itoa_lookup ! ((d # ds) ! j)" if "j < length (d # ds)" for j
  proof (cases j)
    case 0
    then show ?thesis using out [of k] far assms(2) by simp
  next
    case (Suc i)
    then show ?thesis using at [of i] that by (simp add: add.assoc)
  qed
  show "b a = buf a" if len: "length (d # ds) \<le> unat (a - k)" for a
  proof -
    have "a - k \<noteq> 0" using len by (metis length_0_conv list.distinct(1) le_zero_eq unat_0)
    then have "unat (a - k - 1) = unat (a - k) - 1" by (rule unat_minus_one)
    then have "length ds \<le> unat (a - (k + 1))" and "a \<noteq> k"
      using len by (auto simp: diff_diff_add)
    then show ?thesis using out [of a] by simp
  qed
qed

lemma itoa_loop_eq:
  assumes "2 \<le> radix" and "radix \<le> 36"
  shows "\<exists>b. itoa_loop v radix buf k =
        Some (Ok (b, k + of_nat (length (digits (unat radix) (unat v))))) \<and>
      holds_digits buf k (digits (unat radix) (unat v)) b"
proof (induction "unat v" arbitrary: v buf k rule: less_induct)
  case less
  have r: "2 \<le> unat radix" "unat radix \<le> 36" using assms by (auto simp: word_le_nat_alt)
  show ?case
  proof (cases "v = 0")
    case True
    then show ?thesis by (subst itoa_loop.simps) (simp add: holds_digits_def)
  next
    case False
    define d where "d = unat (v mod radix)"
    have d: "d = unat v mod unat radix" "d < 36"
      using r less_le_trans [OF mod_less_divisor [of "unat radix" "unat v"], of 36]
      by (simp_all add: d_def unat_mod_distrib)
    have "unat (v div radix) < unat v"
      using False r by (simp add: unat_div_distrib unat_gt_0)
    from less.hyps [OF this, of "buf(k := itoa_lookup ! d)" "k + 1"] obtain b where
      loop: "itoa_loop (v div radix) radix (buf(k := itoa_lookup ! d)) (k + 1) =
        Some (Ok (b, k + 1 + of_nat (length (digits (unat radix) (unat (v div radix))))))"
      and b: "holds_digits (buf(k := itoa_lookup ! d)) (k + 1) (digits (unat radix) (unat (v div radix))) b"
      by blast
    have len: "length (digits (unat radix) (unat (v div radix))) < 2 ^ 31"
      using digits_length [OF r(1), of "unat (v div radix)" 32] unat_u32_lt [of "v div radix"] by simp
    have ds: "digits (unat radix) (unat v) = d # digits (unat radix) (unat (v div radix))"
      using False r d by (subst digits.simps) (simp add: unat_div_distrib unat_0_iff)
    have "0 < v" "radix \<noteq> 0" using False r by (auto simp: word_gt_0)
    then show ?thesis
      using loop d holds_digits_Cons [OF b len] unfolding ds
      by (subst itoa_loop.simps) (simp add: d_def add.assoc add.commute)
  qed
qed

lemma parse_number_digits:
  assumes "2 \<le> r" and "r \<le> 36"
  shows "parse_number r (map (\<lambda>d. itoa_lookup ! d) (rev (digits r v))) = v"
proof -
  have "foldr (\<lambda>d a. a * r + digit_value (itoa_lookup ! d)) (digits r v) 0 =
      foldr (\<lambda>d a. a * r + d) (digits r v) 0"
    by (intro foldr_cong refl)
      (simp add: digit_value_lookup less_le_trans [OF digits_less [OF assms(1)] assms(2)])
  then show ?thesis
    using digits_sum [OF assms(1), of v]
    by (simp add: parse_number_def foldl_conv_foldr rev_map foldr_map comp_def)
qed

lemma itoa_string:
  assumes "2 \<le> radix" and "radix \<le> 36" and "v \<noteq> 0"
  defines "ds \<equiv> digits (unat radix) (unat v)"
  shows "\<exists>s. itoa v buf radix = Ok s \<and> is_cstr s (length ds) \<and>
      bytes s (length ds) = map (\<lambda>d. itoa_lookup ! d) (rev ds)"
proof -
  have r: "2 \<le> unat radix" "unat radix \<le> 36" using assms by (auto simp: word_le_nat_alt)
  have len: "length ds \<le> 32"
    unfolding ds_def using r(1) unat_u32_lt [of v] by (intro digits_length) auto
  have dig: "\<forall>j<length ds. ds ! j < 36"
    using digits_less [OF r(1), of _ "unat v"] r(2) nth_mem unfolding ds_def by fastforce
  obtain b where loop: "itoa_loop v radix buf 0 = Some (Ok (b, of_nat (length ds)))"
    and b: "holds_digits buf 0 ds b"
    using itoa_loop_eq [OF assms(1,2), of v buf 0] by (auto simp: ds_def)
  let ?t = "b(of_nat (length ds) := 0)"
  have t: "?t (of_nat j) = itoa_lookup ! (ds ! j)" if "j < length ds" for j
    using that b len by (auto simp: holds_digits_def of_nat_u32_eq_iff)
  then have str: "is_cstr ?t (length ds)"
    using len dig digit_value_lookup by (auto simp: is_cstr_def)
  define s where "s = (\<lambda>i. if unat i < length ds then ?t (of_nat (length ds - 1 - unat i)) else ?t i)"
  have "itoa v buf radix = Ok s"
    using strrev_eq [OF str] len loop assms(3) by (simp add: itoa_def s_def)
  moreover have s: "s (of_nat i) = itoa_lookup ! (rev ds ! i)" if "i < length ds" for i
    using that len t [of "length ds - 1 - i"] by (simp add: s_def rev_nth unat_of_nat_u32)
  moreover have "is_cstr s (length ds)"
    using s len dig digit_value_lookup
    by (auto simp: is_cstr_def rev_nth) (simp add: s_def unat_of_nat_u32)
  ultimately show ?thesis by (auto simp: list_eq_iff_nth_eq)
qed

text \<open>
  C39. \<open>itoa\<close> followed by reading the digits back is the identity: for every radix from 2 to 36 and
  every 32-bit value the routine returns a terminated string of 1 to 32 digits, and that string
  denotes the value in that radix.
\<close>
lemma itoa_parse:
  assumes "2 \<le> radix" and "radix \<le> 36"
  shows "\<exists>s n. itoa v buf radix = Ok s \<and> is_cstr s n \<and> 0 < n \<and> n \<le> 32 \<and>
      parse_number (unat radix) (bytes s n) = unat v"
proof (cases "v = 0")
  case True
  define s where "s = buf(0 := of_char CHR ''0'', 1 := 0)"
  have "itoa v buf radix = Ok s" using True by (simp add: itoa_def s_def)
  moreover have "is_cstr s 1" by (simp add: is_cstr_def s_def)
  moreover have "parse_number (unat radix) (bytes s 1) = unat v"
    using True by (simp add: parse_number_def bytes_def s_def digit_value_def)
  ultimately show ?thesis by (intro exI [of _ s] exI [of _ 1]) simp
next
  case False
  let ?ds = "digits (unat radix) (unat v)"
  have r: "2 \<le> unat radix" "unat radix \<le> 36" using assms by (auto simp: word_le_nat_alt)
  have "length ?ds \<le> 32" using r(1) unat_u32_lt [of v] by (intro digits_length) auto
  moreover have "?ds \<noteq> []" using False r by (subst digits.simps) (simp add: unat_0_iff)
  ultimately show ?thesis
    using itoa_string [OF assms False, of buf] parse_number_digits [OF r, of "unat v"]
    by (metis length_greater_0_conv)
qed

theorem itoa_parse_witness:
  "\<exists>s n. itoa 0xBEEF (\<lambda>_. 0xCC) 16 = Ok s \<and> is_cstr s n \<and> 0 < n \<and> n \<le> 32 \<and>
     parse_number (unat (16 :: u32)) (bytes s n) = unat (0xBEEF :: u32)"
  by (rule itoa_parse) simp_all

text \<open>
  C40. \<open>strlen\<close> returns \<open>n\<close> exactly when \<open>n\<close> is the index of the first NUL byte, and its loop runs
  forever exactly when the memory it walks through holds no NUL byte.
\<close>
theorem strlen_correct:
  "(strlen s = Some n \<longleftrightarrow> is_cstr s (unat n)) \<and> (strlen s = None \<longleftrightarrow> (\<forall>i. s i \<noteq> 0))"
  by (simp add: strlen_iff strlen_None_iff)

text \<open>
  \<open>strncpy\<close> fills exactly the \<open>n\<close> bytes of the destination: the string up to its end or up to
  \<open>n\<close> bytes, then zeros; no other byte changes. When the source has \<open>n\<close> or more bytes there is
  no terminator.
\<close>
theorem strncpy_correct:
  assumes "\<forall>i<l. m (src + of_nat i) \<noteq> 0" and "l \<le> unat n"
    and "l = unat n \<or> m (src + of_nat l) = 0" and "disjoint_runs dest (unat n) src (Suc l)"
  shows "strncpy m dest src n = blit m dest (unat n) (\<lambda>i. if unat i < l then ptr m src i else 0)"
  using assms by (rule strncpy_eq)

theorem strncpy_correct_witness:
  "strncpy ((\<lambda>_. 0)(100 := 65, 101 := 66)) 200 100 3 =
     blit ((\<lambda>_. 0)(100 := 65, 101 := 66)) 200 (unat (3 :: u32))
       (\<lambda>i. if unat i < 2 then ptr ((\<lambda>_. 0)(100 := 65, 101 := 66)) 100 i else 0)"
  by (rule strncpy_correct) (auto simp: disjoint_runs_def less_2_cases_iff)

end
