(* ===== verification/Screen.thy ===== *)
theory Screen
  imports Machine Lib_Memory Lib_Strings
begin

text \<open>
  The terminal half of \<open>student-distrib/lib.c\<close>: three text screens of 25 rows and 80 columns, each
  with its own 4KB video buffer, the write position, the position where the current command line
  starts, and the active terminal whose buffer is shown. The state holds the \<open>static\<close> variables of
  that file; a position array is a function of the terminal number (0, 1 or 2).
\<close>

definition VIDEO :: u32 where "VIDEO = 0xB8000"
definition VIDEO_BUF1 :: u32 where "VIDEO_BUF1 = 0x01000"
definition VIDEO_BUF2 :: u32 where "VIDEO_BUF2 = 0x03000"
definition VIDEO_BUF3 :: u32 where "VIDEO_BUF3 = 0x05000"
definition ATTRIB :: u8 where "ATTRIB = 7"
definition BLANK :: u8 where "BLANK = 32"
abbreviation NUM_COLS :: int where "NUM_COLS \<equiv> 80"
abbreviation NUM_ROWS :: int where "NUM_ROWS \<equiv> 25"

lemmas video_defs = VIDEO_def VIDEO_BUF1_def VIDEO_BUF2_def VIDEO_BUF3_def

definition video_buff :: "u32 \<Rightarrow> u32" where
  "video_buff tty = [VIDEO_BUF1, VIDEO_BUF2, VIDEO_BUF3] ! unat tty"

text \<open>
  The positions are signed 32-bit \<open>int\<close>s in C. They are mathematical integers here: they are only ever set, or changed by one, and C
  leaves the overflow of an \<open>int\<close> undefined, so that both agree wherever the C code is defined.
\<close>

record lib_state = machine +
  process_term_number :: u32
  active_term :: u32
  screen_x :: "u32 \<Rightarrow> int"
  screen_y :: "u32 \<Rightarrow> int"
  command_x :: "u32 \<Rightarrow> int"
  command_y :: "u32 \<Rightarrow> int"

section \<open>Terminal selection and positions\<close>

definition set_process_term_number :: "u32 \<Rightarrow> 'a lib_state_scheme \<Rightarrow> 'a lib_state_scheme" where
  "set_process_term_number v s = (if v < 3 then s\<lparr>process_term_number := v\<rparr> else s)"

definition set_active_term :: "u32 \<Rightarrow> 'a lib_state_scheme \<Rightarrow> 'a lib_state_scheme" where
  "set_active_term v s = (if v < 3 then s\<lparr>active_term := v\<rparr> else s)"

definition get_active_term :: "'a lib_state_scheme \<Rightarrow> u32" where
  "get_active_term s = active_term s"

text \<open>\<open>uint16_t position\<close> of the hardware cursor, written to the VGA ports low byte first.\<close>

definition update_cursor :: "int \<Rightarrow> 'a lib_state_scheme \<Rightarrow> 'a lib_state_scheme" where
  "update_cursor x s =
     (let t = active_term s;
          position = word_of_int (command_y s t * NUM_COLS + command_x s t + x) :: u16;
          s = outb 0x0F 0x3D4 s;
          s = outb (ucast (position AND 0xFF)) 0x3D5 s;
          s = outb 0x0E 0x3D4 s
      in outb (ucast (drop_bit 8 position AND 0xFF)) 0x3D5 s)"

definition carriage_return :: "'a lib_state_scheme \<Rightarrow> 'a lib_state_scheme" where
  "carriage_return s =
     (let t = active_term s in s\<lparr>screen_x := (screen_x s)(t := command_x s t),
        screen_y := (screen_y s)(t := command_y s t)\<rparr>)"

definition set_command_location :: "u32 \<Rightarrow> 'a lib_state_scheme \<Rightarrow> 'a lib_state_scheme" where
  "set_command_location tty s =
     s\<lparr>command_x := (command_x s)(tty := screen_x s tty),
       command_y := (command_y s)(tty := screen_y s tty)\<rparr>"

section \<open>Clearing, scrolling and loading\<close>

text \<open>Address of a screen cell: \<open>buffer + ((NUM_COLS*y + x) << 1)\<close>; its attribute byte follows.\<close>

definition cell_addr :: "u32 \<Rightarrow> int \<Rightarrow> int \<Rightarrow> u32" where
  "cell_addr base x y = base + word_of_int (2 * (NUM_COLS * y + x))"

definition put_cell :: "u32 \<Rightarrow> u8 \<Rightarrow> memory \<Rightarrow> memory" where
  "put_cell a c m = m(a := c, a + 1 := ATTRIB)"

definition clear_buffer :: "u32 \<Rightarrow> memory \<Rightarrow> memory" where
  "clear_buffer base m = fold (\<lambda>i. put_cell (base + of_nat (2 * i)) BLANK) [0..<2000] m"

definition clear :: "'a lib_state_scheme \<Rightarrow> 'a lib_state_scheme" where
  "clear s = s\<lparr>mem := clear_buffer (video_buff (active_term s)) (clear_buffer VIDEO (mem s))\<rparr>"

definition clear_the_screen :: "'a lib_state_scheme \<Rightarrow> 'a lib_state_scheme" where
  "clear_the_screen s =
     (let s = clear s; t = active_term s
      in update_cursor 0 (s\<lparr>screen_x := (screen_x s)(t := 0), screen_y := (screen_y s)(t := 0),
           command_x := (command_x s)(t := 0), command_y := (command_y s)(t := 0)\<rparr>))"

definition load_video_memory :: "u32 \<Rightarrow> 'a lib_state_scheme \<Rightarrow> 'a lib_state_scheme" where
  "load_video_memory new_terminal s =
     update_cursor 0 (s\<lparr>mem := memcpy (mem s) VIDEO (video_buff new_terminal) SZ_4KB\<rparr>)"

definition scroll_row :: "u32 \<Rightarrow> nat \<Rightarrow> memory \<Rightarrow> memory" where
  "scroll_row base y m =
     fold (\<lambda>x m. let d = base + of_nat (2 * (80 * y + x)); e = base + of_nat (2 * (80 * (y + 1) + x));
                     m = m(d := m e)
                 in m(d + 1 := m (e + 1))) [0..<80] m"

definition scroll_buffer :: "u32 \<Rightarrow> memory \<Rightarrow> memory" where
  "scroll_buffer base m =
     fold (\<lambda>x. put_cell (base + of_nat (2 * (80 * 24 + x))) BLANK) [0..<80]
       (fold (scroll_row base) [0..<24] m)"

definition scrolling :: "u32 \<Rightarrow> 'a lib_state_scheme \<Rightarrow> 'a lib_state_scheme" where
  "scrolling tty s =
     (let s = (if screen_x s tty = 0 \<and> screen_y s tty = 24
               then s\<lparr>command_y := (command_y s)(tty := command_y s tty - 1)\<rparr> else s)
      in s\<lparr>mem := scroll_buffer (video_buff tty) (mem s)\<rparr>)"

definition new_line :: "'a lib_state_scheme \<Rightarrow> 'a lib_state_scheme" where
  "new_line s =
     (let t = active_term s; s = s\<lparr>screen_x := (screen_x s)(t := 0)\<rparr>
      in if screen_y s t < NUM_ROWS - 1 then s\<lparr>screen_y := (screen_y s)(t := screen_y s t + 1)\<rparr>
         else scrolling t s)"

section \<open>Printing characters\<close>

definition put_here :: "u8 \<Rightarrow> u32 \<Rightarrow> 'a lib_state_scheme \<Rightarrow> 'a lib_state_scheme" where
  "put_here c tty s =
     s\<lparr>mem := put_cell (cell_addr (video_buff tty) (screen_x s tty) (screen_y s tty)) c (mem s)\<rparr>"

definition advance_line :: "u32 \<Rightarrow> 'a lib_state_scheme \<Rightarrow> 'a lib_state_scheme" where
  "advance_line tty s =
     (if screen_y s tty < NUM_ROWS - 1 then s\<lparr>screen_y := (screen_y s)(tty := screen_y s tty + 1)\<rparr>
      else scrolling tty s)"

definition putc :: "u8 \<Rightarrow> u32 \<Rightarrow> 'a lib_state_scheme \<Rightarrow> 'a lib_state_scheme" where
  "putc c tty s =
     (if c = 10 \<or> c = 13 then
        (let s = advance_line tty s in s\<lparr>screen_x := (screen_x s)(tty := 0)\<rparr>)
      else if c = 0 then put_here c tty s
      else
        (let s = put_here c tty s; s = s\<lparr>screen_x := (screen_x s)(tty := screen_x s tty + 1)\<rparr>
         in if screen_x s tty > 79
            then advance_line tty (s\<lparr>screen_x := (screen_x s)(tty := 0)\<rparr>) else s))"

definition delc :: "u32 \<Rightarrow> 'a lib_state_scheme \<Rightarrow> 'a lib_state_scheme" where
  "delc tty s =
     (let s = put_here BLANK tty s
      in if screen_x s tty = 0 then
           (if screen_y s tty = 0 then s
            else s\<lparr>screen_x := (screen_x s)(tty := NUM_COLS - 1),
                   screen_y := (screen_y s)(tty := screen_y s tty - 1)\<rparr>)
         else s\<lparr>screen_x := (screen_x s)(tty := screen_x s tty - 1)\<rparr>)"

definition placec :: "u8 \<Rightarrow> u32 \<Rightarrow> 'a lib_state_scheme \<Rightarrow> 'a lib_state_scheme" where
  "placec c tty s =
     (if c = 10 \<or> c = 13
      then s\<lparr>screen_y := (screen_y s)(tty := screen_y s tty + 1), screen_x := (screen_x s)(tty := 0)\<rparr>
      else put_here c tty s)"

text \<open>\<open>puts\<close> on a string object \<open>str\<close> outside video memory.\<close>

partial_function (option) puts_loop ::
  "cstr \<Rightarrow> u32 \<Rightarrow> u32 \<Rightarrow> 'a lib_state_scheme \<Rightarrow> (u32 \<times> 'a lib_state_scheme) option" where
  "puts_loop str tty index s =
     (if str index \<noteq> 0 then puts_loop str tty (index + 1) (putc (str index) tty s)
      else Some (index, s))"

definition puts :: "cstr \<Rightarrow> u32 \<Rightarrow> 'a lib_state_scheme \<Rightarrow> (u32 \<times> 'a lib_state_scheme) outcome" where
  "puts str tty s = of_loop (puts_loop str tty 0 s)"

text \<open>\<open>test_interrupts\<close> increments every character cell of video memory.\<close>

definition test_interrupts :: "'a lib_state_scheme \<Rightarrow> 'a lib_state_scheme" where
  "test_interrupts s =
     s\<lparr>mem := fold (\<lambda>i m. m(VIDEO + of_nat (2 * i) := m (VIDEO + of_nat (2 * i)) + 1)) [0..<2000] (mem s)\<rparr>"

section \<open>Buffers as runs of bytes\<close>

definition blank_byte :: "u32 \<Rightarrow> u8" where
  "blank_byte j = (if even (unat j) then BLANK else ATTRIB)"

lemma blit_put_cell:
  assumes "2 * i + 2 \<le> 2 ^ 32"
  shows "put_cell (d + of_nat (2 * i)) BLANK (blit m d (2 * i) blank_byte) =
     blit m d (2 * Suc i) blank_byte"
proof -
  have step: "(blit m d (2 * i + j) blank_byte)(d + of_nat (2 * i + j) := blank_byte (of_nat (2 * i + j)))
      = blit m d (Suc (2 * i + j)) blank_byte" if "j < 2" for j
    using that assms by (intro blit_Suc) simp
  have "blank_byte (of_nat (2 * i + 0)) = BLANK" and "blank_byte (of_nat (2 * i + 1)) = ATTRIB"
    using assms by (simp_all add: blank_byte_def unat_of_nat_u32 del: of_nat_add of_nat_mult of_nat_Suc)
  then show ?thesis
    using step [of 0] step [of 1] by (simp add: put_cell_def ac_simps)
qed

lemma fold_put_cell:
  "2 * n \<le> 2 ^ 32 \<Longrightarrow> fold (\<lambda>i. put_cell (d + of_nat (2 * i)) BLANK) [0..<n] m = blit m d (2 * n) blank_byte"
  by (induction n) (simp_all del: of_nat_mult add: blit_put_cell [simplified])

lemma clear_buffer_eq: "clear_buffer base m = blit m base 4000 blank_byte"
  using fold_put_cell [of 2000 base m] by (simp add: clear_buffer_def)

definition scroll_cell :: "u32 \<Rightarrow> nat \<Rightarrow> memory \<Rightarrow> memory" where
  "scroll_cell base i m =
     (let d = base + of_nat (2 * i); e = base + of_nat (2 * (80 + i)); m = m(d := m e)
      in m(d + 1 := m (e + 1)))"

lemma scroll_row_cells: "scroll_row base y m = fold (scroll_cell base) [80 * y..<80 * Suc y] m"
proof -
  have "[80 * y..<80 * Suc y] = map (\<lambda>x. x + 80 * y) [0..<80]"
    by (subst map_add_upt) (simp add: add.commute)
  then have "fold (scroll_cell base) [80 * y..<80 * Suc y] m =
      fold (\<lambda>x. scroll_cell base (x + 80 * y)) [0..<80] m"
    by (simp only: fold_map comp_def)
  moreover have "x + 80 * y = 80 * y + x" and "80 + (80 * y + x) = 80 * (y + 1) + x" for x
    by simp_all
  ultimately show ?thesis
    by (simp only: scroll_row_def scroll_cell_def [abs_def])
qed

lemma scroll_rows_cells: "fold (scroll_row base) [0..<n] m = fold (scroll_cell base) [0..<80 * n] m"
proof (induction n)
  case 0
  then show ?case by simp
next
  case (Suc n)
  have "[0..<80 * Suc n] = [0..<80 * n] @ [80 * n..<80 * Suc n]"
    using upt_add_eq_append [of 0 "80 * n" 80] by (simp add: add.commute)
  then show ?case using Suc by (simp add: scroll_row_cells)
qed

lemma blit_scroll_cell:
  assumes "i < 2000"
  shows "scroll_cell base i (blit m base (2 * i) (\<lambda>j. m (base + 160 + j))) =
     blit m base (2 * Suc i) (\<lambda>j. m (base + 160 + j))"
proof -
  let ?f = "\<lambda>j. m (base + 160 + j)" and ?B = "\<lambda>k. blit m base k (\<lambda>j. m (base + 160 + j))"
  have step: "(?B (2 * i + j))(base + of_nat (2 * i + j) := ?f (of_nat (2 * i + j))) = ?B (Suc (2 * i + j))"
    if "j < 2" for j
    using that assms by (intro blit_Suc) simp
  have src: "?B k (base + of_nat (2 * (80 + i) + j)) = ?f (of_nat (2 * i + j))"
    if "j < 2" "k \<le> 2 * i + 1" for j k
  proof -
    have "unat (base + of_nat (2 * (80 + i) + j) - base) = 2 * (80 + i) + j"
      using that assms by (simp add: unat_of_nat_u32 del: of_nat_add of_nat_mult)
    then have "?B k (base + of_nat (2 * (80 + i) + j)) = m (base + of_nat (2 * (80 + i) + j))"
      using that by (intro blit_outside) simp
    then show ?thesis by (simp add: algebra_simps)
  qed
  have m1: "(?B (2 * i))(base + of_nat (2 * i) := ?B (2 * i) (base + of_nat (2 * (80 + i)))) = ?B (Suc (2 * i))"
    using step [of 0] src [of 0 "2 * i"] by simp
  have m2: "?B (Suc (2 * i)) (base + of_nat (2 * (80 + i)) + 1) = ?f (of_nat (2 * i + 1))"
    using src [of 1 "Suc (2 * i)"] by (simp add: ac_simps)
  show ?thesis
    unfolding scroll_cell_def Let_def m1 m2 using step [of 1] by (simp add: ac_simps)
qed

lemma fold_scroll_cell:
  "n \<le> 2000 \<Longrightarrow> fold (scroll_cell base) [0..<n] m = blit m base (2 * n) (\<lambda>j. m (base + 160 + j))"
  by (induction n) (simp_all add: blit_scroll_cell [simplified])

text \<open>Scrolling as one run of bytes moved up by a row, then a blank last row.\<close>

lemma scroll_buffer_eq:
  "scroll_buffer base m =
     blit (blit m base 3840 (\<lambda>j. m (base + 160 + j))) (base + 3840) 160 blank_byte"
proof -
  have "base + of_nat (2 * (80 * 24 + x)) = base + 3840 + of_nat (2 * x)" for x
    by (simp add: algebra_simps)
  then have "scroll_buffer base m =
      fold (\<lambda>x. put_cell (base + 3840 + of_nat (2 * x)) BLANK) [0..<80] (fold (scroll_row base) [0..<24] m)"
    by (simp only: scroll_buffer_def)
  then show ?thesis
    using fold_put_cell [of 80 "base + 3840"] by (simp add: scroll_rows_cells fold_scroll_cell)
qed

section \<open>The screen as a grid of characters\<close>

text \<open>What one video buffer shows: 25 rows of 80 characters.\<close>

definition cell_off :: "nat \<Rightarrow> nat \<Rightarrow> u32" where
  "cell_off r c = of_nat (2 * (80 * r + c))"

definition grid_row :: "memory \<Rightarrow> u32 \<Rightarrow> nat \<Rightarrow> u8 list" where
  "grid_row m base r = map (\<lambda>c. m (base + cell_off r c)) [0..<80]"

definition grid :: "memory \<Rightarrow> u32 \<Rightarrow> u8 list list" where
  "grid m base = map (grid_row m base) [0..<25]"

lemma grid_simps [simp]:
  "length (grid_row m base r) = 80" "c < 80 \<Longrightarrow> grid_row m base r ! c = m (base + cell_off r c)"
  "length (grid m base) = 25" "r < 25 \<Longrightarrow> grid m base ! r = grid_row m base r"
  by (simp_all add: grid_row_def grid_def)

lemma grid_eqI:
  assumes "length g = 25" and "\<And>r. r < 25 \<Longrightarrow> length (g ! r) = 80"
    and "\<And>r c. r < 25 \<Longrightarrow> c < 80 \<Longrightarrow> m (base + cell_off r c) = g ! r ! c"
  shows "grid m base = g"
  using assms by (auto simp: list_eq_iff_nth_eq)

lemma unat_cell_off: "r < 25 \<Longrightarrow> c < 80 \<Longrightarrow> unat (cell_off r c) = 2 * (80 * r + c)"
  by (simp add: cell_off_def unat_of_nat_u32 del: of_nat_mult of_nat_add)

lemma cell_off_inj:
  assumes "r < 25" "c < 80" "r' < 25" "c' < 80"
  shows "cell_off r c = cell_off r' c' \<longleftrightarrow> r = r' \<and> c = c'"
proof -
  have "cell_off r c = cell_off r' c' \<longleftrightarrow> 2 * (80 * r + c) = 2 * (80 * r' + c')"
    unfolding cell_off_def using assms by (intro of_nat_u32_eq_iff) auto
  also have "\<dots> \<longleftrightarrow> r = r' \<and> c = c'"
  proof
    assume "2 * (80 * r + c) = 2 * (80 * r' + c')"
    then have eq: "c + 80 * r = c' + 80 * r'" by simp
    have "(c + 80 * r) div 80 = r" "(c' + 80 * r') div 80 = r'" using assms by simp_all
    then show "r = r' \<and> c = c'" using eq by simp
  qed simp
  finally show ?thesis .
qed

lemma cell_off_neq_Suc:
  assumes "r < 25" "c < 80" "r' < 25" "c' < 80"
  shows "cell_off r c \<noteq> cell_off r' c' + 1"
proof -
  have "cell_off r c = of_nat (Suc (2 * (80 * r' + c'))) \<longleftrightarrow> 2 * (80 * r + c) = Suc (2 * (80 * r' + c'))"
    unfolding cell_off_def using assms by (intro of_nat_u32_eq_iff) auto
  also have "\<dots> \<longleftrightarrow> False" by (simp only: double_not_eq_Suc_double)
  finally show ?thesis by (simp add: cell_off_def add.commute)
qed

lemma grid_put_cell:
  assumes "r < 25" and "c < 80"
  shows "grid (put_cell (base + cell_off r c) ch m) base = (grid m base)[r := (grid m base ! r)[c := ch]]"
  using assms
  by (intro grid_eqI) (auto simp: put_cell_def cell_off_inj cell_off_neq_Suc nth_list_update add.assoc)

lemma scroll_buffer_at:
  assumes "r < 25" and "c < 80"
  shows "scroll_buffer base m (base + cell_off r c) =
     (if r < 24 then m (base + cell_off (Suc r) c) else BLANK)"
proof (cases "r < 24")
  case True
  have off: "cell_off r c + 160 = cell_off (Suc r) c"
    by (simp add: cell_off_def algebra_simps)
  have u: "unat (cell_off r c) < 3840" using True assms by (simp add: unat_cell_off)
  then have "\<not> unat (cell_off r c - 3840) < 160"
    by (simp add: unat_sub_if_size word_size)
  then show ?thesis
    using True u off by (simp add: scroll_buffer_eq blit_def algebra_simps)
next
  case False
  then have r: "r = 24" using assms by simp
  have "cell_off 24 c - 3840 = of_nat (2 * c)" by (simp add: cell_off_def)
  moreover have "unat (of_nat (2 * c) :: u32) = 2 * c"
    using assms by (intro unat_of_nat_u32) simp
  ultimately show ?thesis
    using r assms by (simp add: scroll_buffer_eq blit_def blank_byte_def diff_diff_add [symmetric])
qed

lemma grid_scroll: "grid (scroll_buffer base m) base = tl (grid m base) @ [replicate 80 BLANK]"
  by (intro grid_eqI) (auto simp: scroll_buffer_at nth_append nth_tl less_Suc_eq)

lemma grid_cong:
  assumes "\<And>j. j < 4000 \<Longrightarrow> m' (base + of_nat j) = m (base + of_nat j)"
  shows "grid m' base = grid m base"
proof (rule grid_eqI)
  fix r c :: nat
  assume rc: "r < 25" "c < 80"
  then have "2 * (80 * r + c) < 4000" by simp
  then have "m' (base + cell_off r c) = m (base + cell_off r c)"
    unfolding cell_off_def by (rule assms)
  then show "m' (base + cell_off r c) = grid m base ! r ! c"
    using rc by simp
qed simp_all

section \<open>Positions stay on the screen\<close>

definition on_screen :: "u32 \<Rightarrow> 'a lib_state_scheme \<Rightarrow> bool" where
  "on_screen t s \<longleftrightarrow> 0 \<le> screen_x s t \<and> screen_x s t < NUM_COLS \<and> 0 \<le> screen_y s t \<and> screen_y s t < NUM_ROWS"

lemma scrolling_simps [simp]:
  "screen_x (scrolling tty s) = screen_x s" "screen_y (scrolling tty s) = screen_y s"
  "command_x (scrolling tty s) = command_x s" "active_term (scrolling tty s) = active_term s"
  "io (scrolling tty s) = io s" "mem (scrolling tty s) = scroll_buffer (video_buff tty) (mem s)"
  by (simp_all add: scrolling_def Let_def)

lemma put_here_simps [simp]:
  "screen_x (put_here c tty s) = screen_x s" "screen_y (put_here c tty s) = screen_y s"
  "command_x (put_here c tty s) = command_x s" "command_y (put_here c tty s) = command_y s"
  "active_term (put_here c tty s) = active_term s" "io (put_here c tty s) = io s"
  "mem (put_here c tty s) = put_cell (cell_addr (video_buff tty) (screen_x s tty) (screen_y s tty)) c (mem s)"
  by (simp_all add: put_here_def)

lemma advance_line_simps [simp]:
  "screen_x (advance_line tty s) = screen_x s"
  "screen_y (advance_line tty s) =
     (if screen_y s tty < 24 then (screen_y s)(tty := screen_y s tty + 1) else screen_y s)"
  "mem (advance_line tty s) =
     (if screen_y s tty < 24 then mem s else scroll_buffer (video_buff tty) (mem s))"
  "active_term (advance_line tty s) = active_term s"
  by (simp_all add: advance_line_def)

lemma putc_on_screen: "on_screen t s \<Longrightarrow> on_screen t (putc c tty s)"
  by (auto simp: on_screen_def putc_def Let_def)

lemma delc_on_screen: "on_screen t s \<Longrightarrow> on_screen t (delc tty s)"
  by (auto simp: on_screen_def delc_def Let_def)

lemma new_line_on_screen: "on_screen t s \<Longrightarrow> on_screen t (new_line s)"
  by (auto simp: on_screen_def new_line_def Let_def)

lemma clear_the_screen_on_screen: "on_screen t s \<Longrightarrow> on_screen t (clear_the_screen s)"
  by (auto simp: on_screen_def clear_the_screen_def clear_def update_cursor_def outb_def Let_def)

section \<open>Refinement to a text terminal\<close>

record text_term =
  tt_rows :: "u8 list list"
  tt_col :: nat
  tt_row :: nat

definition abs_term :: "u32 \<Rightarrow> 'a lib_state_scheme \<Rightarrow> text_term" where
  "abs_term t s = \<lparr>tt_rows = grid (mem s) (video_buff t), tt_col = nat (screen_x s t),
     tt_row = nat (screen_y s t)\<rparr>"

definition term_write :: "u8 \<Rightarrow> text_term \<Rightarrow> text_term" where
  "term_write c t = t\<lparr>tt_rows := (tt_rows t)[tt_row t := (tt_rows t ! tt_row t)[tt_col t := c]]\<rparr>"

definition term_down :: "text_term \<Rightarrow> text_term" where
  "term_down t = (if tt_row t < 24 then t\<lparr>tt_row := Suc (tt_row t)\<rparr>
     else t\<lparr>tt_rows := tl (tt_rows t) @ [replicate 80 BLANK]\<rparr>)"

definition term_putc :: "u8 \<Rightarrow> text_term \<Rightarrow> text_term" where
  "term_putc c t =
     (if c = 10 \<or> c = 13 then (term_down t)\<lparr>tt_col := 0\<rparr>
      else if c = 0 then term_write c t
      else if tt_col t = 79 then term_down (term_write c t\<lparr>tt_col := 0\<rparr>)
      else (term_write c t)\<lparr>tt_col := Suc (tt_col t)\<rparr>)"

lemma cell_addr_on_screen:
  "on_screen t s \<Longrightarrow> cell_addr base (screen_x s t) (screen_y s t) =
     base + cell_off (nat (screen_y s t)) (nat (screen_x s t))"
  by (simp add: on_screen_def cell_addr_def cell_off_def)

lemma grid_put_here:
  assumes "on_screen t s"
  shows "grid (put_cell (cell_addr base (screen_x s t) (screen_y s t)) c m) base =
     (grid m base)[nat (screen_y s t) := (grid m base ! nat (screen_y s t))[nat (screen_x s t) := c]]"
  using assms by (simp add: cell_addr_on_screen grid_put_cell on_screen_def nat_less_iff)

text \<open>On a terminal whose position is on the screen, \<open>putc\<close> acts as the abstract terminal does.\<close>

lemma putc_refines:
  assumes "on_screen tty s"
  shows "abs_term tty (putc c tty s) = term_putc c (abs_term tty s)"
  using assms unfolding abs_term_def term_putc_def putc_def
  by (auto simp: on_screen_def Let_def term_write_def term_down_def grid_put_here [OF assms] grid_scroll
      nat_less_iff nat_add_distrib)

section \<open>Each terminal writes its own buffer only\<close>

lemma scroll_buffer_outside:
  assumes "4000 \<le> unat (a - base)"
  shows "scroll_buffer base m a = m a"
proof -
  have "unat (a - (base + 3840)) = unat (a - base) - 3840"
    using assms by (simp add: diff_diff_add [symmetric] unat_sub_if_size)
  then have "\<not> unat (a - (base + 3840)) < 160" using assms by simp
  then show ?thesis using assms by (simp add: scroll_buffer_eq blit_def)
qed

lemma put_cell_outside:
  assumes "on_screen t s" and "4000 \<le> unat (a - base)"
  shows "put_cell (cell_addr base (screen_x s t) (screen_y s t)) c m a = m a"
proof -
  define k where "k = 2 * (80 * nat (screen_y s t) + nat (screen_x s t))"
  have k: "k + 1 < 4000" using assms(1) by (auto simp: k_def on_screen_def)
  have "unat (of_nat k :: u32) = k" "unat (of_nat k + 1 :: u32) = k + 1"
    using k by (auto simp: unat_of_nat_u32 unat_Suc_u32)
  then have "a - base \<noteq> of_nat k" "a - base \<noteq> of_nat k + 1" using assms(2) k by auto
  moreover have "cell_addr base (screen_x s t) (screen_y s t) = base + of_nat k"
    unfolding cell_addr_on_screen [OF assms(1)] cell_off_def k_def ..
  ultimately show ?thesis by (auto simp: put_cell_def)
qed

lemma putc_mem_outside:
  assumes "on_screen tty s" and "4000 \<le> unat (a - video_buff tty)"
  shows "mem (putc c tty s) a = mem s a"
  using assms put_cell_outside [OF assms] scroll_buffer_outside [OF assms(2)]
  by (auto simp: putc_def Let_def)

lemma u32_less_3: "(t :: u32) < 3 \<longleftrightarrow> t = 0 \<or> t = 1 \<or> t = 2"
proof
  assume "t < 3"
  then have "unat t < 3" by (simp add: word_less_nat_alt)
  then have "unat t = 0 \<or> unat t = 1 \<or> unat t = 2" by linarith
  then show "t = 0 \<or> t = 1 \<or> t = 2"
    using u32_of_unat [of t] by (elim disjE) (simp_all only: of_nat_0 of_nat_1 of_nat_numeral, auto)
qed auto

lemma video_buffs_disjoint:
  assumes "t < 3" "u < 3" "t \<noteq> u"
  shows "disjoint_runs (video_buff t) 4096 (video_buff u) 4096"
  using assms by (auto simp: u32_less_3 video_buff_def video_defs disjoint_runs_def)

lemma video_disjoint:
  assumes "t < 3"
  shows "disjoint_runs VIDEO 4096 (video_buff t) 4096"
  using assms by (auto simp: u32_less_3 video_buff_def video_defs disjoint_runs_def)

lemma putc_other_terminal:
  assumes "on_screen tty s" and "t < 3" "tty < 3" "t \<noteq> tty"
  shows "abs_term t (putc c tty s) = abs_term t s"
proof -
  have "grid (mem (putc c tty s)) (video_buff t) = grid (mem s) (video_buff t)"
  proof (rule grid_cong)
    fix j :: nat
    assume "j < 4000"
    then have "4096 \<le> unat (video_buff t + of_nat j - video_buff tty)"
      using video_buffs_disjoint [of tty t] assms by (intro disjoint_runs_outside [where k = 4096]) auto
    then show "mem (putc c tty s) (video_buff t + of_nat j) = mem s (video_buff t + of_nat j)"
      using assms(1) by (intro putc_mem_outside) auto
  qed
  moreover have "screen_x (putc c tty s) t = screen_x s t" "screen_y (putc c tty s) t = screen_y s t"
    using assms(4) by (auto simp: putc_def Let_def)
  ultimately show ?thesis by (simp add: abs_term_def)
qed

text \<open>The other operations that store characters or set the position.\<close>

definition command_on_screen :: "u32 \<Rightarrow> 'a lib_state_scheme \<Rightarrow> bool" where
  "command_on_screen t s \<longleftrightarrow> 0 \<le> command_x s t \<and> command_x s t < NUM_COLS \<and> 0 \<le> command_y s t \<and> command_y s t < NUM_ROWS"

lemma screen_ops_outside:
  assumes "on_screen t s" and "4000 \<le> unat (a - video_buff t)"
  shows "mem (delc t s) a = mem s a" "mem (placec c t s) a = mem s a" "active_term s = t \<Longrightarrow> mem (new_line s) a = mem s a"
  using put_cell_outside [OF assms] scroll_buffer_outside [OF assms(2)]
  by (auto simp: delc_def placec_def new_line_def Let_def)

lemma clear_the_screen_outside:
  assumes "4000 \<le> unat (a - video_buff (active_term s))" and "4000 \<le> unat (a - VIDEO)"
  shows "mem (clear_the_screen s) a = mem s a"
  using assms by (simp add: clear_the_screen_def clear_def update_cursor_def outb_def Let_def clear_buffer_eq blit_outside)

lemma placec_on_screen:
  "on_screen t s \<Longrightarrow> on_screen t (placec c tty s) \<longleftrightarrow> \<not> (tty = t \<and> (c = 10 \<or> c = 13) \<and> screen_y s t = 24)"
  by (auto simp: on_screen_def placec_def)

lemma carriage_return_on_screen:
  "on_screen t s \<Longrightarrow> on_screen t (carriage_return s) \<longleftrightarrow> t \<noteq> active_term s \<or> command_on_screen t s"
  by (auto simp: on_screen_def carriage_return_def command_on_screen_def Let_def)

lemma new_lines_last_row:
  assumes "active_term s = t" and "screen_y s t = 24"
  shows "active_term ((new_line ^^ n) s) = t \<and> screen_y ((new_line ^^ n) s) t = 24 \<and> command_y ((new_line ^^ n) s) t = command_y s t - int n"
proof (induction n)
  case (Suc n)
  then show ?case by (simp add: new_line_def Let_def) (simp add: scrolling_def)
qed (simp add: assms)

lemma scrolled_off:
  "active_term s = t \<and> screen_y s t = 24 \<longrightarrow>
     command_y ((new_line ^^ n) s) t = command_y s t - int n \<and>
     (command_y s t < int n \<longrightarrow> \<not> on_screen t (carriage_return ((new_line ^^ n) s)))"
  using new_lines_last_row [of s t n] by (auto simp: on_screen_def carriage_return_def Let_def)

section \<open>Showing a terminal\<close>

lemma memcpy_video:
  assumes "t < 3"
  shows "memcpy m VIDEO (video_buff t) SZ_4KB = blit m VIDEO 4096 (ptr m (video_buff t))"
  using memcpy_eq [of VIDEO SZ_4KB "video_buff t" m] video_disjoint [OF assms] by (simp add: size_defs)

lemma grid_shown:
  assumes "t < 3"
  shows "grid (memcpy m VIDEO (video_buff t) SZ_4KB) VIDEO = grid m (video_buff t)"
proof (rule grid_eqI)
  fix r c :: nat
  assume rc: "r < 25" "c < 80"
  then have "unat (cell_off r c) < 4096" by (simp add: unat_cell_off)
  then show "memcpy m VIDEO (video_buff t) SZ_4KB (VIDEO + cell_off r c) = grid m (video_buff t) ! r ! c"
    using rc by (simp add: memcpy_video [OF assms] blit_def ptr_def)
qed simp_all

lemma update_cursor_simps [simp]:
  "mem (update_cursor x s) = mem s" "screen_x (update_cursor x s) = screen_x s"
  "screen_y (update_cursor x s) = screen_y s" "active_term (update_cursor x s) = active_term s"
  "command_x (update_cursor x s) = command_x s" "command_y (update_cursor x s) = command_y s"
  by (simp_all add: update_cursor_def Let_def outb_def)

lemma clear_buffer_grid: "grid (clear_buffer base m) base = replicate 25 (replicate 80 BLANK)"
  by (intro grid_eqI)
    (auto simp: clear_buffer_eq blit_def unat_cell_off blank_byte_def)

section \<open>Printing a buffer\<close>

interpretation screen_text: refined_by "\<lambda>c. putc c tty" "on_screen tty" "abs_term tty" term_putc
  for tty
  by unfold_locales (auto simp: putc_on_screen putc_refines)

lemma puts_loop_from:
  assumes "is_cstr str n" and "k \<le> n"
  shows "puts_loop str tty (of_nat k) s =
     Some (of_nat n, fold (\<lambda>c. putc c tty) (drop k (bytes str n)) s)"
  using assms(2)
proof (induction "n - k" arbitrary: k s)
  case 0
  then show ?case using assms(1) by (subst puts_loop.simps) (simp add: is_cstr_def)
next
  case (Suc d)
  then have k: "k < n" by simp
  then have "str (of_nat k) \<noteq> 0" and "drop k (bytes str n) = str (of_nat k) # drop (Suc k) (bytes str n)"
    using assms(1) by (auto simp: is_cstr_def Cons_nth_drop_Suc [symmetric])
  then show ?case
    using Suc.hyps(1) [of "Suc k"] Suc.hyps(2) k by (subst puts_loop.simps) (simp add: add.commute)
qed

text \<open>\<open>puts\<close> prints exactly the bytes before the terminator and returns their number.\<close>

lemma puts_eq:
  assumes "is_cstr str n"
  shows "puts str tty s = Ok (of_nat n, fold (\<lambda>c. putc c tty) (bytes str n) s)"
  using puts_loop_from [OF assms, of 0 tty s] by (simp add: puts_def)

section \<open>Properties of the terminals\<close>

text \<open>A machine whose three terminals are at the origin, for evaluations.\<close>

definition blank_lib :: lib_state where
  "blank_lib = \<lparr>mem = (\<lambda>_. 0), io = [], interrupts_on = True, process_term_number = 0, active_term = 0,
     screen_x = (\<lambda>_. 0), screen_y = (\<lambda>_. 0), command_x = (\<lambda>_. 0), command_y = (\<lambda>_. 0)\<rparr>"

lemma fold_putc_other:
  assumes "on_screen tty s" and "t < 3" "tty < 3" "t \<noteq> tty"
  shows "abs_term t (fold (\<lambda>c. putc c tty) cs s) = abs_term t s"
  using assms(1)
proof (induction cs arbitrary: s)
  case (Cons c cs)
  then show ?case using assms(2-) by (simp add: putc_on_screen putc_other_terminal)
qed simp

text \<open>
  \<open>puts\<close> on a terminal whose position is on the screen refines the abstract text terminal
  (characters, line wrap at column 80, scrolling at the last row): the terminal ends as if every
  byte before the terminator had been printed on it, its position is still on the screen, the number
  of bytes is returned, and the other two terminals are untouched.
\<close>
theorem puts_refines:
  assumes "is_cstr str n" and "on_screen tty s" and "tty < 3"
  shows "\<exists>s'. puts str tty s = Ok (of_nat n, s') \<and> on_screen tty s' \<and>
     abs_term tty s' = fold term_putc (bytes str n) (abs_term tty s) \<and>
     (\<forall>t. t < 3 \<and> t \<noteq> tty \<longrightarrow> abs_term t s' = abs_term t s)"
  using assms by (simp add: puts_eq screen_text.fold_inv screen_text.fold_abs fold_putc_other)

theorem puts_refines_witness:
  "\<exists>s'. puts ((\<lambda>_. 0)(0 := 72, 1 := 105)) 1 blank_lib = Ok (of_nat 2, s') \<and> on_screen 1 s' \<and>
     abs_term 1 s' = fold term_putc (bytes ((\<lambda>_. 0)(0 := 72, 1 := 105)) 2) (abs_term 1 blank_lib) \<and>
     (\<forall>t. t < 3 \<and> t \<noteq> 1 \<longrightarrow> abs_term t s' = abs_term t blank_lib)"
  by (rule puts_refines) (auto simp: is_cstr_def less_2_cases_iff on_screen_def blank_lib_def)

text \<open>
  C33. Printing, deleting, starting a new line and clearing keep the write position inside the 25 by 80 screen, and from a
  position inside it they, and \<open>placec\<close>, store only into the 4000 bytes of the terminal's buffer (clearing also into video
  memory). The two operations that set the position differently do not always keep it there: \<open>placec\<close> of a line break on the
  last row leaves the screen, and \<open>carriage_return\<close> goes to the command position, wherever that is. Each new line on the
  last row lowers the row of the command position by one, without a bound, so that after enough of them \<open>carriage_return\<close>
  puts the write position above the buffer.
\<close>
theorem position_on_screen:
  assumes "on_screen t s"
  shows "on_screen t (putc c tty s) \<and> on_screen t (delc tty s) \<and> on_screen t (new_line s) \<and> on_screen t (clear_the_screen s) \<and>
    (\<forall>a. 4000 \<le> unat (a - video_buff t) \<longrightarrow> mem (putc c t s) a = mem s a \<and> mem (delc t s) a = mem s a \<and> mem (placec c t s) a = mem s a \<and>
       (active_term s = t \<longrightarrow> mem (new_line s) a = mem s a \<and> (4000 \<le> unat (a - VIDEO) \<longrightarrow> mem (clear_the_screen s) a = mem s a))) \<and>
    (on_screen t (placec c tty s) \<longleftrightarrow> \<not> (tty = t \<and> (c = 10 \<or> c = 13) \<and> screen_y s t = 24)) \<and>
    (on_screen t (carriage_return s) \<longleftrightarrow> t \<noteq> active_term s \<or> command_on_screen t s) \<and>
    (active_term s = t \<and> screen_y s t = 24 \<longrightarrow>
       command_y ((new_line ^^ n) s) t = command_y s t - int n \<and>
       (command_y s t < int n \<longrightarrow> \<not> on_screen t (carriage_return ((new_line ^^ n) s))))"
  using assms scrolled_off [of s t n]
  by (simp add: putc_on_screen delc_on_screen new_line_on_screen clear_the_screen_on_screen placec_on_screen carriage_return_on_screen
      putc_mem_outside screen_ops_outside clear_the_screen_outside)

theorem position_on_screen_witness:
  "on_screen 2 (putc 65 1 blank_lib) \<and> on_screen 2 (delc 1 blank_lib) \<and> on_screen 2 (new_line blank_lib) \<and>
    on_screen 2 (clear_the_screen blank_lib) \<and> mem (putc 65 2 blank_lib) 0x5FA0 = mem blank_lib 0x5FA0 \<and>
    \<not> on_screen 0 (carriage_return ((new_line ^^ 3) (blank_lib\<lparr>screen_y := (\<lambda>_. 24), command_y := (\<lambda>_. 2)\<rparr>)))"
  using position_on_screen [of 2 blank_lib 65 1 3] position_on_screen [of 2 blank_lib 65 2 3]
    position_on_screen [of 0 "blank_lib\<lparr>screen_y := (\<lambda>_. 24), command_y := (\<lambda>_. 2)\<rparr>" 65 0 3]
  by (simp add: on_screen_def blank_lib_def video_buff_def video_defs)

text \<open>
  Switching to a terminal copies its buffer to video memory: after \<open>load_video_memory\<close> the screen
  shows that terminal's 25 rows, and after \<open>clear\<close> both the screen and the active terminal's buffer
  are blank.
\<close>
theorem shown_terminal:
  assumes "t < 3" and "active_term s < 3"
  shows "grid (mem (load_video_memory t s)) VIDEO = grid (mem s) (video_buff t) \<and>
    grid (mem (clear s)) (video_buff (active_term s)) = replicate 25 (replicate 80 BLANK) \<and>
    grid (mem (clear s)) VIDEO = replicate 25 (replicate 80 BLANK)"
proof -
  have "grid (clear_buffer (video_buff (active_term s)) m) VIDEO = grid m VIDEO" for m
  proof (rule grid_cong)
    fix j :: nat
    assume j: "j < 4000"
    have "disjoint_runs (video_buff (active_term s)) 4096 VIDEO 4096"
      using video_disjoint [OF assms(2)] by (simp add: disjoint_runs_def)
    then have "4096 \<le> unat (VIDEO + of_nat j - video_buff (active_term s))"
      by (rule disjoint_runs_outside) (use j in simp)
    then show "clear_buffer (video_buff (active_term s)) m (VIDEO + of_nat j) = m (VIDEO + of_nat j)"
      by (simp add: clear_buffer_eq blit_outside)
  qed
  then show ?thesis
    using assms by (simp add: load_video_memory_def grid_shown clear_def clear_buffer_grid)
qed

theorem shown_terminal_witness:
  "grid (mem (load_video_memory 2 blank_lib)) VIDEO = grid (mem blank_lib) (video_buff 2) \<and>
    grid (mem (clear blank_lib)) (video_buff (active_term blank_lib)) = replicate 25 (replicate 80 BLANK) \<and>
    grid (mem (clear blank_lib)) VIDEO = replicate 25 (replicate 80 BLANK)"
  by (rule shown_terminal) (simp_all add: blank_lib_def)

end
