(* ===== verification/User_Lib.thy ===== *)
theory User_Lib
  imports Screen
begin

text \<open>
  The support library of the user programs: \<open>syscalls/ece391support.c\<close> (of which
  \<open>fish/ece391support.c\<close> is a copy without \<open>itoa\<close> and \<open>strrev\<close>) and the system call stubs of
  \<open>syscalls/ece391syscall.S\<close>. The library works on the memory of the process; the kernel behind
  \<open>int 0x80\<close> is an argument of every routine that makes a system call.
\<close>

section \<open>System call stubs\<close>

text \<open>What an \<open>int 0x80\<close> does, given the contents of \<open>eax\<close>, \<open>ebx\<close>, \<open>ecx\<close> and \<open>edx\<close>, until it returns to the program.\<close>

type_synonym 's kernel_call = "u32 \<Rightarrow> u32 \<Rightarrow> u32 \<Rightarrow> u32 \<Rightarrow> 's \<Rightarrow> (i32 \<times> 's) outcome"

definition SYS_HALT :: u32 where "SYS_HALT = 1"
definition SYS_EXECUTE :: u32 where "SYS_EXECUTE = 2"
definition SYS_READ :: u32 where "SYS_READ = 3"
definition SYS_WRITE :: u32 where "SYS_WRITE = 4"
definition SYS_OPEN :: u32 where "SYS_OPEN = 5"
definition SYS_CLOSE :: u32 where "SYS_CLOSE = 6"
definition SYS_GETARGS :: u32 where "SYS_GETARGS = 7"
definition SYS_VIDMAP :: u32 where "SYS_VIDMAP = 8"
definition SYS_SET_HANDLER :: u32 where "SYS_SET_HANDLER = 9"

lemmas sysnum_defs = SYS_HALT_def SYS_EXECUTE_def SYS_READ_def SYS_WRITE_def SYS_OPEN_def SYS_CLOSE_def
  SYS_GETARGS_def SYS_VIDMAP_def SYS_SET_HANDLER_def

text \<open>
  A stub loads three words from the stack whatever the number of its parameters; the words beyond the
  parameters, which the kernel ignores, are zero here.
\<close>

definition ece391_halt :: "'s kernel_call \<Rightarrow> u32 \<Rightarrow> 's \<Rightarrow> (i32 \<times> 's) outcome" where
  "ece391_halt K status = K SYS_HALT status 0 0"

definition ece391_execute :: "'s kernel_call \<Rightarrow> u32 \<Rightarrow> 's \<Rightarrow> (i32 \<times> 's) outcome" where
  "ece391_execute K command = K SYS_EXECUTE command 0 0"

definition ece391_read :: "'s kernel_call \<Rightarrow> i32 \<Rightarrow> u32 \<Rightarrow> i32 \<Rightarrow> 's \<Rightarrow> (i32 \<times> 's) outcome" where
  "ece391_read K fd buf nbytes = K SYS_READ fd buf nbytes"

definition ece391_write :: "'s kernel_call \<Rightarrow> i32 \<Rightarrow> u32 \<Rightarrow> i32 \<Rightarrow> 's \<Rightarrow> (i32 \<times> 's) outcome" where
  "ece391_write K fd buf nbytes = K SYS_WRITE fd buf nbytes"

definition ece391_open :: "'s kernel_call \<Rightarrow> u32 \<Rightarrow> 's \<Rightarrow> (i32 \<times> 's) outcome" where
  "ece391_open K name = K SYS_OPEN name 0 0"

definition ece391_close :: "'s kernel_call \<Rightarrow> i32 \<Rightarrow> 's \<Rightarrow> (i32 \<times> 's) outcome" where
  "ece391_close K fd = K SYS_CLOSE fd 0 0"

definition ece391_getargs :: "'s kernel_call \<Rightarrow> u32 \<Rightarrow> i32 \<Rightarrow> 's \<Rightarrow> (i32 \<times> 's) outcome" where
  "ece391_getargs K buf nbytes = K SYS_GETARGS buf nbytes 0"

definition ece391_vidmap :: "'s kernel_call \<Rightarrow> u32 \<Rightarrow> 's \<Rightarrow> (i32 \<times> 's) outcome" where
  "ece391_vidmap K screen_start = K SYS_VIDMAP screen_start 0 0"

definition ece391_set_handler :: "'s kernel_call \<Rightarrow> i32 \<Rightarrow> u32 \<Rightarrow> 's \<Rightarrow> (i32 \<times> 's) outcome" where
  "ece391_set_handler K signum handler = K SYS_SET_HANDLER signum handler 0"

text \<open>The code before \<open>main\<close>: the value that \<open>main\<close> returns is the status of the process.\<close>

definition start_main :: "'s kernel_call \<Rightarrow> ('s \<Rightarrow> (i32 \<times> 's) outcome) \<Rightarrow> 's \<Rightarrow> (i32 \<times> 's) outcome" where
  "start_main K main s = obind (main s) (\<lambda>(eax, s). ece391_halt K eax s)"

section \<open>Loops that make system calls\<close>

text \<open>Sequencing inside a loop: a fault or a call that does not return ends the loop.\<close>

definition lbind :: "'a outcome \<Rightarrow> ('a \<Rightarrow> 'b outcome option) \<Rightarrow> 'b outcome option" where
  "lbind r f = (case r of Ok x \<Rightarrow> f x | Fault e \<Rightarrow> Some (Fault e) | No_Return \<Rightarrow> Some No_Return)"

lemma lbind_simps [simp, outcome_simps]:
  "lbind (Ok x) f = f x" "lbind (Fault e) f = Some (Fault e)" "lbind No_Return f = Some No_Return"
  by (simp_all add: lbind_def)

lemma lbind_mono [partial_function_mono]:
  assumes "\<And>y. option.mono_body (\<lambda>f. C y f)"
  shows "option.mono_body (\<lambda>f. lbind r (\<lambda>y. C y f))"
  using assms by (cases r) (simp_all add: lbind_def option.const_mono)

text \<open>The value of a loop whose body can fault.\<close>

definition loop_value :: "'a outcome option \<Rightarrow> 'a outcome" where
  "loop_value r = obind (of_loop r) id"

lemma loop_value_simps [simp, outcome_simps]: "loop_value (Some x) = x" "loop_value None = No_Return"
  by (simp_all add: loop_value_def)

section \<open>Strings\<close>

partial_function (option) ece391_strlen_loop :: "memory \<Rightarrow> u32 \<Rightarrow> u32 \<Rightarrow> u32 option" where
  "ece391_strlen_loop m s len = (if 0 \<noteq> m s then ece391_strlen_loop m (s + 1) (len + 1) else Some len)"

definition ece391_strlen :: "memory \<Rightarrow> u32 \<Rightarrow> u32 outcome" where
  "ece391_strlen m s = of_loop (ece391_strlen_loop m s 0)"

partial_function (option) ece391_strcpy_loop :: "u32 \<Rightarrow> u32 \<Rightarrow> memory \<Rightarrow> memory option" where
  "ece391_strcpy_loop dst src m =
     (if 0 \<noteq> m src then ece391_strcpy_loop (dst + 1) (src + 1) (m(dst := m src)) else Some (m(dst := m src)))"

definition ece391_strcpy :: "u32 \<Rightarrow> u32 \<Rightarrow> memory \<Rightarrow> memory outcome" where
  "ece391_strcpy dst src m = of_loop (ece391_strcpy_loop dst src m)"

definition ece391_fdputs ::
  "'a machine_scheme kernel_call \<Rightarrow> i32 \<Rightarrow> u32 \<Rightarrow> 'a machine_scheme \<Rightarrow> 'a machine_scheme outcome" where
  "ece391_fdputs K fd str s =
     obind (ece391_strlen (mem s) str) (\<lambda>n. obind (ece391_write K fd str n s) (\<lambda>(_, s). Ok s))"

text \<open>The characters are \<open>uint8_t\<close>: the differences are those of their values.\<close>

partial_function (option) ece391_strcmp_loop :: "memory \<Rightarrow> u32 \<Rightarrow> u32 \<Rightarrow> i32 option" where
  "ece391_strcmp_loop m s1 s2 =
     (if m s1 = m s2 then if m s1 = 0 then Some 0 else ece391_strcmp_loop m (s1 + 1) (s2 + 1)
      else Some (ucast (m s1) - ucast (m s2)))"

definition ece391_strcmp :: "memory \<Rightarrow> u32 \<Rightarrow> u32 \<Rightarrow> i32 outcome" where
  "ece391_strcmp m s1 s2 = of_loop (ece391_strcmp_loop m s1 s2)"

partial_function (option) ece391_strncmp_loop :: "memory \<Rightarrow> u32 \<Rightarrow> u32 \<Rightarrow> u32 \<Rightarrow> i32 option" where
  "ece391_strncmp_loop m s1 s2 n =
     (if m s1 = m s2 then
        if m s1 = 0 \<or> n - 1 = 0 then Some 0 else ece391_strncmp_loop m (s1 + 1) (s2 + 1) (n - 1)
      else Some (ucast (m s1) - ucast (m s2)))"

definition ece391_strncmp :: "memory \<Rightarrow> u32 \<Rightarrow> u32 \<Rightarrow> u32 \<Rightarrow> i32 outcome" where
  "ece391_strncmp m s1 s2 n = (if 0 = n then Ok 0 else of_loop (ece391_strncmp_loop m s1 s2 n))"

text \<open>
  The library's \<open>itoa\<close> and \<open>strrev\<close> are the kernel's, statement for statement; here the array is the
  memory from \<open>buf\<close> on.
\<close>

definition itoa_at :: "u32 \<Rightarrow> u32 \<Rightarrow> i32 \<Rightarrow> memory \<Rightarrow> memory outcome" where
  "itoa_at val buf radix m = obind (itoa val (ptr m buf) radix) (\<lambda>b. Ok (\<lambda>a. b (a - buf)))"

section \<open>Strings in memory as lists\<close>

text \<open>The bytes \<open>xs\<close>, none of them zero, stand at \<open>a\<close> and a zero byte follows.\<close>

fun str_at :: "memory \<Rightarrow> u32 \<Rightarrow> u8 list \<Rightarrow> bool" where
  "str_at m a [] \<longleftrightarrow> m a = 0"
| "str_at m a (x # xs) \<longleftrightarrow> m a = x \<and> x \<noteq> 0 \<and> str_at m (a + 1) xs"

lemma str_at_cong:
  "(\<And>i. i \<le> length xs \<Longrightarrow> m' (a + of_nat i) = m (a + of_nat i)) \<Longrightarrow> str_at m' a xs \<longleftrightarrow> str_at m a xs"
proof (induction xs arbitrary: a)
  case (Cons x xs)
  have "m' (a + 1 + of_nat i) = m (a + 1 + of_nat i)" if "i \<le> length xs" for i
    using Cons.prems [of "Suc i"] that by (simp add: add.assoc)
  then show ?case using Cons.IH Cons.prems [of 0] by simp
qed simp

lemma str_at_bytes: "str_at m a xs \<Longrightarrow> bytes (ptr m a) (length xs) = xs \<and> m (a + of_nat (length xs)) = 0"
proof (induction xs arbitrary: a)
  case (Cons x xs)
  then have "bytes (ptr m (a + 1)) (length xs) = xs" "m (a + 1 + of_nat (length xs)) = 0" "m a = x" by auto
  then show ?case
    by (simp add: bytes_def upt_conv_Cons ptr_def map_Suc_upt [symmetric] add.assoc comp_def del: upt_Suc)
qed (simp add: bytes_def)

lemma str_at_nth: "str_at m a xs \<Longrightarrow> i < length xs \<Longrightarrow> m (a + of_nat i) = xs ! i"
  using str_at_bytes [of m a xs] nth_bytes [of i "length xs" "ptr m a"] by (simp add: ptr_def)

lemma str_at_zero: "str_at m a xs \<Longrightarrow> 0 \<notin> set xs"
  by (induction xs arbitrary: a) auto

lemma is_cstr_str_at:
  assumes "is_cstr (ptr m a) n"
  shows "str_at m a (bytes (ptr m a) n)"
proof -
  have "str_at m (a + of_nat k) (map (\<lambda>i. m (a + of_nat i)) [k..<n])" if "k \<le> n" for k
    using that
  proof (induction k rule: inc_induct)
    case base
    then show ?case using assms by (simp add: is_cstr_def ptr_def)
  next
    case (step k)
    then show ?case using assms by (simp add: is_cstr_def ptr_def upt_conv_Cons ac_simps)
  qed
  from this [of 0] show ?thesis by (simp add: bytes_def ptr_def)
qed

lemma str_at_is_cstr:
  assumes "str_at m a xs" and "length xs < 2 ^ 32"
  shows "is_cstr (ptr m a) (length xs)"
proof -
  have "ptr m a (of_nat i) \<noteq> 0" if "i < length xs" for i
    using str_at_bytes [OF assms(1)] str_at_zero [OF assms(1)] that by (metis nth_bytes nth_mem)
  then show ?thesis using str_at_bytes [OF assms(1)] assms(2) by (simp add: is_cstr_def ptr_def)
qed

section \<open>What the string routines compute\<close>

lemma strlen_user_loop: "str_at m a xs \<Longrightarrow> ece391_strlen_loop m a len = Some (len + of_nat (length xs))"
  by (induction xs arbitrary: a len) (subst ece391_strlen_loop.simps, auto simp: add.assoc)+

lemma strlen_user [simp]: "str_at m a xs \<Longrightarrow> ece391_strlen m a = Ok (of_nat (length xs))"
  by (simp add: ece391_strlen_def strlen_user_loop)

lemma ucast_ucast_u8: "ucast (ucast (x :: u8) :: i32) = x"
  by (rule bit_word_eqI) (simp add: bit_simps)

lemma byte_value_eq [simp]:
  "(ucast (x :: u8) :: i32) = ucast y \<longleftrightarrow> x = y" "(ucast (x :: u8) :: i32) = 0 \<longleftrightarrow> x = 0" "(0 :: i32) = - ucast (x :: u8) \<longleftrightarrow> x = 0"
proof -
  show e: "(ucast x :: i32) = ucast y \<longleftrightarrow> x = y" for x y :: u8 by (metis ucast_ucast_u8)
  show "(ucast x :: i32) = 0 \<longleftrightarrow> x = 0" using e [of x 0] by simp
  then show "(0 :: i32) = - ucast x \<longleftrightarrow> x = 0" by (metis neg_equal_0_iff_equal)
qed

lemma byte_difference: "sint (ucast (x :: u8) - ucast y :: i32) < 0 \<longleftrightarrow> x < y"
proof -
  have b: "uint x < 256" "uint y < 256" "0 \<le> uint x" "0 \<le> uint y" using uint_bounded [of x] uint_bounded [of y] by simp_all
  have "ucast x - ucast y = (word_of_int (uint x - uint y) :: i32)" by simp
  moreover have "sint (word_of_int (uint x - uint y) :: i32) = uint x - uint y"
    unfolding sint_sbintrunc' by (rule signed_take_bit_int_eq_self) (use b in \<open>simp_all, linarith+\<close>)
  ultimately have "sint (ucast x - ucast y :: i32) = uint x - uint y" by simp
  then show ?thesis by (simp add: word_less_def)
qed

lemma strcmp_user_loop:
  "str_at m a xs \<Longrightarrow> str_at m b ys \<Longrightarrow>
     \<exists>r. ece391_strcmp_loop m a b = Some r \<and> (r = 0 \<longleftrightarrow> xs = ys) \<and> (sint r < 0 \<longleftrightarrow> ord_class.lexordp xs ys)"
proof (induction xs arbitrary: a b ys)
  case Nil
  then show ?case
    using byte_difference [of 0 "m b"]
    by (cases ys) (subst ece391_strcmp_loop.simps, auto simp: word_gt_0)+
next
  case (Cons x xs)
  show ?case
  proof (cases "m a = m b")
    case True
    then obtain zs where zs: "ys = x # zs" using Cons.prems by (cases ys) auto
    then obtain r where "ece391_strcmp_loop m (a + 1) (b + 1) = Some r" "r = 0 \<longleftrightarrow> xs = zs" "sint r < 0 \<longleftrightarrow> ord_class.lexordp xs zs"
      using Cons.IH [of "a + 1" "b + 1" zs] Cons.prems by auto
    then show ?thesis using True Cons.prems zs by (subst ece391_strcmp_loop.simps) simp
  next
    case False
    then show ?thesis
      using Cons.prems byte_difference [of "m a" "m b"] by (subst ece391_strcmp_loop.simps) (cases ys, auto)
  qed
qed

lemma strcmp_user:
  assumes "str_at m a xs" and "str_at m b ys"
  obtains r where "ece391_strcmp m a b = Ok r" and "r = 0 \<longleftrightarrow> xs = ys" and "sint r < 0 \<longleftrightarrow> ord_class.lexordp xs ys"
  using strcmp_user_loop [OF assms] by (auto simp: ece391_strcmp_def)

lemma strncmp_user_loop:
  "str_at m a xs \<Longrightarrow> str_at m b ys \<Longrightarrow> n \<noteq> 0 \<Longrightarrow>
     \<exists>r. ece391_strncmp_loop m a b n = Some r \<and> (r = 0 \<longleftrightarrow> take (unat n) xs = take (unat n) ys)"
proof (induction xs arbitrary: a b ys n)
  case Nil
  then have "0 < unat n" by (simp add: unat_gt_0)
  then show ?case using Nil
    by (cases ys) (subst ece391_strncmp_loop.simps, auto simp: neq_Nil_conv take_Cons')+
next
  case (Cons x xs)
  obtain k where k: "unat n = Suc k" using Cons.prems(3) by (metis not0_implies_Suc unat_eq_zero)
  then have n1: "unat (n - 1) = k" by (rule unat_eq_Suc_dec)
  show ?case
  proof (cases "m a = m b")
    case True
    then obtain zs where zs: "ys = x # zs" using Cons.prems by (cases ys) auto
    show ?thesis
    proof (cases "n - 1 = 0")
      case True
      then have "k = 0" using n1 by simp
      then show ?thesis using \<open>m a = m b\<close> True k zs by (subst ece391_strncmp_loop.simps) simp
    next
      case False
      then obtain r where "ece391_strncmp_loop m (a + 1) (b + 1) (n - 1) = Some r" "r = 0 \<longleftrightarrow> take k xs = take k zs"
        using Cons.IH [of "a + 1" "b + 1" zs "n - 1"] Cons.prems zs n1 by auto
      then show ?thesis using \<open>m a = m b\<close> False Cons.prems zs k by (subst ece391_strncmp_loop.simps) simp
    qed
  next
    case False
    then show ?thesis
      using Cons.prems k by (subst ece391_strncmp_loop.simps) (cases ys, auto)
  qed
qed

lemma strncmp_user:
  assumes "str_at m a xs" and "str_at m b ys"
  obtains r where "ece391_strncmp m a b n = Ok r" and "r = 0 \<longleftrightarrow> take (unat n) xs = take (unat n) ys"
  using strncmp_user_loop [OF assms, of n] by (cases "n = 0") (auto simp: ece391_strncmp_def)

lemma blit_Suc_first: "n < 2 ^ 32 \<Longrightarrow> blit (m(d := f 0)) (d + 1) n (\<lambda>i. f (i + 1)) = blit m d (Suc n) f"
proof (rule ext)
  fix a
  assume n: "n < 2 ^ 32"
  show "blit (m(d := f 0)) (d + 1) n (\<lambda>i. f (i + 1)) a = blit m d (Suc n) f a"
  proof (cases "a = d")
    case True
    have "unat (-1 :: u32) = 2 ^ 32 - 1" by (simp add: unsigned_minus_1_eq_mask mask_eq_exp_minus_1)
    then show ?thesis using True n by (simp add: blit_def)
  next
    case False
    then have "a - d \<noteq> 0" by simp
    then obtain k where "unat (a - d) = Suc k" by (metis not0_implies_Suc unat_eq_zero)
    then have "unat (a - d - 1) = k" "unat (a - d) = Suc k" by (simp_all add: unat_eq_Suc_dec)
    then show ?thesis using False by (simp add: blit_def diff_diff_eq)
  qed
qed

text \<open>Copying downwards is safe even when the runs overlap.\<close>

lemma strcpy_user_loop:
  assumes "str_at m src xs" and "dst = src \<or> length xs < unat (dst - src)" and "length xs < 2 ^ 32"
  shows "ece391_strcpy_loop dst src m = Some (blit m dst (Suc (length xs)) (ptr m src))"
  using assms
proof (induction xs arbitrary: dst src m)
  case Nil
  then show ?case
    by (subst ece391_strcpy_loop.simps) (simp add: fun_eq_iff blit_def ptr_def unat_eq_zero)
next
  case (Cons x xs)
  let ?m = "m(dst := m src)"
  have away: "dst \<noteq> src + 1 + of_nat i" if "i \<le> length xs" for i
  proof
    assume d: "dst = src + 1 + of_nat i"
    then have "dst - src = of_nat (Suc i)" by simp
    moreover have "unat (of_nat (Suc i) :: u32) = Suc i" by (rule unat_of_nat_u32) (use that Cons.prems(3) in simp)
    ultimately have "unat (dst - src) = Suc i" by simp
    then show False using Cons.prems(2) that by auto
  qed
  have s: "str_at ?m (src + 1) xs"
  proof (subst str_at_cong [of xs ?m "src + 1" m])
    fix i assume "i \<le> length xs"
    then show "?m (src + 1 + of_nat i) = m (src + 1 + of_nat i)" using away [of i] by auto
  qed (use Cons.prems(1) in simp)
  have "dst + 1 = src + 1 \<or> length xs < unat (dst + 1 - (src + 1))" using Cons.prems(2) by auto
  then have step: "ece391_strcpy_loop (dst + 1) (src + 1) ?m = Some (blit ?m (dst + 1) (Suc (length xs)) (ptr ?m (src + 1)))"
    by (rule Cons.IH [OF s]) (use Cons.prems(3) in simp)
  moreover have "blit ?m (dst + 1) (Suc (length xs)) (ptr ?m (src + 1)) =
      blit ?m (dst + 1) (Suc (length xs)) (\<lambda>i. ptr m src (i + 1))"
  proof (rule blit_cong)
    fix i assume "i < Suc (length xs)"
    then have "dst \<noteq> src + 1 + of_nat i" using away by simp
    then show "ptr ?m (src + 1) (of_nat i) = ptr m src (of_nat i + 1)" by (auto simp: ptr_def ac_simps)
  qed
  moreover have "\<dots> = blit m dst (Suc (Suc (length xs))) (ptr m src)"
    using blit_Suc_first [of "Suc (length xs)" m dst "ptr m src"] Cons.prems(3) by (simp add: ptr_def)
  ultimately show ?case using Cons.prems(1) step by (subst ece391_strcpy_loop.simps) simp
qed

lemma strcpy_user:
  assumes "str_at m src xs" and "dst = src \<or> length xs < unat (dst - src)" and "length xs < 2 ^ 32"
  shows "ece391_strcpy dst src m = Ok (blit m dst (Suc (length xs)) (ptr m src))"
  by (simp add: ece391_strcpy_def strcpy_user_loop [OF assms])

end
