(* ===== verification/User_Programs.thy ===== *)
theory User_Programs
  imports User_Lib
begin

text \<open>
  The user programs of \<open>syscalls/\<close>: \<open>testprint\<close>, \<open>hello\<close>, \<open>cat\<close>, \<open>ls\<close>, \<open>grep\<close>, \<open>sched\<close>, \<open>pingpong\<close>
  and the shell. Each \<open>main\<close> takes the kernel behind \<open>int 0x80\<close>, the addresses \<open>L\<close> at which its string
  literals stand, and the addresses of its local arrays; \<open>start_main\<close> runs it as a process.
\<close>

section \<open>Arrays of a program\<close>

text \<open>An access at an index outside the \<open>cap\<close> bytes of a local array is a fault.\<close>

definition put_at :: "nat \<Rightarrow> u32 \<Rightarrow> i32 \<Rightarrow> u8 \<Rightarrow> 'a machine_scheme \<Rightarrow> 'a machine_scheme outcome" where
  "put_at cap arr i v s = (if unat i < cap then Ok (s\<lparr>mem := (mem s)(arr + i := v)\<rparr>) else Fault Out_Of_Bounds)"

definition get_at :: "nat \<Rightarrow> u32 \<Rightarrow> i32 \<Rightarrow> 'a machine_scheme \<Rightarrow> u8 outcome" where
  "get_at cap arr i s = (if unat i < cap then Ok (mem s (arr + i)) else Fault Out_Of_Bounds)"

text \<open>Printing a message on the terminal and returning a status.\<close>

definition quit_with ::
  "'a machine_scheme kernel_call \<Rightarrow> u32 \<Rightarrow> i32 \<Rightarrow> 'a machine_scheme \<Rightarrow> (i32 \<times> 'a machine_scheme) outcome" where
  "quit_with K msg status s = obind (ece391_fdputs K 1 msg s) (\<lambda>s. Ok (status, s))"

section \<open>testprint and hello\<close>

definition testprint_main ::
  "'a machine_scheme kernel_call \<Rightarrow> (string \<Rightarrow> u32) \<Rightarrow> 'a machine_scheme \<Rightarrow> (i32 \<times> 'a machine_scheme) outcome" where
  "testprint_main K L s = quit_with K (L ''Hello, if this ran, the program was correct. Yay!\<newline>'') 0 s"

definition hello_main ::
  "'a machine_scheme kernel_call \<Rightarrow> (string \<Rightarrow> u32) \<Rightarrow> u32 \<Rightarrow> 'a machine_scheme \<Rightarrow> (i32 \<times> 'a machine_scheme) outcome" where
  "hello_main K L buf s =
     obind (ece391_fdputs K 1 (L ''Hi, what's your name? '') s) (\<lambda>s.
     obind (ece391_read K 0 buf 1023 s) (\<lambda>(cnt, s).
       if -1 = cnt then quit_with K (L ''Can't read name from keyboard.\<newline>'') 3 s
       else
         obind (put_at 1024 buf cnt 0 s) (\<lambda>s.
         obind (ece391_fdputs K 1 (L ''Hello, '') s) (\<lambda>s.
         obind (ece391_fdputs K 1 buf s) (\<lambda>s. Ok (0, s))))))"

section \<open>cat\<close>

partial_function (option) cat_loop ::
  "'a machine_scheme kernel_call \<Rightarrow> (string \<Rightarrow> u32) \<Rightarrow> i32 \<Rightarrow> u32 \<Rightarrow> 'a machine_scheme \<Rightarrow>
   (i32 \<times> 'a machine_scheme) outcome option" where
  "cat_loop K L fd buf s =
     lbind (ece391_read K fd buf 1024 s) (\<lambda>(cnt, s).
       if 0 \<noteq> cnt then
         if -1 = cnt then Some (quit_with K (L ''file read failed\<newline>'') 3 s)
         else lbind (ece391_write K 1 buf cnt s) (\<lambda>(r, s).
                if -1 = r then Some (Ok (3, s)) else cat_loop K L fd buf s)
       else Some (Ok (0, s)))"

definition cat_main ::
  "'a machine_scheme kernel_call \<Rightarrow> (string \<Rightarrow> u32) \<Rightarrow> u32 \<Rightarrow> 'a machine_scheme \<Rightarrow> (i32 \<times> 'a machine_scheme) outcome" where
  "cat_main K L buf s =
     obind (ece391_getargs K buf 1024 s) (\<lambda>(r, s).
       if 0 \<noteq> r then quit_with K (L ''could not read arguments\<newline>'') 3 s
       else
         obind (ece391_open K buf s) (\<lambda>(fd, s).
           if -1 = fd then quit_with K (L ''file not found\<newline>'') 2 s
           else loop_value (cat_loop K L fd buf s)))"

section \<open>ls\<close>

partial_function (option) ls_loop ::
  "'a machine_scheme kernel_call \<Rightarrow> (string \<Rightarrow> u32) \<Rightarrow> i32 \<Rightarrow> u32 \<Rightarrow> 'a machine_scheme \<Rightarrow>
   (i32 \<times> 'a machine_scheme) outcome option" where
  "ls_loop K L fd buf s =
     lbind (ece391_read K fd buf 32 s) (\<lambda>(cnt, s).
       if 0 \<noteq> cnt then
         if -1 = cnt then Some (quit_with K (L ''directory entry read failed\<newline>'') 3 s)
         else lbind (put_at 33 buf cnt 10 s) (\<lambda>s.
              lbind (ece391_write K 1 buf (cnt + 1) s) (\<lambda>(r, s).
                if -1 = r then Some (Ok (3, s)) else ls_loop K L fd buf s))
       else Some (Ok (0, s)))"

definition ls_main ::
  "'a machine_scheme kernel_call \<Rightarrow> (string \<Rightarrow> u32) \<Rightarrow> u32 \<Rightarrow> 'a machine_scheme \<Rightarrow> (i32 \<times> 'a machine_scheme) outcome" where
  "ls_main K L buf s =
     obind (ece391_open K (L ''.'') s) (\<lambda>(fd, s).
       if -1 = fd then quit_with K (L ''directory open failed\<newline>'') 2 s
       else loop_value (ls_loop K L fd buf s))"

section \<open>The shell\<close>

definition shell_report ::
  "'a machine_scheme kernel_call \<Rightarrow> (string \<Rightarrow> u32) \<Rightarrow> i32 \<Rightarrow> 'a machine_scheme \<Rightarrow> 'a machine_scheme outcome" where
  "shell_report K L rval s =
     (if -1 = rval then ece391_fdputs K 1 (L ''no such command\<newline>'') s
      else if 256 = rval then ece391_fdputs K 1 (L ''program terminated by exception\<newline>'') s
      else if 0 \<noteq> rval then ece391_fdputs K 1 (L ''program terminated abnormally\<newline>'') s
      else Ok s)"

text \<open>The line as a string: a final newline goes, the terminator is set.\<close>

definition end_line :: "u32 \<Rightarrow> i32 \<Rightarrow> 'a machine_scheme \<Rightarrow> 'a machine_scheme outcome" where
  "end_line buf cnt s =
     obind (if sint cnt > 0 then obind (get_at 1024 buf (cnt - 1) s) (\<lambda>c. Ok (if c = 10 then cnt - 1 else cnt)) else Ok cnt)
       (\<lambda>cnt. put_at 1024 buf cnt 0 s)"

partial_function (option) shell_main ::
  "'a machine_scheme kernel_call \<Rightarrow> (string \<Rightarrow> u32) \<Rightarrow> u32 \<Rightarrow> 'a machine_scheme \<Rightarrow>
   (i32 \<times> 'a machine_scheme) outcome option" where
  "shell_main K L buf s =
     lbind (ece391_fdputs K 1 (L ''391OS> '') s) (\<lambda>s.
     lbind (ece391_read K 0 buf 1023 s) (\<lambda>(cnt, s).
       if -1 = cnt then Some (quit_with K (L ''read from keyboard failed\<newline>'') 3 s)
       else
         lbind (end_line buf cnt s) (\<lambda>s.
         lbind (ece391_strcmp (mem s) buf (L ''exit'')) (\<lambda>r.
           if 0 = r then Some (Ok (0, s))
           else if 0 = mem s buf then shell_main K L buf s
           else
             lbind (ece391_execute K buf s) (\<lambda>(rval, s).
             lbind (shell_report K L rval s) (\<lambda>s. shell_main K L buf s))))))"

section \<open>sched\<close>

partial_function (option) sched_loop ::
  "'a machine_scheme kernel_call \<Rightarrow> (string \<Rightarrow> u32) \<Rightarrow> u32 \<Rightarrow> i32 \<Rightarrow> i32 \<Rightarrow> 'a machine_scheme \<Rightarrow>
   (i32 \<times> 'a machine_scheme) outcome option" where
  "sched_loop K L buf cnt val s =
     (if sint val < sint cnt then
        lbind (itoa_at (val + 1) buf 10 (mem s)) (\<lambda>m.
        lbind (ece391_fdputs K 1 buf (s\<lparr>mem := m\<rparr>)) (\<lambda>s.
        lbind (ece391_fdputs K 1 (L ''\<newline>'') s) (\<lambda>s. sched_loop K L buf cnt (val + 1) s)))
      else Some (Ok (0, s)))"

definition sched_count :: "u8 \<Rightarrow> i32 \<Rightarrow> i32" where
  "sched_count c cnt = (if c = 48 then 10 else if c = 49 then 10000 else if c = 50 then 1000000 else cnt)"

definition sched_main ::
  "'a machine_scheme kernel_call \<Rightarrow> (string \<Rightarrow> u32) \<Rightarrow> u32 \<Rightarrow> 'a machine_scheme \<Rightarrow> (i32 \<times> 'a machine_scheme) outcome" where
  "sched_main K L buf s =
     obind (ece391_fdputs K 1 (L ''Enter the Test Number: (0): 10, (1): 10000, (2): 1000000\<newline>'') s) (\<lambda>s.
     obind (ece391_read K 0 buf 1023 s) (\<lambda>(cnt, s).
       if -1 = cnt then quit_with K (L ''Can't read the number from keyboard.\<newline>'') 3 s
       else
         obind (ece391_strlen (mem s) buf) (\<lambda>len.
           if len > 2 \<or> len = 1 \<and> mem s buf < 48 \<or> mem s buf > 50
           then quit_with K (L ''Wrong Choice!\<newline>'') 0 s
           else loop_value (sched_loop K L buf (sched_count (mem s buf) cnt) 0 s))))"

section \<open>pingpong\<close>

text \<open>\<open>BUFMAX\<close> is 81, \<open>STARTLOOP\<close> 2 and \<open>LOOPMAX\<close> 78, with the macros expanded as text.\<close>

definition fill_spaces :: "u32 \<Rightarrow> nat \<Rightarrow> nat \<Rightarrow> memory \<Rightarrow> memory" where
  "fill_spaces buf from to m = fold (\<lambda>i m. m(buf + of_nat i := 32)) [from..<to] m"

definition set_walls :: "u32 \<Rightarrow> memory \<Rightarrow> memory" where
  "set_walls buf m = m(buf + 80 := 0, buf + 79 := 10, buf + 78 := 124, buf + 1 := 124)"

definition draw_frame ::
  "'a machine_scheme kernel_call \<Rightarrow> u32 \<Rightarrow> u32 \<Rightarrow> i32 \<Rightarrow> u8 \<Rightarrow> nat \<Rightarrow> 'a machine_scheme \<Rightarrow> 'a machine_scheme outcome" where
  "draw_frame K buf garbage rtc_fd curchar j s =
     (let s = s\<lparr>mem := (fill_spaces buf 2 78 (mem s))(buf + of_nat j := curchar)\<rparr>
      in obind (ece391_fdputs K 1 buf s) (\<lambda>s.
         obind (ece391_read K rtc_fd garbage 4 s) (\<lambda>(_, s). Ok s)))"

fun draw_frames ::
  "'a machine_scheme kernel_call \<Rightarrow> u32 \<Rightarrow> u32 \<Rightarrow> i32 \<Rightarrow> u8 \<Rightarrow> nat list \<Rightarrow> 'a machine_scheme \<Rightarrow> 'a machine_scheme outcome" where
  "draw_frames K buf garbage rtc_fd curchar [] s = Ok s"
| "draw_frames K buf garbage rtc_fd curchar (j # js) s =
     obind (draw_frame K buf garbage rtc_fd curchar j s) (draw_frames K buf garbage rtc_fd curchar js)"

text \<open>One round of the outer loop: out and back, then the next letter.\<close>

definition pingpong_round ::
  "'a machine_scheme kernel_call \<Rightarrow> u32 \<Rightarrow> u32 \<Rightarrow> i32 \<Rightarrow> u8 \<times> 'a machine_scheme \<Rightarrow> (u8 \<times> 'a machine_scheme) outcome" where
  "pingpong_round K buf garbage rtc_fd = (\<lambda>(curchar, s).
     obind (draw_frames K buf garbage rtc_fd curchar [2..<78] s) (\<lambda>s.
     obind (draw_frames K buf garbage rtc_fd curchar (rev [2..<78]) s) (\<lambda>s.
       Ok (if curchar = 90 then 65 else curchar + 1, s))))"

definition pingpong_setup ::
  "'a machine_scheme kernel_call \<Rightarrow> (string \<Rightarrow> u32) \<Rightarrow> u32 \<Rightarrow> u32 \<Rightarrow> 'a machine_scheme \<Rightarrow> (i32 \<times> 'a machine_scheme) outcome" where
  "pingpong_setup K L buf ret_val s =
     (let s = s\<lparr>mem := set_walls buf (fill_spaces buf 0 81 (mem s))\<rparr>
      in obind (ece391_open K (L ''rtc'') s) (\<lambda>(rtc_fd, s).
         obind (ece391_write K rtc_fd ret_val 4 (s\<lparr>mem := store32 (mem s) ret_val 32\<rparr>)) (\<lambda>(r, s).
           Ok (rtc_fd, s\<lparr>mem := store32 (mem s) ret_val r\<rparr>))))"

partial_function (option) pingpong_loop ::
  "'a machine_scheme kernel_call \<Rightarrow> u32 \<Rightarrow> u32 \<Rightarrow> i32 \<Rightarrow> u8 \<times> 'a machine_scheme \<Rightarrow> (i32 \<times> 'a machine_scheme) outcome option" where
  "pingpong_loop K buf garbage rtc_fd x = lbind (pingpong_round K buf garbage rtc_fd x) (pingpong_loop K buf garbage rtc_fd)"

definition pingpong_main ::
  "'a machine_scheme kernel_call \<Rightarrow> (string \<Rightarrow> u32) \<Rightarrow> u32 \<Rightarrow> u32 \<Rightarrow> u32 \<Rightarrow> 'a machine_scheme \<Rightarrow>
   (i32 \<times> 'a machine_scheme) outcome" where
  "pingpong_main K L buf garbage ret_val s =
     obind (pingpong_setup K L buf ret_val s) (\<lambda>(rtc_fd, s). loop_value (pingpong_loop K buf garbage rtc_fd (65, s)))"

section \<open>grep\<close>

text \<open>The loops of \<open>do_one_file\<close> from the inside out; \<open>data\<close> has 1025 bytes.\<close>

partial_function (option) find_line_end :: "u32 \<Rightarrow> i32 \<Rightarrow> i32 \<Rightarrow> 'a machine_scheme \<Rightarrow> i32 outcome option" where
  "find_line_end data filled line_end s =
     (if sint line_end < sint filled then
        lbind (get_at 1025 data line_end s) (\<lambda>c.
          if 10 \<noteq> c then find_line_end data filled (line_end + 1) s else Some (Ok line_end))
      else Some (Ok line_end))"

definition print_match ::
  "'a machine_scheme kernel_call \<Rightarrow> (string \<Rightarrow> u32) \<Rightarrow> u32 \<Rightarrow> u32 \<Rightarrow> 'a machine_scheme \<Rightarrow> 'a machine_scheme outcome" where
  "print_match K L fname line s =
     obind (ece391_fdputs K 1 fname s) (\<lambda>s.
     obind (ece391_fdputs K 1 (L '':'') s) (\<lambda>s.
     obind (ece391_fdputs K 1 line s) (\<lambda>s. ece391_fdputs K 1 (L ''\<newline>'') s)))"

text \<open>\<open>s\<close> points to \<open>char\<close>, which is signed; \<open>data\<close> holds \<open>uint8_t\<close>.\<close>

partial_function (option) search_line ::
  "'a machine_scheme kernel_call \<Rightarrow> (string \<Rightarrow> u32) \<Rightarrow> u32 \<Rightarrow> u32 \<Rightarrow> u32 \<Rightarrow> i32 \<Rightarrow> i32 \<Rightarrow> i32 \<Rightarrow> i32 \<Rightarrow> 'a machine_scheme \<Rightarrow>
   'a machine_scheme outcome option" where
  "search_line K L str fname data s_len line_start line_end check s =
     (if sint check < sint line_end then
        lbind (get_at 1025 data check s) (\<lambda>c.
        lbind (if (scast (mem s str) :: i32) = ucast c then ece391_strncmp (mem s) (data + check) str s_len else Ok 1) (\<lambda>r.
          if 0 = r then Some (print_match K L fname (data + line_start) s)
          else search_line K L str fname data s_len line_start line_end (check + 1) s))
      else Some (Ok s))"

text \<open>The loop over the lines in the buffer; \<open>filled\<close> is the variable \<open>last\<close>, and the value of the loop is its new contents.\<close>

partial_function (option) scan_lines ::
  "'a machine_scheme kernel_call \<Rightarrow> (string \<Rightarrow> u32) \<Rightarrow> u32 \<Rightarrow> u32 \<Rightarrow> u32 \<Rightarrow> i32 \<Rightarrow> i32 \<Rightarrow> i32 \<Rightarrow> i32 \<Rightarrow> 'a machine_scheme \<Rightarrow>
   (i32 \<times> 'a machine_scheme) outcome option" where
  "scan_lines K L str fname data s_len cnt filled line_start s =
     lbind (loop_value (find_line_end data filled line_start s)) (\<lambda>line_end.
     lbind (get_at 1025 data line_end s) (\<lambda>c.
       if 10 \<noteq> c \<and> 0 \<noteq> cnt \<and> line_start \<noteq> 0 then
         lbind (put_at 1025 data line_end 0 s) (\<lambda>s.
         lbind (ece391_strcpy data (data + line_start) (mem s)) (\<lambda>m. Some (Ok (filled - line_start, s\<lparr>mem := m\<rparr>))))
       else
         lbind (put_at 1025 data line_end 0 s) (\<lambda>s.
         lbind (loop_value (search_line K L str fname data s_len line_start line_end line_start s)) (\<lambda>s.
           if sint (line_end + 1) \<ge> sint filled then Some (Ok (0, s))
           else scan_lines K L str fname data s_len cnt filled (line_end + 1) s))))"

partial_function (option) grep_loop ::
  "'a machine_scheme kernel_call \<Rightarrow> (string \<Rightarrow> u32) \<Rightarrow> u32 \<Rightarrow> u32 \<Rightarrow> i32 \<Rightarrow> u32 \<Rightarrow> i32 \<Rightarrow> i32 \<Rightarrow> 'a machine_scheme \<Rightarrow>
   (i32 \<times> 'a machine_scheme) outcome option" where
  "grep_loop K L str fname fd data s_len filled s =
     lbind (ece391_read K fd (data + filled) (1024 - filled) s) (\<lambda>(cnt, s).
       if -1 = cnt then Some (quit_with K (L ''file read failed\<newline>'') (-1) s)
       else
         lbind (loop_value (scan_lines K L str fname data s_len cnt (filled + cnt) 0 s)) (\<lambda>(filled, s).
           if 0 = cnt then
             Some (obind (ece391_close K fd s) (\<lambda>(r, s).
                     if -1 = r then quit_with K (L ''file close failed\<newline>'') (-1) s else Ok (0, s)))
           else grep_loop K L str fname fd data s_len filled s))"

definition do_one_file ::
  "'a machine_scheme kernel_call \<Rightarrow> (string \<Rightarrow> u32) \<Rightarrow> u32 \<Rightarrow> u32 \<Rightarrow> u32 \<Rightarrow> 'a machine_scheme \<Rightarrow>
   (i32 \<times> 'a machine_scheme) outcome" where
  "do_one_file K L data str fname s =
     obind (ece391_strlen (mem s) str) (\<lambda>s_len.
     obind (ece391_open K fname s) (\<lambda>(fd, s).
       if -1 = fd then quit_with K (L ''file open failed\<newline>'') (-1) s
       else loop_value (grep_loop K L str fname fd data s_len 0 s)))"

partial_function (option) grep_files ::
  "'a machine_scheme kernel_call \<Rightarrow> (string \<Rightarrow> u32) \<Rightarrow> u32 \<Rightarrow> u32 \<Rightarrow> i32 \<Rightarrow> u32 \<Rightarrow> 'a machine_scheme \<Rightarrow>
   (i32 \<times> 'a machine_scheme) outcome option" where
  "grep_files K L data search fd buf s =
     lbind (ece391_read K fd buf 32 s) (\<lambda>(cnt, s).
       if 0 \<noteq> cnt then
         if -1 = cnt then Some (quit_with K (L ''directory entry read failed\<newline>'') 3 s)
         else if 46 = mem s buf then grep_files K L data search fd buf s
         else
           lbind (put_at 33 buf cnt 0 s) (\<lambda>s.
           lbind (do_one_file K L data search buf s) (\<lambda>(r, s).
             if 0 \<noteq> r then Some (Ok (3, s)) else grep_files K L data search fd buf s))
       else Some (Ok (0, s)))"

definition grep_main ::
  "'a machine_scheme kernel_call \<Rightarrow> (string \<Rightarrow> u32) \<Rightarrow> u32 \<Rightarrow> u32 \<Rightarrow> u32 \<Rightarrow> 'a machine_scheme \<Rightarrow>
   (i32 \<times> 'a machine_scheme) outcome" where
  "grep_main K L data buf search s =
     obind (ece391_getargs K search 1024 s) (\<lambda>(r, s).
       if 0 \<noteq> r then quit_with K (L ''could not read argument\<newline>'') 3 s
       else
         obind (ece391_open K (L ''.'') s) (\<lambda>(fd, s).
           if -1 = fd then quit_with K (L ''directory open failed\<newline>'') 2 s
           else loop_value (grep_files K L data search fd buf s)))"

end
