(* ===== verification/Blink.thy ===== *)
theory Blink
  imports User_Programs
begin

text \<open>
  The table of blinking characters of the fish program: \<open>fish/blink.S\<close> with its list of
  \<open>struct mp1_blink_struct\<close> (\<open>fish/blink.h\<close>) and the allocator and byte copies of
  \<open>fish/fish.c\<close>. Everything stands in the memory of the process, byte by byte, the list pointer and the temporary
  structures on the stack included; the addresses are those of the record \<open>fish_layout\<close>.
\<close>

section \<open>Structures in memory\<close>

definition load16 :: "memory \<Rightarrow> u32 \<Rightarrow> u16" where
  "load16 m a = ucast (m a) OR push_bit 8 (ucast (m (a + 1)))"

definition store16 :: "memory \<Rightarrow> u32 \<Rightarrow> u16 \<Rightarrow> memory" where
  "store16 m a v = m(a := ucast v, a + 1 := ucast (drop_bit 8 v))"

definition LOCATION :: u32 where "LOCATION = 0"
definition ON_CHAR :: u32 where "ON_CHAR = 2"
definition OFF_CHAR :: u32 where "OFF_CHAR = 3"
definition ON_LENGTH :: u32 where "ON_LENGTH = 4"
definition OFF_LENGTH :: u32 where "OFF_LENGTH = 6"
definition COUNTDOWN :: u32 where "COUNTDOWN = 8"
definition STATUS :: u32 where "STATUS = 10"
definition NEXT :: u32 where "NEXT = 12"
definition STRUCT_SIZE :: i32 where "STRUCT_SIZE = 16"

lemmas blink_offsets = LOCATION_def ON_CHAR_def OFF_CHAR_def ON_LENGTH_def OFF_LENGTH_def COUNTDOWN_def STATUS_def
  NEXT_def STRUCT_SIZE_def

text \<open>The static objects of the program and the stack slots of \<open>mp1_ioctl_add\<close> and \<open>mp1_ioctl_find\<close>.\<close>

record fish_layout =
  blink_array :: u32
  mp1_list_head :: u32
  vmem_base_addr :: u32
  add_temp :: u32
  find_temp :: u32

section \<open>The routines of fish.c that the list uses\<close>

definition ece391_memset :: "u32 \<Rightarrow> u8 \<Rightarrow> i32 \<Rightarrow> memory \<Rightarrow> memory" where
  "ece391_memset memory c n m = fold (\<lambda>i m. m(memory + of_nat i := c)) [0..<nat (sint n)] m"

definition ece391_memcpy :: "u32 \<Rightarrow> u32 \<Rightarrow> i32 \<Rightarrow> memory \<Rightarrow> i32 \<times> memory" where
  "ece391_memcpy dest src n m = (0, fold (\<lambda>i m. m(dest + of_nat i := m (src + of_nat i))) [0..<nat (sint n)] m)"

definition mp1_malloc :: "fish_layout \<Rightarrow> i32 \<Rightarrow> memory \<Rightarrow> u32" where
  "mp1_malloc L sz m =
     (case find (\<lambda>i. load16 m (blink_array L + 16 * of_nat i + LOCATION) = 0) [0..<80 * 25] of
        Some i \<Rightarrow> blink_array L + 16 * of_nat i
      | None \<Rightarrow> NULL_PTR)"

definition mp1_free :: "u32 \<Rightarrow> memory \<Rightarrow> memory" where
  "mp1_free memory m = ece391_memset memory 0 16 m"

section \<open>The routines of blink.S\<close>

definition mp1_poke :: "fish_layout \<Rightarrow> u8 \<Rightarrow> u32 \<Rightarrow> memory \<Rightarrow> memory" where
  "mp1_poke L cl eax m = m(load32 m (vmem_base_addr L) + eax := cl)"

text \<open>One structure in the tasklet, between \<open>tasklet_loop\<close> and \<open>next_loop\<close>.\<close>

definition tasklet_blink :: "fish_layout \<Rightarrow> u32 \<Rightarrow> memory \<Rightarrow> memory" where
  "tasklet_blink L ebx m =
     (let m = store16 m (ebx + COUNTDOWN) (load16 m (ebx + COUNTDOWN) - 1)
      in if sint (load16 m (ebx + COUNTDOWN)) > 0 then m
         else let eax = push_bit 1 (ucast (load16 m (ebx + LOCATION)) :: u32);
                  (m, dx) = (if load16 m (ebx + STATUS) AND 1 \<noteq> 0
                             then let m = mp1_poke L (m (ebx + OFF_CHAR)) eax m in (m, load16 m (ebx + OFF_LENGTH))
                             else let m = mp1_poke L (m (ebx + ON_CHAR)) eax m in (m, load16 m (ebx + ON_LENGTH)));
                  m = store16 m (ebx + COUNTDOWN) dx
              in store16 m (ebx + STATUS) (load16 m (ebx + STATUS) XOR 1))"

partial_function (option) tasklet_loop :: "fish_layout \<Rightarrow> u32 \<Rightarrow> memory \<Rightarrow> memory option" where
  "tasklet_loop L ebx m =
     (if ebx = 0 then Some m
      else let m = tasklet_blink L ebx m in tasklet_loop L (load32 m (ebx + NEXT)) m)"

definition mp1_rtc_tasklet :: "fish_layout \<Rightarrow> memory \<Rightarrow> memory outcome" where
  "mp1_rtc_tasklet L m = of_loop (tasklet_loop L (load32 m (mp1_list_head L)) m)"

partial_function (option) find_helper_loop :: "memory \<Rightarrow> u16 \<Rightarrow> u32 \<Rightarrow> u32 option" where
  "find_helper_loop m ax ebx =
     (if ebx = 0 then Some 0
      else if load16 m (ebx + LOCATION) = ax then Some ebx
      else find_helper_loop m ax (load32 m (ebx + NEXT)))"

definition mp1_find_helper :: "fish_layout \<Rightarrow> u32 \<Rightarrow> memory \<Rightarrow> u32 outcome" where
  "mp1_find_helper L loc m = of_loop (find_helper_loop m (ucast loc) (load32 m (mp1_list_head L)))"

definition mp1_ioctl_add :: "fish_layout \<Rightarrow> u32 \<Rightarrow> memory \<Rightarrow> i32 \<times> memory" where
  "mp1_ioctl_add L arg m =
     (let ebx = add_temp L;
          (eax, m) = ece391_memcpy ebx arg STRUCT_SIZE m
      in if eax \<noteq> 0 then (-1, m)
         else if load16 m (ebx + LOCATION) \<ge> 80 * 25 then (-1, m)
         else
           let m = store16 m (ebx + STATUS) 1;
               m = store16 m (ebx + COUNTDOWN) (load16 m (ebx + ON_LENGTH));
               edx = mp1_malloc L STRUCT_SIZE m
           in if edx = 0 then (-1, m)
              else
                let (eax, m) = ece391_memcpy edx ebx STRUCT_SIZE m;
                    m = store32 m (edx + NEXT) (load32 m (mp1_list_head L));
                    m = store32 m (mp1_list_head L) edx
                in (0, mp1_poke L (m (edx + ON_CHAR)) (push_bit 1 (ucast (load16 m (edx + LOCATION)))) m))"

text \<open>\<open>edx\<close> is the address of a pointer, the list head or a \<open>next\<close> field; the search ends at the one that points to \<open>eax\<close>.\<close>

partial_function (option) remove_find_prev :: "memory \<Rightarrow> u32 \<Rightarrow> u32 \<Rightarrow> u32 option" where
  "remove_find_prev m eax edx =
     (if load32 m edx = eax then Some edx else remove_find_prev m eax (load32 m edx + NEXT))"

definition mp1_ioctl_remove :: "fish_layout \<Rightarrow> u32 \<Rightarrow> memory \<Rightarrow> (i32 \<times> memory) outcome" where
  "mp1_ioctl_remove L arg m =
     obind (mp1_find_helper L arg m) (\<lambda>eax.
       if eax = 0 then Ok (-1, m)
       else
         obind (of_loop (remove_find_prev m eax (mp1_list_head L))) (\<lambda>edx.
           Ok (0, mp1_free eax (store32 m edx (load32 m (eax + NEXT))))))"

text \<open>
  \<open>testb\<close> clears the overflow flag and sets the sign flag to bit 7 of the conjunction; \<open>cmovl\<close> moves when the two
  flags differ.
\<close>

definition sync_char :: "u8 \<Rightarrow> u8 \<Rightarrow> u8 \<Rightarrow> u8" where
  "sync_char stat off on = (if bit (stat AND 1) 7 \<noteq> False then on else off)"

definition sync_copy :: "u32 \<Rightarrow> u32 \<Rightarrow> memory \<Rightarrow> memory" where
  "sync_copy esi edi m =
     (let m = store16 m (edi + ON_LENGTH) (load16 m (esi + ON_LENGTH));
          m = store16 m (edi + OFF_LENGTH) (load16 m (esi + OFF_LENGTH));
          m = store16 m (edi + COUNTDOWN) (load16 m (esi + COUNTDOWN))
      in store16 m (edi + STATUS) (load16 m (esi + STATUS)))"

definition mp1_ioctl_sync :: "fish_layout \<Rightarrow> u32 \<Rightarrow> memory \<Rightarrow> (i32 \<times> memory) outcome" where
  "mp1_ioctl_sync L arg m =
     obind (mp1_find_helper L (drop_bit 16 arg) m) (\<lambda>esi.
       if esi = 0 then Ok (-1, m)
       else
         obind (mp1_find_helper L (arg AND 0xFFFF) m) (\<lambda>edi.
           if edi = 0 then Ok (-1, m)
           else
             let m = sync_copy esi edi m
             in Ok (0, mp1_poke L (sync_char (m (edi + STATUS)) (m (edi + OFF_CHAR)) (m (edi + ON_CHAR)))
                         (push_bit 1 (ucast (load16 m (edi + LOCATION)))) m)))"

definition mp1_ioctl_find :: "fish_layout \<Rightarrow> u32 \<Rightarrow> memory \<Rightarrow> (i32 \<times> memory) outcome" where
  "mp1_ioctl_find L arg m =
     (let (eax, m) = ece391_memcpy (find_temp L) arg 2 m
      in if eax \<noteq> 0 then Ok (-1, m)
         else
           obind (mp1_find_helper L (ucast (load16 m (find_temp L))) m) (\<lambda>eax.
             if eax = 0 then Ok (-1, m)
             else let (eax, m) = ece391_memcpy arg eax STRUCT_SIZE m in Ok (if eax = 0 then 0 else -1, m)))"

definition RTC_ADD :: u32 where "RTC_ADD = 0"
definition RTC_REMOVE :: u32 where "RTC_REMOVE = 1"
definition RTC_FIND :: u32 where "RTC_FIND = 2"
definition RTC_SYNC :: u32 where "RTC_SYNC = 3"

lemmas rtc_commands = RTC_ADD_def RTC_REMOVE_def RTC_FIND_def RTC_SYNC_def

text \<open>The jump through \<open>call_table\<close>, which has four entries.\<close>

definition mp1_ioctl :: "fish_layout \<Rightarrow> u32 \<Rightarrow> u32 \<Rightarrow> memory \<Rightarrow> (i32 \<times> memory) outcome" where
  "mp1_ioctl L arg cmd m =
     (if cmd = RTC_ADD then Ok (mp1_ioctl_add L arg m)
      else if cmd = RTC_REMOVE then mp1_ioctl_remove L arg m
      else if cmd = RTC_FIND then mp1_ioctl_find L arg m
      else if cmd = RTC_SYNC then mp1_ioctl_sync L arg m
      else Fault Out_Of_Bounds)"

section \<open>Spans of addresses\<close>

definition span :: "u32 \<Rightarrow> nat \<Rightarrow> u32 set" where
  "span a n = (\<lambda>i. a + of_nat i) ` {..<n}"

lemma span_of_nat [simp, intro]: "i < n \<Longrightarrow> a + of_nat i \<in> span a n"
  by (auto simp: span_def)

lemma span_numeral [simp]: "numeral k < n \<Longrightarrow> a + numeral k \<in> span a n" "0 < n \<Longrightarrow> a \<in> span a n" "1 < n \<Longrightarrow> a + 1 \<in> span a n"
  using span_of_nat [of "numeral k" n a] span_of_nat [of 0 n a] span_of_nat [of 1 n a] by simp_all

lemma span_sub: "i + k \<le> n \<Longrightarrow> span (a + of_nat i) k \<subseteq> span a n"
  by (auto simp: span_def add.assoc of_nat_add [symmetric] simp del: of_nat_add intro!: image_eqI)

lemma load16_store16 [simp]: "load16 (store16 m a v) a = v"
proof (rule bit_word_eqI)
  fix n :: nat
  assume "n < LENGTH(16)"
  then consider "n < 8" | "8 \<le> n" "n < 16" by fastforce
  then show "bit (load16 (store16 m a v) a) n = bit v n" unfolding load16_def store16_def by cases (auto simp: bit_simps)
qed

lemma store_outside:
  "b \<notin> span a 2 \<Longrightarrow> store16 m a v b = m b" "b \<notin> span a 4 \<Longrightarrow> store32 m a w b = m b"
  by (auto simp: store16_def store32_def)

lemma load_cong:
  "(\<And>b. b \<in> span a 2 \<Longrightarrow> m' b = m b) \<Longrightarrow> load16 m' a = load16 m a"
  "(\<And>b. b \<in> span a 4 \<Longrightarrow> m' b = m b) \<Longrightarrow> load32 m' a = load32 m a"
  by (simp_all add: load16_def load32_def)

lemma fold_memset: "n \<le> 2 ^ 32 \<Longrightarrow> fold (\<lambda>i m. m(a + of_nat i := c)) [0..<n] m = (\<lambda>b. if b \<in> span a n then c else m b)"
proof (induction n)
  case (Suc n)
  have "span a (Suc n) = insert (a + of_nat n) (span a n)" by (auto simp: span_def lessThan_Suc)
  then show ?case using Suc by (auto simp: fun_eq_iff)
qed (simp add: span_def)

lemma memset_bytes: "ece391_memset a c n m = (\<lambda>b. if b \<in> span a (nat (sint n)) then c else m b)"
proof -
  have "sint n < 2 ^ 31" using sint_lt [of n] by simp
  then show ?thesis unfolding ece391_memset_def by (intro fold_memset) simp
qed

lemma memcpy_outside: "b \<notin> span d (nat (sint n)) \<Longrightarrow> snd (ece391_memcpy d a n m) b = m b"
proof -
  have "b \<notin> span d k \<Longrightarrow> fold (\<lambda>i m. m(d + of_nat i := m (a + of_nat i))) [0..<k] m b = m b" for k
  proof (induction k)
    case (Suc k)
    then have "b \<noteq> d + of_nat k" "b \<notin> span d k" by (auto simp: span_def)
    then show ?case using Suc by simp
  qed simp
  then show "b \<notin> span d (nat (sint n)) \<Longrightarrow> snd (ece391_memcpy d a n m) b = m b" by (simp add: ece391_memcpy_def)
qed

lemma memcpy_bytes:
  assumes "span d (nat (sint n)) \<inter> span a (nat (sint n)) = {}" and "i < nat (sint n)"
  shows "snd (ece391_memcpy d a n m) (d + of_nat i) = m (a + of_nat i)"
proof -
  have n: "nat (sint n) < 2 ^ 32" using sint_lt [of n] by simp
  have "fold (\<lambda>i m. m(d + of_nat i := m (a + of_nat i))) [0..<k] m (d + of_nat i) = (if i < k then m (a + of_nat i) else m (d + of_nat i)) \<and>
     (\<forall>b. b \<notin> span d k \<longrightarrow> fold (\<lambda>i m. m(d + of_nat i := m (a + of_nat i))) [0..<k] m b = m b)" if "k \<le> nat (sint n)" for k
    using that
  proof (induction k)
    case (Suc k)
    have "a + of_nat k \<notin> span d k" using assms(1) Suc.prems by (force simp: span_def)
    moreover have "(of_nat i :: u32) = of_nat k \<longleftrightarrow> i = k" using of_nat_u32_eq_iff [of i k] assms(2) Suc.prems n by simp
    moreover have "span d (Suc k) = insert (d + of_nat k) (span d k)" by (auto simp: span_def lessThan_Suc)
    ultimately show ?case using Suc by auto
  qed simp
  from this [of "nat (sint n)"] show ?thesis using assms(2) by (simp add: ece391_memcpy_def)
qed

lemma fst_memcpy [simp]: "fst (ece391_memcpy d a n m) = 0"
  by (simp add: ece391_memcpy_def)

end
