(* ===== verification/Blink_Table.thy ===== *)
theory Blink_Table
  imports Blink
begin

text \<open>
  The blinking characters as a table: an invariant on the list and its slots in memory, the table the memory stands for,
  and each routine as an operation on that table.
\<close>

section \<open>The table in memory\<close>

record blink =
  location :: u16
  on_char :: u8
  off_char :: u8
  on_length :: u16
  off_length :: u16
  countdown :: u16
  status :: u16

definition get_blink :: "memory \<Rightarrow> u32 \<Rightarrow> blink" where
  "get_blink m p = \<lparr>location = load16 m p, on_char = m (p + 2), off_char = m (p + 3), on_length = load16 m (p + 4),
     off_length = load16 m (p + 6), countdown = load16 m (p + 8), status = load16 m (p + 10)\<rparr>"

fun chain :: "memory \<Rightarrow> u32 \<Rightarrow> u32 list \<Rightarrow> bool" where
  "chain m p [] \<longleftrightarrow> p = 0"
| "chain m p (q # qs) \<longleftrightarrow> p = q \<and> q \<noteq> 0 \<and> chain m (load32 m (q + 12)) qs"

definition slots_of :: "fish_layout \<Rightarrow> u32 set" where
  "slots_of L = (\<lambda>i. blink_array L + 16 * of_nat i) ` {..<2000}"

text \<open>
  The objects of the program and the video memory at \<open>v\<close> do not overlap.
\<close>

definition layout_ok :: "fish_layout \<Rightarrow> u32 \<Rightarrow> bool" where
  "layout_ok L v \<longleftrightarrow> blink_array L \<noteq> 0 \<and> unat (blink_array L) + 32000 \<le> 2 ^ 32 \<and>
     (\<forall>x \<in> {span (mp1_list_head L) 4, span (vmem_base_addr L) 4, span (add_temp L) 16, span v 4000, span (find_temp L) 2}.
        span (blink_array L) 32000 \<inter> x = {}) \<and>
     (\<forall>x \<in> {span (vmem_base_addr L) 4, span (add_temp L) 16, span v 4000, span (find_temp L) 2}. span (mp1_list_head L) 4 \<inter> x = {}) \<and>
     (\<forall>x \<in> {span (add_temp L) 16, span v 4000, span (find_temp L) 2}. span (vmem_base_addr L) 4 \<inter> x = {}) \<and>
     span (add_temp L) 16 \<inter> span v 4000 = {} \<and> span (find_temp L) 2 \<inter> span v 4000 = {}"

text \<open>
  The list starts at the head, visits slots of the array once each, and a slot is in it exactly when its location
  is not zero.
\<close>

definition table_in :: "fish_layout \<Rightarrow> u32 \<Rightarrow> memory \<Rightarrow> u32 list \<Rightarrow> bool" where
  "table_in L v m ps \<longleftrightarrow> load32 m (vmem_base_addr L) = v \<and> chain m (load32 m (mp1_list_head L)) ps \<and> distinct ps \<and>
     set ps \<subseteq> slots_of L \<and> (\<forall>p\<in>slots_of L. load16 m p \<noteq> 0 \<longleftrightarrow> p \<in> set ps) \<and> (\<forall>p\<in>set ps. load16 m p < 2000)"

definition table_of :: "memory \<Rightarrow> u32 list \<Rightarrow> blink list" where
  "table_of m ps = map (get_blink m) ps"

text \<open>The characters of the 2000 screen positions.\<close>

definition cells :: "u32 \<Rightarrow> memory \<Rightarrow> u16 \<Rightarrow> u8" where
  "cells v m l = (if l < 2000 then m (v + push_bit 1 (ucast l)) else 0)"

section \<open>The operations on the table\<close>

definition tick :: "blink \<Rightarrow> blink" where
  "tick b = (if sint (countdown b - 1) > 0 then b\<lparr>countdown := countdown b - 1\<rparr>
     else b\<lparr>countdown := if status b AND 1 \<noteq> 0 then off_length b else on_length b, status := status b XOR 1\<rparr>)"

definition draw :: "blink \<Rightarrow> (u16 \<Rightarrow> u8) \<Rightarrow> u16 \<Rightarrow> u8" where
  "draw b f = (if sint (countdown b - 1) > 0 then f
     else f(location b := if status b AND 1 \<noteq> 0 then off_char b else on_char b))"

definition fresh :: "blink \<Rightarrow> blink" where
  "fresh b = b\<lparr>status := 1, countdown := on_length b\<rparr>"

section \<open>Bytes of a structure\<close>

lemma get_blink_cong: "(\<And>b. b \<in> span p 12 \<Longrightarrow> m' b = m b) \<Longrightarrow> get_blink m' p = get_blink m p"
  by (simp add: get_blink_def load16_def add.assoc)

lemma get_blink_copy:
  assumes "\<And>i. i < 12 \<Longrightarrow> m' (d + of_nat i) = m (a + of_nat i)"
  shows "get_blink m' d = get_blink m a"
  using assms [of 0] assms [of 1] assms [of 2] assms [of 3] assms [of 4] assms [of 5] assms [of 6] assms [of 7]
    assms [of 8] assms [of 9] assms [of 10] assms [of 11]
  by (simp add: get_blink_def load16_def add.assoc)

lemma location_get_blink [simp]: "location (get_blink m p) = load16 m p"
  by (simp add: get_blink_def)

lemma get_blink_store:
  "get_blink (store16 m (p + 4) v) p = (get_blink m p)\<lparr>on_length := v\<rparr>"
  "get_blink (store16 m (p + 6) v) p = (get_blink m p)\<lparr>off_length := v\<rparr>"
  "get_blink (store16 m (p + 8) v) p = (get_blink m p)\<lparr>countdown := v\<rparr>"
  "get_blink (store16 m (p + 10) v) p = (get_blink m p)\<lparr>status := v\<rparr>"
  by (simp_all add: get_blink_def) (simp_all add: load16_def store16_def add.assoc)

lemma span_12_4: "span p 16 = span p 12 \<union> span (p + 12) 4"
proof -
  have "x \<in> (\<lambda>i. 12 + i) ` {..<4}" if "x < 16" "\<not> x < 12" for x :: nat using that by (intro image_eqI [of _ _ "x - 12"]) auto
  then have "{..<16} = {..<12 :: nat} \<union> (\<lambda>i. 12 + i) ` {..<4}" by auto
  then show ?thesis by (simp add: span_def image_Un image_image add.assoc)
qed

lemma span_eq: "b \<in> span a n \<longleftrightarrow> (\<exists>i<n. b = a + of_nat i)"
  by (auto simp: span_def)

lemma span_parts: "span p 12 \<inter> span (p + 12) 4 = {}"
proof -
  have False if an: "b \<in> span p 12" and at: "b \<in> span (p + 12) 4" for b
  proof -
    obtain j where j: "j < 12" "b = p + of_nat j" using an by (auto simp: span_eq)
    obtain i where i: "i < 4" "b = p + 12 + of_nat i" using at by (auto simp: span_eq)
    have "(of_nat (12 + i) :: u32) = of_nat j" using i(2) j(2) by (simp add: add.assoc)
    then show False using of_nat_u32_eq_iff [of "12 + i" j] i(1) j(1) by simp
  qed
  then show ?thesis by blast
qed

lemma unat_offset:
  assumes "unat (a :: u32) + n \<le> 2 ^ 32" and "i < n"
  shows "unat (a + of_nat i) = unat a + i"
  using assms unat_of_nat_u32 [of i] by (simp add: unat_word_ariths)

lemma span_disjoint:
  assumes "unat a + n \<le> unat b" and "unat b + k \<le> 2 ^ 32"
  shows "span a n \<inter> span b k = {}" "span b k \<inter> span a n = {}"
proof -
  have "unat x < unat b" if "x \<in> span a n" for x
    using that assms unat_u32_lt [of b] unat_offset [of a n] by (fastforce simp: span_eq)
  moreover have "unat b \<le> unat x" if "x \<in> span b k" for x
    using that assms unat_offset [of b k] by (fastforce simp: span_eq)
  ultimately show "span a n \<inter> span b k = {}" "span b k \<inter> span a n = {}" by fastforce+
qed

lemma slot_facts:
  assumes "layout_ok L v" and "p \<in> slots_of L"
  shows "span p 16 \<subseteq> span (blink_array L) 32000" "p \<noteq> 0" "q \<in> slots_of L \<Longrightarrow> p \<noteq> q \<Longrightarrow> span p 16 \<inter> span q 16 = {}"
proof -
  have A: "blink_array L \<noteq> 0" "unat (blink_array L) + 32000 \<le> 2 ^ 32" using assms(1) by (simp_all add: layout_ok_def)
  have slot: "unat (blink_array L + 16 * of_nat i) = unat (blink_array L) + 16 * i" if "i < 2000" for i
    using unat_offset [OF A(2), of "16 * i"] that by simp
  obtain i where i: "i < 2000" "p = blink_array L + 16 * of_nat i" using assms(2) by (auto simp: slots_of_def)
  show "span p 16 \<subseteq> span (blink_array L) 32000" using span_sub [of "16 * i" 16 32000 "blink_array L"] i by simp
  show "p \<noteq> 0" using slot [OF i(1)] i(2) A(1) by (auto simp flip: unat_eq_0)
  show "span p 16 \<inter> span q 16 = {}" if q: "q \<in> slots_of L" "p \<noteq> q"
  proof -
    obtain j where j: "j < 2000" "q = blink_array L + 16 * of_nat j" using q(1) by (auto simp: slots_of_def)
    then have "i < j \<or> j < i" using i q(2) by (metis nat_neq_iff)
    then show ?thesis
      using span_disjoint [of p 16 q 16] span_disjoint [of q 16 p 16] slot [OF i(1)] slot [OF j(1)] i j A(2) by auto
  qed
qed

lemma cells_cong: "(\<And>b. b \<in> span v 4000 \<Longrightarrow> m' b = m b) \<Longrightarrow> cells v m' = cells v m"
proof (rule ext)
  fix l :: u16
  assume s: "\<And>b. b \<in> span v 4000 \<Longrightarrow> m' b = m b"
  show "cells v m' l = cells v m l"
  proof (cases "l < 2000")
    case True
    have "v + push_bit 1 (ucast l) = v + of_nat (2 * unat l)" by (simp add: push_bit_eq_mult)
    moreover have "2 * unat l < 4000" using True by (simp add: word_less_nat_alt)
    ultimately show ?thesis using s [of "v + push_bit 1 (ucast l)"] True by (metis cells_def span_of_nat)
  qed (simp add: cells_def)
qed

lemma cell_address:
  assumes "l < 2000"
  shows "v + push_bit 1 (ucast (l :: u16)) \<in> span v 4000"
    "v + push_bit 1 (ucast (k :: u16)) = v + push_bit 1 (ucast l) \<longleftrightarrow> k = (l :: u16)"
proof -
  have u: "unat (push_bit 1 (ucast k) :: u32) = 2 * unat k" for k :: u16
    using unsigned_less [of k, where 'a = nat] by (simp add: push_bit_eq_mult unat_word_ariths unsigned_ucast_eq take_bit_nat_eq_self)
  have "v + push_bit 1 (ucast l) = v + of_nat (2 * unat l)" by (simp add: push_bit_eq_mult)
  moreover have "2 * unat l < 4000" using assms by (simp add: word_less_nat_alt)
  ultimately show "v + push_bit 1 (ucast l) \<in> span v 4000" by (metis span_of_nat)
  show "v + push_bit 1 (ucast k) = v + push_bit 1 (ucast l) \<longleftrightarrow> k = l"
    using u [of k] u [of l] by (metis add_left_cancel mult_cancel1 unsigned_word_eqI zero_neq_numeral)
qed

lemma poke_facts:
  assumes "load32 m (vmem_base_addr L) = v" and "l < 2000"
  shows "cells v (mp1_poke L c (push_bit 1 (ucast l)) m) = (cells v m)(l := c)"
    "b \<notin> span v 4000 \<Longrightarrow> mp1_poke L c (push_bit 1 (ucast l)) m b = m b"
  using assms cell_address [OF assms(2), of v] by (auto simp: mp1_poke_def cells_def fun_eq_iff)

section \<open>The tasklet\<close>

lemma get_blink_loads:
  "load16 m (p + LOCATION) = location (get_blink m p)" "m (p + ON_CHAR) = on_char (get_blink m p)"
  "m (p + OFF_CHAR) = off_char (get_blink m p)" "load16 m (p + ON_LENGTH) = on_length (get_blink m p)"
  "load16 m (p + OFF_LENGTH) = off_length (get_blink m p)" "load16 m (p + COUNTDOWN) = countdown (get_blink m p)"
  "load16 m (p + STATUS) = status (get_blink m p)"
  by (simp_all add: get_blink_def blink_offsets)

lemma get_blink_stores:
  "get_blink (store16 m (p + ON_LENGTH) v) p = (get_blink m p)\<lparr>on_length := v\<rparr>"
  "get_blink (store16 m (p + OFF_LENGTH) v) p = (get_blink m p)\<lparr>off_length := v\<rparr>"
  "get_blink (store16 m (p + COUNTDOWN) v) p = (get_blink m p)\<lparr>countdown := v\<rparr>"
  "get_blink (store16 m (p + STATUS) v) p = (get_blink m p)\<lparr>status := v\<rparr>"
  by (simp_all add: blink_offsets get_blink_store)

lemma field_store_outside:
  "b \<notin> span p 12 \<Longrightarrow> off \<in> {ON_LENGTH, OFF_LENGTH, COUNTDOWN, STATUS} \<Longrightarrow> store16 m (p + off) v b = m b"
  using span_sub [of 4 2 12 p] span_sub [of 6 2 12 p] span_sub [of 8 2 12 p] span_sub [of 10 2 12 p]
  by (intro store_outside(1)) (auto simp: blink_offsets)

lemma slot_apart:
  assumes "layout_ok L v" and "p \<in> slots_of L"
  shows "span p 16 \<inter> span v 4000 = {}" "span p 16 \<inter> span (vmem_base_addr L) 4 = {}" "span p 16 \<inter> span (mp1_list_head L) 4 = {}"
    "span p 16 \<inter> span (add_temp L) 16 = {}" "span p 16 \<inter> span (find_temp L) 2 = {}"
proof -
  have s: "span p 16 \<inter> X = {}" if "span (blink_array L) 32000 \<inter> X = {}" for X using that slot_facts(1) [OF assms] by blast
  show "span p 16 \<inter> span v 4000 = {}" "span p 16 \<inter> span (vmem_base_addr L) 4 = {}" "span p 16 \<inter> span (mp1_list_head L) 4 = {}"
    "span p 16 \<inter> span (add_temp L) 16 = {}" "span p 16 \<inter> span (find_temp L) 2 = {}"
    using assms(1) by (intro s, simp add: layout_ok_def)+
qed

lemma tasklet_blink_facts:
  assumes "layout_ok L v" and "p \<in> slots_of L" and v: "load32 m (vmem_base_addr L) = v" and "load16 m p < 2000"
  shows "get_blink (tasklet_blink L p m) p = tick (get_blink m p)"
    and "b \<notin> span p 12 \<Longrightarrow> b \<notin> span v 4000 \<Longrightarrow> tasklet_blink L p m b = m b"
    and "cells v (tasklet_blink L p m) = draw (get_blink m p) (cells v m)"
proof -
  let ?b = "get_blink m p" and ?m1 = "store16 m (p + COUNTDOWN) (countdown (get_blink m p) - 1)"
  note apart = slot_apart(1,2) [OF assms(1,2), unfolded span_12_4]
  have m1: "get_blink ?m1 p = ?b\<lparr>countdown := countdown ?b - 1\<rparr>" "\<And>b. b \<notin> span p 12 \<Longrightarrow> ?m1 b = m b"
    by (simp_all add: get_blink_stores field_store_outside)
  have c1: "cells v ?m1 = cells v m" by (rule cells_cong, rule m1(2)) (use apart in blast)
  have v1: "load32 ?m1 (vmem_base_addr L) = v" unfolding v [symmetric] by (rule load_cong(2)) (use apart m1(2) in blast)
  define c where "c = (if status ?b AND 1 \<noteq> 0 then off_char ?b else on_char ?b)"
  define dx where "dx = (if status ?b AND 1 \<noteq> 0 then off_length ?b else on_length ?b)"
  define m2 where "m2 = mp1_poke L c (push_bit 1 (ucast (location ?b))) ?m1"
  have l: "location ?b < 2000" using assms(4) by simp
  have m2: "cells v m2 = (cells v m)(location ?b := c)" "\<And>b. b \<notin> span v 4000 \<Longrightarrow> m2 b = ?m1 b"
    unfolding m2_def using poke_facts [OF v1 l] c1 by auto
  have b2: "get_blink m2 p = ?b\<lparr>countdown := countdown ?b - 1\<rparr>"
    unfolding m1(1) [symmetric] by (rule get_blink_cong) (use apart m2(2) in blast)
  define m3 where "m3 = store16 m2 (p + COUNTDOWN) dx"
  have b3: "get_blink m3 p = ?b\<lparr>countdown := dx\<rparr>" by (simp add: m3_def get_blink_stores b2)
  define m4 where "m4 = store16 m3 (p + STATUS) (status ?b XOR 1)"
  have out: "m4 b = m2 b" if "b \<notin> span p 12" for b using that by (simp add: m4_def m3_def field_store_outside)
  have eq: "tasklet_blink L p m = (if sint (countdown ?b - 1) > 0 then ?m1 else m4)"
    using b2 b3 m1(1)
    by (auto simp: tasklet_blink_def Let_def get_blink_loads m4_def m3_def m2_def c_def dx_def split: if_splits)
  show "get_blink (tasklet_blink L p m) p = tick ?b"
    by (simp add: eq m1(1) tick_def m4_def get_blink_stores b3 dx_def)
  show "tasklet_blink L p m b = m b" if "b \<notin> span p 12" "b \<notin> span v 4000"
    using that out m2(2) m1(2) by (simp add: eq)
  have "cells v m4 = cells v m2" by (rule cells_cong) (use apart out in blast)
  then show "cells v (tasklet_blink L p m) = draw ?b (cells v m)" by (simp add: eq c1 draw_def m2(1) c_def)
qed

lemma chain_cong: "(\<And>q b. q \<in> set qs \<Longrightarrow> b \<in> span (q + 12) 4 \<Longrightarrow> m' b = m b) \<Longrightarrow> chain m' p qs \<longleftrightarrow> chain m p qs"
proof (induction qs arbitrary: p)
  case (Cons q qs)
  have "load32 m' (q + 12) = load32 m (q + 12)" by (rule load_cong(2), rule Cons.prems) auto
  moreover have "chain m' r qs \<longleftrightarrow> chain m r qs" for r by (rule Cons.IH, rule Cons.prems) auto
  ultimately show ?case by simp
qed simp

lemma tasklet_loop_facts:
  assumes "layout_ok L v" and "chain m p ps" and "distinct ps" and "set ps \<subseteq> slots_of L" and "load32 m (vmem_base_addr L) = v"
    and "\<forall>q\<in>set ps. load16 m q < 2000"
  shows "\<exists>t. tasklet_loop L p m = Some t \<and> map (get_blink t) ps = map (tick \<circ> get_blink m) ps \<and>
    (\<forall>b. b \<notin> span v 4000 \<and> (\<forall>q\<in>set ps. b \<notin> span q 12) \<longrightarrow> t b = m b) \<and> cells v t = fold draw (map (get_blink m) ps) (cells v m)"
  using assms(2-)
proof (induction ps arbitrary: p m)
  case Nil
  then show ?case by (subst tasklet_loop.simps) simp
next
  case (Cons q qs)
  define n where "n = tasklet_blink L q m"
  have q: "p = q" "q \<noteq> 0" "q \<in> slots_of L" "q \<notin> set qs" "chain m (load32 m (q + 12)) qs" using Cons.prems by auto
  note n = tasklet_blink_facts [OF assms(1) q(3) Cons.prems(4), folded n_def]
  have lq: "load16 m q < 2000" using Cons.prems(5) by simp
  note a = slot_apart [OF assms(1)] and d = slot_facts(3) [OF assms(1)]
  have other: "n b = m b" if "r \<in> slots_of L" "r \<noteq> q" "b \<in> span r 16" for r b
    using n(2) [OF lq] that a(1) [OF that(1)] d [OF q(3) that(1)] span_12_4 [of q] by blast
  have own: "n b = m b" if "b \<in> span (q + 12) 4" for b
    using n(2) [OF lq] that a(1) [OF q(3)] span_12_4 [of q] span_parts [of q] by blast
  have qs: "r \<in> slots_of L" "r \<noteq> q" if "r \<in> set qs" for r using that Cons.prems(3) q(4) by auto
  have "chain n (load32 m (q + 12)) qs"
    using chain_cong [of qs n m] other qs q(5) span_12_4 by blast
  moreover have "load32 n (q + 12) = load32 m (q + 12)" by (rule load_cong(2)) (rule own)
  moreover have "load32 n (vmem_base_addr L) = v"
    unfolding Cons.prems(4) [symmetric]
    by (rule load_cong(2), rule n(2) [OF lq]) (use a(2) [OF q(3)] assms(1) span_12_4 [of q] in \<open>auto simp: layout_ok_def\<close>)
  moreover have same: "get_blink n r = get_blink m r" if "r \<in> set qs" for r
    by (rule get_blink_cong) (use other qs [OF that] span_12_4 in blast)
  moreover have "\<forall>r\<in>set qs. load16 n r < 2000" using Cons.prems(5) same by (metis list.set_intros(2) location_get_blink)
  ultimately obtain t where t: "tasklet_loop L (load32 n (q + 12)) n = Some t" "map (get_blink t) qs = map (tick \<circ> get_blink n) qs"
      "\<And>b. b \<notin> span v 4000 \<Longrightarrow> (\<forall>r\<in>set qs. b \<notin> span r 12) \<Longrightarrow> t b = n b" "cells v t = fold draw (map (get_blink n) qs) (cells v n)"
    using Cons.IH [of n "load32 n (q + 12)"] Cons.prems(2,3) by auto
  have ms: "map (get_blink n) qs = map (get_blink m) qs" using same by simp
  have "get_blink t q = get_blink n q"
    by (rule get_blink_cong, rule t(3)) (use a(1) [OF q(3)] d [OF q(3) qs(1)] qs(2) span_12_4 in blast)+
  then have "map (get_blink t) (q # qs) = map (tick \<circ> get_blink m) (q # qs)" using t(2) ms n(1) [OF lq] by (simp flip: map_map)
  moreover have "t b = m b" if "b \<notin> span v 4000" "\<forall>r\<in>set (q # qs). b \<notin> span r 12" for b using that t(3) n(2) [OF lq] by simp
  moreover have "cells v t = fold draw (map (get_blink m) (q # qs)) (cells v m)" using t(4) ms n(3) [OF lq] by simp
  ultimately show ?case using t(1) q(1,2) by (subst tasklet_loop.simps) (simp add: n_def [symmetric] Let_def NEXT_def)
qed

end
