(* ===== verification/Blink_Ops.thy ===== *)
theory Blink_Ops
  imports Blink_Table
begin

text \<open>
  Adding, removing, finding and synchronising entries of the table of \<open>Blink_Table\<close>.
\<close>

section \<open>What keeps the table\<close>

lemma layout_apart:
  assumes "layout_ok L v"
  shows "span (blink_array L) 32000 \<inter> span (mp1_list_head L) 4 = {}" "span (blink_array L) 32000 \<inter> span (vmem_base_addr L) 4 = {}"
    "span (blink_array L) 32000 \<inter> span (add_temp L) 16 = {}" "span (blink_array L) 32000 \<inter> span v 4000 = {}"
    "span (mp1_list_head L) 4 \<inter> span (vmem_base_addr L) 4 = {}" "span (mp1_list_head L) 4 \<inter> span (add_temp L) 16 = {}"
    "span (mp1_list_head L) 4 \<inter> span v 4000 = {}" "span (vmem_base_addr L) 4 \<inter> span (add_temp L) 16 = {}"
    "span (vmem_base_addr L) 4 \<inter> span v 4000 = {}" "span (add_temp L) 16 \<inter> span v 4000 = {}"
    "span (blink_array L) 32000 \<inter> span (find_temp L) 2 = {}" "span (mp1_list_head L) 4 \<inter> span (find_temp L) 2 = {}"
    "span (vmem_base_addr L) 4 \<inter> span (find_temp L) 2 = {}" "span (find_temp L) 2 \<inter> span v 4000 = {}"
  using assms by (simp_all add: layout_ok_def)

definition table_bytes :: "fish_layout \<Rightarrow> u32 set" where
  "table_bytes L = span (blink_array L) 32000 \<union> span (mp1_list_head L) 4 \<union> span (vmem_base_addr L) 4"

lemma table_apart:
  assumes "layout_ok L v"
  shows "table_bytes L \<inter> span (add_temp L) 16 = {}" "table_bytes L \<inter> span (find_temp L) 2 = {}" "table_bytes L \<inter> span v 4000 = {}"
  using layout_apart(3,4,6-9,11-13) [OF assms] by (simp_all add: table_bytes_def Int_Un_distrib2)

lemma table_carried:
  assumes "layout_ok L v" and "table_in L v m ps" and "\<And>b. b \<in> table_bytes L \<Longrightarrow> m' b = m b"
  shows "table_in L v m' ps" "table_of m' ps = table_of m ps"
proof -
  have slot: "m' b = m b" if "p \<in> slots_of L" "b \<in> span p 16" for p b
    using that slot_facts(1) [OF assms(1)] assms(3) by (auto simp: table_bytes_def)
  have ps: "set ps \<subseteq> slots_of L" using assms(2) by (simp add: table_in_def)
  have g: "get_blink m' p = get_blink m p" if "p \<in> slots_of L" for p
    by (rule get_blink_cong) (use slot [OF that] span_12_4 in blast)
  show "table_of m' ps = table_of m ps" using g ps by (auto simp: table_of_def)
  have "load16 m' p = load16 m p" if "p \<in> slots_of L" for p using g [OF that] by (metis location_get_blink)
  moreover have "load32 m' (mp1_list_head L) = load32 m (mp1_list_head L)" "load32 m' (vmem_base_addr L) = load32 m (vmem_base_addr L)"
    by (rule load_cong(2), use assms(3) in \<open>auto simp: table_bytes_def\<close>)+
  moreover have "chain m' r ps = chain m r ps" for r
    by (rule chain_cong, rule slot) (use ps span_12_4 in auto)
  ultimately show "table_in L v m' ps" using assms(2) ps by (auto simp: table_in_def)
qed

section \<open>Finding an entry\<close>

lemma find_helper_loop_eq:
  "chain m p ps \<Longrightarrow> find_helper_loop m ax p = Some (case find (\<lambda>q. load16 m q = ax) ps of Some q \<Rightarrow> q | None \<Rightarrow> 0)"
proof (induction ps arbitrary: p)
  case Nil
  then show ?case by (subst find_helper_loop.simps) simp
next
  case (Cons q qs)
  then show ?case by (subst find_helper_loop.simps) (auto simp: blink_offsets)
qed

lemma find_helper_eq:
  assumes "table_in L v m ps"
  shows "mp1_find_helper L loc m = Ok (case find (\<lambda>q. load16 m q = ucast loc) ps of Some q \<Rightarrow> q | None \<Rightarrow> 0)"
  using assms find_helper_loop_eq [of m "load32 m (mp1_list_head L)" ps "ucast loc"] by (simp add: mp1_find_helper_def table_in_def)

lemma find_split:
  assumes "find P xs = Some x"
  obtains ys zs where "xs = ys @ x # zs" and "\<forall>y\<in>set ys. \<not> P y" and "P x"
  using assms
proof (induction xs arbitrary: thesis)
  case (Cons y xs)
  show ?case
  proof (cases "P y")
    case True
    then show ?thesis using Cons.prems(1) [of "[]" xs] Cons.prems(2) by simp
  next
    case False
    then obtain ys zs where "xs = ys @ x # zs" "\<forall>y\<in>set ys. \<not> P y" "P x" using Cons.IH Cons.prems(2) by auto
    then show ?thesis using Cons.prems(1) [of "y # ys" zs] False by simp
  qed
qed simp

section \<open>Allocating a slot\<close>

lemma slot_inj: "layout_ok L v \<Longrightarrow> inj_on (\<lambda>i. blink_array L + 16 * of_nat i) {..<2000 :: nat}"
proof (rule inj_onI)
  fix i j :: nat
  assume "layout_ok L v" "i \<in> {..<2000}" "j \<in> {..<2000}" "blink_array L + 16 * of_nat i = blink_array L + 16 * of_nat j"
  then have "(of_nat (16 * i) :: u32) = of_nat (16 * j)" by simp
  then show "i = j" using of_nat_u32_eq_iff [of "16 * i" "16 * j"] \<open>i \<in> {..<2000}\<close> \<open>j \<in> {..<2000}\<close> by simp
qed

lemma malloc_eq:
  assumes "layout_ok L v" and "distinct ps" and "set ps \<subseteq> slots_of L" and "\<forall>p\<in>slots_of L. load16 m p \<noteq> 0 \<longleftrightarrow> p \<in> set ps"
  shows "length ps \<le> 2000" "length ps = 2000 \<Longrightarrow> mp1_malloc L sz m = 0"
    "length ps < 2000 \<Longrightarrow> mp1_malloc L sz m \<in> slots_of L - set ps"
proof -
  have card: "card (slots_of L) = 2000" "finite (slots_of L)"
    using card_image [OF slot_inj [OF assms(1)]] by (simp_all add: slots_of_def)
  have len: "length ps = card (set ps)" using assms(2) by (simp add: distinct_card)
  show "length ps \<le> 2000" using card_mono [OF card(2) assms(3)] card(1) len by simp
  let ?P = "\<lambda>i. load16 m (blink_array L + 16 * of_nat i + LOCATION) = 0"
  have P: "?P i \<longleftrightarrow> blink_array L + 16 * of_nat i \<notin> set ps" if "i < 2000" for i
    using assms(4) that by (auto simp: slots_of_def blink_offsets)
  show "mp1_malloc L sz m = 0" if "length ps = 2000"
  proof -
    have "set ps = slots_of L" using card_subset_eq [OF card(2) assms(3)] card(1) len that by simp
    then have "find ?P [0..<80 * 25] = None" using P by (auto simp: find_None_iff slots_of_def)
    then show ?thesis by (simp add: mp1_malloc_def NULL_PTR_def)
  qed
  show "mp1_malloc L sz m \<in> slots_of L - set ps" if "length ps < 2000"
  proof -
    have "set ps \<noteq> slots_of L" using that card(1) len by auto
    then obtain i where "i < 2000" "?P i" using P assms(3) by (auto simp: slots_of_def)
    then obtain j where j: "find ?P [0..<80 * 25] = Some j" by (cases "find ?P [0..<80 * 25]") (auto simp: find_None_iff)
    then have "j < 2000" "?P j" by (auto simp: find_Some_iff)
    then show ?thesis using j P by (simp add: mp1_malloc_def slots_of_def)
  qed
qed

section \<open>Adding an entry\<close>

definition add_bytes :: "fish_layout \<Rightarrow> u32 \<Rightarrow> u32 set" where
  "add_bytes L v = span (blink_array L) 32000 \<union> span (mp1_list_head L) 4 \<union> span (add_temp L) 16 \<union> span v 4000"

lemma sint_struct: "nat (sint STRUCT_SIZE) = 16"
  by (simp add: STRUCT_SIZE_def)

text \<open>The structure as it stands in the temporary, before a slot is asked for.\<close>

lemma add_temp_facts:
  fixes m :: memory
  assumes "span (add_temp L) 16 \<inter> span arg 16 = {}"
  defines "m1 \<equiv> snd (ece391_memcpy (add_temp L) arg STRUCT_SIZE m)"
  defines "m2 \<equiv> store16 (store16 m1 (add_temp L + STATUS) 1) (add_temp L + COUNTDOWN) (on_length (get_blink m arg))"
  shows "get_blink m1 (add_temp L) = get_blink m arg" "get_blink m2 (add_temp L) = fresh (get_blink m arg)"
    "b \<notin> span (add_temp L) 16 \<Longrightarrow> m1 b = m b" "b \<notin> span (add_temp L) 16 \<Longrightarrow> m2 b = m b"
proof -
  show g: "get_blink m1 (add_temp L) = get_blink m arg"
    by (rule get_blink_copy) (use memcpy_bytes [of "add_temp L" STRUCT_SIZE arg] assms(1) in \<open>simp add: m1_def sint_struct\<close>)
  then show "get_blink m2 (add_temp L) = fresh (get_blink m arg)" by (simp add: m2_def get_blink_stores fresh_def)
  show o: "m1 b = m b" if "b \<notin> span (add_temp L) 16" for b
    using memcpy_outside [of b "add_temp L" STRUCT_SIZE] that by (simp add: m1_def sint_struct)
  show "m2 b = m b" if "b \<notin> span (add_temp L) 16"
    using o [OF that] that span_12_4 [of "add_temp L"] by (simp add: m2_def field_store_outside)
qed

lemma add_eq:
  fixes m :: memory
  assumes "span (add_temp L) 16 \<inter> span arg 16 = {}"
  defines "m1 \<equiv> snd (ece391_memcpy (add_temp L) arg STRUCT_SIZE m)"
  defines "m2 \<equiv> store16 (store16 m1 (add_temp L + STATUS) 1) (add_temp L + COUNTDOWN) (on_length (get_blink m arg))"
  defines "p \<equiv> mp1_malloc L STRUCT_SIZE m2"
  defines "m3 \<equiv> snd (ece391_memcpy p (add_temp L) STRUCT_SIZE m2)"
  defines "m4 \<equiv> store32 m3 (p + 12) (load32 m3 (mp1_list_head L))"
  defines "m5 \<equiv> store32 m4 (mp1_list_head L) p"
  shows "mp1_ioctl_add L arg m =
    (if 2000 \<le> location (get_blink m arg) then (-1, m1) else if p = 0 then (-1, m2)
     else (0, mp1_poke L (on_char (get_blink m5 p)) (push_bit 1 (ucast (location (get_blink m5 p)))) m5))"
  by (simp add: mp1_ioctl_add_def Let_def case_prod_beta get_blink_loads get_blink_stores m5_def m4_def m3_def p_def m2_def m1_def
      add_temp_facts(1) [OF assms(1)] NEXT_def del: location_get_blink)

lemma table_malloc:
  assumes "layout_ok L v" and "table_in L v m ps"
  shows "length ps \<le> 2000" "length ps = 2000 \<Longrightarrow> mp1_malloc L sz m = 0" "length ps < 2000 \<Longrightarrow> mp1_malloc L sz m \<in> slots_of L - set ps"
  using malloc_eq [OF assms(1)] assms(2) by (auto simp: table_in_def)

lemma add_fails:
  assumes "layout_ok L v" and "table_in L v m ps" and "span (add_temp L) 16 \<inter> span arg 16 = {}"
    and "2000 \<le> location (get_blink m arg) \<or> length ps = 2000"
  shows "\<exists>t. mp1_ioctl_add L arg m = (-1, t) \<and> (\<forall>b. b \<notin> span (add_temp L) 16 \<longrightarrow> t b = m b)"
proof -
  note t = add_temp_facts [OF assms(3), where m = m]
  have "mp1_malloc L STRUCT_SIZE x = 0" if "\<not> 2000 \<le> location (get_blink m arg)" "\<And>b. b \<notin> span (add_temp L) 16 \<Longrightarrow> x b = m b" for x
    by (rule table_malloc(2) [OF assms(1) table_carried(1) [OF assms(1,2)]])
      (use that assms(4) table_apart(1) [OF assms(1)] in blast)+
  then show ?thesis using t(3,4) unfolding add_eq [OF assms(3)] by auto
qed

lemma table_push:
  assumes ok: "layout_ok L v" and tab: "table_in L v m ps" and p: "p \<in> slots_of L" "p \<notin> set ps"
    and head: "load32 t (mp1_list_head L) = p" and nxt: "load32 t (p + 12) = load32 m (mp1_list_head L)"
    and loc: "load16 t p < 2000" "load16 t p \<noteq> 0"
    and out: "\<And>b. b \<notin> span p 16 \<Longrightarrow> b \<notin> span (mp1_list_head L) 4 \<Longrightarrow> b \<notin> span v 4000 \<Longrightarrow> b \<notin> span (add_temp L) 16 \<Longrightarrow> t b = m b"
  shows "table_in L v t (p # ps)" "table_of t (p # ps) = get_blink t p # table_of m ps"
proof -
  have other: "t b = m b" if "q \<in> slots_of L" "q \<noteq> p" "b \<in> span q 16" for q b
    by (rule out) (use that slot_facts(3) [OF ok p(1) that(1)] slot_apart [OF ok that(1)] in blast)+
  have bq: "get_blink t q = get_blink m q" if "q \<in> slots_of L" "q \<noteq> p" for q
    by (rule get_blink_cong) (use other [OF that] span_12_4 [of q] in blast)
  then have lq: "load16 t q = load16 m q" if "q \<in> slots_of L" "q \<noteq> p" for q using that by (metis location_get_blink)
  have ps: "q \<in> slots_of L" "q \<noteq> p" if "q \<in> set ps" for q using that tab p(2) by (auto simp: table_in_def)
  have "chain t (load32 t (p + 12)) ps"
    using chain_cong [of ps t m] other ps span_12_4 tab unfolding nxt table_in_def by blast
  moreover have "load32 t (vmem_base_addr L) = load32 m (vmem_base_addr L)"
    by (rule load_cong(2), rule out) (use slot_apart(2) [OF ok p(1)] layout_apart(5,8,9) [OF ok] in blast)+
  ultimately show "table_in L v t (p # ps)"
    using tab head p lq ps loc slot_facts(2) [OF ok p(1)] by (auto simp: table_in_def)
  show "table_of t (p # ps) = get_blink t p # table_of m ps" using bq ps by (simp add: table_of_def)
qed

text \<open>The temporary copied into a slot and linked in at the front.\<close>

lemma link_slot:
  fixes m :: memory
  assumes ok: "layout_ok L v" and p: "p \<in> slots_of L"
  defines "m3 \<equiv> snd (ece391_memcpy p (add_temp L) STRUCT_SIZE m)"
  defines "m4 \<equiv> store32 m3 (p + 12) (load32 m3 (mp1_list_head L))"
  defines "m5 \<equiv> store32 m4 (mp1_list_head L) p"
  shows "get_blink m5 p = get_blink m (add_temp L)" "load32 m5 (mp1_list_head L) = p" "load32 m5 (p + 12) = load32 m (mp1_list_head L)"
    "b \<notin> span p 16 \<Longrightarrow> b \<notin> span (mp1_list_head L) 4 \<Longrightarrow> m5 b = m b"
proof -
  note s = slot_apart [OF ok p]
  have o3: "m3 b = m b" if "b \<notin> span p 16" for b using memcpy_outside [of b p STRUCT_SIZE] that by (simp add: m3_def sint_struct)
  have b3: "get_blink m3 p = get_blink m (add_temp L)"
    by (rule get_blink_copy) (use memcpy_bytes [of p STRUCT_SIZE "add_temp L"] s(4) in \<open>simp add: m3_def sint_struct\<close>)
  have o5: "m5 b = m4 b" if "b \<notin> span (mp1_list_head L) 4" for b using that by (simp add: m5_def store_outside)
  have o53: "m5 b = m3 b" if "b \<notin> span (p + 12) 4" "b \<notin> span (mp1_list_head L) 4" for b
    using that o5 by (simp add: m4_def store_outside)
  show "m5 b = m b" if "b \<notin> span p 16" "b \<notin> span (mp1_list_head L) 4" using that o53 o3 span_12_4 [of p] by simp
  show "get_blink m5 p = get_blink m (add_temp L)" unfolding b3 [symmetric]
    by (rule get_blink_cong, rule o53) (use s(3) span_parts [of p] span_12_4 [of p] in blast)+
  show "load32 m5 (mp1_list_head L) = p" by (simp add: m5_def load32_store32)
  have "load32 m5 (p + 12) = load32 m4 (p + 12)" by (rule load_cong(2), rule o5) (use s(3) span_12_4 [of p] in blast)
  moreover have "load32 m3 (mp1_list_head L) = load32 m (mp1_list_head L)" by (rule load_cong(2), rule o3) (use s(3) in blast)
  ultimately show "load32 m5 (p + 12) = load32 m (mp1_list_head L)" by (simp add: m4_def load32_store32)
qed

lemma malloc_cong: "layout_ok L v \<Longrightarrow> (\<And>b. b \<in> table_bytes L \<Longrightarrow> m' b = m b) \<Longrightarrow> mp1_malloc L sz m' = mp1_malloc L sz m"
proof -
  assume ok: "layout_ok L v" and eq: "\<And>b. b \<in> table_bytes L \<Longrightarrow> m' b = m b"
  have "load16 m' p = load16 m p" if "p \<in> slots_of L" for p
    by (rule load_cong(1), rule eq) (use slot_facts(1) [OF ok that] span_sub [of 0 2 16 p] in \<open>auto simp: table_bytes_def\<close>)
  then have "find (\<lambda>i. load16 m' (blink_array L + 16 * of_nat i + LOCATION) = 0) [0..<80 * 25] =
      find (\<lambda>i. load16 m (blink_array L + 16 * of_nat i + LOCATION) = 0) [0..<80 * 25]"
    by (intro find_cong) (auto simp: slots_of_def blink_offsets)
  then show ?thesis by (simp add: mp1_malloc_def)
qed

text \<open>What an addition does to memory once a slot is found, whatever the location.\<close>

lemma add_state:
  assumes ok: "layout_ok L v" and v: "load32 m (vmem_base_addr L) = v" and arg: "span (add_temp L) 16 \<inter> span arg 16 = {}"
    and loc: "location (get_blink m arg) < 2000" and p: "p = mp1_malloc L STRUCT_SIZE m" "p \<in> slots_of L"
  shows "\<exists>t. mp1_ioctl_add L arg m = (0, t) \<and> get_blink t p = fresh (get_blink m arg) \<and> load32 t (mp1_list_head L) = p \<and>
    load32 t (p + 12) = load32 m (mp1_list_head L) \<and> cells v t = (cells v m)(location (get_blink m arg) := on_char (get_blink m arg)) \<and>
    (\<forall>b. b \<notin> span p 16 \<and> b \<notin> span (mp1_list_head L) 4 \<and> b \<notin> span v 4000 \<and> b \<notin> span (add_temp L) 16 \<longrightarrow> t b = m b)"
proof -
  let ?b = "get_blink m arg"
  define m2 where "m2 = store16 (store16 (snd (ece391_memcpy (add_temp L) arg STRUCT_SIZE m)) (add_temp L + STATUS) 1)
    (add_temp L + COUNTDOWN) (on_length ?b)"
  note apart = layout_apart [OF ok] and T = add_temp_facts [OF arg, where m = m, folded m2_def] and s = slot_apart [OF ok p(2)]
  have p2: "mp1_malloc L STRUCT_SIZE m2 = p" unfolding p(1) by (rule malloc_cong [OF ok]) (use T(4) table_apart(1) [OF ok] in blast)
  define m3 where "m3 = snd (ece391_memcpy p (add_temp L) STRUCT_SIZE m2)"
  define m5 where "m5 = store32 (store32 m3 (p + 12) (load32 m3 (mp1_list_head L))) (mp1_list_head L) p"
  note S = link_slot [OF ok p(2), where m = m2, folded m3_def, folded m5_def, unfolded T(2)]
  have l: "location (get_blink m5 p) = location ?b" "on_char (get_blink m5 p) = on_char ?b" unfolding S(1) fresh_def by simp_all
  have o: "m5 b = m b" if "b \<notin> span p 16" "b \<notin> span (mp1_list_head L) 4" "b \<notin> span (add_temp L) 16" for b
    using that S(4) T(4) by simp
  have v5: "load32 m5 (vmem_base_addr L) = v" unfolding v [symmetric]
    by (rule load_cong(2), rule o) (use s(2) apart(5,8) in blast)+
  define t where "t = mp1_poke L (on_char ?b) (push_bit 1 (ucast (location ?b))) m5"
  have call: "mp1_ioctl_add L arg m = (0, t)"
    using loc slot_facts(2) [OF ok p(2)] unfolding add_eq [OF arg] m2_def [symmetric] p2 m3_def [symmetric] m5_def [symmetric] l t_def
    by (simp add: linorder_not_le [symmetric])
  note poke = poke_facts [OF v5 loc, where c = "on_char ?b", folded t_def]
  have "cells v m5 = cells v m" by (rule cells_cong, rule o) (use s(1) apart(7,10) in blast)+
  then have "cells v t = (cells v m)(location ?b := on_char ?b)" using poke(1) by simp
  moreover have "get_blink t p = fresh ?b" unfolding S(1) [symmetric] by (rule get_blink_cong, rule poke(2)) (use s(1) span_12_4 [of p] in blast)
  moreover have "load32 t (mp1_list_head L) = load32 m5 (mp1_list_head L)" by (rule load_cong(2), rule poke(2)) (use apart(7) in blast)
  moreover have "load32 t (p + 12) = load32 m5 (p + 12)" by (rule load_cong(2), rule poke(2)) (use s(1) span_12_4 [of p] in blast)
  moreover have "load32 m2 (mp1_list_head L) = load32 m (mp1_list_head L)" by (rule load_cong(2), rule T(4)) (use apart(6) in blast)
  ultimately show ?thesis using call S(2,3) o poke(2) by auto
qed

lemma add_succeeds:
  assumes ok: "layout_ok L v" and tab: "table_in L v m ps" and arg: "span (add_temp L) 16 \<inter> span arg 16 = {}"
    and loc: "location (get_blink m arg) < 2000" "location (get_blink m arg) \<noteq> 0" and len: "length ps < 2000"
  shows "\<exists>p t. mp1_ioctl_add L arg m = (0, t) \<and> table_in L v t (p # ps) \<and>
    table_of t (p # ps) = fresh (get_blink m arg) # table_of m ps \<and>
    cells v t = (cells v m)(location (get_blink m arg) := on_char (get_blink m arg)) \<and> (\<forall>b. b \<notin> add_bytes L v \<longrightarrow> t b = m b)"
proof -
  let ?b = "get_blink m arg"
  define p where "p = mp1_malloc L STRUCT_SIZE m"
  have p: "p \<in> slots_of L" "p \<notin> set ps" using table_malloc(3) [OF ok tab len] by (auto simp: p_def)
  have "load32 m (vmem_base_addr L) = v" using tab by (simp add: table_in_def)
  then obtain t where t: "mp1_ioctl_add L arg m = (0, t)" "get_blink t p = fresh ?b" "load32 t (mp1_list_head L) = p"
      "load32 t (p + 12) = load32 m (mp1_list_head L)" "cells v t = (cells v m)(location ?b := on_char ?b)"
      "\<And>b. b \<notin> span p 16 \<Longrightarrow> b \<notin> span (mp1_list_head L) 4 \<Longrightarrow> b \<notin> span v 4000 \<Longrightarrow> b \<notin> span (add_temp L) 16 \<Longrightarrow> t b = m b"
    using add_state [OF ok _ arg loc(1) p_def p(1)] by blast
  have lp: "load16 t p = location ?b" unfolding location_get_blink [symmetric] t(2) fresh_def by simp
  have "table_in L v t (p # ps)" "table_of t (p # ps) = fresh ?b # table_of m ps"
    using table_push [OF ok tab p t(3,4) _ _ t(6)] lp loc t(2) by auto
  moreover have "t b = m b" if "b \<notin> add_bytes L v" for b
    using that t(6) [of b] slot_facts(1) [OF ok p(1)] by (auto simp: add_bytes_def)
  ultimately show ?thesis using t(1,5) by blast
qed

section \<open>Removing an entry\<close>

fun del_first :: "u16 \<Rightarrow> blink list \<Rightarrow> blink list" where
  "del_first l [] = []"
| "del_first l (b # bs) = (if location b = l then bs else b # del_first l bs)"

lemma del_first_at: "\<forall>b\<in>set bs. location b \<noteq> l \<Longrightarrow> location c = l \<Longrightarrow> del_first l (bs @ c # cs) = bs @ cs"
  by (induction bs) auto

text \<open>The pointer that leads to an entry, and the list without that entry once the pointer is redirected.\<close>

lemma unlink:
  assumes "chain m (load32 m edx) (xs @ p # ys)" and "distinct (xs @ p # ys)"
    and "\<And>q. q \<in> set (xs @ p # ys) \<Longrightarrow> span edx 4 \<inter> span (q + 12) 4 = {}"
    and "\<And>q r. q \<in> set (xs @ p # ys) \<Longrightarrow> r \<in> set (xs @ p # ys) \<Longrightarrow> q \<noteq> r \<Longrightarrow> span (q + 12) 4 \<inter> span (r + 12) 4 = {}"
  shows "\<exists>c. remove_find_prev m p edx = Some c \<and> (c = edx \<or> (\<exists>q\<in>set xs. c = q + 12)) \<and>
    chain (store32 m c (load32 m (p + 12))) (load32 (store32 m c (load32 m (p + 12))) edx) (xs @ ys)"
  using assms
proof (induction xs arbitrary: edx)
  case Nil
  have "store32 m edx (load32 m (p + 12)) b = m b" if "q \<in> set ys" "b \<in> span (q + 12) 4" for q b
    by (rule store_outside(2)) (use Nil.prems(3) [of q] that in auto)
  then have "chain (store32 m edx (load32 m (p + 12))) (load32 m (p + 12)) ys \<longleftrightarrow> chain m (load32 m (p + 12)) ys" by (rule chain_cong)
  then show ?case using Nil.prems(1) by (subst remove_find_prev.simps) (simp add: load32_store32)
next
  case (Cons x xs)
  have x: "load32 m edx = x" "chain m (load32 m (x + 12)) (xs @ p # ys)" "x \<noteq> p" "x \<notin> set (xs @ p # ys)" "x \<noteq> 0"
    using Cons.prems(1,2) by auto
  have d: "distinct (xs @ p # ys)" using Cons.prems(2) by simp
  have e: "span (x + 12) 4 \<inter> span (q + 12) 4 = {}" if "q \<in> set (xs @ p # ys)" for q
    by (rule Cons.prems(4)) (use that x(4) in auto)
  have g: "span (q + 12) 4 \<inter> span (r + 12) 4 = {}" if "q \<in> set (xs @ p # ys)" "r \<in> set (xs @ p # ys)" "q \<noteq> r" for q r
    by (rule Cons.prems(4)) (use that in auto)
  obtain c where c: "remove_find_prev m p (x + 12) = Some c" "c = x + 12 \<or> (\<exists>q\<in>set xs. c = q + 12)"
    "chain (store32 m c (load32 m (p + 12))) (load32 (store32 m c (load32 m (p + 12))) (x + 12)) (xs @ ys)"
    using Cons.IH [OF x(2) d e g] by blast
  have "span edx 4 \<inter> span (q + 12) 4 = {}" if "q = x \<or> q \<in> set xs" for q by (rule Cons.prems(3)) (use that in auto)
  then have "span edx 4 \<inter> span c 4 = {}" using c(2) by blast
  then have "load32 (store32 m c (load32 m (p + 12))) edx = x"
    unfolding x(1) [symmetric] by (intro load_cong(2) store_outside(2)) blast
  then show ?case using c x(1,3,5) by (subst remove_find_prev.simps) (auto simp: NEXT_def)
qed

lemma table_split_apart:
  assumes "layout_ok L v" and "table_in L v m ps"
  shows "q \<in> set ps \<Longrightarrow> span (mp1_list_head L) 4 \<inter> span (q + 12) 4 = {}"
    and "q \<in> set ps \<Longrightarrow> r \<in> set ps \<Longrightarrow> q \<noteq> r \<Longrightarrow> span (q + 12) 4 \<inter> span (r + 12) 4 = {}"
proof -
  have s: "q \<in> slots_of L" if "q \<in> set ps" for q using assms(2) that by (auto simp: table_in_def)
  show "span (mp1_list_head L) 4 \<inter> span (q + 12) 4 = {}" if "q \<in> set ps"
    using slot_apart(3) [OF assms(1) s [OF that]] span_12_4 [of q] by blast
  show "span (q + 12) 4 \<inter> span (r + 12) 4 = {}" if "q \<in> set ps" "r \<in> set ps" "q \<noteq> r"
    using slot_facts(3) [OF assms(1) s [OF that(1)] s [OF that(2)] that(3)] span_12_4 [of q] span_12_4 [of r] by blast
qed

lemma table_drop:
  assumes tab: "table_in L v m (xs @ p # ys)" and ch: "chain t (load32 t (mp1_list_head L)) (xs @ ys)" and lp: "load16 t p = 0"
    and g: "\<And>q. q \<in> slots_of L \<Longrightarrow> q \<noteq> p \<Longrightarrow> get_blink t q = get_blink m q"
    and vm: "load32 t (vmem_base_addr L) = load32 m (vmem_base_addr L)"
  shows "table_in L v t (xs @ ys)" "table_of t (xs @ ys) = table_of m xs @ table_of m ys"
proof -
  have lq: "load16 t q = load16 m q" if "q \<in> slots_of L" "q \<noteq> p" for q using g [OF that] by (metis location_get_blink)
  have mem: "q \<in> slots_of L" "q \<noteq> p" if "q \<in> set (xs @ ys)" for q using that tab by (auto simp: table_in_def)
  show "table_in L v t (xs @ ys)" using tab ch vm lp lq mem by (auto simp: table_in_def)
  show "table_of t (xs @ ys) = table_of m xs @ table_of m ys" using g mem by (simp add: table_of_def)
qed

lemma remove_found:
  assumes ok: "layout_ok L v" and tab: "table_in L v m (xs @ p # ys)"
    and p: "load16 m p = ucast arg" "\<forall>q\<in>set xs. load16 m q \<noteq> ucast arg"
  shows "\<exists>t. mp1_ioctl_remove L arg m = Ok (0, t) \<and> table_in L v t (xs @ ys) \<and>
    table_of t (xs @ ys) = del_first (ucast arg) (table_of m (xs @ p # ys)) \<and>
    (\<forall>b. b \<notin> span (blink_array L) 32000 \<union> span (mp1_list_head L) 4 \<longrightarrow> t b = m b)"
proof -
  let ?ps = "xs @ p # ys"
  have T: "set ?ps \<subseteq> slots_of L" "distinct ?ps" "chain m (load32 m (mp1_list_head L)) ?ps" using tab by (auto simp: table_in_def)
  have ps: "p \<in> slots_of L" "p \<noteq> 0" using T(1) slot_facts(2) [OF ok] by auto
  have "find (\<lambda>q. load16 m q = ucast arg) ?ps = Some p"
    using p by (induction xs) auto
  then have h: "mp1_find_helper L arg m = Ok p" using find_helper_eq [OF tab] by simp
  obtain c where c: "remove_find_prev m p (mp1_list_head L) = Some c" "c = mp1_list_head L \<or> (\<exists>q\<in>set xs. c = q + 12)"
      "chain (store32 m c (load32 m (p + 12))) (load32 (store32 m c (load32 m (p + 12))) (mp1_list_head L)) (xs @ ys)"
    using unlink [OF T(3,2) table_split_apart [OF ok tab]] by blast
  define n where "n = store32 m c (load32 m (p + 12))"
  define t where "t = mp1_free p n"
  have call: "mp1_ioctl_remove L arg m = Ok (0, t)" using h ps(2) c(1) by (simp add: mp1_ioctl_remove_def t_def n_def NEXT_def)
  have ot: "t b = (if b \<in> span p 16 then 0 else n b)" for b by (simp add: t_def mp1_free_def memset_bytes)
  have on: "n b = m b" if "b \<notin> span c 4" for b using that by (simp add: n_def store_outside)
  have cs: "span c 4 \<inter> span q 12 = {}" if "q \<in> slots_of L" for q
  proof -
    have "span c 4 \<inter> span q 12 = {}" if "r \<in> set xs" "c = r + 12" for r
    proof -
      have "r \<in> slots_of L" using that(1) T(1) by auto
      then show ?thesis
        using slot_facts(3) [OF ok _ \<open>q \<in> slots_of L\<close>, of r] span_parts [of r] span_12_4 [of r] span_12_4 [of q] that(2)
        by (cases "q = r") blast+
    qed
    then show ?thesis using c(2) slot_apart(3) [OF ok that] span_12_4 [of q] by blast
  qed
  have other: "span p 16 \<inter> span q 16 = {}" if "q \<in> slots_of L" "q \<noteq> p" for q using slot_facts(3) [OF ok ps(1) that(1)] that(2) by blast
  have tn: "t b = n b" if "q \<in> slots_of L" "q \<noteq> p" "b \<in> span q 16" for q b
    using ot [of b] other [OF that(1,2)] that(3) by auto
  have "get_blink n q = get_blink m q" if "q \<in> slots_of L" for q by (rule get_blink_cong, rule on) (use cs [OF that] in blast)
  moreover have "get_blink t q = get_blink n q" if "q \<in> slots_of L" "q \<noteq> p" for q
    by (rule get_blink_cong, rule tn [OF that]) (use span_12_4 [of q] in blast)
  ultimately have g: "get_blink t q = get_blink m q" if "q \<in> slots_of L" "q \<noteq> p" for q using that by simp
  have lp: "load16 t p = 0" using ot [of p] ot [of "p + 1"] by (simp add: load16_def)
  have mem: "q \<in> slots_of L" "q \<noteq> p" if "q \<in> set (xs @ ys)" for q using that T(1,2) by auto
  have "chain t (load32 n (mp1_list_head L)) (xs @ ys) \<longleftrightarrow> chain n (load32 n (mp1_list_head L)) (xs @ ys)"
    by (rule chain_cong, rule tn) (use mem span_12_4 in auto)
  moreover have "load32 t (mp1_list_head L) = load32 n (mp1_list_head L)"
    by (rule load_cong(2)) (use ot slot_apart(3) [OF ok ps(1)] in auto)
  ultimately have ch: "chain t (load32 t (mp1_list_head L)) (xs @ ys)" using c(3) by (simp add: n_def)
  have "span (q + 12) 4 \<subseteq> span (blink_array L) 32000" if "q \<in> set xs" for q
    using slot_facts(1) [OF ok, of q] T(1) that span_12_4 [of q] by auto
  then have "span c 4 \<subseteq> span (blink_array L) 32000 \<union> span (mp1_list_head L) 4" using c(2) by blast
  then have out: "t b = m b" if "b \<notin> span (blink_array L) 32000 \<union> span (mp1_list_head L) 4" for b
    using that ot [of b] on [of b] slot_facts(1) [OF ok ps(1)] by auto
  have "load32 t (vmem_base_addr L) = load32 m (vmem_base_addr L)"
    by (rule load_cong(2), rule out) (use layout_apart(2,5) [OF ok] in blast)
  note D = table_drop [OF tab ch lp g this]
  have "table_of t (xs @ ys) = del_first (ucast arg) (table_of m ?ps)"
    using D(2) p by (simp add: table_of_def del_first_at)
  then show ?thesis using call out D(1) by blast
qed

section \<open>Finding and synchronising\<close>

lemma location_tick [simp]: "location (tick b) = location b"
  by (simp add: tick_def)

text \<open>A change of entries in place.\<close>

lemma table_update:
  assumes ok: "layout_ok L v" and tab: "table_in L v m ps" and loc: "\<And>p. p \<in> set ps \<Longrightarrow> load16 t p = load16 m p"
    and out: "\<And>b. b \<notin> span v 4000 \<Longrightarrow> (\<forall>q\<in>set ps. b \<notin> span q 12) \<Longrightarrow> t b = m b"
  shows "table_in L v t ps"
proof -
  have ps: "set ps \<subseteq> slots_of L" using tab by (simp add: table_in_def)
  have far: "b \<notin> span q 12" if "q \<in> set ps" "b \<in> X" "span (blink_array L) 32000 \<inter> X = {}" for q b X
    using that slot_facts(1) [OF ok, of q] ps span_12_4 [of q] by blast
  have l: "load16 t p = load16 m p" if "p \<in> slots_of L" for p
  proof (cases "p \<in> set ps")
    case False
    have "t b = m b" if "b \<in> span p 16" for b
    proof (rule out)
      show "b \<notin> span v 4000" using slot_apart(1) [OF ok \<open>p \<in> slots_of L\<close>] that by blast
      have "span q 16 \<inter> span p 16 = {}" if "q \<in> set ps" for q
        using slot_facts(3) [OF ok _ \<open>p \<in> slots_of L\<close>, of q] that ps False by blast
      then show "\<forall>q\<in>set ps. b \<notin> span q 12" using that span_12_4 by blast
    qed
    then show ?thesis by (intro load_cong(1)) (use span_sub [of 0 2 16 p] in auto)
  qed (simp add: loc)
  have "t b = m b" if "q \<in> set ps" "b \<in> span (q + 12) 4" for q b
  proof (rule out)
    have q: "q \<in> slots_of L" using that ps by auto
    show "b \<notin> span v 4000" using slot_apart(1) [OF ok q] that span_12_4 [of q] by blast
    have "b \<notin> span r 12" if "r \<in> set ps" for r
      using slot_facts(3) [OF ok q, of r] that ps span_parts [of q] \<open>b \<in> span (q + 12) 4\<close> span_12_4 [of r] span_12_4 [of q]
      by (cases "r = q") blast+
    then show "\<forall>r\<in>set ps. b \<notin> span r 12" by blast
  qed
  then have "chain t r ps = chain m r ps" for r by (rule chain_cong)
  moreover have "load32 t (mp1_list_head L) = load32 m (mp1_list_head L)"
    by (rule load_cong(2), rule out) (use layout_apart(7) [OF ok] far layout_apart(1) [OF ok] in blast)+
  moreover have "load32 t (vmem_base_addr L) = load32 m (vmem_base_addr L)"
    by (rule load_cong(2), rule out) (use layout_apart(9) [OF ok] far layout_apart(2) [OF ok] in blast)+
  ultimately show ?thesis using tab l ps by (auto simp: table_in_def)
qed

lemma tasklet_ticks:
  assumes ok: "layout_ok L v" and tab: "table_in L v m ps"
  shows "\<exists>t. mp1_rtc_tasklet L m = Ok t \<and> table_in L v t ps \<and> table_of t ps = map tick (table_of m ps) \<and>
    cells v t = fold draw (table_of m ps) (cells v m) \<and> (\<forall>b. b \<notin> span v 4000 \<and> b \<notin> span (blink_array L) 32000 \<longrightarrow> t b = m b)"
proof -
  have T: "chain m (load32 m (mp1_list_head L)) ps" "distinct ps" "set ps \<subseteq> slots_of L" "load32 m (vmem_base_addr L) = v"
      "\<forall>q\<in>set ps. load16 m q < 2000"
    using tab by (auto simp: table_in_def)
  obtain t where t: "tasklet_loop L (load32 m (mp1_list_head L)) m = Some t" "map (get_blink t) ps = map (tick \<circ> get_blink m) ps"
      "\<And>b. b \<notin> span v 4000 \<Longrightarrow> (\<forall>q\<in>set ps. b \<notin> span q 12) \<Longrightarrow> t b = m b" "cells v t = fold draw (map (get_blink m) ps) (cells v m)"
    using tasklet_loop_facts [OF ok T] by blast
  have g: "get_blink t p = tick (get_blink m p)" if "p \<in> set ps" for p using t(2) that by simp
  have "load16 t p = load16 m p" if "p \<in> set ps" for p using g [OF that] by (metis location_get_blink location_tick)
  then have "table_in L v t ps" by (rule table_update [OF ok tab _ t(3)])
  moreover have "span q 12 \<subseteq> span (blink_array L) 32000" if "q \<in> set ps" for q
    using slot_facts(1) [OF ok, of q] T(3) that span_12_4 [of q] by auto
  ultimately show ?thesis using t by (fastforce simp: mp1_rtc_tasklet_def table_of_def)
qed

definition sync_with :: "blink \<Rightarrow> blink \<Rightarrow> blink" where
  "sync_with b d = d\<lparr>on_length := on_length b, off_length := off_length b, countdown := countdown b, status := status b\<rparr>"

lemma sync_char_off: "sync_char stat off on = off"
  by (simp add: sync_char_def bit_simps)

lemma sync_copy_facts:
  assumes "p = q \<or> span p 16 \<inter> span q 16 = {}"
  shows "get_blink (sync_copy p q m) q = sync_with (get_blink m p) (get_blink m q)" "b \<notin> span q 12 \<Longrightarrow> sync_copy p q m b = m b"
proof -
  show "sync_copy p q m b = m b" if "b \<notin> span q 12" using that by (simp add: sync_copy_def Let_def field_store_outside)
  show "get_blink (sync_copy p q m) q = sync_with (get_blink m p) (get_blink m q)"
  proof (cases "p = q")
    case True
    then show ?thesis by (simp add: sync_copy_def Let_def get_blink_stores get_blink_loads sync_with_def)
  next
    case False
    have "get_blink (store16 x (q + off) w) p = get_blink x p" if "off \<in> {ON_LENGTH, OFF_LENGTH, COUNTDOWN, STATUS}" for x off w
      by (rule get_blink_cong, rule field_store_outside) (use assms False that span_12_4 [of p] span_12_4 [of q] in blast)+
    then show ?thesis by (simp add: sync_copy_def Let_def get_blink_stores get_blink_loads sync_with_def)
  qed
qed

lemma sync_found:
  assumes ok: "layout_ok L v" and tab: "table_in L v m ps"
    and p: "find (\<lambda>q. load16 m q = ucast (drop_bit 16 arg)) ps = Some p" and q: "find (\<lambda>q. load16 m q = ucast (arg AND 0xFFFF)) ps = Some q"
  shows "\<exists>t. mp1_ioctl_sync L arg m = Ok (0, t) \<and> table_in L v t ps \<and>
    table_of t ps = map (\<lambda>r. if r = q then sync_with (get_blink m p) (get_blink m q) else get_blink m r) ps \<and>
    cells v t = (cells v m)(location (get_blink m q) := off_char (get_blink m q))"
proof -
  have mem: "p \<in> set ps" "q \<in> set ps" using p q by (auto elim: find_split)
  then have sl: "p \<in> slots_of L" "q \<in> slots_of L" "load16 m q < 2000" "load32 m (vmem_base_addr L) = v" using tab by (auto simp: table_in_def)
  have nz: "p \<noteq> 0" "q \<noteq> 0" using slot_facts(2) [OF ok] sl by auto
  define n where "n = sync_copy p q m"
  have "p = q \<or> span p 16 \<inter> span q 16 = {}" using slot_facts(3) [OF ok sl(1,2)] by blast
  note n = sync_copy_facts [OF this, where m = m, folded n_def]
  have loc: "location (get_blink n q) = load16 m q" unfolding n(1) sync_with_def by simp
  have off: "off_char (get_blink n q) = off_char (get_blink m q)" unfolding n(1) sync_with_def by simp
  have vn: "load32 n (vmem_base_addr L) = v" unfolding sl(4) [symmetric]
    by (rule load_cong(2), rule n(2)) (use slot_apart(2) [OF ok sl(2)] span_12_4 [of q] in blast)
  define t where "t = mp1_poke L (off_char (get_blink m q)) (push_bit 1 (ucast (load16 m q))) n"
  note t = poke_facts [OF vn sl(3), where c = "off_char (get_blink m q)", folded t_def]
  have call: "mp1_ioctl_sync L arg m = Ok (0, t)"
    using find_helper_eq [OF tab] p q nz loc off
    by (simp add: mp1_ioctl_sync_def n_def [symmetric] Let_def sync_char_off get_blink_loads t_def del: location_get_blink)
  have out: "t b = m b" if "b \<notin> span v 4000" "b \<notin> span q 12" for b using that t(2) n(2) by simp
  have g: "get_blink t r = (if r = q then sync_with (get_blink m p) (get_blink m q) else get_blink m r)" if "r \<in> slots_of L" for r
  proof (cases "r = q")
    case True
    have "get_blink t q = get_blink n q" by (rule get_blink_cong, rule t(2)) (use slot_apart(1) [OF ok sl(2)] span_12_4 [of q] in blast)
    then show ?thesis using True n(1) by simp
  next
    case False
    have "get_blink t r = get_blink m r"
      by (rule get_blink_cong, rule out)
        (use slot_apart(1) [OF ok that] slot_facts(3) [OF ok that sl(2) False] span_12_4 [of r] span_12_4 [of q] in blast)+
    then show ?thesis using False by simp
  qed
  have ps: "set ps \<subseteq> slots_of L" using tab by (simp add: table_in_def)
  have "location (get_blink t r) = location (get_blink m r)" if "r \<in> set ps" for r
    using g [of r] that ps by (auto simp: sync_with_def simp del: location_get_blink)
  then have "load16 t r = load16 m r" if "r \<in> set ps" for r using that by simp
  then have "table_in L v t ps" by (rule table_update [OF ok tab]) (use out mem(2) in auto)
  moreover have "cells v n = cells v m" by (rule cells_cong, rule n(2)) (use slot_apart(1) [OF ok sl(2)] span_12_4 [of q] in blast)
  moreover have "table_of t ps = map (\<lambda>r. if r = q then sync_with (get_blink m p) (get_blink m q) else get_blink m r) ps"
    using g ps by (auto simp: table_of_def)
  ultimately show ?thesis using call t(1) by auto
qed

lemma ucast_ucast_u16: "ucast (ucast (x :: u16) :: u32) = x"
  by (rule bit_word_eqI) (simp add: bit_simps)

lemma find_found:
  assumes ok: "layout_ok L v" and tab: "table_in L v m ps" and arg: "(table_bytes L \<union> span (find_temp L) 2) \<inter> span arg 16 = {}"
  shows "case find (\<lambda>q. load16 m q = load16 m arg) ps of
      None \<Rightarrow> \<exists>t. mp1_ioctl_find L arg m = Ok (-1, t) \<and> table_in L v t ps \<and> table_of t ps = table_of m ps
    | Some q \<Rightarrow> \<exists>t. mp1_ioctl_find L arg m = Ok (0, t) \<and> table_in L v t ps \<and> table_of t ps = table_of m ps \<and> get_blink t arg = get_blink m q"
proof -
  define n where "n = snd (ece391_memcpy (find_temp L) arg 2 m)"
  have on: "n b = m b" if "b \<notin> span (find_temp L) 2" for b using memcpy_outside [of b "find_temp L" 2] that by (simp add: n_def)
  have T: "table_in L v n ps" "table_of n ps = table_of m ps"
    using table_carried [OF ok tab, of n] on table_apart(2) [OF ok] by blast+
  have "span (find_temp L) 2 \<inter> span arg 2 = {}" using arg span_sub [of 0 2 16 arg] by auto
  then have "n (find_temp L + of_nat i) = m (arg + of_nat i)" if "i < 2" for i
    using memcpy_bytes [of "find_temp L" 2 arg i] that by (simp add: n_def)
  from this [of 0] this [of 1] have l: "load16 n (find_temp L) = load16 m arg" by (simp add: load16_def)
  have ps: "set ps \<subseteq> slots_of L" using tab by (simp add: table_in_def)
  have g: "get_blink n q = get_blink m q" if "q \<in> set ps" for q using T(2) that by (simp add: table_of_def)
  then have "load16 n q = load16 m q" if "q \<in> set ps" for q using that by (metis location_get_blink)
  then have f: "find (\<lambda>q. load16 n q = load16 m arg) ps = find (\<lambda>q. load16 m q = load16 m arg) ps" by (intro find_cong) auto
  have h: "mp1_find_helper L (ucast (load16 m arg)) n = Ok (case find (\<lambda>q. load16 m q = load16 m arg) ps of Some q \<Rightarrow> q | None \<Rightarrow> 0)"
    using find_helper_eq [OF T(1), of "ucast (load16 m arg)"] f by (simp add: ucast_ucast_u16)
  have call: "mp1_ioctl_find L arg m = (case find (\<lambda>q. load16 m q = load16 m arg) ps of None \<Rightarrow> Ok (-1, n)
      | Some q \<Rightarrow> if q = 0 then Ok (-1, n) else Ok (0, snd (ece391_memcpy arg q STRUCT_SIZE n)))"
    by (simp add: mp1_ioctl_find_def case_prod_beta Let_def n_def [symmetric] l h split: option.splits)
  show ?thesis
  proof (cases "find (\<lambda>q. load16 m q = load16 m arg) ps")
    case (Some q)
    then have q: "q \<in> set ps" by (auto elim: find_split)
    then have s: "q \<in> slots_of L" "q \<noteq> 0" using ps slot_facts(2) [OF ok] by auto
    define t where "t = snd (ece391_memcpy arg q STRUCT_SIZE n)"
    have "t b = n b" if "b \<notin> span arg 16" for b using memcpy_outside [of b arg STRUCT_SIZE] that by (simp add: t_def sint_struct)
    then have "table_in L v t ps" "table_of t ps = table_of n ps" using table_carried [OF ok T(1), of t] arg by blast+
    moreover have "get_blink t arg = get_blink n q"
    proof (rule get_blink_copy)
      fix i :: nat assume "i < 12"
      have "span arg 16 \<inter> span q 16 = {}" using arg slot_facts(1) [OF ok s(1)] by (auto simp: table_bytes_def)
      then show "t (arg + of_nat i) = n (q + of_nat i)" using memcpy_bytes [of arg STRUCT_SIZE q i] \<open>i < 12\<close> by (simp add: t_def sint_struct)
    qed
    ultimately show ?thesis using call Some q s(2) T(2) g by (simp add: t_def [symmetric])
  qed (use call T in simp)
qed

section \<open>A location of zero\<close>

text \<open>A structure that is its own successor keeps the tasklet busy for ever.\<close>

definition cyclic :: "fish_layout \<Rightarrow> u32 \<Rightarrow> u32 \<Rightarrow> memory \<Rightarrow> bool" where
  "cyclic L v p m \<longleftrightarrow> load32 m (vmem_base_addr L) = v \<and> load16 m p < 2000 \<and> load32 m (p + 12) = p"

lemma cyclic_step:
  assumes ok: "layout_ok L v" and p: "p \<in> slots_of L" and c: "cyclic L v p m"
  shows "cyclic L v p (tasklet_blink L p m)"
proof -
  let ?n = "tasklet_blink L p m"
  have m: "load32 m (vmem_base_addr L) = v" "load16 m p < 2000" "load32 m (p + 12) = p" using c by (simp_all add: cyclic_def)
  note n = tasklet_blink_facts [OF ok p m(1,2)]
  have "load16 ?n p = load16 m p" using n(1) by (metis location_get_blink location_tick)
  moreover have "load32 ?n (p + 12) = load32 m (p + 12)"
    by (rule load_cong(2), rule n(2)) (use slot_apart(1) [OF ok p] span_parts [of p] span_12_4 [of p] in blast)+
  moreover have "load32 ?n (vmem_base_addr L) = load32 m (vmem_base_addr L)"
    by (rule load_cong(2), rule n(2)) (use slot_apart(2) [OF ok p] layout_apart(9) [OF ok] span_12_4 [of p] in blast)+
  ultimately show ?thesis using m by (simp add: cyclic_def)
qed

lemma tasklet_cycle:
  assumes ok: "layout_ok L v" and p: "p \<in> slots_of L" and c: "cyclic L v p m"
  shows "tasklet_loop L p m = None"
proof -
  have "\<not> (K = L \<and> q = p \<and> cyclic L v p n)" if "tasklet_loop K q n = Some t" for K q n t
    using that
  proof (rule tasklet_loop.raw_induct [where P = "\<lambda>K q n t. \<not> (K = L \<and> q = p \<and> cyclic L v p n)", rotated])
    fix f K q n t
    assume IH: "\<And>K q n t. f K q n = Some t \<Longrightarrow> \<not> (K = L \<and> q = p \<and> cyclic L v p n)"
      and body: "(if q = 0 then Some n else let n = tasklet_blink K q n in f K (load32 n (q + NEXT)) n) = Some t"
    show "\<not> (K = L \<and> q = p \<and> cyclic L v p n)"
    proof
      assume a: "K = L \<and> q = p \<and> cyclic L v p n"
      then have n: "cyclic L v p (tasklet_blink L p n)" using cyclic_step [OF ok p] by blast
      then have "f L p (tasklet_blink L p n) = Some t"
        using body a slot_facts(2) [OF ok p] by (simp add: NEXT_def Let_def cyclic_def)
      then show False using IH n by blast
    qed
  qed
  then show ?thesis using c by (metis not_None_eq)
qed

text \<open>
  The allocator takes a structure at location zero for a free slot: two additions there share a slot, which then leads to
  itself.
\<close>

lemma zero_location_hangs:
  assumes ok: "layout_ok L v" and tab: "table_in L v m []" and arg: "add_bytes L v \<inter> span arg 16 = {}"
    and loc: "location (get_blink m arg) = 0"
  shows "\<exists>t u. mp1_ioctl_add L arg m = (0, t) \<and> mp1_ioctl_add L arg t = (0, u) \<and> mp1_rtc_tasklet L u = No_Return"
proof -
  let ?b = "get_blink m arg" and ?p = "blink_array L"
  have p: "?p \<in> slots_of L" unfolding slots_of_def by (rule image_eqI [of _ _ 0]) simp_all
  have a: "span (add_temp L) 16 \<inter> span arg 16 = {}" using arg by (auto simp: add_bytes_def)
  have upt: "[0..<80 * 25 :: nat] = 0 # [Suc 0..<80 * 25]" by (rule upt_conv_Cons) simp
  have first: "mp1_malloc L STRUCT_SIZE x = ?p" if "load16 x ?p = 0" for x
    unfolding mp1_malloc_def upt find.simps by (subst if_P) (simp_all add: that blink_offsets)
  have m: "load16 m ?p = 0" "load32 m (vmem_base_addr L) = v" using tab p by (auto simp: table_in_def)
  obtain t where t: "mp1_ioctl_add L arg m = (0, t)" "get_blink t ?p = fresh ?b" "load32 t (mp1_list_head L) = ?p"
      "\<And>b. b \<notin> span ?p 16 \<Longrightarrow> b \<notin> span (mp1_list_head L) 4 \<Longrightarrow> b \<notin> span v 4000 \<Longrightarrow> b \<notin> span (add_temp L) 16 \<Longrightarrow> t b = m b"
    using add_state [OF ok m(2) a, of ?p] loc first [OF m(1)] p by auto
  have tb: "get_blink t arg = ?b"
    by (rule get_blink_cong, rule t(4)) (use arg slot_facts(1) [OF ok p] span_12_4 [of arg] in \<open>auto simp: add_bytes_def\<close>)
  have tv: "load32 t (vmem_base_addr L) = v" unfolding m(2) [symmetric]
    by (rule load_cong(2), rule t(4)) (use slot_apart(2) [OF ok p] layout_apart(5,8,9) [OF ok] in blast)+
  have t0: "load16 t ?p = 0" using loc unfolding location_get_blink [symmetric] t(2) fresh_def by simp
  obtain u where u: "mp1_ioctl_add L arg t = (0, u)" "get_blink u ?p = fresh ?b" "load32 u (mp1_list_head L) = ?p"
      "load32 u (?p + 12) = ?p"
      "\<And>b. b \<notin> span ?p 16 \<Longrightarrow> b \<notin> span (mp1_list_head L) 4 \<Longrightarrow> b \<notin> span v 4000 \<Longrightarrow> b \<notin> span (add_temp L) 16 \<Longrightarrow> u b = t b"
    using add_state [OF ok tv a, of ?p] loc first [OF t0] p t(3) tb by auto
  have uv: "load32 u (vmem_base_addr L) = load32 t (vmem_base_addr L)"
    by (rule load_cong(2), rule u(5)) (use slot_apart(2) [OF ok p] layout_apart(5,8,9) [OF ok] in blast)+
  have "load16 u ?p = 0" using loc unfolding location_get_blink [symmetric] u(2) fresh_def by simp
  then have "cyclic L v ?p u" using u(4) uv tv by (simp add: cyclic_def)
  then show ?thesis using t(1) u(1,3) tasklet_cycle [OF ok p] by (auto simp: mp1_rtc_tasklet_def)
qed

end
