(* ===== verification/User_Interface.thy ===== *)
theory User_Interface
  imports User_Programs
begin

text \<open>
  What the user programs rely on from the kernel, as two interfaces: a terminal to print on, and files
  and arguments to read. The programs are verified once against these laws; the kernel's own system
  calls are shown to satisfy them in \<open>User_Kernel\<close>.
\<close>

section \<open>Program memory\<close>

text \<open>The program page of a process: 4MB at 128MB, with its code, its literals and its stack.\<close>

definition in_user :: "u32 \<Rightarrow> bool" where
  "in_user a \<longleftrightarrow> 0x08000000 \<le> a \<and> a < 0x08400000"

definition user_run :: "u32 \<Rightarrow> nat \<Rightarrow> bool" where
  "user_run a n \<longleftrightarrow> 0x08000000 \<le> unat a \<and> unat a < 0x08400000 \<and> unat a + n \<le> 0x08400000"

definition same_user :: "'a machine_scheme \<Rightarrow> 'b machine_scheme \<Rightarrow> bool" where
  "same_user s t \<longleftrightarrow> (\<forall>a. in_user a \<longrightarrow> mem t a = mem s a)"

text \<open>A call that may write the \<open>n\<close> bytes at \<open>b\<close> and no other byte of the program's memory.\<close>

definition same_user_but :: "u32 \<Rightarrow> nat \<Rightarrow> 'a machine_scheme \<Rightarrow> 'b machine_scheme \<Rightarrow> bool" where
  "same_user_but b n s t \<longleftrightarrow> (\<forall>a. in_user a \<and> n \<le> unat (a - b) \<longrightarrow> mem t a = mem s a)"

lemma same_user_refl [simp]: "same_user s s" "same_user_but b n s s"
  by (simp_all add: same_user_def same_user_but_def)

lemma same_user_trans [trans]: "same_user s t \<Longrightarrow> same_user t u \<Longrightarrow> same_user s u"
  by (simp add: same_user_def)

lemma same_user_but_trans [trans]:
  "same_user_but b n s t \<Longrightarrow> same_user_but b n t u \<Longrightarrow> same_user_but b n s u"
  "same_user_but b n s t \<Longrightarrow> same_user t u \<Longrightarrow> same_user_but b n s u"
  "same_user s t \<Longrightarrow> same_user_but b n t u \<Longrightarrow> same_user_but b n s u"
  by (simp_all add: same_user_but_def same_user_def)

lemma same_user_but_mono: "same_user_but b k s t \<Longrightarrow> k \<le> n \<Longrightarrow> same_user_but b n s t"
  by (simp add: same_user_but_def)

lemma same_user_but_same: "same_user s t \<Longrightarrow> same_user_but b n s t"
  by (simp add: same_user_but_def same_user_def)

lemma user_run_at:
  assumes "user_run a n" and "i < n"
  shows "in_user (a + of_nat i)"
proof -
  have "unat (a + of_nat i) = unat a + i"
    using assms by (simp add: user_run_def unat_word_ariths unat_of_nat_u32)
  then show ?thesis using assms by (simp add: in_user_def user_run_def word_le_nat_alt word_less_nat_alt)
qed

lemma user_run_sub: "user_run a n \<Longrightarrow> i + k \<le> n \<Longrightarrow> i < n \<Longrightarrow> user_run (a + of_nat i) k"
  by (simp add: user_run_def unat_word_ariths unat_of_nat_u32)

lemma user_run_le: "user_run a n \<Longrightarrow> k \<le> n \<Longrightarrow> user_run a k"
  by (simp add: user_run_def)

lemma user_run_small: "user_run a n \<Longrightarrow> n \<le> 0x400000"
  by (simp add: user_run_def)

lemma same_user_bytes: "same_user s t \<Longrightarrow> user_run a n \<Longrightarrow> bytes (ptr (mem t) a) n = bytes (ptr (mem s) a) n"
  using user_run_at by (fastforce simp: bytes_eq_iff same_user_def ptr_def)

lemma same_user_str_at:
  assumes "same_user s t" and "user_run a (Suc (length xs))" and "str_at (mem s) a xs"
  shows "str_at (mem t) a xs"
  using assms str_at_cong [of xs "mem t" a "mem s"] user_run_at [OF assms(2)] by (simp add: same_user_def less_Suc_eq_le)

lemma same_user_but_str_at:
  assumes "same_user_but b n s t" and "user_run a (Suc (length xs))" and "str_at (mem s) a xs"
    and "disjoint_runs b n a (Suc (length xs))"
  shows "str_at (mem t) a xs"
  using assms(3) str_at_cong [of xs "mem t" a "mem s"] user_run_at [OF assms(2)] disjoint_runs_outside [OF assms(4)] assms(1)
  by (simp add: same_user_but_def less_Suc_eq_le)

text \<open>A count of bytes is neither confused with 0 nor with the error value.\<close>

lemma small_count:
  assumes "n \<le> 0x400000"
  shows "(of_nat n :: i32) = 0 \<longleftrightarrow> n = 0" "(of_nat n :: i32) \<noteq> -1" "sint (of_nat n :: i32) = int n"
    "unat (of_nat n :: i32) = n"
proof -
  show u: "unat (of_nat n :: i32) = n" by (rule unat_of_nat_u32) (use assms in simp)
  then show "(of_nat n :: i32) = 0 \<longleftrightarrow> n = 0" using unat_eq_zero [of "of_nat n :: i32"] by simp
  have "unat (-1 :: i32) = 2 ^ 32 - 1" by (simp add: unsigned_minus_1_eq_mask mask_eq_exp_minus_1)
  then show "(of_nat n :: i32) \<noteq> -1" using u assms by (intro notI) simp
  show "sint (of_nat n :: i32) = int n" using sint_small [of "of_nat n"] u assms by simp
qed

section \<open>The interfaces\<close>

text \<open>
  Writing to descriptor 1 prints on the terminal of the process and leaves its memory alone; the
  program may change its own memory at any time.
\<close>

locale terminal_kernel =
  fixes K :: "'a machine_scheme kernel_call" and ok :: "'a machine_scheme \<Rightarrow> bool"
    and shown :: "'a machine_scheme \<Rightarrow> text_term"
  assumes write_out: "ok s \<Longrightarrow> user_run a n \<Longrightarrow>
      \<exists>t. K SYS_WRITE 1 a (of_nat n) s = Ok (of_nat n, t) \<and> ok t \<and> same_user s t \<and>
        shown t = fold term_putc (bytes (ptr (mem s) a) n) (shown s)"
    and user_ok: "ok s \<Longrightarrow> (\<And>a. \<not> in_user a \<Longrightarrow> m a = mem s a) \<Longrightarrow> ok (s\<lparr>mem := m\<rparr>)"
    and user_shown: "ok s \<Longrightarrow> (\<And>a. \<not> in_user a \<Longrightarrow> m a = mem s a) \<Longrightarrow> shown (s\<lparr>mem := m\<rparr>) = shown s"
begin

lemma fdputs_prints:
  assumes "ok s" and "str_at (mem s) a xs" and "user_run a (Suc (length xs))"
  shows "\<exists>t. ece391_fdputs K 1 a s = Ok t \<and> ok t \<and> same_user s t \<and> shown t = fold term_putc xs (shown s)"
  using write_out [OF assms(1) user_run_le [OF assms(3)], of "length xs"] assms(2) str_at_bytes [OF assms(2)]
  by (auto simp: ece391_fdputs_def ece391_write_def)

lemma quit_prints:
  assumes "ok s" and "str_at (mem s) a xs" and "user_run a (Suc (length xs))"
  shows "\<exists>t. quit_with K a v s = Ok (v, t) \<and> ok t \<and> same_user s t \<and> shown t = fold term_putc xs (shown s)"
  using fdputs_prints [OF assms] by (auto simp: quit_with_def)

lemma store_ok: "ok s \<Longrightarrow> in_user a \<Longrightarrow> ok (s\<lparr>mem := (mem s)(a := v)\<rparr>)"
  by (rule user_ok) auto

lemma store_shown: "ok s \<Longrightarrow> in_user a \<Longrightarrow> shown (s\<lparr>mem := (mem s)(a := v)\<rparr>) = shown s"
  by (rule user_shown) auto

end

text \<open>
  Files, as the contents that a descriptor has not delivered yet; and the arguments of the process.
  \<open>has_file s name xs\<close> says that \<open>name\<close> is a regular file with contents \<open>xs\<close>, \<open>can_open\<close> that a descriptor
  is free.
\<close>

locale file_kernel = terminal_kernel K ok shown
  for K :: "'a machine_scheme kernel_call" and ok :: "'a machine_scheme \<Rightarrow> bool"
    and shown :: "'a machine_scheme \<Rightarrow> text_term" +
  fixes remaining :: "nat \<Rightarrow> u8 list \<Rightarrow> 'a machine_scheme \<Rightarrow> bool"
    and args :: "'a machine_scheme \<Rightarrow> u8 list" and can_open :: "'a machine_scheme \<Rightarrow> bool"
    and has_file :: "'a machine_scheme \<Rightarrow> u8 list \<Rightarrow> u8 list \<Rightarrow> bool" and no_file :: "'a machine_scheme \<Rightarrow> u8 list \<Rightarrow> bool"
  assumes read_next: "ok s \<Longrightarrow> remaining fd xs s \<Longrightarrow> user_run a n \<Longrightarrow>
      \<exists>t. K SYS_READ (of_nat fd) a (of_nat n) s = Ok (of_nat (min n (length xs)), t) \<and> ok t \<and> shown t = shown s \<and>
        same_user_but a (min n (length xs)) s t \<and> bytes (ptr (mem t) a) (min n (length xs)) = take n xs \<and>
        remaining fd (drop n xs) t"
    and write_keeps: "ok s \<Longrightarrow> remaining fd xs s \<Longrightarrow> user_run a n \<Longrightarrow> K SYS_WRITE 1 a (of_nat n) s = Ok (r, t) \<Longrightarrow> remaining fd xs t"
    and user_keeps: "ok s \<Longrightarrow> remaining fd xs s \<Longrightarrow> (\<And>a. \<not> in_user a \<Longrightarrow> m a = mem s a) \<Longrightarrow> remaining fd xs (s\<lparr>mem := m\<rparr>)"
    and get_args: "ok s \<Longrightarrow> can_open s \<Longrightarrow> user_run a n \<Longrightarrow> length (args s) < n \<Longrightarrow>
      \<exists>t. K SYS_GETARGS a (of_nat n) 0 s = Ok (0, t) \<and> ok t \<and> shown t = shown s \<and>
        same_user_but a n s t \<and> str_at (mem t) a (args s) \<and> can_open t \<and>
        (\<forall>nm xs. has_file s nm xs \<longrightarrow> has_file t nm xs) \<and> (\<forall>nm. no_file s nm \<longrightarrow> no_file t nm)"
    and open_found: "ok s \<Longrightarrow> can_open s \<Longrightarrow> has_file s nm xs \<Longrightarrow> str_at (mem s) a nm \<Longrightarrow> user_run a (Suc (length nm)) \<Longrightarrow>
      \<exists>fd t. K SYS_OPEN a 0 0 s = Ok (of_nat fd, t) \<and> of_nat fd \<noteq> (-1 :: i32) \<and> ok t \<and> shown t = shown s \<and> same_user s t \<and>
        remaining fd xs t"
    and open_absent: "ok s \<Longrightarrow> no_file s nm \<Longrightarrow> str_at (mem s) a nm \<Longrightarrow> user_run a (Suc (length nm)) \<Longrightarrow>
      K SYS_OPEN a 0 0 s = Ok (-1, s)"
    and close_done: "ok s \<Longrightarrow> remaining fd xs s \<Longrightarrow>
      \<exists>t. K SYS_CLOSE (of_nat fd) 0 0 s = Ok (0, t) \<and> ok t \<and> shown t = shown s \<and> same_user s t"
begin

lemma fdputs_keeps:
  assumes "ok s" and "str_at (mem s) a xs" and "user_run a (Suc (length xs))" and "remaining fd ys s"
  shows "\<exists>t. ece391_fdputs K 1 a s = Ok t \<and> ok t \<and> same_user s t \<and> shown t = fold term_putc xs (shown s) \<and> remaining fd ys t"
proof -
  obtain t where t: "ece391_fdputs K 1 a s = Ok t" "ok t" "same_user s t" "shown t = fold term_putc xs (shown s)"
    using fdputs_prints [OF assms(1-3)] by blast
  then obtain r where "K SYS_WRITE 1 a (of_nat (length xs)) s = Ok (r, t)"
    using assms(2) by (auto simp: ece391_fdputs_def ece391_write_def obind_eq_Ok)
  then have "remaining fd ys t" using write_keeps [OF assms(1,4) user_run_le [OF assms(3)], of "length xs"] by simp
  then show ?thesis using t by blast
qed

section \<open>cat\<close>

lemma cat_loop_prints:
  assumes "ok s" and "remaining fd xs s" and "user_run buf 1024"
  shows "\<exists>t. cat_loop K L (of_nat fd) buf s = Some (Ok (0, t)) \<and> ok t \<and> same_user_but buf 1024 s t \<and>
    shown t = fold term_putc xs (shown s)"
  using assms(1,2)
proof (induction "length xs" arbitrary: xs s rule: less_induct)
  case less
  let ?c = "min 1024 (length xs)"
  have w: "(of_nat ?c :: i32) = 0 \<longleftrightarrow> xs = []" "(of_nat ?c :: i32) \<noteq> -1" by (auto simp: small_count min_def)
  obtain t where t: "K SYS_READ (of_nat fd) buf 1024 s = Ok (of_nat ?c, t)" "ok t" "shown t = shown s"
      "same_user_but buf ?c s t" "bytes (ptr (mem t) buf) ?c = take 1024 xs" "remaining fd (drop 1024 xs) t"
    using read_next [OF less.prems assms(3)] by auto
  show ?case
  proof (cases "xs = []")
    case True
    then show ?thesis
      using t w by (subst cat_loop.simps) (auto simp: ece391_read_def intro: same_user_but_mono)
  next
    case False
    have c: "user_run buf ?c" using assms(3) by (rule user_run_le) simp
    obtain u where u: "K SYS_WRITE 1 buf (of_nat ?c) t = Ok (of_nat ?c, u)" "ok u" "same_user t u"
        "shown u = fold term_putc (take 1024 xs) (shown t)"
      using write_out [OF t(2) c] t(5) by auto
    have r: "remaining fd (drop 1024 xs) u" using write_keeps [OF t(2,6) c u(1)] .
    have "length (drop 1024 xs) < length xs" using False by simp
    then obtain v where v: "cat_loop K L (of_nat fd) buf u = Some (Ok (0, v))" "ok v" "same_user_but buf 1024 u v"
        "shown v = fold term_putc (drop 1024 xs) (shown u)"
      using less.hyps [OF _ u(2) r] by blast
    have "same_user_but buf 1024 s v"
      using same_user_but_mono [OF t(4), of 1024] u(3) v(3) by (meson same_user_but_trans min.cobounded1)
    moreover have "shown v = fold term_putc xs (shown s)"
      using v(4) u(4) t(3) by (metis append_take_drop_id comp_apply fold_append)
    ultimately show ?thesis
      using False t(1) u(1) v(1,2) w by (subst cat_loop.simps) (simp add: ece391_read_def ece391_write_def)
  qed
qed

text \<open>\<open>cat\<close> prints the whole file that its argument names, or a message when there is none.\<close>

lemma cat_prints:
  assumes "ok s" and "can_open s" and "length (args s) < 1024" and "user_run buf 1024" and "has_file s (args s) xs"
  shows "\<exists>t. cat_main K L buf s = Ok (0, t) \<and> ok t \<and> same_user_but buf 1024 s t \<and> shown t = fold term_putc xs (shown s)"
proof -
  obtain t where t: "K SYS_GETARGS buf 1024 0 s = Ok (0, t)" "ok t" "shown t = shown s" "same_user_but buf 1024 s t"
      "str_at (mem t) buf (args s)" "can_open t" "has_file t (args s) xs"
    using get_args [OF assms(1,2,4,3)] assms(5) by auto
  have "user_run buf (Suc (length (args s)))" using user_run_le [OF assms(4)] assms(3) by simp
  then obtain fd u where u: "K SYS_OPEN buf 0 0 t = Ok (of_nat fd, u)" "of_nat fd \<noteq> (-1 :: i32)" "ok u" "shown u = shown t"
      "same_user t u" "remaining fd xs u"
    using open_found [OF t(2,6,7,5)] by blast
  obtain v where "cat_loop K L (of_nat fd) buf u = Some (Ok (0, v))" "ok v" "same_user_but buf 1024 u v"
      "shown v = fold term_putc xs (shown u)"
    using cat_loop_prints [OF u(3,6) assms(4)] by blast
  moreover have "same_user_but buf 1024 s v"
    using t(4) u(5) calculation(3) by (meson same_user_but_trans)
  ultimately show ?thesis
    using t u by (simp add: cat_main_def ece391_getargs_def ece391_open_def)
qed

lemma cat_complains:
  assumes "ok s" and "can_open s" and "length (args s) < 1024" and "user_run buf 1024" and "no_file s (args s)"
    and "a = L ''file not found\<newline>''" and "str_at (mem s) a msg" and "user_run a (Suc (length msg))"
    and "disjoint_runs buf 1024 a (Suc (length msg))"
  shows "\<exists>t. cat_main K L buf s = Ok (2, t) \<and> ok t \<and> shown t = fold term_putc msg (shown s)"
proof -
  obtain t where t: "K SYS_GETARGS buf 1024 0 s = Ok (0, t)" "ok t" "shown t = shown s" "same_user_but buf 1024 s t"
      "str_at (mem t) buf (args s)" "no_file t (args s)"
    using get_args [OF assms(1,2,4,3)] assms(5) by auto
  have "user_run buf (Suc (length (args s)))" using user_run_le [OF assms(4)] assms(3) by simp
  then have "K SYS_OPEN buf 0 0 t = Ok (-1, t)" using open_absent [OF t(2,6,5)] by blast
  moreover have "str_at (mem t) a msg" using same_user_but_str_at [OF t(4) assms(8,7,9)] .
  then obtain u where "quit_with K a 2 t = Ok (2, u)" "ok u" "shown u = fold term_putc msg (shown t)"
    using quit_prints [OF t(2) _ assms(8)] by blast
  ultimately show ?thesis
    using t assms(6) by (simp add: cat_main_def ece391_getargs_def ece391_open_def)
qed

end

end
