(* ===== verification/Fish.thy ===== *)
theory Fish
  imports Blink_Ops User_Interface
begin

text \<open>
  The fish program, \<open>fish/fish.c\<close>: it reads two frames of a picture, enters every character in the table of
  \<open>Blink\<close> and then lets the clock drive the table.
\<close>

section \<open>The program\<close>

text \<open>The local objects whose address is taken.\<close>

record fish_frame = fish_layout +
  c0_var :: u32
  c1_var :: u32
  frame_blink :: u32
  garbage_var :: u32
  ret_val_var :: u32
  main_blink :: u32

abbreviation set_mem :: "(memory \<Rightarrow> memory) \<Rightarrow> 'a machine_scheme \<Rightarrow> 'a machine_scheme" where
  "set_mem f s \<equiv> s\<lparr>mem := f (mem s)\<rparr>"

definition fish_ioctl :: "fish_frame \<Rightarrow> u32 \<Rightarrow> u32 \<Rightarrow> 'a machine_scheme \<Rightarrow> 'a machine_scheme outcome" where
  "fish_ioctl L arg cmd s = obind (mp1_ioctl (fish_layout.truncate L) arg cmd (mem s)) (\<lambda>(_, m). Ok (s\<lparr>mem := m\<rparr>))"

definition mp1_set_video_mode ::
  "'a machine_scheme kernel_call \<Rightarrow> fish_frame \<Rightarrow> 'a machine_scheme \<Rightarrow> (u32 \<times> 'a machine_scheme) outcome" where
  "mp1_set_video_mode K L s =
     obind (ece391_vidmap K (vmem_base_addr L) s) (\<lambda>(r, s).
       if r = -1 then Ok (NULL_PTR, s) else Ok (load32 (mem s) (vmem_base_addr L), s))"

text \<open>The next character of one frame; a line that has ended stays at its newline, and so does a file that has ended.\<close>

definition next_char ::
  "'a machine_scheme kernel_call \<Rightarrow> i32 \<Rightarrow> u32 \<Rightarrow> i32 \<Rightarrow> 'a machine_scheme \<Rightarrow> (i32 \<times> 'a machine_scheme) outcome" where
  "next_char K fd c eof s =
     (if mem s c \<noteq> 10 then
        obind (ece391_read K fd c 1 s) (\<lambda>(num_bytes, s).
          Ok (if num_bytes = 0 then (1, set_mem (\<lambda>m. m(c := 10)) s) else (eof, s)))
      else Ok (eof, s))"

definition enter_blink :: "fish_frame \<Rightarrow> i32 \<Rightarrow> i32 \<Rightarrow> 'a machine_scheme \<Rightarrow> 'a machine_scheme outcome" where
  "enter_blink L row col s =
     (let c0 = mem s (c0_var L); c1 = mem s (c1_var L); b = frame_blink L
      in if c0 \<noteq> 32 \<and> c0 \<noteq> 10 \<or> c1 \<noteq> 32 \<and> c1 \<noteq> 10 then
           let s = set_mem (\<lambda>m. m(b + ON_CHAR := if c0 = 10 then 32 else c0)) s;
               s = set_mem (\<lambda>m. m(b + OFF_CHAR := if c1 = 10 then 32 else c1)) s;
               s = set_mem (\<lambda>m. store16 m (b + LOCATION) (ucast (row * 80 + col + 40))) s
           in fish_ioctl L b RTC_ADD s
         else Ok s)"

partial_function (option) frame_columns ::
  "'a machine_scheme kernel_call \<Rightarrow> fish_frame \<Rightarrow> i32 \<Rightarrow> i32 \<Rightarrow> i32 \<Rightarrow> i32 \<Rightarrow> i32 \<Rightarrow> i32 \<Rightarrow> 'a machine_scheme \<Rightarrow>
   (i32 \<times> i32 \<times> 'a machine_scheme) outcome option" where
  "frame_columns K L fd0 fd1 row col eof0 eof1 s =
     lbind (next_char K fd0 (c0_var L) eof0 s) (\<lambda>(eof0, s).
     lbind (next_char K fd1 (c1_var L) eof1 s) (\<lambda>(eof1, s).
       if mem s (c0_var L) = 10 \<and> mem s (c1_var L) = 10 then Some (Ok (eof0, eof1, s))
       else lbind (enter_blink L row col s) (\<lambda>s. frame_columns K L fd0 fd1 row (col + 1) eof0 eof1 s)))"

text \<open>The end of a row of one frame: a finished file is closed, another gets its next line.\<close>

definition end_row ::
  "'a machine_scheme kernel_call \<Rightarrow> i32 \<Rightarrow> u32 \<Rightarrow> i32 \<Rightarrow> 'a machine_scheme \<Rightarrow> 'a machine_scheme outcome" where
  "end_row K fd c eof s =
     (if eof \<noteq> 0 then obind (ece391_close K fd (set_mem (\<lambda>m. m(c := 10)) s)) (\<lambda>(_, s). Ok s)
      else Ok (set_mem (\<lambda>m. m(c := 48)) s))"

partial_function (option) frame_rows ::
  "'a machine_scheme kernel_call \<Rightarrow> fish_frame \<Rightarrow> i32 \<Rightarrow> i32 \<Rightarrow> i32 \<Rightarrow> i32 \<Rightarrow> i32 \<Rightarrow> 'a machine_scheme \<Rightarrow>
   'a machine_scheme outcome option" where
  "frame_rows K L fd0 fd1 row eof0 eof1 s =
     (if eof0 = 0 \<or> eof1 = 0 then
        lbind (loop_value (frame_columns K L fd0 fd1 row 0 eof0 eof1 s)) (\<lambda>(eof0, eof1, s).
        lbind (end_row K fd0 (c0_var L) eof0 s) (\<lambda>s.
        lbind (end_row K fd1 (c1_var L) eof1 s) (\<lambda>s. frame_rows K L fd0 fd1 (row + 1) eof0 eof1 s)))
      else Some (Ok s))"

text \<open>A file that cannot be opened ends the process; \<open>ece391_halt\<close> is an ordinary call here.\<close>

definition open_frame ::
  "'a machine_scheme kernel_call \<Rightarrow> u32 \<Rightarrow> 'a machine_scheme \<Rightarrow> (i32 \<times> 'a machine_scheme) outcome" where
  "open_frame K f s =
     obind (ece391_open K f s) (\<lambda>(fd, s).
       if sint fd < 0 then obind (ece391_halt K (-1) s) (\<lambda>(_, s). Ok (fd, s)) else Ok (fd, s))"

definition add_frames ::
  "'a machine_scheme kernel_call \<Rightarrow> fish_frame \<Rightarrow> u32 \<Rightarrow> u32 \<Rightarrow> 'a machine_scheme \<Rightarrow> 'a machine_scheme outcome" where
  "add_frames K L f0 f1 s =
     (let s = set_mem (\<lambda>m. m(c0_var L := 48, c1_var L := 48)) s;
          s = set_mem (\<lambda>m. store16 m (frame_blink L + ON_LENGTH) 15) s;
          s = set_mem (\<lambda>m. store16 m (frame_blink L + OFF_LENGTH) 15) s
      in obind (open_frame K f0 s) (\<lambda>(fd0, s).
         obind (open_frame K f1 s) (\<lambda>(fd1, s).
           loop_value (frame_rows K L fd0 fd1 0 0 0 s))))"

text \<open>\<open>n\<close> rounds of a loop that waits for the clock and runs the tasklet.\<close>

fun fish_wait ::
  "'a machine_scheme kernel_call \<Rightarrow> fish_frame \<Rightarrow> i32 \<Rightarrow> nat \<Rightarrow> 'a machine_scheme \<Rightarrow> 'a machine_scheme outcome" where
  "fish_wait K L rtc_fd 0 s = Ok s"
| "fish_wait K L rtc_fd (Suc n) s =
     obind (ece391_read K rtc_fd (garbage_var L) 4 s) (\<lambda>(_, s).
     obind (mp1_rtc_tasklet (fish_layout.truncate L) (mem s)) (\<lambda>m. fish_wait K L rtc_fd n (s\<lparr>mem := m\<rparr>)))"

definition set_main_blink :: "fish_frame \<Rightarrow> memory \<Rightarrow> memory" where
  "set_main_blink L m =
     (let b = main_blink L;
          m = m(b + ON_CHAR := 73);
          m = m(b + OFF_CHAR := 77);
          m = store16 m (b + ON_LENGTH) 7;
          m = store16 m (b + OFF_LENGTH) 6
      in store16 m (b + LOCATION) (6 * 80 + 60))"

definition fish_main ::
  "'a machine_scheme kernel_call \<Rightarrow> (string \<Rightarrow> u32) \<Rightarrow> u32 \<Rightarrow> u32 \<Rightarrow> fish_frame \<Rightarrow> 'a machine_scheme \<Rightarrow> (i32 \<times> 'a machine_scheme) outcome" where
  "fish_main K S file0 file1 L s =
     (let s = set_mem (ece391_memset (blink_array L) 0 (16 * 80 * 25)) s
      in obind (mp1_set_video_mode K L s) (\<lambda>(video, s).
           if video = NULL_PTR then Ok (-1, s)
           else
             obind (ece391_open K (S ''rtc'') s) (\<lambda>(rtc_fd, s).
             obind (add_frames K L file0 file1 s) (\<lambda>s.
             obind (ece391_write K rtc_fd (ret_val_var L) 4 (set_mem (\<lambda>m. store32 m (ret_val_var L) 32) s)) (\<lambda>(r, s).
             obind (fish_wait K L rtc_fd 200 (set_mem (\<lambda>m. store32 m (ret_val_var L) r) s)) (\<lambda>s.
             obind (fish_ioctl L (main_blink L) RTC_ADD (set_mem (set_main_blink L) s)) (\<lambda>s.
             obind (fish_wait K L rtc_fd 200 s) (\<lambda>s.
             obind (fish_ioctl L (push_bit 16 40 OR (6 * 80 + 60)) RTC_SYNC s) (\<lambda>s.
             obind (fish_wait K L rtc_fd 200 s) (\<lambda>s.
             obind (fish_ioctl L 200 RTC_REMOVE (set_mem (\<lambda>m. store16 m (main_blink L + LOCATION) 60) s)) (\<lambda>s.
             obind (fish_wait K L rtc_fd (80 * 25) s) (\<lambda>s.
             obind (ece391_close K rtc_fd s) (\<lambda>(_, s). Ok (0, s))))))))))))))"

end
