(* ===== verification/Files.thy ===== *)
theory Files
  imports Screen
begin

text \<open>
  The read-only file system of \<open>student-distrib/files.c\<close>. The image (boot block, inode blocks, data
  blocks, each 4KB) lies in memory where the boot loader put it; directory entries and inodes are
  read from it with the structure layouts of \<open>files.h\<close>. The state holds the globals of the file.
\<close>

definition MAX_NUM_FS_DENTRIES :: nat where "MAX_NUM_FS_DENTRIES = 63"
definition FS_PAGE_SIZE :: u32 where "FS_PAGE_SIZE = 0x1000"
definition FS_STATS_SIZE :: u32 where "FS_STATS_SIZE = 64"

record files_state = lib_state +
  fs_is_open :: u32
  fs_dentries :: u32
  num_dentries :: u32
  num_inodes :: u32
  num_datablocks :: u32
  bb_start :: u32
  inodes :: u32
  data_start :: u32
  dir_reads :: u32

text \<open>The fields of \<open>dentry_t\<close> that the code copies out.\<close>

record dentry =
  filename :: cstr
  filetype :: u32
  dentry_inode :: u32

text \<open>\<open>fs_dentries[i]\<close>: 64 bytes each, the name first, the type at 32 and the inode at 36.\<close>

definition dentry_addr :: "'a files_state_scheme \<Rightarrow> nat \<Rightarrow> u32" where
  "dentry_addr s i = fs_dentries s + 64 * of_nat i"

definition dentry_name :: "'a files_state_scheme \<Rightarrow> nat \<Rightarrow> cstr" where
  "dentry_name s i = ptr (mem s) (dentry_addr s i)"

text \<open>\<open>inodes[n].size\<close> and \<open>inodes[n].data_blocks[k]\<close>.\<close>

definition inode_size :: "'a files_state_scheme \<Rightarrow> u32 \<Rightarrow> u32" where
  "inode_size s n = load32 (mem s) (inodes s + FS_PAGE_SIZE * n)"

definition data_block :: "'a files_state_scheme \<Rightarrow> u32 \<Rightarrow> u32 \<Rightarrow> u32" where
  "data_block s n k = load32 (mem s) (inodes s + FS_PAGE_SIZE * n + 4 + 4 * k)"

section \<open>Operations\<close>

definition fs_init :: "u32 \<Rightarrow> u32 \<Rightarrow> 'a files_state_scheme \<Rightarrow> 'a files_state_scheme" where
  "fs_init fs_start fs_end s =
     (let s = s\<lparr>bb_start := fs_start\<rparr>;
          s = s\<lparr>num_dentries := load32 (mem s) (bb_start s),
                num_inodes := load32 (mem s) (bb_start s + 4),
                num_datablocks := load32 (mem s) (bb_start s + 8)\<rparr>;
          s = s\<lparr>fs_dentries := bb_start s + FS_STATS_SIZE\<rparr>;
          s = s\<lparr>inodes := bb_start s + FS_PAGE_SIZE\<rparr>;
          s = s\<lparr>data_start := bb_start s + (num_inodes s + 1) * FS_PAGE_SIZE\<rparr>
      in s\<lparr>dir_reads := 0\<rparr>)"

definition fs_open :: "u32 \<Rightarrow> u32 \<Rightarrow> 'a files_state_scheme \<Rightarrow> i32 \<times> 'a files_state_scheme" where
  "fs_open fs_start fs_end s =
     (if fs_is_open s = 1 then (-1, s) else (0, (fs_init fs_start fs_end s)\<lparr>fs_is_open := 1\<rparr>))"

definition fs_close :: "'a files_state_scheme \<Rightarrow> i32 \<times> 'a files_state_scheme" where
  "fs_close s = (if fs_is_open s = 0 then (-1, s) else (0, s\<lparr>fs_is_open := 0\<rparr>))"

definition fs_write :: i32 where "fs_write = 0"

definition copy_dentry :: "'a files_state_scheme \<Rightarrow> nat \<Rightarrow> dentry \<Rightarrow> dentry outcome" where
  "copy_dentry s i d =
     obind (strcpy_arr 32 (filename d) (dentry_name s i))
       (\<lambda>f. Ok \<lparr>filename = f, filetype = load32 (mem s) (dentry_addr s i + 32),
               dentry_inode = load32 (mem s) (dentry_addr s i + 36)\<rparr>)"

function read_dentry_from ::
  "cstr \<Rightarrow> 'a files_state_scheme \<Rightarrow> dentry \<Rightarrow> nat \<Rightarrow> (i32 \<times> dentry) outcome" where
  "read_dentry_from fname s d i =
     (if i < MAX_NUM_FS_DENTRIES then
        obind (of_loop (strlen (dentry_name s i))) (\<lambda>l1.
        obind (of_loop (strlen fname)) (\<lambda>l2.
          if l1 = l2 \<and> strncmp (dentry_name s i) fname l2 = 0
          then obind (copy_dentry s i d) (\<lambda>d. Ok (0, d))
          else read_dentry_from fname s d (Suc i)))
      else Ok (-1, d))"
  by pat_completeness auto
termination
  by (relation "measure (\<lambda>(fname, s, d, i). MAX_NUM_FS_DENTRIES - i)") auto

definition read_dentry_by_name ::
  "cstr \<Rightarrow> dentry \<Rightarrow> 'a files_state_scheme \<Rightarrow> (i32 \<times> dentry) outcome" where
  "read_dentry_by_name fname d s = read_dentry_from fname s d 0"

definition read_dentry_by_index ::
  "u32 \<Rightarrow> dentry \<Rightarrow> 'a files_state_scheme \<Rightarrow> (i32 \<times> dentry) outcome" where
  "read_dentry_by_index index d s =
     (if unat index \<ge> MAX_NUM_FS_DENTRIES then Ok (-1, d)
      else obind (copy_dentry s (unat index) d) (\<lambda>d. Ok (0, d)))"

text \<open>The move to the next data block at the top of the copying loop; \<^const>\<open>None\<close> is \<open>return -1\<close>.\<close>

definition read_data_advance ::
  "'a files_state_scheme \<Rightarrow> u32 \<Rightarrow> u32 \<Rightarrow> u32 \<Rightarrow> u32 \<Rightarrow> (u32 \<times> u32 \<times> u32) option" where
  "read_data_advance s inode location_in_block cur_data_block read_addr =
     (if location_in_block \<ge> FS_PAGE_SIZE then
        (let cur_data_block = cur_data_block + 1
         in if data_block s inode cur_data_block \<ge> num_datablocks s then None
            else Some (0, cur_data_block,
                   data_start s + data_block s inode cur_data_block * FS_PAGE_SIZE))
      else Some (location_in_block, cur_data_block, read_addr))"

function read_data_loop ::
  "u32 \<Rightarrow> u32 \<Rightarrow> u32 \<Rightarrow> u32 \<Rightarrow> u32 \<Rightarrow> u32 \<Rightarrow> u32 \<Rightarrow> u32 \<Rightarrow> 'a files_state_scheme \<Rightarrow>
   i32 \<times> 'a files_state_scheme" where
  "read_data_loop inode offset buf len reads location_in_block cur_data_block read_addr s =
     (if reads < len then
        (case read_data_advance s inode location_in_block cur_data_block read_addr of
           None \<Rightarrow> (-1, s)
         | Some (location_in_block, cur_data_block, read_addr) \<Rightarrow>
             if reads + offset \<ge> inode_size s inode then (reads, s)
             else read_data_loop inode offset buf len (reads + 1) (location_in_block + 1)
                    cur_data_block (read_addr + 1)
                    (s\<lparr>mem := (mem s)(buf + reads := mem s read_addr)\<rparr>))
      else (reads, s))"
  by pat_completeness auto
termination
  by (relation "measure (\<lambda>(inode, offset, buf, len, reads, loc, cur, addr, s). unat len - unat reads)")
    (auto intro: word_loop_measure)

definition read_data ::
  "u32 \<Rightarrow> u32 \<Rightarrow> u32 \<Rightarrow> u32 \<Rightarrow> 'a files_state_scheme \<Rightarrow> i32 \<times> 'a files_state_scheme" where
  "read_data inode offset buf len s =
     (if inode \<ge> num_inodes s then (-1, s)
      else if offset \<ge> inode_size s inode then (0, s)
      else
        (let cur_data_block = offset div FS_PAGE_SIZE
         in if data_block s inode cur_data_block \<ge> num_datablocks s then (-1, s)
            else read_data_loop inode offset buf len 0 (offset mod FS_PAGE_SIZE) cur_data_block
                   (data_start s + data_block s inode cur_data_block * FS_PAGE_SIZE
                      + offset mod FS_PAGE_SIZE) s))"

text \<open>
  \<open>d0\<close> is the uninitialised local \<open>dentry\<close>, and \<open>fname\<close> is \<^const>\<open>None\<close> for the null pointer.
\<close>

definition fs_read ::
  "dentry \<Rightarrow> cstr option \<Rightarrow> u32 \<Rightarrow> u32 \<Rightarrow> u32 \<Rightarrow> 'a files_state_scheme \<Rightarrow>
   (i32 \<times> 'a files_state_scheme) outcome" where
  "fs_read d0 fname offset buf len s =
     (case fname of
        None \<Rightarrow> Ok (-1, s)
      | Some f \<Rightarrow>
          if buf = NULL_PTR then Ok (-1, s)
          else obind (read_dentry_by_name f d0 s) (\<lambda>(r, d).
                 if r = -1 then Ok (-1, s) else Ok (read_data (dentry_inode d) offset buf len s)))"

definition fs_load ::
  "dentry \<Rightarrow> cstr option \<Rightarrow> u32 \<Rightarrow> 'a files_state_scheme \<Rightarrow> (i32 \<times> 'a files_state_scheme) outcome" where
  "fs_load d0 fname address s =
     (case fname of
        None \<Rightarrow> Ok (-1, s)
      | Some f \<Rightarrow>
          obind (read_dentry_by_name f d0 s) (\<lambda>(r, d).
            if r = -1 then Ok (-1, s)
            else (let (n, s) = read_data (dentry_inode d) 0 address (inode_size s (dentry_inode d)) s
                  in if n \<noteq> 0 then Ok (-1, s) else Ok (0, s))))"

definition file_open :: i32 where "file_open = 0"
definition file_close :: i32 where "file_close = 0"
definition file_write :: i32 where "file_write = -1"
definition dir_open :: i32 where "dir_open = 0"
definition dir_close :: i32 where "dir_close = 0"
definition dir_write :: i32 where "dir_write = -1"

definition file_read ::
  "dentry \<Rightarrow> u32 \<Rightarrow> u32 \<Rightarrow> cstr option \<Rightarrow> u32 \<Rightarrow> 'a files_state_scheme \<Rightarrow>
   (i32 \<times> 'a files_state_scheme) outcome" where
  "file_read d0 buf len fname offset s = fs_read d0 fname offset buf len s"

definition dir_read ::
  "u32 \<Rightarrow> 'a files_state_scheme \<Rightarrow> (i32 \<times> 'a files_state_scheme) outcome" where
  "dir_read buf s =
     (if dir_reads s \<ge> num_dentries s then Ok (0, s\<lparr>dir_reads := 0\<rparr>)
      else obind (of_loop (strcpy (mem s) buf (fs_dentries s + 64 * dir_reads s))) (\<lambda>m.
             (let s = s\<lparr>mem := m\<rparr>;
                  s = s\<lparr>dir_reads := dir_reads s + 1\<rparr>
              in obind (of_loop (strlen (ptr (mem s) buf))) (\<lambda>n. Ok (n, s)))))"

declare read_dentry_from.simps [simp del] read_data_loop.simps [simp del]


section \<open>The image and the files in it\<close>

text \<open>Bytes of the image, and what \<open>fs_init\<close> establishes about where its parts lie.\<close>

definition fs_len :: "'a files_state_scheme \<Rightarrow> nat" where
  "fs_len s = 4096 * (1 + unat (num_inodes s) + unat (num_datablocks s))"

definition fs_mounted :: "'a files_state_scheme \<Rightarrow> bool" where
  "fs_mounted s \<longleftrightarrow> fs_dentries s = bb_start s + 64 \<and> inodes s = bb_start s + 4096 \<and>
     data_start s = bb_start s + (num_inodes s + 1) * 4096 \<and> fs_len s \<le> 2 ^ 32"

text \<open>The contents of a file: its size and its byte at each position.\<close>

definition file_size :: "'a files_state_scheme \<Rightarrow> u32 \<Rightarrow> nat" where
  "file_size s n = unat (inode_size s n)"

definition file_addr :: "'a files_state_scheme \<Rightarrow> u32 \<Rightarrow> nat \<Rightarrow> u32" where
  "file_addr s n p = data_start s + data_block s n (of_nat (p div 4096)) * 4096 + of_nat (p mod 4096)"

definition file_byte :: "'a files_state_scheme \<Rightarrow> u32 \<Rightarrow> nat \<Rightarrow> u8" where
  "file_byte s n p = mem s (file_addr s n p)"

definition file_contents :: "'a files_state_scheme \<Rightarrow> u32 \<Rightarrow> u8 list" where
  "file_contents s n = map (file_byte s n) [0..<file_size s n]"

text \<open>
  A well-formed inode: in range, not larger than the inode's block table, and every table entry up
  to the block of the end position is a data block of the image. For a file whose size is a multiple of the
  block size this includes the entry after its last block; what \<open>read_data\<close> does without it is shown below
  (\<open>read_past_last_block\<close>).
\<close>

definition inode_ok :: "'a files_state_scheme \<Rightarrow> u32 \<Rightarrow> bool" where
  "inode_ok s n \<longleftrightarrow> n < num_inodes s \<and> file_size s n < 1023 * 4096 \<and>
     (\<forall>k \<le> file_size s n div 4096. data_block s n (of_nat k) < num_datablocks s)"

lemma file_size_le: "inode_ok s n \<Longrightarrow> file_size s n < 4190208"
  by (simp add: inode_ok_def)

lemma inode_block_ok: "inode_ok s n \<Longrightarrow> p \<le> file_size s n \<Longrightarrow> data_block s n (of_nat (p div 4096)) < num_datablocks s"
  by (simp add: inode_ok_def div_le_mono)

section \<open>Reads leave the image alone\<close>

lemma image_frame:
  assumes "disjoint_runs buf k (bb_start s) (fs_len s)" and "i < fs_len s"
  shows "blit (mem s) buf k f (bb_start s + of_nat i) = mem s (bb_start s + of_nat i)"
  using disjoint_runs_outside [OF assms] by (rule blit_outside)

lemma image_frame32:
  assumes "disjoint_runs buf k (bb_start s) (fs_len s)" and "i + 3 < fs_len s"
  shows "load32 (blit (mem s) buf k f) (bb_start s + of_nat i) = load32 (mem s) (bb_start s + of_nat i)"
proof -
  have "blit (mem s) buf k f (bb_start s + of_nat i + of_nat j) = mem s (bb_start s + of_nat i + of_nat j)"
    if "j \<le> 3" for j
    using image_frame [OF assms(1), of "i + j" f] assms(2) that by (simp add: add.assoc)
  from this [of 0] this [of 1] this [of 2] this [of 3] show ?thesis
    by (simp add: load32_def)
qed

lemma inode_addr:
  "fs_mounted s \<Longrightarrow> inodes s + FS_PAGE_SIZE * n + of_nat j = bb_start s + of_nat (4096 * (1 + unat n) + j)"
  by (simp add: fs_mounted_def FS_PAGE_SIZE_def algebra_simps)

lemma inode_in_image:
  assumes "n < num_inodes s" and "j < 4096"
  shows "4096 * (1 + unat n) + j < fs_len s"
  using assms by (simp add: fs_len_def word_less_nat_alt)

lemma inode_size_frame:
  assumes "fs_mounted s" and "n < num_inodes s" and "disjoint_runs buf k (bb_start s) (fs_len s)"
  shows "inode_size (s\<lparr>mem := blit (mem s) buf k f\<rparr>) n = inode_size s n"
  using image_frame32 [OF assms(3), of "4096 * (1 + unat n)" f] inode_in_image [OF assms(2), of 3]
    inode_addr [OF assms(1), of n 0]
  by (simp add: inode_size_def)

lemma data_block_frame:
  assumes "fs_mounted s" and "n < num_inodes s" and "disjoint_runs buf k (bb_start s) (fs_len s)"
    and "j < 1023"
  shows "data_block (s\<lparr>mem := blit (mem s) buf k f\<rparr>) n (of_nat j) = data_block s n (of_nat j)"
proof -
  have "inodes s + FS_PAGE_SIZE * n + 4 + 4 * of_nat j = bb_start s + of_nat (4096 * (1 + unat n) + (4 + 4 * j))"
    using inode_addr [OF assms(1), of n "4 + 4 * j"] by (simp add: algebra_simps)
  then show ?thesis
    using image_frame32 [OF assms(3), of "4096 * (1 + unat n) + (4 + 4 * j)" f] assms(4)
      inode_in_image [OF assms(2), of "4 + 4 * j + 3"]
    by (simp add: data_block_def ac_simps)
qed

lemma file_addr_image:
  assumes "fs_mounted s" and "inode_ok s n" and "p \<le> file_size s n"
  shows "\<exists>i < fs_len s. file_addr s n p = bb_start s + of_nat i"
proof (intro exI conjI)
  let ?d = "unat (data_block s n (of_nat (p div 4096)))"
  let ?i = "4096 * (unat (num_inodes s) + 1 + ?d) + p mod 4096"
  have "?d < unat (num_datablocks s)"
    using inode_block_ok [OF assms(2,3)] by (simp add: word_less_nat_alt)
  then have "4096 * (unat (num_inodes s) + 1 + ?d) + 4096 \<le> fs_len s"
    by (simp add: fs_len_def)
  moreover have "p mod 4096 < 4096" by simp
  ultimately show "?i < fs_len s" by (meson add_strict_left_mono less_le_trans)
  show "file_addr s n p = bb_start s + of_nat ?i"
    using assms(1) by (simp add: file_addr_def fs_mounted_def algebra_simps)
qed

lemma file_addr_frame:
  assumes "fs_mounted s" and "inode_ok s n" and "disjoint_runs buf k (bb_start s) (fs_len s)"
    and "p \<le> file_size s n"
  shows "file_addr (s\<lparr>mem := blit (mem s) buf k f\<rparr>) n p = file_addr s n p"
    and "blit (mem s) buf k f (file_addr s n p) = file_byte s n p"
proof -
  have "p div 4096 < 1023" using assms(4) file_size_le [OF assms(2)] by (simp add: less_mult_imp_div_less)
  then show "file_addr (s\<lparr>mem := blit (mem s) buf k f\<rparr>) n p = file_addr s n p"
    using data_block_frame [OF assms(1) _ assms(3)] assms(2) by (simp add: file_addr_def inode_ok_def)
  show "blit (mem s) buf k f (file_addr s n p) = file_byte s n p"
    using file_addr_image [OF assms(1,2,4)] image_frame [OF assms(3), of _ f]
    by (auto simp: file_byte_def)
qed

section \<open>Reading a file\<close>

text \<open>The position of the loop at byte \<open>p\<close> of the file, after the move to the next block.\<close>

definition read_pos :: "'a files_state_scheme \<Rightarrow> u32 \<Rightarrow> nat \<Rightarrow> u32 \<times> u32 \<times> u32" where
  "read_pos s n p = (of_nat (p mod 4096), of_nat (p div 4096), file_addr s n p)"

lemma read_pos_start:
  assumes "p \<le> file_size s n" and "inode_ok s n"
  shows "read_data_advance s n (of_nat (p mod 4096)) (of_nat (p div 4096)) (file_addr s n p) = Some (read_pos s n p)"
proof -
  have "p mod 4096 < 4096" by simp
  then have "\<not> FS_PAGE_SIZE \<le> (of_nat (p mod 4096) :: u32)"
    unfolding FS_PAGE_SIZE_def word_le_nat_alt by (subst unat_of_nat_u32) auto
  then show ?thesis by (simp add: read_data_advance_def read_pos_def)
qed

lemma read_pos_next:
  assumes "Suc p \<le> file_size s n" and "inode_ok s n"
  shows "read_data_advance s n (of_nat (p mod 4096) + 1) (of_nat (p div 4096)) (file_addr s n p + 1) =
     Some (read_pos s n (Suc p))"
proof (cases "Suc (p mod 4096) = 4096")
  case True
  then have m: "Suc p mod 4096 = 0" "Suc p div 4096 = Suc (p div 4096)"
    by (simp_all add: mod_Suc div_Suc)
  have "(of_nat (p mod 4096) + 1 :: u32) = of_nat (Suc (p mod 4096))" by simp
  then have l: "(of_nat (p mod 4096) + 1 :: u32) = FS_PAGE_SIZE"
    unfolding True by (simp add: FS_PAGE_SIZE_def)
  have "data_block s n (of_nat (p div 4096) + 1) < num_datablocks s"
    using inode_block_ok [OF assms(2,1)] m by (simp add: add.commute)
  then show ?thesis
    using m l by (simp add: read_data_advance_def read_pos_def file_addr_def FS_PAGE_SIZE_def
        add.commute Let_def not_le)
next
  case False
  then have m: "Suc p mod 4096 = Suc (p mod 4096)" "Suc p div 4096 = p div 4096"
    by (simp_all add: mod_Suc div_Suc)
  show ?thesis
    using read_pos_start [OF assms] m by (simp add: file_addr_def ac_simps)
qed


lemma inode_ok_frame:
  assumes "fs_mounted s" and "inode_ok s n" and "disjoint_runs buf k (bb_start s) (fs_len s)"
  shows "file_size (s\<lparr>mem := blit (mem s) buf k f\<rparr>) n = file_size s n"
    and "inode_ok (s\<lparr>mem := blit (mem s) buf k f\<rparr>) n"
proof -
  let ?s = "s\<lparr>mem := blit (mem s) buf k f\<rparr>"
  have n: "n < num_inodes s" using assms(2) by (simp add: inode_ok_def)
  show sz: "file_size ?s n = file_size s n"
    using inode_size_frame [OF assms(1) n assms(3)] by (simp add: file_size_def)
  have "data_block ?s n (of_nat j) = data_block s n (of_nat j)" if "j \<le> file_size s n div 4096" for j
  proof -
    have "j < 1023"
      using that file_size_le [OF assms(2)] by (simp add: order.strict_trans1 less_mult_imp_div_less)
    then show ?thesis by (rule data_block_frame [OF assms(1) n assms(3)])
  qed
  then show "inode_ok ?s n" using assms(2) sz by (simp add: inode_ok_def)
qed

lemma read_next_frame:
  assumes "fs_mounted s" and "inode_ok s n" and "disjoint_runs buf k (bb_start s) (fs_len s)"
    and "Suc p \<le> file_size s n"
  shows "read_data_advance (s\<lparr>mem := blit (mem s) buf k f\<rparr>) n (of_nat (p mod 4096) + 1)
      (of_nat (p div 4096)) (file_addr s n p + 1) = Some (read_pos s n (Suc p))"
  using read_pos_next [of p "s\<lparr>mem := blit (mem s) buf k f\<rparr>" n] inode_ok_frame [OF assms(1-3)]
    file_addr_frame(1) [OF assms(1-3)] assms(4)
  by (simp add: read_pos_def)

lemma read_data_loop_from:
  assumes mounted: "fs_mounted s" and ino: "inode_ok s n"
    and dis: "disjoint_runs buf (unat len) (bb_start s) (fs_len s)"
    and off: "unat offset \<le> file_size s n"
    and c: "c = min (unat len) (file_size s n - unat offset)"
    and "t \<le> c"
    and "read_data_advance (s\<lparr>mem := blit (mem s) buf t (\<lambda>i. file_byte s n (unat offset + unat i))\<rparr>)
           n loc cur addr = Some (read_pos s n (unat offset + t))"
  shows "read_data_loop n offset buf len (of_nat t) loc cur addr
       (s\<lparr>mem := blit (mem s) buf t (\<lambda>i. file_byte s n (unat offset + unat i))\<rparr>) =
     (of_nat c, s\<lparr>mem := blit (mem s) buf c (\<lambda>i. file_byte s n (unat offset + unat i))\<rparr>)"
  using assms(6,7)
proof (induction t arbitrary: loc cur addr rule: inc_induct)
  let ?F = "\<lambda>i. file_byte s n (unat offset + unat i)"
  let ?s = "\<lambda>t. s\<lparr>mem := blit (mem s) buf t ?F\<rparr>"
  case base
  have c32: "unat (of_nat c :: u32) = c"
    using c unat_u32_lt [of len] by (simp add: unat_of_nat_u32)
  have eof: "of_nat c + offset \<ge> inode_size (?s c) n" if "c < unat len"
  proof -
    have "disjoint_runs buf c (bb_start s) (fs_len s)" using dis c by (auto simp: disjoint_runs_def)
    then have "inode_size (?s c) n = inode_size s n"
      using mounted ino by (simp add: inode_size_frame inode_ok_def)
    moreover have "unat offset + c = file_size s n" using that c off by simp
    then have "offset + of_nat c = inode_size s n"
      by (metis file_size_def of_nat_add u32_of_unat)
    ultimately show ?thesis by (simp add: add.commute)
  qed
  show ?case
  proof (cases "c < unat len")
    case True
    then show ?thesis
      using base eof by (subst read_data_loop.simps) (simp add: read_pos_def)
  next
    case False
    then have "\<not> of_nat c < len" using c c32 by (simp add: word_less_nat_alt)
    then show ?thesis by (subst read_data_loop.simps) simp
  qed
next
  let ?F = "\<lambda>i. file_byte s n (unat offset + unat i)"
  let ?s = "\<lambda>t. s\<lparr>mem := blit (mem s) buf t ?F\<rparr>"
  case (step t)
  let ?p = "unat offset + t"
  have t: "t < unat len" "Suc ?p \<le> file_size s n" using step.hyps c by auto
  have t32: "unat (of_nat t :: u32) = t" using t unat_u32_lt [of len] by (simp add: unat_of_nat_u32)
  have dt: "disjoint_runs buf k (bb_start s) (fs_len s)" if "k \<le> unat len" for k
    using dis that by (simp add: disjoint_runs_def)
  have sz: "inode_size (?s t) n = inode_size s n"
    using mounted ino dt [of t] t by (simp add: inode_size_frame inode_ok_def)
  have "unat (of_nat ?p :: u32) < file_size s n"
    using t file_size_le [OF ino] by (subst unat_of_nat_u32) auto
  then have more: "\<not> inode_size s n \<le> of_nat t + offset"
    by (simp add: word_le_nat_alt file_size_def add.commute)
  have byte: "blit (mem s) buf t ?F (file_addr s n ?p) = file_byte s n ?p"
    using file_addr_frame(2) [OF mounted ino dt] t by simp
  have upd: "(blit (mem s) buf t ?F)(buf + of_nat t := file_byte s n ?p) = blit (mem s) buf (Suc t) ?F"
    using blit_Suc [of t "mem s" buf ?F] t32 t unat_u32_lt [of len] by simp
  have adv: "read_data_advance (?s (Suc t)) n (of_nat (?p mod 4096) + 1) (of_nat (?p div 4096))
      (file_addr s n ?p + 1) = Some (read_pos s n (unat offset + Suc t))"
    using read_next_frame [OF mounted ino dt [of "Suc t"], of ?p ?F] t by simp
  have suc: "(of_nat t + 1 :: u32) = of_nat (Suc t)" by simp
  show ?case
    using step.prems step.IH [OF adv] t t32 sz more byte upd suc
    by (subst read_data_loop.simps) (simp add: read_pos_def word_less_nat_alt del: of_nat_Suc)
qed


text \<open>
  \<open>read_data\<close> copies exactly the bytes of the file from \<open>offset\<close>, as many as asked for and as the
  file has, returns their number, and writes nothing else.
\<close>

lemma read_data_eq:
  assumes "fs_mounted s" and "inode_ok s n"
    and "disjoint_runs buf (unat len) (bb_start s) (fs_len s)"
    and "c = min (unat len) (file_size s n - unat offset)"
  shows "read_data n offset buf len s =
     (of_nat c, s\<lparr>mem := blit (mem s) buf c (\<lambda>i. file_byte s n (unat offset + unat i))\<rparr>)"
proof (cases "unat offset < file_size s n")
  case True
  have "data_block s n (of_nat (unat offset div 4096)) < num_datablocks s"
    using inode_block_ok [OF assms(2), of "unat offset"] True by simp
  moreover have d: "of_nat (unat offset div 4096) = offset div FS_PAGE_SIZE"
      "of_nat (unat offset mod 4096) = offset mod FS_PAGE_SIZE"
    using u32_of_unat [of "offset div FS_PAGE_SIZE"] u32_of_unat [of "offset mod FS_PAGE_SIZE"]
    by (simp_all only: unat_div_distrib unat_mod_distrib FS_PAGE_SIZE_def) simp_all
  moreover have "read_data_loop n offset buf len 0 (of_nat (unat offset mod 4096))
      (of_nat (unat offset div 4096)) (file_addr s n (unat offset)) s =
      (of_nat c, s\<lparr>mem := blit (mem s) buf c (\<lambda>i. file_byte s n (unat offset + unat i))\<rparr>)"
    using read_data_loop_from [OF assms(1-3) _ assms(4), of 0] True
      read_pos_start [OF _ assms(2), of "unat offset"] by simp
  moreover have "n < num_inodes s" using assms(2) by (simp add: inode_ok_def)
  moreover have "offset < inode_size s n" using True by (simp add: file_size_def word_less_nat_alt)
  ultimately show ?thesis
    by (simp add: read_data_def Let_def file_addr_def FS_PAGE_SIZE_def mult.commute flip: not_less)
next
  case False
  then show ?thesis
    using assms by (simp add: read_data_def file_size_def inode_ok_def word_less_nat_alt word_le_nat_alt)
qed


lemma file_contents_frame:
  assumes "fs_mounted s" and "inode_ok s n" and "disjoint_runs buf k (bb_start s) (fs_len s)"
  shows "file_contents (s\<lparr>mem := blit (mem s) buf k f\<rparr>) n = file_contents s n"
  using file_addr_frame [OF assms] inode_ok_frame(1) [OF assms]
  by (simp add: file_contents_def file_byte_def)

lemma fs_mounted_mem [simp]: "fs_mounted (s\<lparr>mem := m\<rparr>) = fs_mounted s" "fs_len (s\<lparr>mem := m\<rparr>) = fs_len s"
  by (simp_all add: fs_mounted_def fs_len_def)

text \<open>What one call delivers in the buffer, as a list.\<close>

definition read_chunk ::
  "u32 \<Rightarrow> u32 \<Rightarrow> 'a files_state_scheme \<Rightarrow> nat \<Rightarrow> nat \<Rightarrow> u8 list \<times> 'a files_state_scheme" where
  "read_chunk n buf s offset len =
     (let (r, s) = read_data n (of_nat offset) buf (of_nat len) s in (bytes (ptr (mem s) buf) (unat r), s))"

text \<open>A caller of \<open>read_data\<close> may rely on this much: the image, the inode and a buffer of \<open>cap\<close> bytes.\<close>

definition readable :: "u32 \<Rightarrow> u32 \<Rightarrow> nat \<Rightarrow> 'a files_state_scheme \<Rightarrow> bool" where
  "readable n buf cap s \<longleftrightarrow> fs_mounted s \<and> inode_ok s n \<and> cap < 2 ^ 32 \<and>
     disjoint_runs buf cap (bb_start s) (fs_len s)"

lemma read_chunk_eq:
  assumes "readable n buf cap s" and "len \<le> cap" and "offset \<le> file_size s n"
  shows "fst (read_chunk n buf s offset len) = take len (drop offset (file_contents s n))"
    and "readable n buf cap (snd (read_chunk n buf s offset len))"
    and "file_contents (snd (read_chunk n buf s offset len)) n = file_contents s n"
proof -
  let ?c = "min len (file_size s n - offset)" and ?F = "\<lambda>i. file_byte s n (offset + unat i)"
  have h: "fs_mounted s" "inode_ok s n" using assms(1) by (auto simp: readable_def)
  have b: "offset < 2 ^ 32" "len < 2 ^ 32"
    using assms file_size_le [OF h(2)] by (auto simp: readable_def)
  have dis: "disjoint_runs buf k (bb_start s) (fs_len s)" if "k \<le> cap" for k
    using assms(1) that by (auto simp: readable_def disjoint_runs_def)
  have rd: "read_data n (of_nat offset) buf (of_nat len) s = (of_nat ?c, s\<lparr>mem := blit (mem s) buf ?c ?F\<rparr>)"
    using read_data_eq [OF h, of buf "of_nat len" ?c "of_nat offset"] dis [OF assms(2)] b
    by (simp add: unat_of_nat_u32 del: of_nat_min)
  have "unat (of_nat ?c :: u32) = ?c" using b by (subst unat_of_nat_u32) auto
  then have chunk: "read_chunk n buf s offset len =
      (bytes (ptr (blit (mem s) buf ?c ?F) buf) ?c, s\<lparr>mem := blit (mem s) buf ?c ?F\<rparr>)"
    using rd by (simp add: read_chunk_def)
  show "fst (read_chunk n buf s offset len) = take len (drop offset (file_contents s n))"
    using chunk b by (auto simp: list_eq_iff_nth_eq file_contents_def ptr_def blit_at unat_of_nat_u32)
  have d: "disjoint_runs buf ?c (bb_start s) (fs_len s)" using dis assms(2) by simp
  show "file_contents (snd (read_chunk n buf s offset len)) n = file_contents s n"
    using file_contents_frame [OF h d] chunk by simp
  show "readable n buf cap (snd (read_chunk n buf s offset len))"
    using assms(1) inode_ok_frame(2) [OF h d] chunk by (simp add: readable_def)
qed


interpretation fs_reader: sequential_reader "read_chunk n buf" "readable n buf cap" "\<lambda>s. file_contents s n" cap
  for n buf cap
  by unfold_locales (use read_chunk_eq in \<open>auto simp: file_contents_def\<close>)

section \<open>Looking up a name\<close>

definition entry_len :: "'a files_state_scheme \<Rightarrow> nat \<Rightarrow> nat" where
  "entry_len s i = (case strlen (dentry_name s i) of None \<Rightarrow> 0 | Some l \<Rightarrow> unat l)"

definition entry_name :: "'a files_state_scheme \<Rightarrow> nat \<Rightarrow> u8 list" where
  "entry_name s i = bytes (dentry_name s i) (entry_len s i)"

text \<open>Every entry's name is terminated inside its 32 bytes.\<close>

definition dir_ok :: "'a files_state_scheme \<Rightarrow> bool" where
  "dir_ok s \<longleftrightarrow> (\<forall>i<63. is_cstr (dentry_name s i) (entry_len s i) \<and> entry_len s i < 32)"

definition entry_copy :: "'a files_state_scheme \<Rightarrow> nat \<Rightarrow> dentry \<Rightarrow> dentry" where
  "entry_copy s i d =
     \<lparr>filename = (\<lambda>j. if unat j < entry_len s i then dentry_name s i j
                      else if unat j = entry_len s i then 0 else filename d j),
      filetype = load32 (mem s) (dentry_addr s i + 32),
      dentry_inode = load32 (mem s) (dentry_addr s i + 36)\<rparr>"

lemma copy_dentry_eq: "dir_ok s \<Longrightarrow> i < 63 \<Longrightarrow> copy_dentry s i d = Ok (entry_copy s i d)"
  using strcpy_arr_eq [of "dentry_name s i" "entry_len s i" 32 "filename d"]
  by (auto simp: dir_ok_def copy_dentry_def entry_copy_def)

lemma read_dentry_from_eq:
  assumes "dir_ok s" and "is_cstr fname k" and "i \<le> 63"
  shows "read_dentry_from fname s d i =
     (case find (\<lambda>i. entry_name s i = bytes fname k) [i..<63] of
        None \<Rightarrow> Ok (-1, d) | Some i \<Rightarrow> Ok (0, entry_copy s i d))"
  using assms(3)
proof (induction i rule: inc_induct)
  case base
  then show ?case by (subst read_dentry_from.simps) (simp add: MAX_NUM_FS_DENTRIES_def)
next
  case (step i)
  have c: "is_cstr (dentry_name s i) (entry_len s i)" using assms(1) step.hyps by (simp add: dir_ok_def)
  have "of_nat (entry_len s i) = (of_nat k :: u32) \<longleftrightarrow> entry_len s i = k"
    using c assms(2) by (simp add: is_cstr_def of_nat_u32_eq_iff)
  then show ?case
    using step strlen_is_cstr [OF c] strlen_is_cstr [OF assms(2)] name_match_iff [OF c assms(2)]
      copy_dentry_eq [OF assms(1), of i d]
    by (subst read_dentry_from.simps) (auto simp: MAX_NUM_FS_DENTRIES_def entry_name_def upt_rec [of i])
qed

lemma read_dentry_by_name_eq:
  assumes "dir_ok s" and "is_cstr fname k"
  shows "read_dentry_by_name fname d s =
     (case find (\<lambda>i. entry_name s i = bytes fname k) [0..<63] of
        None \<Rightarrow> Ok (-1, d) | Some i \<Rightarrow> Ok (0, entry_copy s i d))"
  using read_dentry_from_eq [OF assms, of 0] by (simp add: read_dentry_by_name_def)

lemma read_dentry_by_index_eq:
  assumes "dir_ok s"
  shows "read_dentry_by_index i d s =
     (if unat i < 63 then Ok (0, entry_copy s (unat i) d) else Ok (-1, d))"
  using copy_dentry_eq [OF assms, of "unat i" d]
  by (simp add: read_dentry_by_index_def MAX_NUM_FS_DENTRIES_def)


text \<open>Opening, finding and reading together: the bytes of the first entry with that name.\<close>

lemma fs_read_eq:
  assumes "fs_mounted s" and "dir_ok s" and "is_cstr fname k" and "buf \<noteq> NULL_PTR"
    and "disjoint_runs buf (unat len) (bb_start s) (fs_len s)"
    and "\<And>i. find (\<lambda>i. entry_name s i = bytes fname k) [0..<63] = Some i \<Longrightarrow>
           inode_ok s (dentry_inode (entry_copy s i d0))"
  shows "fs_read d0 (Some fname) offset buf len s =
     (case find (\<lambda>i. entry_name s i = bytes fname k) [0..<63] of
        None \<Rightarrow> Ok (-1, s)
      | Some i \<Rightarrow>
          (let n = dentry_inode (entry_copy s i d0); c = min (unat len) (file_size s n - unat offset)
           in Ok (of_nat c, s\<lparr>mem := blit (mem s) buf c (\<lambda>j. file_byte s n (unat offset + unat j))\<rparr>)))"
  using read_dentry_by_name_eq [OF assms(2,3), of d0] assms(4) read_data_eq [OF assms(1) assms(6) assms(5) refl]
  by (auto simp: fs_read_def Let_def split: option.splits)

lemma fs_init_mounted:
  fixes s :: "'a files_state_scheme"
  assumes "unat (load32 (mem s) (start + 4)) + unat (load32 (mem s) (start + 8)) < 1048576"
  shows "fs_mounted (fs_init start fs_end s)"
  using assms by (simp add: fs_mounted_def fs_init_def fs_len_def FS_STATS_SIZE_def FS_PAGE_SIZE_def Let_def)

section \<open>Listing the directory\<close>

lemma entry_in_image: "i < 63 \<Longrightarrow> 64 + 64 * i + 64 \<le> fs_len s"
  by (simp add: fs_len_def)

lemma dir_read_eq:
  assumes "fs_mounted s" and "dir_ok s" and "disjoint_runs buf 32 (bb_start s) (fs_len s)"
    and "dir_reads s < num_dentries s" and "unat (num_dentries s) \<le> 63"
    and i: "i = unat (dir_reads s)"
  shows "dir_read buf s =
     Ok (of_nat (entry_len s i),
         s\<lparr>mem := blit (mem s) buf (Suc (entry_len s i)) (dentry_name s i),
           dir_reads := dir_reads s + 1\<rparr>)"
proof -
  have i63: "i < 63" using assms(4,5) i by (simp add: word_less_nat_alt)
  have str: "is_cstr (dentry_name s i) (entry_len s i)" and l: "entry_len s i < 32"
    using assms(2) i63 by (auto simp: dir_ok_def)
  have src: "fs_dentries s + 64 * dir_reads s = bb_start s + of_nat (64 + 64 * i)"
    using assms(1) i by (simp add: fs_mounted_def)
  then have name: "ptr (mem s) (bb_start s + of_nat (64 + 64 * i)) = dentry_name s i"
    using i by (metis dentry_name_def dentry_addr_def u32_of_unat)
  have "disjoint_runs buf (Suc (entry_len s i)) (bb_start s + of_nat (64 + 64 * i)) (Suc (entry_len s i))"
    using disjoint_runs_sub [OF assms(3), of "64 + 64 * i" "Suc (entry_len s i)" "Suc (entry_len s i)"]
      entry_in_image [OF i63, of s] l by simp
  then have cp: "strcpy (mem s) buf (bb_start s + of_nat (64 + 64 * i)) =
      Some (blit (mem s) buf (Suc (entry_len s i)) (dentry_name s i))"
    using strcpy_eq [of "mem s"] str name by metis
  have "is_cstr (ptr (blit (mem s) buf (Suc (entry_len s i)) (dentry_name s i)) buf) (entry_len s i)"
    using str l by (simp add: is_cstr_def ptr_def blit_at)
  then show ?thesis
    using cp src assms(4) strlen_is_cstr by (simp add: dir_read_def Let_def flip: not_less)
qed

lemma dir_read_end: "num_dentries s \<le> dir_reads s \<Longrightarrow> dir_read buf s = Ok (0, s\<lparr>dir_reads := 0\<rparr>)"
  by (simp add: dir_read_def)


text \<open>A reader of the directory: calls \<open>dir_read\<close> until it returns 0, as the \<open>ls\<close> program does.\<close>

fun list_dir :: "u32 \<Rightarrow> nat \<Rightarrow> 'a files_state_scheme \<Rightarrow> (u8 list list \<times> 'a files_state_scheme) outcome" where
  "list_dir buf 0 s = Ok ([], s)"
| "list_dir buf (Suc fuel) s =
     obind (dir_read buf s) (\<lambda>(n, s).
       if n = 0 then Ok ([], s)
       else obind (list_dir buf fuel s) (\<lambda>(ns, s'). Ok (bytes (ptr (mem s) buf) (unat n) # ns, s')))"

lemma dentry_name_frame:
  assumes "fs_mounted s" and "disjoint_runs buf k (bb_start s) (fs_len s)" and "i < 63" and "j < 64"
  shows "dentry_name (s\<lparr>mem := blit (mem s) buf k f, dir_reads := r\<rparr>) i (of_nat j) = dentry_name s i (of_nat j)"
proof -
  have "dentry_addr s i + of_nat j = bb_start s + of_nat (64 + 64 * i + j)"
    using assms(1) by (simp add: dentry_addr_def fs_mounted_def)
  then show ?thesis
    using image_frame [OF assms(2), of "64 + 64 * i + j" f] entry_in_image [OF assms(3), of s] assms(4)
    by (simp add: dentry_name_def dentry_addr_def ptr_def add.assoc)
qed

lemma dir_frame:
  fixes f :: "u32 \<Rightarrow> u8" and r :: u32
  assumes "fs_mounted s" and "disjoint_runs buf k (bb_start s) (fs_len s)" and "dir_ok s"
  defines "s' \<equiv> s\<lparr>mem := blit (mem s) buf k f, dir_reads := r\<rparr>"
  shows "dir_ok s'" and "i < 63 \<Longrightarrow> entry_len s' i = entry_len s i"
    and "i < 63 \<Longrightarrow> entry_name s' i = entry_name s i"
proof -
  have nm: "dentry_name s' i (of_nat j) = dentry_name s i (of_nat j)" if "i < 63" "j < 64" for i j
    using dentry_name_frame [OF assms(1,2) that] by (simp add: s'_def)
  have str: "is_cstr (dentry_name s' i) (entry_len s i)" if "i < 63" for i
    using assms(3) that nm [OF that] by (auto simp: dir_ok_def is_cstr_def)
  have len: "entry_len s' i = entry_len s i" if "i < 63" for i
    using strlen_is_cstr [OF str [OF that]] str [OF that]
    by (simp add: entry_len_def [of s'] is_cstr_def unat_of_nat_u32)
  then show "i < 63 \<Longrightarrow> entry_len s' i = entry_len s i" .
  show "dir_ok s'" using str len assms(3) by (simp add: dir_ok_def)
  show "i < 63 \<Longrightarrow> entry_name s' i = entry_name s i"
    using len nm assms(3) by (fastforce simp: entry_name_def bytes_eq_iff dir_ok_def)
qed

lemma list_dir_from:
  assumes "fs_mounted s" and "dir_ok s" and "disjoint_runs buf 32 (bb_start s) (fs_len s)"
    and "unat (num_dentries s) \<le> 63" and "\<forall>i<unat (num_dentries s). entry_name s i \<noteq> []"
    and "unat (dir_reads s) + k = unat (num_dentries s)"
  shows "\<exists>m. list_dir buf (Suc k) s =
     Ok (map (entry_name s) [unat (dir_reads s)..<unat (num_dentries s)], s\<lparr>mem := m, dir_reads := 0\<rparr>)"
  using assms
proof (induction k arbitrary: s)
  case 0
  then show ?case
    using dir_read_end [of s buf] by (auto simp: word_le_nat_alt intro: exI [of _ "mem s"])
next
  case (Suc k)
  let ?i = "unat (dir_reads s)"
  let ?l = "entry_len s ?i"
  let ?s = "s\<lparr>mem := blit (mem s) buf (Suc ?l) (dentry_name s ?i), dir_reads := dir_reads s + 1\<rparr>"
  have lt: "dir_reads s < num_dentries s" using Suc.prems(6) by (simp add: word_less_nat_alt)
  have i63: "?i < 63" using Suc.prems(4,6) by simp
  have l: "?l < 32" "0 < ?l" "is_cstr (dentry_name s ?i) ?l"
    using Suc.prems(2,5) i63 lt by (auto simp: dir_ok_def entry_name_def bytes_def word_less_nat_alt)
  have rd: "dir_read buf s = Ok (of_nat ?l, ?s)"
    using dir_read_eq [OF Suc.prems(1-3) lt Suc.prems(4) refl] .
  have d: "disjoint_runs buf (Suc ?l) (bb_start s) (fs_len s)"
    using Suc.prems(3) l(1) by (simp add: disjoint_runs_def)
  note fr = dir_frame [OF Suc.prems(1) d Suc.prems(2), where f = "dentry_name s ?i" and r = "dir_reads s + 1"]
  have "\<exists>m. list_dir buf (Suc k) ?s =
     Ok (map (entry_name ?s) [unat (dir_reads ?s)..<unat (num_dentries ?s)], ?s\<lparr>mem := m, dir_reads := 0\<rparr>)"
    by (rule Suc.IH) (use Suc.prems fr unat_Suc_less [OF lt] in \<open>simp_all add: fs_mounted_def fs_len_def\<close>)
  moreover have "map (entry_name ?s) [unat (dir_reads ?s)..<unat (num_dentries ?s)] =
      map (entry_name s) [Suc ?i..<unat (num_dentries s)]"
    using fr(3) Suc.prems(4) unat_Suc_less [OF lt] by simp
  ultimately obtain m where m: "list_dir buf (Suc k) ?s =
     Ok (map (entry_name s) [Suc ?i..<unat (num_dentries s)], s\<lparr>mem := m, dir_reads := 0\<rparr>)"
    by (simp del: list_dir.simps) blast
  have n: "bytes (ptr (mem ?s) buf) (unat (of_nat ?l :: u32)) = entry_name s ?i"
    using l by (auto simp: entry_name_def list_eq_iff_nth_eq ptr_def blit_at unat_of_nat_u32)
  have "unat (of_nat ?l :: u32) = ?l" using l by (simp add: unat_of_nat_u32)
  then have nz: "(of_nat ?l :: u32) \<noteq> 0" using l(2) by auto
  have "[?i..<unat (num_dentries s)] = ?i # [Suc ?i..<unat (num_dentries s)]"
    using lt by (simp add: upt_conv_Cons word_less_nat_alt)
  then show ?case
    using m n nz by (subst list_dir.simps) (simp add: rd del: list_dir.simps, blast)
qed


section \<open>Limits of the driver\<close>

text \<open>A name of 32 bytes or more does not fit the local \<open>dentry_t\<close>: the copy runs past it.\<close>

lemma copy_dentry_overflow:
  assumes "is_cstr (dentry_name s i) l" and "32 \<le> l"
  shows "copy_dentry s i d = Fault Out_Of_Bounds"
  using strcpy_arr_eq [OF assms(1)] assms(2) by (simp add: copy_dentry_def)

lemma fs_load_eq:
  assumes "fs_mounted s" and "dir_ok s" and "is_cstr fname k"
    and "find (\<lambda>i. entry_name s i = bytes fname k) [0..<63] = Some i"
    and n: "n = dentry_inode (entry_copy s i d0)" and "inode_ok s n"
    and "disjoint_runs address (file_size s n) (bb_start s) (fs_len s)"
  shows "fs_load d0 (Some fname) address s =
     Ok (if 0 < file_size s n then -1 else 0, s\<lparr>mem := blit (mem s) address (file_size s n) (\<lambda>j. file_byte s n (unat j))\<rparr>)"
proof -
  have "read_data n 0 address (inode_size s n) s =
      (inode_size s n, s\<lparr>mem := blit (mem s) address (file_size s n) (\<lambda>j. file_byte s n (unat j))\<rparr>)"
    using read_data_eq [OF assms(1,6), of address "inode_size s n" "file_size s n" 0] assms(7)
    by (simp add: file_size_def)
  moreover have "0 < file_size s n \<longleftrightarrow> inode_size s n \<noteq> 0"
    by (auto simp: file_size_def unat_gt_0)
  ultimately show ?thesis
    using read_dentry_by_name_eq [OF assms(2,3), of d0] assms(4) n by (simp add: fs_load_def)
qed

section \<open>A small image\<close>

text \<open>
  One inode block and one data block at \<open>0x410000\<close>; two directory entries, \<open>shell\<close> (a file of 28
  bytes that starts with the ELF magic number and names its entry point at offset 24) and \<open>.\<close>.
  Used to evaluate the operations.
\<close>

definition small_image :: memory where
  "small_image = (\<lambda>_. 0)(0x410000 := 2, 0x410004 := 1, 0x410008 := 1,
     0x410040 := 0x73, 0x410041 := 0x68, 0x410042 := 0x65, 0x410043 := 0x6C, 0x410044 := 0x6C, 0x410060 := 2,
     0x410080 := 0x2E, 0x4100A0 := 1, 0x411000 := 28,
     0x412000 := 0x7F, 0x412001 := 0x45, 0x412002 := 0x4C, 0x412003 := 0x46,
     0x412018 := 0x94, 0x412019 := 0x80, 0x41201A := 0x04, 0x41201B := 0x08)"

definition small_fs :: files_state where
  "small_fs = fs_init 0x410000 0x413000
     \<lparr>mem = small_image, io = [], interrupts_on = True,
      process_term_number = 0, active_term = 0, screen_x = (\<lambda>_. 0), screen_y = (\<lambda>_. 0),
      command_x = (\<lambda>_. 0), command_y = (\<lambda>_. 0), fs_is_open = 0, fs_dentries = 0, num_dentries = 0,
      num_inodes = 0, num_datablocks = 0, bb_start = 0, inodes = 0, data_start = 0, dir_reads = 0\<rparr>"

text \<open>A state on which the image is mounted, whatever else it holds.\<close>

definition small_mounted :: "'a files_state_scheme \<Rightarrow> bool" where
  "small_mounted s \<longleftrightarrow> bb_start s = 0x410000 \<and> fs_dentries s = 0x410040 \<and> inodes s = 0x411000 \<and>
     data_start s = 0x412000 \<and> num_dentries s = 2 \<and> num_inodes s = 1 \<and> num_datablocks s = 1 \<and>
     dir_reads s = 0 \<and> mem s = small_image"

lemma small_fs_mounted: "small_mounted small_fs"
  by (simp add: small_mounted_def small_fs_def fs_init_def Let_def load32_def small_image_def
      FS_STATS_SIZE_def FS_PAGE_SIZE_def)

lemma small_image_zero:
  assumes "unat a \<notin> {0x410000, 0x410004, 0x410008, 0x410040, 0x410041, 0x410042, 0x410043, 0x410044, 0x410060,
    0x410080, 0x4100A0, 0x411000, 0x412000, 0x412001, 0x412002, 0x412003, 0x412018, 0x412019, 0x41201A, 0x41201B}"
  shows "small_image a = 0"
  using assms unfolding small_image_def by (auto simp: fun_upd_def)

lemma small_image_dir:
  assumes "1 < i" and "i < 63"
  shows "small_image (0x410040 + 64 * of_nat i) = 0"
proof (rule small_image_zero)
  have "unat (0x410040 + 64 * of_nat i :: u32) = 0x410040 + 64 * i"
    using assms by (simp add: unat_word_ariths unat_of_nat)
  then show "unat (0x410040 + 64 * of_nat i :: u32) \<notin> {0x410000, 0x410004, 0x410008, 0x410040, 0x410041,
    0x410042, 0x410043, 0x410044, 0x410060, 0x410080, 0x4100A0, 0x411000, 0x412000, 0x412001, 0x412002,
    0x412003, 0x412018, 0x412019, 0x41201A, 0x41201B}"
    using assms by simp
qed

lemma less_5_iff: "i < 5 \<longleftrightarrow> i = 0 \<or> i = 1 \<or> i = 2 \<or> i = 3 \<or> i = (4 :: nat)"
  by arith

lemma small_names:
  "is_cstr (\<lambda>j. small_image (0x410040 + j)) 5" "is_cstr (\<lambda>j. small_image (0x410080 + j)) 1"
  "bytes (\<lambda>j. small_image (0x410040 + j)) 5 = map of_char ''shell''"
  "bytes (\<lambda>j. small_image (0x410080 + j)) 1 = map of_char ''.''"
  by (auto simp: is_cstr_def small_image_def less_5_iff bytes_def upt_rec)

lemma small_mounted_facts:
  assumes "small_mounted s"
  shows "fs_mounted s" "fs_len s = 12288" "inode_size s 0 = 28" "data_block s 0 0 = 0" "file_size s 0 = 28"
    "inode_ok s 0" "dir_ok s" "entry_name s 0 = map of_char ''shell''" "entry_name s 1 = map of_char ''.''"
    "load32 (mem s) (dentry_addr s 0 + 36) = 0"
proof -
  note [simp] = assms [unfolded small_mounted_def]
  show fm: "fs_mounted s" and fl: "fs_len s = 12288"
    by (simp_all add: fs_mounted_def fs_len_def)
  show sz: "inode_size s 0 = 28" and d: "data_block s 0 0 = 0"
    by (simp_all add: inode_size_def data_block_def load32_def small_image_def FS_PAGE_SIZE_def)
  then show f: "file_size s 0 = 28" by (simp add: file_size_def)
  show "inode_ok s 0" using d f by (simp add: inode_ok_def)
  show "load32 (mem s) (dentry_addr s 0 + 36) = 0"
    by (simp add: dentry_addr_def load32_def small_image_def)
  have n: "dentry_name s 0 = (\<lambda>j. small_image (0x410040 + j))" "dentry_name s 1 = (\<lambda>j. small_image (0x410080 + j))"
    by (simp_all add: dentry_name_def dentry_addr_def ptr_def)
  have e0: "is_cstr (dentry_name s 0) 5" and e1: "is_cstr (dentry_name s 1) 1"
    unfolding n by (rule small_names)+
  have e: "is_cstr (dentry_name s i) 0" if "1 < i" "i < 63" for i
    using small_image_dir [OF that] by (simp add: is_cstr_def dentry_name_def dentry_addr_def ptr_def)
  have l: "entry_len s 0 = 5" "entry_len s 1 = 1"
    using strlen_is_cstr [OF e0] strlen_is_cstr [OF e1] by (simp_all add: entry_len_def)
  have l': "entry_len s i = 0" if "1 < i" "i < 63" for i
    using strlen_is_cstr [OF e [OF that]] by (simp add: entry_len_def)
  show "dir_ok s" unfolding dir_ok_def
  proof (intro allI impI)
    fix i :: nat
    assume "i < 63"
    then consider "i = 0" | "i = 1" | "1 < i" by linarith
    then show "is_cstr (dentry_name s i) (entry_len s i) \<and> entry_len s i < 32"
      by cases (use e0 e1 e l l' \<open>i < 63\<close> in simp_all)
  qed
  show "entry_name s 0 = map of_char ''shell''" "entry_name s 1 = map of_char ''.''"
    using l small_names(3,4) by (simp_all add: entry_name_def n [unfolded One_nat_def])
qed

section \<open>Properties of the file system\<close>

text \<open>
  C22. \<open>read_data\<close> on a well-formed inode (\<open>inode_ok\<close>: the blocks up to the end position exist) copies exactly the file's bytes from \<open>offset\<close>, across data
  blocks, as many as asked for and as the file has left, returns their number, and writes nothing
  outside the buffer.
\<close>
theorem read_data_correct:
  assumes "fs_mounted s" and "inode_ok s n"
    and "disjoint_runs buf (unat len) (bb_start s) (fs_len s)"
    and "c = min (unat len) (file_size s n - unat offset)"
  shows "read_data n offset buf len s =
     (of_nat c, s\<lparr>mem := blit (mem s) buf c (\<lambda>i. file_byte s n (unat offset + unat i))\<rparr>)"
  using assms by (rule read_data_eq)

theorem read_data_correct_witness:
  "read_data 0 24 0x800000 10 small_fs =
     (of_nat 4, small_fs\<lparr>mem := blit (mem small_fs) 0x800000 4
        (\<lambda>i. file_byte small_fs 0 (unat (24 :: u32) + unat i))\<rparr>)"
  by (rule read_data_correct)
    (use small_fs_mounted small_mounted_facts [OF small_fs_mounted] in
      \<open>simp_all add: disjoint_runs_def small_mounted_def\<close>)

text \<open>
  The size of the file is a multiple of the block size and the table entry after its last block is no data block: a read of two or more
  bytes at the last byte stores that byte, but moves to the next block before it notices the end of the file, and returns -1.
\<close>

theorem read_past_last_block:
  assumes "fs_mounted s" and "n < num_inodes s" and "k < 1022" and size: "file_size s n = 4096 * Suc k"
    and blocks: "data_block s n (of_nat k) < num_datablocks s" "num_datablocks s \<le> data_block s n (of_nat (Suc k))"
    and "disjoint_runs buf 1 (bb_start s) (fs_len s)" and "2 \<le> len"
  shows "read_data n (of_nat (4096 * k + 4095)) buf len s = (-1, s\<lparr>mem := (mem s)(buf := file_byte s n (4096 * k + 4095))\<rparr>)"
proof -
  let ?o = "of_nat (4096 * k + 4095) :: u32"
  let ?t = "s\<lparr>mem := (mem s)(buf := file_byte s n (4096 * k + 4095))\<rparr>"
  have o: "unat ?o = 4096 * k + 4095" by (rule unat_of_nat_u32) (use assms(3) in simp)
  have d: "?o div FS_PAGE_SIZE = of_nat k" "?o mod FS_PAGE_SIZE = 4095"
    using o assms(3) by (simp_all add: word_unat_eq_iff unat_div_distrib unat_mod_distrib FS_PAGE_SIZE_def unat_of_nat_u32 del: of_nat_add of_nat_mult)
  have lt: "?o < inode_size s n" using size o by (simp add: word_less_nat_alt file_size_def del: of_nat_add of_nat_mult)
  then have ge: "\<not> inode_size s n \<le> ?o" by simp
  have t: "?t = s\<lparr>mem := blit (mem s) buf 1 (\<lambda>_. file_byte s n (4096 * k + 4095))\<rparr>" using blit_Suc [of 0 "mem s" buf "\<lambda>_. file_byte s n (4096 * k + 4095)"] by simp
  have nb: "num_datablocks s \<le> data_block ?t n (of_nat k + 1)"
    unfolding t using data_block_frame [OF assms(1,2,7), of "Suc k"] assms(3) blocks(2) by (simp add: add.commute)
  have len: "(0 :: u32) < len" "(1 :: u32) < len" using assms(8) by (simp_all add: word_le_nat_alt word_less_nat_alt)
  have byte: "file_byte s n (4096 * k + 4095) = mem s (data_start s + data_block s n (of_nat k) * FS_PAGE_SIZE + 4095)"
    by (simp add: file_byte_def file_addr_def FS_PAGE_SIZE_def)
  have "read_data_loop n ?o buf len 0 4095 (of_nat k) (data_start s + data_block s n (of_nat k) * FS_PAGE_SIZE + 4095) s =
      read_data_loop n ?o buf len 1 4096 (of_nat k) (data_start s + data_block s n (of_nat k) * FS_PAGE_SIZE + 4095 + 1) ?t"
    using len ge byte by (subst read_data_loop.simps) (simp add: read_data_advance_def FS_PAGE_SIZE_def del: of_nat_add of_nat_mult)
  also have "\<dots> = (-1, ?t)"
    using len nb by (subst read_data_loop.simps) (simp add: read_data_advance_def FS_PAGE_SIZE_def del: of_nat_add of_nat_mult)
  finally show ?thesis
    using assms(2) blocks(1) d lt by (simp add: read_data_def Let_def flip: not_less del: of_nat_add of_nat_mult)
qed

text \<open>
  Reading a file in consecutive chunks of any sizes, each from where the last one ended, gives a
  prefix of its contents: whatever the chunk sizes, the concatenation is the next \<open>sum_list lens\<close>
  bytes from the starting offset, and the whole rest of the file when enough was asked for.
\<close>
theorem chunked_read_correct:
  assumes "readable n buf cap s" and "\<forall>len\<in>set lens. len \<le> cap" and "offset \<le> length (file_contents s n)"
  shows "fst (read_seq (read_chunk n buf) lens offset s) = take (sum_list lens) (drop offset (file_contents s n))"
  using assms by (rule fs_reader.read_seq_eq)

theorem chunked_read_correct_witness:
  "fst (read_seq (read_chunk 0 0x800000) [3, 0, 20, 9] 1 small_fs) =
     take (sum_list [3, 0, 20, 9]) (drop 1 (file_contents small_fs 0))"
  by (rule chunked_read_correct [where cap = 32])
    (use small_fs_mounted small_mounted_facts [OF small_fs_mounted] in
      \<open>simp_all add: readable_def disjoint_runs_def small_mounted_def file_contents_def\<close>)

text \<open>
  Looking up a name finds the first of the 63 directory slots with exactly that name and copies
  its name, type and inode; it returns -1 and leaves the caller's entry alone when there is none. By
  index it finds the slot itself, and fails from 63 on.
\<close>
theorem dentry_lookup_correct:
  assumes "dir_ok s" and "is_cstr fname k"
  shows "read_dentry_by_name fname d s =
       (case find (\<lambda>i. entry_name s i = bytes fname k) [0..<63] of
          None \<Rightarrow> Ok (-1, d) | Some i \<Rightarrow> Ok (0, entry_copy s i d)) \<and>
    read_dentry_by_index j d s = (if unat j < 63 then Ok (0, entry_copy s (unat j) d) else Ok (-1, d))"
  using assms by (simp add: read_dentry_by_name_eq read_dentry_by_index_eq)

theorem dentry_lookup_correct_witness:
  "read_dentry_by_name (\<lambda>j. small_image (0x410080 + j)) \<lparr>filename = (\<lambda>_. 0), filetype = 7, dentry_inode = 7\<rparr> small_fs =
       (case find (\<lambda>i. entry_name small_fs i = bytes (\<lambda>j. small_image (0x410080 + j)) 1) [0..<63] of
          None \<Rightarrow> Ok (-1, \<lparr>filename = (\<lambda>_. 0), filetype = 7, dentry_inode = 7\<rparr>)
        | Some i \<Rightarrow> Ok (0, entry_copy small_fs i \<lparr>filename = (\<lambda>_. 0), filetype = 7, dentry_inode = 7\<rparr>)) \<and>
    read_dentry_by_index 63 \<lparr>filename = (\<lambda>_. 0), filetype = 7, dentry_inode = 7\<rparr> small_fs =
      (if unat (63 :: u32) < 63
       then Ok (0, entry_copy small_fs (unat (63 :: u32)) \<lparr>filename = (\<lambda>_. 0), filetype = 7, dentry_inode = 7\<rparr>)
       else Ok (-1, \<lparr>filename = (\<lambda>_. 0), filetype = 7, dentry_inode = 7\<rparr>))"
  by (rule dentry_lookup_correct)
    (use small_mounted_facts(7) [OF small_fs_mounted] small_names(2) in simp_all)

text \<open>
  A reader that calls \<open>dir_read\<close> until it returns 0, as \<open>ls\<close> does, gets the names of all the
  directory's entries once each and in order, and leaves the driver's cursor at the start again.
\<close>
theorem directory_listing_complete:
  assumes "fs_mounted s" and "dir_ok s" and "disjoint_runs buf 32 (bb_start s) (fs_len s)"
    and "unat (num_dentries s) \<le> 63" and "\<forall>i<unat (num_dentries s). entry_name s i \<noteq> []"
    and "dir_reads s = 0"
  shows "\<exists>m. list_dir buf (Suc (unat (num_dentries s))) s =
     Ok (map (entry_name s) [0..<unat (num_dentries s)], s\<lparr>mem := m, dir_reads := 0\<rparr>)"
  using list_dir_from [OF assms(1-5), of "unat (num_dentries s)"] assms(6) by simp

theorem directory_listing_complete_witness:
  "\<exists>m. list_dir 0x800000 (Suc (unat (num_dentries small_fs))) small_fs =
     Ok (map (entry_name small_fs) [0..<unat (num_dentries small_fs)], small_fs\<lparr>mem := m, dir_reads := 0\<rparr>)"
  by (rule directory_listing_complete)
    (use small_fs_mounted small_mounted_facts [OF small_fs_mounted] in
      \<open>auto simp: disjoint_runs_def small_mounted_def less_2_cases_iff\<close>)

text \<open>
  C35. \<open>fs_load\<close> writes the whole file at the load address and nothing else; but its return value is
  -1 for every non-empty file that it loaded, and 0 only for an empty one.
\<close>
theorem fs_load_correct:
  assumes "fs_mounted s" and "dir_ok s" and "is_cstr fname k"
    and "find (\<lambda>i. entry_name s i = bytes fname k) [0..<63] = Some i"
    and "n = dentry_inode (entry_copy s i d0)" and "inode_ok s n"
    and "disjoint_runs address (file_size s n) (bb_start s) (fs_len s)"
  shows "fs_load d0 (Some fname) address s =
     Ok (if 0 < file_size s n then -1 else 0,
         s\<lparr>mem := blit (mem s) address (file_size s n) (\<lambda>j. file_byte s n (unat j))\<rparr>)"
  using assms by (rule fs_load_eq)

theorem fs_load_correct_witness:
  "fs_load \<lparr>filename = (\<lambda>_. 0), filetype = 7, dentry_inode = 7\<rparr> (Some (\<lambda>j. small_image (0x410040 + j))) 0x8048000 small_fs =
     Ok (if 0 < file_size small_fs 0 then -1 else 0,
         small_fs\<lparr>mem := blit (mem small_fs) 0x8048000 (file_size small_fs 0) (\<lambda>j. file_byte small_fs 0 (unat j))\<rparr>)"
  by (rule fs_load_correct [where i = 0 and k = 5])
    (use small_fs_mounted small_mounted_facts [OF small_fs_mounted] small_names in
      \<open>simp_all add: disjoint_runs_def small_mounted_def entry_copy_def upt_rec\<close>)

end
