(* ===== verification/Pic.thy ===== *)
theory Pic
  imports Files
begin

text \<open>
  The 8259 interrupt controllers of \<open>student-distrib/i8259.c\<close>: two cached mask bytes (a set bit
  disables the line) and the command words sent to the ports of the master and the slave.
\<close>

record pic_state = files_state +
  master_mask :: u8
  slave_mask :: u8

definition MASTER_8259_PORT :: u16 where "MASTER_8259_PORT = 0x20"
definition SLAVE_8259_PORT :: u16 where "SLAVE_8259_PORT = 0xA0"
definition ICW1 :: u8 where "ICW1 = 0x11"
definition ICW2_MASTER :: u8 where "ICW2_MASTER = 0x20"
definition ICW2_SLAVE :: u8 where "ICW2_SLAVE = 0x28"
definition ICW3_MASTER :: u8 where "ICW3_MASTER = 0x04"
definition ICW3_SLAVE :: u8 where "ICW3_SLAVE = 0x02"
definition ICW4_MASTER :: u8 where "ICW4_MASTER = 0x05"
definition ICW4_SLAVE :: u8 where "ICW4_SLAVE = 0x01"
definition EOI :: u32 where "EOI = 0x60"
definition SLAVE_IRQ :: u32 where "SLAVE_IRQ = 2"

lemmas pic_defs = MASTER_8259_PORT_def SLAVE_8259_PORT_def ICW1_def ICW2_MASTER_def ICW2_SLAVE_def
  ICW3_MASTER_def ICW3_SLAVE_def ICW4_MASTER_def ICW4_SLAVE_def EOI_def SLAVE_IRQ_def

section \<open>Operations\<close>

text \<open>The mask loops: \<open>irq_num\<close> rounds of \<open>mask = (mask << 1) + 1\<close>, respectively \<open>mask << 1\<close>.\<close>

definition enable_mask :: "u32 \<Rightarrow> u8" where
  "enable_mask irq_num = ((\<lambda>mask. push_bit 1 mask + 1) ^^ unat irq_num) 0xFE"

definition disable_mask :: "u32 \<Rightarrow> u8" where
  "disable_mask irq_num = (push_bit 1 ^^ unat irq_num) 0x01"

definition enable_irq :: "u32 \<Rightarrow> 'a pic_state_scheme \<Rightarrow> 'a pic_state_scheme" where
  "enable_irq irq_num s =
     (if irq_num > 15 then s
      else if irq_num \<le> 7 then
        (let s = s\<lparr>master_mask := master_mask s AND enable_mask irq_num\<rparr>
         in outb (master_mask s) (MASTER_8259_PORT + 1) s)
      else if 8 \<le> irq_num \<and> irq_num \<le> 15 then
        (let s = s\<lparr>slave_mask := slave_mask s AND enable_mask (irq_num - 8)\<rparr>
         in outb (slave_mask s) (SLAVE_8259_PORT + 1) s)
      else s)"

definition disable_irq :: "u32 \<Rightarrow> 'a pic_state_scheme \<Rightarrow> 'a pic_state_scheme" where
  "disable_irq irq_num s =
     (if irq_num > 15 then s
      else if irq_num \<le> 7 then
        (let s = s\<lparr>master_mask := master_mask s OR disable_mask irq_num\<rparr>
         in outb (master_mask s) (MASTER_8259_PORT + 1) s)
      else if 8 \<le> irq_num \<and> irq_num \<le> 15 then
        (let s = s\<lparr>slave_mask := slave_mask s OR disable_mask (irq_num - 8)\<rparr>
         in outb (slave_mask s) (SLAVE_8259_PORT + 1) s)
      else s)"

definition send_eoi :: "u32 \<Rightarrow> 'a machine_scheme \<Rightarrow> 'a machine_scheme" where
  "send_eoi irq_num s =
     (let s = (if irq_num \<le> 7 then outb (ucast (EOI OR irq_num)) MASTER_8259_PORT s else s)
      in if 8 \<le> irq_num \<and> irq_num \<le> 15
         then outb (ucast (EOI + 2)) MASTER_8259_PORT (outb (ucast (EOI OR (irq_num - 8))) SLAVE_8259_PORT s)
         else s)"

definition i8259_init :: "'a pic_state_scheme \<Rightarrow> 'a pic_state_scheme" where
  "i8259_init s =
     (let s = outb ICW1 MASTER_8259_PORT s;
          s = outb ICW1 SLAVE_8259_PORT s;
          s = outb ICW2_MASTER (MASTER_8259_PORT + 1) s;
          s = outb ICW2_SLAVE (SLAVE_8259_PORT + 1) s;
          s = outb ICW3_MASTER (MASTER_8259_PORT + 1) s;
          s = outb ICW3_SLAVE (SLAVE_8259_PORT + 1) s;
          s = outb ICW4_MASTER (MASTER_8259_PORT + 1) s;
          s = outb ICW4_SLAVE (SLAVE_8259_PORT + 1) s
      in enable_irq SLAVE_IRQ s)"

section \<open>The interface: a set of enabled lines\<close>

text \<open>
  What the drivers rely on: enabling or disabling a line changes that line only. A driver set-up
  that enables a list of lines leaves exactly those enabled besides the ones enabled before.
\<close>

locale irq_controller =
  fixes enabled :: "'s \<Rightarrow> nat set" and enable :: "u32 \<Rightarrow> 's \<Rightarrow> 's" and disable :: "u32 \<Rightarrow> 's \<Rightarrow> 's"
  assumes enabled_enable: "k \<le> 15 \<Longrightarrow> enabled (enable k s) = insert (unat k) (enabled s)"
    and enabled_disable: "k \<le> 15 \<Longrightarrow> enabled (disable k s) = enabled s - {unat k}"
    and invalid_enable: "15 < k \<Longrightarrow> enable k s = s" and invalid_disable: "15 < k \<Longrightarrow> disable k s = s"
begin

lemma enable_list:
  "\<forall>k\<in>set ks. k \<le> 15 \<Longrightarrow> enabled (fold enable ks s) = enabled s \<union> unat ` set ks"
  by (induction ks arbitrary: s) (auto simp: enabled_enable)

lemma enable_then_disable:
  "unat k \<notin> enabled s \<Longrightarrow> enabled (disable k (enable k s)) = enabled s"
  by (cases "k \<le> 15") (auto simp: enabled_enable enabled_disable invalid_enable invalid_disable)

end

text \<open>The lines that the cached masks leave enabled.\<close>

definition irq_enabled :: "'a pic_state_scheme \<Rightarrow> nat set" where
  "irq_enabled s = {n. n < 8 \<and> \<not> bit (master_mask s) n} \<union> {n. 8 \<le> n \<and> n < 16 \<and> \<not> bit (slave_mask s) (n - 8)}"

lemma bit_shift_one: "bit (push_bit 1 (m :: u8)) n \<longleftrightarrow> 0 < n \<and> n < 8 \<and> bit m (n - 1)"
  by (auto simp: bit_push_bit_iff Suc_le_eq simp del: push_bit_of_1 push_bit_Suc)

lemma bit_shift_in_one: "bit (push_bit 1 m + 1 :: u8) n \<longleftrightarrow> n = 0 \<or> 0 < n \<and> n < 8 \<and> bit m (n - 1)"
proof -
  have "push_bit 1 m + 1 = push_bit 1 m OR (1 :: u8)"
    by (rule disjunctive_add_eq_or) (rule bit_word_eqI, simp only: bit_and_iff bit_shift_one bit_1_iff, auto)
  then show ?thesis by (simp only: bit_or_iff bit_shift_one bit_1_iff) auto
qed

lemma enable_rounds_bit:
  "j < 8 \<Longrightarrow> bit (((\<lambda>mask. push_bit 1 mask + 1) ^^ j) (0xFE :: u8)) n \<longleftrightarrow> n < 8 \<and> n \<noteq> j"
proof (induction j arbitrary: n)
  case 0
  have "(0xFE :: u8) = NOT 1" by simp
  then show ?case by (simp only: funpow_0 bit_not_iff bit_1_iff) (auto simp: bit_simps)
next
  case (Suc j)
  note IH = Suc.IH [OF Suc_lessD [OF Suc.prems], of "n - 1"]
  show ?case by (simp only: funpow.simps o_apply bit_shift_in_one IH) (use Suc.prems in auto)
qed

lemma disable_rounds_bit: "j < 8 \<Longrightarrow> bit ((push_bit 1 ^^ j) (1 :: u8)) n \<longleftrightarrow> n = j"
proof (induction j arbitrary: n)
  case 0
  then show ?case by (simp add: bit_1_iff)
next
  case (Suc j)
  note IH = Suc.IH [OF Suc_lessD [OF Suc.prems], of "n - 1"]
  show ?case by (simp only: funpow.simps o_apply bit_shift_one IH) (use Suc.prems in auto)
qed

lemma enable_mask_bit: "k \<le> 7 \<Longrightarrow> bit (enable_mask k) n \<longleftrightarrow> n < 8 \<and> n \<noteq> unat k"
  unfolding enable_mask_def by (rule enable_rounds_bit) (simp add: word_le_nat_alt)

lemma disable_mask_bit: "k \<le> 7 \<Longrightarrow> bit (disable_mask k) n \<longleftrightarrow> n = unat k"
  unfolding disable_mask_def by (rule disable_rounds_bit) (simp add: word_le_nat_alt)

lemma slave_irq: "8 \<le> (k :: u32) \<Longrightarrow> k \<le> 15 \<Longrightarrow> k - 8 \<le> 7 \<and> unat (k - 8) = unat k - 8"
  by (simp add: word_le_nat_alt unat_sub_if_size)

lemma irq_enabled_enable:
  assumes "k \<le> 15"
  shows "irq_enabled (enable_irq k s) = insert (unat k) (irq_enabled s)"
proof (cases "k \<le> 7")
  case True
  moreover have "\<not> 15 < k" using assms by (simp add: not_less)
  ultimately show ?thesis
    by (auto simp: irq_enabled_def enable_irq_def Let_def outb_def bit_and_iff enable_mask_bit word_le_nat_alt)
next
  case False
  then have k: "8 \<le> k" "8 \<le> unat k" "unat k \<le> 15" using assms by (auto simp: word_le_nat_alt)
  then show ?thesis
    using assms slave_irq [OF k(1) assms] False
    by (auto simp: irq_enabled_def enable_irq_def Let_def outb_def bit_and_iff enable_mask_bit not_less)
qed

lemma irq_enabled_disable:
  assumes "k \<le> 15"
  shows "irq_enabled (disable_irq k s) = irq_enabled s - {unat k}"
proof (cases "k \<le> 7")
  case True
  moreover have "\<not> 15 < k" using assms by (simp add: not_less)
  ultimately show ?thesis
    by (auto simp: irq_enabled_def disable_irq_def Let_def outb_def bit_or_iff disable_mask_bit word_le_nat_alt)
next
  case False
  then have k: "8 \<le> k" "8 \<le> unat k" "unat k \<le> 15" using assms by (auto simp: word_le_nat_alt)
  then show ?thesis
    using assms slave_irq [OF k(1) assms] False
    by (auto simp: irq_enabled_def disable_irq_def Let_def outb_def bit_or_iff disable_mask_bit not_less)
qed

interpretation pic: irq_controller irq_enabled enable_irq disable_irq
  by unfold_locales (simp_all add: irq_enabled_enable irq_enabled_disable, simp_all add: enable_irq_def disable_irq_def)

section \<open>Properties of the interrupt controllers\<close>

definition blank_pic :: pic_state where
  "blank_pic = files_state.extend small_fs (pic_state.fields 0xFF 0xFF)"

lemma outb_pic_frame [simp]:
  "master_mask (outb d p s) = master_mask s" "slave_mask (outb d p s) = slave_mask s"
  by (simp_all add: outb_def)

text \<open>
  For a valid line, \<open>enable_irq\<close> and \<open>disable_irq\<close> change the set of enabled lines by exactly that
  line and send the new mask, once, to the data port of the controller the line belongs to; for an
  invalid line number both do nothing.
\<close>
theorem irq_line_switching:
  assumes "port = (if k \<le> 7 then 0x21 else 0xA1)"
  shows "(k \<le> 15 \<longrightarrow>
      irq_enabled (enable_irq k s) = insert (unat k) (irq_enabled s) \<and>
      irq_enabled (disable_irq k s) = irq_enabled s - {unat k} \<and>
      io (enable_irq k s) = io s @ [Out port (if k \<le> 7 then master_mask (enable_irq k s) else slave_mask (enable_irq k s))] \<and>
      io (disable_irq k s) = io s @ [Out port (if k \<le> 7 then master_mask (disable_irq k s) else slave_mask (disable_irq k s))]) \<and>
    (15 < k \<longrightarrow> enable_irq k s = s \<and> disable_irq k s = s)"
proof (cases "k \<le> 15")
  case True
  have "io (enable_irq k s) = io s @ [Out port (if k \<le> 7 then master_mask (enable_irq k s) else slave_mask (enable_irq k s))]"
    "io (disable_irq k s) = io s @ [Out port (if k \<le> 7 then master_mask (disable_irq k s) else slave_mask (disable_irq k s))]"
    using True assms by (auto simp: enable_irq_def disable_irq_def Let_def MASTER_8259_PORT_def SLAVE_8259_PORT_def
        word_le_nat_alt word_less_nat_alt)
  then show ?thesis using True by (simp add: pic.enabled_enable pic.enabled_disable)
next
  case False
  then show ?thesis by (simp add: pic.invalid_enable pic.invalid_disable)
qed

theorem irq_line_switching_witness:
  "irq_enabled (enable_irq 9 blank_pic) = insert (unat (9 :: u32)) (irq_enabled blank_pic) \<and>
    irq_enabled (disable_irq 9 blank_pic) = irq_enabled blank_pic - {unat (9 :: u32)} \<and>
    io (enable_irq 9 blank_pic) = io blank_pic @ [Out 0xA1 (slave_mask (enable_irq 9 blank_pic))] \<and>
    io (disable_irq 9 blank_pic) = io blank_pic @ [Out 0xA1 (slave_mask (disable_irq 9 blank_pic))] \<and>
    enable_irq 16 blank_pic = blank_pic \<and> disable_irq 16 blank_pic = blank_pic"
  using irq_line_switching [where k = 9 and s = blank_pic, OF refl] irq_line_switching [where k = 16 and s = blank_pic, OF refl] by simp

text \<open>
  \<open>i8259_init\<close> sends the four initialisation words to both controllers in order and then opens
  the cascade line 2, and a driver set-up that enables a list of lines leaves exactly these enabled
  in addition. The slave's mask is not sent: its data port last received the word ICW4.
\<close>
theorem pic_set_up:
  assumes "\<forall>k\<in>set ks. k \<le> 15"
  shows "irq_enabled (fold enable_irq ks (i8259_init s)) = insert 2 (irq_enabled s) \<union> unat ` set ks \<and>
    io (i8259_init s) = io s @ [Out 0x20 0x11, Out 0xA0 0x11, Out 0x21 0x20, Out 0xA1 0x28, Out 0x21 0x04,
      Out 0xA1 0x02, Out 0x21 0x05, Out 0xA1 0x01, Out 0x21 (master_mask (i8259_init s))]"
proof -
  have "irq_enabled (i8259_init s) = insert 2 (irq_enabled s)"
    by (simp add: i8259_init_def Let_def SLAVE_IRQ_def pic.enabled_enable irq_enabled_def [of "outb _ _ _"] irq_enabled_def [of s])
  moreover have "io (i8259_init s) = io s @ [Out 0x20 0x11, Out 0xA0 0x11, Out 0x21 0x20, Out 0xA1 0x28,
      Out 0x21 0x04, Out 0xA1 0x02, Out 0x21 0x05, Out 0xA1 0x01, Out 0x21 (master_mask (i8259_init s))]"
    by (simp add: i8259_init_def enable_irq_def Let_def pic_defs)
  ultimately show ?thesis by (simp add: pic.enable_list [OF assms])
qed

theorem pic_set_up_witness:
  "irq_enabled (fold enable_irq [1, 8, 0] (i8259_init blank_pic)) = insert 2 (irq_enabled blank_pic) \<union> unat ` set [1, 8, 0 :: u32] \<and>
    io (i8259_init blank_pic) = io blank_pic @ [Out 0x20 0x11, Out 0xA0 0x11, Out 0x21 0x20, Out 0xA1 0x28, Out 0x21 0x04,
      Out 0xA1 0x02, Out 0x21 0x05, Out 0xA1 0x01, Out 0x21 (master_mask (i8259_init blank_pic))]"
  by (rule pic_set_up) simp

end
