(* ===== verification/Rtc.thy ===== *)
theory Rtc
  imports Pic
begin

text \<open>
  The real-time clock driver of \<open>student-distrib/rtc.c\<close>: the interrupt flag on which \<open>rtc_read\<close>
  waits, the rate programming of \<open>rtc_write\<close>, and the interrupt handler, which also repaints the
  screen from the buffer of the active terminal.
\<close>

record rtc_state = pic_state +
  interrupt_occurred :: u32

definition RTC_PORT :: u16 where "RTC_PORT = 0x70"
definition CMOS_PORT :: u16 where "CMOS_PORT = 0x71"
definition INDEX_REGISTER_A :: u8 where "INDEX_REGISTER_A = 0x8A"
definition INDEX_REGISTER_B :: u8 where "INDEX_REGISTER_B = 0x8B"
definition INDEX_REGISTER_C :: u8 where "INDEX_REGISTER_C = 0x8C"
definition KILL_DV_RS :: u8 where "KILL_DV_RS = 0x80"
definition KILL_RS :: u8 where "KILL_RS = 0xF0"
definition DV_RS :: u8 where "DV_RS = 0x2F"
definition KILL_SET_PIE_AIE_UIE :: u8 where "KILL_SET_PIE_AIE_UIE = 0x0F"
definition SET_PIE_AIE_UIE :: u8 where "SET_PIE_AIE_UIE = 0x40"
definition RTC_IRQ :: u32 where "RTC_IRQ = 8"

lemmas rtc_defs = RTC_PORT_def CMOS_PORT_def INDEX_REGISTER_A_def INDEX_REGISTER_B_def
  INDEX_REGISTER_C_def KILL_DV_RS_def KILL_RS_def DV_RS_def KILL_SET_PIE_AIE_UIE_def
  SET_PIE_AIE_UIE_def RTC_IRQ_def

section \<open>Operations\<close>

text \<open>The \<open>switch\<close> of \<open>rtc_write\<close>; \<^const>\<open>None\<close> is \<open>return -1\<close>.\<close>

definition rs_of_freq :: "i32 \<Rightarrow> u8 option" where
  "rs_of_freq freq =
     (if freq = 8192 \<or> freq = 4096 \<or> freq = 2048 then None
      else if freq = 1024 then Some 0x06
      else if freq = 512 then Some 0x07
      else if freq = 256 then Some 0x08
      else if freq = 128 then Some 0x09
      else if freq = 64 then Some 0x0A
      else if freq = 32 then Some 0x0B
      else if freq = 16 then Some 0x0C
      else if freq = 8 then Some 0x0D
      else if freq = 4 then Some 0x0E
      else if freq = 2 then Some 0x0F
      else if freq = 0 then Some 0x00
      else None)"

text \<open>\<open>rtc_write\<close> on the integer that \<open>buf\<close> points to; \<^const>\<open>None\<close> is the null pointer.\<close>

definition rtc_write_value ::
  "device \<Rightarrow> i32 option \<Rightarrow> i32 \<Rightarrow> 'a machine_scheme \<Rightarrow> i32 \<times> 'a machine_scheme" where
  "rtc_write_value dev buf nbytes s =
     (if nbytes \<noteq> 4 then (-1, s)
      else case buf of
        None \<Rightarrow> (-1, s)
      | Some freq \<Rightarrow>
          (let s = outb INDEX_REGISTER_A RTC_PORT s;
               (a_old, s) = inb dev CMOS_PORT s
           in case rs_of_freq freq of
                None \<Rightarrow> (-1, s)
              | Some rs \<Rightarrow>
                  (let s = outb INDEX_REGISTER_A RTC_PORT s;
                       s = outb ((KILL_RS AND a_old) OR rs) CMOS_PORT s
                   in (0, s))))"

definition rtc_write ::
  "device \<Rightarrow> u32 \<Rightarrow> i32 \<Rightarrow> 'a machine_scheme \<Rightarrow> i32 \<times> 'a machine_scheme" where
  "rtc_write dev buf nbytes s =
     rtc_write_value dev (if buf = NULL_PTR then None else Some (load32 (mem s) buf)) nbytes s"

definition rtc_init :: "device \<Rightarrow> 'a rtc_state_scheme \<Rightarrow> 'a rtc_state_scheme" where
  "rtc_init dev s =
     (let s = outb INDEX_REGISTER_A RTC_PORT s;
          (a_old, s) = inb dev CMOS_PORT s;
          s = outb INDEX_REGISTER_B RTC_PORT s;
          (b_old, s) = inb dev CMOS_PORT s;
          s = outb INDEX_REGISTER_A RTC_PORT s;
          s = outb ((KILL_DV_RS AND a_old) OR DV_RS) CMOS_PORT s;
          s = outb INDEX_REGISTER_B RTC_PORT s;
          s = outb ((KILL_SET_PIE_AIE_UIE AND b_old) OR SET_PIE_AIE_UIE) CMOS_PORT s;
          (_, s) = rtc_write_value dev (Some 32) 4 s
      in enable_irq RTC_IRQ s)"

definition update_vid :: "'a lib_state_scheme \<Rightarrow> 'a lib_state_scheme" where
  "update_vid s =
     (let active_terminal = get_active_term s
      in if active_terminal = 0 then s\<lparr>mem := memcpy (mem s) VIDEO VIDEO_BUF1 SZ_4KB\<rparr>
         else if active_terminal = 1 then s\<lparr>mem := memcpy (mem s) VIDEO VIDEO_BUF2 SZ_4KB\<rparr>
         else if active_terminal = 2 then s\<lparr>mem := memcpy (mem s) VIDEO VIDEO_BUF3 SZ_4KB\<rparr>
         else s)"

definition clock_interruption :: "device \<Rightarrow> 'a rtc_state_scheme \<Rightarrow> 'a rtc_state_scheme" where
  "clock_interruption dev s =
     (let s = cli s;
          s = outb INDEX_REGISTER_C RTC_PORT s;
          (_, s) = inb dev CMOS_PORT s;
          s = send_eoi RTC_IRQ s;
          s = s\<lparr>interrupt_occurred := 1\<rparr>;
          s = update_vid s
      in sti s)"

text \<open>\<open>irqs\<close> are the interrupt handlers that run while \<open>rtc_read\<close> spins.\<close>

definition rtc_read ::
  "('a rtc_state_scheme \<Rightarrow> 'a rtc_state_scheme) list \<Rightarrow> 'a rtc_state_scheme \<Rightarrow>
   (i32 \<times> 'a rtc_state_scheme) option" where
  "rtc_read irqs s =
     (case spin_while (\<lambda>s. interrupt_occurred s = 0) irqs s of
        None \<Rightarrow> None
      | Some s \<Rightarrow> Some (0, s\<lparr>interrupt_occurred := 0\<rparr>))"

definition rtc_open :: i32 where "rtc_open = 0"
definition rtc_close :: i32 where "rtc_close = 0"

section \<open>Rates\<close>

text \<open>The rate select of the clock chip: divider \<open>rs\<close> gives \<open>32768 / 2 ^ (rs - 1)\<close> interrupts a second.\<close>

definition rs_rate :: "u8 \<Rightarrow> nat" where
  "rs_rate rs = (if rs = 0 then 0 else 32768 div 2 ^ (unat rs - 1))"

definition legal_rates :: "nat list" where
  "legal_rates = [0, 2, 4, 8, 16, 32, 64, 128, 256, 512, 1024]"

lemma rs_of_freq_rate: "rs_of_freq freq = Some rs \<Longrightarrow> rs_rate rs = unat freq \<and> rs < 16"
  by (auto simp: rs_of_freq_def rs_rate_def split: if_splits)

lemma unat_in_rates: "unat (f :: u32) \<in> set legal_rates \<longleftrightarrow> f \<in> set (map of_nat legal_rates)"
proof -
  have "\<forall>k\<in>set legal_rates. k < 2 ^ 32" by (simp add: legal_rates_def)
  then show ?thesis by (auto simp: image_iff unat_of_nat_u32) (metis u32_of_unat)
qed

lemma rs_of_freq_defined: "(\<exists>rs. rs_of_freq freq = Some rs) \<longleftrightarrow> unat freq \<in> set legal_rates"
  by (simp add: unat_in_rates) (auto simp: rs_of_freq_def legal_rates_def)

lemma rtc_write_value_ret:
  "fst (rtc_write_value dev buf nbytes s) =
     (if nbytes = 4 \<and> (\<exists>f. buf = Some f \<and> unat f \<in> set legal_rates) then 0 else -1)"
  by (auto simp: rtc_write_value_def Let_def case_prod_beta rs_of_freq_defined [symmetric] split: option.split)

lemma rtc_write_value_effect:
  assumes "rtc_write_value dev (Some f) 4 s = (0, t)"
  shows "\<exists>rs a_old. rs_rate rs = unat f \<and> rs < 16 \<and> a_old = dev (io s @ [Out 0x70 0x8A]) 0x71 \<and>
     t = s\<lparr>io := io s @ [Out 0x70 0x8A, In 0x71 a_old, Out 0x70 0x8A, Out 0x71 ((0xF0 AND a_old) OR rs)]\<rparr>"
  using assms rs_of_freq_rate [of f]
  by (auto simp: rtc_write_value_def Let_def case_prod_beta inb_def outb_def rtc_defs split: option.splits)

lemma rtc_write_value_fail:
  assumes "rtc_write_value dev buf n s = (-1, t)"
  shows "written_to 0x71 (io t) = written_to 0x71 (io s)" and "mem t = mem s"
  using assms
  by (auto simp: rtc_write_value_def Let_def case_prod_beta inb_def outb_def rtc_defs split: option.splits if_splits)

section \<open>The interrupt handler and the waiting reader\<close>

lemma update_vid_shows:
  assumes "active_term s < 3"
  shows "update_vid s = s\<lparr>mem := memcpy (mem s) VIDEO (video_buff (active_term s)) SZ_4KB\<rparr>"
  using assms by (auto simp: u32_less_3 update_vid_def get_active_term_def video_buff_def)

lemma clock_interruption_effect:
  assumes "active_term s < 3"
  shows "interrupt_occurred (clock_interruption dev s) = 1"
    and "grid (mem (clock_interruption dev s)) VIDEO = grid (mem s) (video_buff (active_term s))"
    and "interrupts_on (clock_interruption dev s)"
    and "\<exists>v. io (clock_interruption dev s) =
      io s @ [Out 0x70 0x8C, In 0x71 v, Out 0xA0 0x60, Out 0x20 0x62]"
  using assms
  by (simp_all add: clock_interruption_def Let_def case_prod_beta inb_def outb_def cli_def sti_def
      send_eoi_def rtc_defs pic_defs update_vid_shows grid_shown)

text \<open>A reader that waits returns once the clock interrupt has run, whatever other handlers ran first.\<close>

lemma rtc_read_returns:
  assumes "\<forall>s. active_term s < 3 \<longrightarrow> (\<forall>h\<in>set hs. active_term (h s) < 3)" and "active_term s < 3"
  shows "\<exists>t. rtc_read (hs @ clock_interruption dev # hs') s = Some (0, t) \<and> interrupt_occurred t = 0"
proof -
  have "active_term (run_all hs s) < 3"
    using assms by (induction hs arbitrary: s) auto
  then have "interrupt_occurred (run_all (hs @ [clock_interruption dev]) s) = 1"
    by (simp add: clock_interruption_effect)
  then have "\<exists>t. spin_while (\<lambda>s. interrupt_occurred s = 0) (hs @ clock_interruption dev # hs') s = Some t"
    by (intro spin_while_ends exI [of _ "Suc (length hs)"]) simp
  then show ?thesis by (auto simp: rtc_read_def)
qed

section \<open>Properties of the clock driver\<close>

definition blank_rtc :: rtc_state where
  "blank_rtc = pic_state.extend blank_pic (rtc_state.fields 0)"

lemma blank_rtc_simps [simp]: "active_term blank_rtc = 0" "interrupt_occurred blank_rtc = 0"
  by (simp_all add: blank_rtc_def blank_pic_def pic_state.defs files_state.defs rtc_state.defs small_fs_def fs_init_def Let_def)

text \<open>
  \<open>rtc_write\<close> accepts exactly a four-byte buffer with a rate of 0 or a power of two from 2 to
  1024. On success it programs register A, keeping the upper four bits, with a divider whose rate is
  the requested one; on failure it writes nothing to the data port.
\<close>
theorem rtc_write_programs_rate:
  assumes "rtc_write_value dev buf nbytes s = (r, t)"
  shows "(r = 0 \<longleftrightarrow> nbytes = 4 \<and> (\<exists>f. buf = Some f \<and> unat f \<in> set legal_rates)) \<and> (r \<noteq> 0 \<longrightarrow> r = -1) \<and>
    (r = 0 \<longrightarrow> (\<exists>f rs a_old. buf = Some f \<and> rs_rate rs = unat f \<and> rs < 16 \<and>
       written_to 0x71 (io t) = written_to 0x71 (io s) @ [(0xF0 AND a_old) OR rs])) \<and>
    (r = -1 \<longrightarrow> written_to 0x71 (io t) = written_to 0x71 (io s))"
proof (cases "r = 0")
  case True
  then obtain f where f: "buf = Some f" "nbytes = 4" "unat f \<in> set legal_rates"
    using rtc_write_value_ret [of dev buf nbytes s] assms by (auto split: if_splits)
  then show ?thesis
    using rtc_write_value_effect [of dev f s t] assms True by fastforce
next
  case False
  then have "r = -1" using rtc_write_value_ret [of dev buf nbytes s] assms by (auto split: if_splits)
  then show ?thesis
    using rtc_write_value_ret [of dev buf nbytes s] rtc_write_value_fail(1) [of dev buf nbytes s t] assms
    by (auto split: if_splits)
qed

theorem rtc_write_programs_rate_witness:
  "\<exists>rs a_old. rs_rate rs = 1024 \<and> rs < 16 \<and>
     written_to 0x71 (io (snd (rtc_write_value (\<lambda>_ _. 0x26) (Some 1024) 4 blank_rtc))) =
       written_to 0x71 (io blank_rtc) @ [(0xF0 AND a_old) OR rs]"
proof -
  have "rtc_write_value (\<lambda>_ _. 0x26) (Some 1024) 4 blank_rtc =
      (0, snd (rtc_write_value (\<lambda>_ _. 0x26) (Some 1024) 4 blank_rtc))"
    using rtc_write_value_ret [of "\<lambda>_ _. 0x26" "Some 1024" 4 blank_rtc]
    by (simp add: prod_eq_iff legal_rates_def)
  from rtc_write_programs_rate [OF this] show ?thesis by simp
qed

text \<open>
  One clock interrupt acknowledges the chip and both controllers, sets the flag that \<open>rtc_read\<close>
  waits for, and repaints the screen with the active terminal's buffer.
\<close>
theorem clock_interruption_correct:
  assumes "active_term s < 3"
  shows "interrupt_occurred (clock_interruption dev s) = 1 \<and> interrupts_on (clock_interruption dev s) \<and>
    grid (mem (clock_interruption dev s)) VIDEO = grid (mem s) (video_buff (active_term s)) \<and>
    (\<exists>v. io (clock_interruption dev s) = io s @ [Out 0x70 0x8C, In 0x71 v, Out 0xA0 0x60, Out 0x20 0x62])"
  using clock_interruption_effect [OF assms] by blast

theorem clock_interruption_correct_witness:
  "interrupt_occurred (clock_interruption (\<lambda>_ _. 0) blank_rtc) = 1 \<and> interrupts_on (clock_interruption (\<lambda>_ _. 0) blank_rtc) \<and>
    grid (mem (clock_interruption (\<lambda>_ _. 0) blank_rtc)) VIDEO = grid (mem blank_rtc) (video_buff (active_term blank_rtc)) \<and>
    (\<exists>v. io (clock_interruption (\<lambda>_ _. 0) blank_rtc) = io blank_rtc @ [Out 0x70 0x8C, In 0x71 v, Out 0xA0 0x60, Out 0x20 0x62])"
  by (rule clock_interruption_correct) simp

text \<open>
  C36. \<open>rtc_read\<close> returns 0 and consumes the flag as soon as the clock interrupt has run, whatever other
  handlers run before it; and as long as no handler sets the flag it does not return.
\<close>
theorem rtc_read_waits_for_tick:
  assumes "\<forall>s. active_term s < 3 \<longrightarrow> (\<forall>h\<in>set hs. active_term (h s) < 3)" and "active_term s < 3"
  shows "(\<exists>t. rtc_read (hs @ clock_interruption dev # hs') s = Some (0, t) \<and> interrupt_occurred t = 0) \<and>
    ((\<forall>n \<le> length hs. interrupt_occurred (run_all (take n hs) s) = 0) \<longrightarrow> rtc_read hs s = None)"
proof -
  have "rtc_read hs s = None" if "\<forall>n \<le> length hs. interrupt_occurred (run_all (take n hs) s) = 0"
  proof (cases "spin_while (\<lambda>s. interrupt_occurred s = 0) hs s")
    case (Some t)
    then show ?thesis using spin_while_Some [OF Some] that by auto
  qed (simp add: rtc_read_def)
  then show ?thesis using rtc_read_returns [OF assms] by blast
qed

theorem rtc_read_waits_for_tick_witness:
  "\<exists>t. rtc_read ([\<lambda>s. s, cli] @ clock_interruption (\<lambda>_ _. 0) # []) blank_rtc = Some (0, t) \<and> interrupt_occurred t = 0"
  using rtc_read_waits_for_tick [of "[\<lambda>s. s, cli]" blank_rtc "\<lambda>_ _. 0" "[]"] by (simp add: cli_def)

end
