(* ===== verification/Keyboard.thy ===== *)
theory Keyboard
  imports Rtc
begin

text \<open>
  The keyboard and terminal driver of \<open>student-distrib/keyboard.c\<close>: a command line per terminal,
  edited by the keyboard interrupt and handed over to \<open>terminal_read\<close> on ENTER. Arrays indexed by
  terminal are functions of the terminal number; a row of \<open>command_buffer\<close> is indexed by the C
  \<open>int\<close> that the code uses.
\<close>

record kbd_state = rtc_state +
  active_terminal :: u32
  command_buffer :: "u32 \<Rightarrow> int \<Rightarrow> u8"
  command_length :: "u32 \<Rightarrow> u32"
  cursor_x :: "u32 \<Rightarrow> u32"
  keyboardflag :: "u32 \<Rightarrow> u8"
  allow_terminal_read :: "u32 \<Rightarrow> u32"

definition TERMINAL_BUFFER_MAX_SIZE :: u32 where "TERMINAL_BUFFER_MAX_SIZE = 1024"
definition FLAG_SHIFT :: u8 where "FLAG_SHIFT = 0x01"
definition FLAG_CAPS :: u8 where "FLAG_CAPS = 0x02"
definition FLAG_SHIFT_CAPS_MASK :: u8 where "FLAG_SHIFT_CAPS_MASK = 0x03"
definition FLAG_CTRL :: u8 where "FLAG_CTRL = 0x04"
definition FLAG_ALT :: u8 where "FLAG_ALT = 0x08"
definition KEYBOARD_PORT :: u16 where "KEYBOARD_PORT = 0x60"
definition KEYBOARD_STATUS_PORT :: u16 where "KEYBOARD_STATUS_PORT = 0x64"
definition BUFFER_NOT_EMPTY :: u8 where "BUFFER_NOT_EMPTY = 0x02"
definition KEYBOARD_IRQ :: u32 where "KEYBOARD_IRQ = 1"

lemmas flag_defs = FLAG_SHIFT_def FLAG_CAPS_def FLAG_SHIFT_CAPS_MASK_def FLAG_CTRL_def FLAG_ALT_def

text \<open>
  The scan code table, one row for each state of Shift and Caps Lock; the entries of a row that the
  initialiser leaves out are zero.
\<close>

definition kbd_chars :: "u8 list list" where
  "kbd_chars =
    [
     [0, 0, 49, 50, 51, 52, 53, 54, 55, 56, 57, 48, 45, 61, 0, 0, 113, 119, 101, 114, 116, 121,
      117, 105, 111, 112, 91, 93, 0, 0, 97, 115, 100, 102, 103, 104, 106, 107, 108, 59, 39, 96,
      0, 92, 122, 120, 99, 118, 98, 110, 109, 44, 46, 47, 0, 42, 0, 32, 0, 0, 0, 0, 0, 0, 0, 0,
      0, 0, 0, 0, 0, 0, 0, 0, 45, 0, 0, 0, 43],
     [0, 0, 33, 64, 35, 36, 37, 94, 38, 42, 40, 41, 95, 43, 0, 0, 81, 87, 69, 82, 84, 89, 85, 73,
      79, 80, 123, 125, 0, 0, 65, 83, 68, 70, 71, 72, 74, 75, 76, 58, 34, 126, 0, 124, 90, 88,
      67, 86, 66, 78, 77, 60, 62, 63, 0, 42, 0, 32, 0, 0, 0, 0, 0, 0, 0, 0, 0, 0, 0, 0, 0, 0, 0,
      0, 45, 0, 0, 0, 43],
     [0, 0, 49, 50, 51, 52, 53, 54, 55, 56, 57, 48, 45, 61, 0, 0, 81, 87, 69, 82, 84, 89, 85, 73,
      79, 80, 91, 93, 0, 0, 65, 83, 68, 70, 71, 72, 74, 75, 76, 59, 39, 96, 0, 92, 90, 88, 67,
      86, 66, 78, 77, 44, 46, 47, 0, 42, 0, 32, 0, 0, 0, 0, 0, 0, 0, 0, 0, 0, 0, 0, 0, 0, 0, 0,
      45, 0, 0, 0, 43],
     [0, 0, 33, 64, 35, 36, 37, 94, 38, 42, 40, 41, 95, 43, 0, 0, 113, 119, 101, 114, 116, 121,
      117, 105, 111, 112, 123, 125, 0, 0, 97, 115, 100, 102, 103, 104, 106, 107, 108, 58, 34,
      126, 0, 124, 122, 120, 99, 118, 98, 110, 109, 60, 62, 63, 0, 42, 0, 32, 0, 0, 0, 0, 0, 0,
      0, 0, 0, 0, 0, 0, 0, 0, 0, 0, 45, 0, 0, 0, 43]]"

definition kbd_char :: "u8 \<Rightarrow> u8 \<Rightarrow> u8" where
  "kbd_char row scancode =
     (let r = kbd_chars ! unat row in if unat scancode < length r then r ! unat scancode else 0)"

section \<open>Editing the command line\<close>

text \<open>\<open>while (index <= end_of_line) buffer[end_of_line + 1] = buffer[end_of_line--]\<close>\<close>

function shift_right :: "(int \<Rightarrow> u8) \<Rightarrow> int \<Rightarrow> int \<Rightarrow> (int \<Rightarrow> u8)" where
  "shift_right b index end_of_line =
     (if index \<le> end_of_line
      then shift_right (b(end_of_line + 1 := b end_of_line)) index (end_of_line - 1) else b)"
  by pat_completeness auto
termination by (relation "measure (\<lambda>(b, i, e). nat (e + 1 - i))") auto

text \<open>\<open>while (cursor_index < command_length) buffer[cursor_index] = buffer[cursor_index + 1]\<close>, upwards.\<close>

function shift_left :: "(int \<Rightarrow> u8) \<Rightarrow> int \<Rightarrow> int \<Rightarrow> (int \<Rightarrow> u8)" where
  "shift_left b cursor_index len =
     (if cursor_index < len
      then shift_left (b(cursor_index := b (cursor_index + 1))) (cursor_index + 1) len else b)"
  by pat_completeness auto
termination by (relation "measure (\<lambda>(b, i, e). nat (e - i))") auto

declare shift_right.simps [simp del] shift_left.simps [simp del]

text \<open>\<open>place_character_at_index\<close> after the table lookup.\<close>

definition insert_datum :: "u8 \<Rightarrow> int \<Rightarrow> 'a kbd_state_scheme \<Rightarrow> 'a kbd_state_scheme" where
  "insert_datum datum index s =
     (let t = active_terminal s;
          b = shift_right (command_buffer s t) index (sint (command_length s t))
      in s\<lparr>command_buffer := (command_buffer s)(t := b(index := datum)),
           command_length := (command_length s)(t := command_length s t + 1),
           cursor_x := (cursor_x s)(t := cursor_x s t + 1)\<rparr>)"

definition place_character_at_index :: "u8 \<Rightarrow> int \<Rightarrow> 'a kbd_state_scheme \<Rightarrow> 'a kbd_state_scheme" where
  "place_character_at_index scancode index s =
     insert_datum (kbd_char (keyboardflag s (active_terminal s) AND FLAG_SHIFT_CAPS_MASK) scancode) index s"

definition backspace_key :: "'a kbd_state_scheme \<Rightarrow> 'a kbd_state_scheme" where
  "backspace_key s =
     (let t = active_terminal s; cursor_index = sint (cursor_x s t)
      in if cursor_index > 0
         then s\<lparr>command_buffer := (command_buffer s)
                 (t := shift_left (command_buffer s t) (cursor_index - 1) (uint (command_length s t))),
               command_length := (command_length s)(t := command_length s t - 1),
               cursor_x := (cursor_x s)(t := cursor_x s t - 1)\<rparr>
         else s)"

definition delete_key :: "'a kbd_state_scheme \<Rightarrow> 'a kbd_state_scheme" where
  "delete_key s =
     (let t = active_terminal s; cursor_index = sint (cursor_x s t)
      in if cursor_index \<ge> 0 \<and> cursor_index < uint (command_length s t)
         then s\<lparr>command_buffer := (command_buffer s)
                 (t := shift_left (command_buffer s t) cursor_index (uint (command_length s t))),
               command_length := (command_length s)(t := command_length s t - 1)\<rparr>
         else s)"

definition set_flag :: "(u8 \<Rightarrow> u8) \<Rightarrow> 'a kbd_state_scheme \<Rightarrow> 'a kbd_state_scheme" where
  "set_flag f s =
     (let t = active_terminal s in s\<lparr>keyboardflag := (keyboardflag s)(t := f (keyboardflag s t))\<rparr>)"

definition function_key :: "u8 \<Rightarrow> 'a kbd_state_scheme \<Rightarrow> 'a kbd_state_scheme" where
  "function_key scancode s =
     (if keyboardflag s (active_terminal s) AND FLAG_ALT \<noteq> 0 then
        (let new_terminal = (ucast scancode AND 0x7) - 3
         in if new_terminal \<noteq> active_terminal s
            then load_video_memory new_terminal
                   (set_active_term new_terminal (s\<lparr>active_terminal := new_terminal\<rparr>))
            else s)
      else s)"

definition extra_key :: "u8 \<Rightarrow> 'a kbd_state_scheme \<Rightarrow> 'a kbd_state_scheme" where
  "extra_key nextcode s =
     (let t = active_terminal s
      in if nextcode = 0x4B \<and> cursor_x s t > 0
         then s\<lparr>cursor_x := (cursor_x s)(t := cursor_x s t - 1)\<rparr>
         else if nextcode = 0x4D \<and> cursor_x s t < command_length s t
         then s\<lparr>cursor_x := (cursor_x s)(t := cursor_x s t + 1)\<rparr>
         else if nextcode = 0x1D then set_flag (\<lambda>f. f OR FLAG_CTRL) s
         else if nextcode = 0x9D then set_flag (\<lambda>f. f AND NOT FLAG_CTRL) s
         else s)"

definition ctrl_l :: "'a kbd_state_scheme \<Rightarrow> 'a kbd_state_scheme" where
  "ctrl_l s =
     (let t = active_terminal s;
          s = s\<lparr>command_buffer := (command_buffer s)
                 (t := \<lambda>i. if 0 \<le> i \<and> i < uint (command_length s t) then 0 else command_buffer s t i)\<rparr>;
          s = s\<lparr>command_length := (command_length s)(t := 0), cursor_x := (cursor_x s)(t := 0),
                allow_terminal_read := (allow_terminal_read s)(t := 1)\<rparr>;
          s = clear_the_screen s
      in set_flag (\<lambda>f. f AND NOT FLAG_CTRL) s)"

definition printable :: "u8 \<Rightarrow> bool" where
  "printable scancode \<longleftrightarrow>
     scancode \<ge> 0x02 \<and> scancode \<le> 0x0D \<or> scancode \<ge> 0x10 \<and> scancode \<le> 0x1B \<or>
     scancode \<ge> 0x1E \<and> scancode \<le> 0x29 \<or> scancode \<ge> 0x2B \<and> scancode \<le> 0x35 \<or> scancode = 0x39"

definition process_keyboard_input :: "device \<Rightarrow> u8 \<Rightarrow> 'a kbd_state_scheme \<Rightarrow> 'a kbd_state_scheme" where
  "process_keyboard_input dev scancode s =
     (let t = active_terminal s;
          s = (if keyboardflag s t AND FLAG_CTRL = 0 \<and> printable scancode then
                 (if command_length s t + 1 < TERMINAL_BUFFER_MAX_SIZE
                  then place_character_at_index scancode (sint (cursor_x s t)) s else s)
               else if scancode = 0x1C
               then s\<lparr>allow_terminal_read := (allow_terminal_read s)(t := 1)\<rparr>
               else if scancode = 0x0E then backspace_key s
               else if scancode = 0x53 then delete_key s
               else if scancode = 0x3A then set_flag (\<lambda>f. f XOR FLAG_CAPS) s
               else if scancode = 0x2A \<or> scancode = 0x36 then set_flag (\<lambda>f. f OR FLAG_SHIFT) s
               else if scancode = 0xAA \<or> scancode = 0xB6 then set_flag (\<lambda>f. f AND NOT FLAG_SHIFT) s
               else if scancode = 0x1D then set_flag (\<lambda>f. f OR FLAG_CTRL) s
               else if scancode = 0x9D then set_flag (\<lambda>f. f AND NOT FLAG_CTRL) s
               else if scancode = 0x38 then set_flag (\<lambda>f. f OR FLAG_ALT) s
               else if scancode = 0xB8 then set_flag (\<lambda>f. f AND NOT FLAG_ALT) s
               else if scancode \<ge> 0x3B \<and> scancode \<le> 0x3D then function_key scancode s
               else if scancode = 0xE0 then
                 (let (nextcode, s) = inb dev KEYBOARD_PORT s in extra_key nextcode s)
               else if keyboardflag s t AND FLAG_CTRL \<noteq> 0 then
                 (if scancode = 0x26 then ctrl_l s else s)
               else s)
      in update_cursor (uint (cursor_x s (active_terminal s))) s)"

definition printthebuffer :: "'a kbd_state_scheme \<Rightarrow> 'a kbd_state_scheme" where
  "printthebuffer s =
     (let t = active_terminal s
      in fold (\<lambda>i s. putc (command_buffer s t (int i)) t s) [0..<Suc (unat (command_length s t))]
           (carriage_return s))"

partial_function (option) keyboard_loop :: "device \<Rightarrow> 'a kbd_state_scheme \<Rightarrow> 'a kbd_state_scheme option" where
  "keyboard_loop dev s =
     (let (keyboard_scancode, s) = inb dev KEYBOARD_PORT s;
          s = process_keyboard_input dev keyboard_scancode s;
          s = printthebuffer s;
          (keyboard_status, s) = inb dev KEYBOARD_STATUS_PORT s
      in if keyboard_status AND BUFFER_NOT_EMPTY \<noteq> 0 then keyboard_loop dev s else Some s)"

definition keyboard_interruption :: "device \<Rightarrow> 'a kbd_state_scheme \<Rightarrow> 'a kbd_state_scheme option" where
  "keyboard_interruption dev s =
     (case keyboard_loop dev (cli s) of
        None \<Rightarrow> None
      | Some s \<Rightarrow> Some (sti (send_eoi KEYBOARD_IRQ s)))"

section \<open>Opening, reading and writing\<close>

definition keyboard_open_tty :: "u32 \<Rightarrow> 'a kbd_state_scheme \<Rightarrow> 'a kbd_state_scheme" where
  "keyboard_open_tty i s =
     set_command_location i
       (s\<lparr>command_buffer := (command_buffer s)
            (i := \<lambda>j. if 0 \<le> j \<and> j < uint TERMINAL_BUFFER_MAX_SIZE then 0 else command_buffer s i j),
          keyboardflag := (keyboardflag s)(i := 0),
          allow_terminal_read := (allow_terminal_read s)(i := 0),
          command_length := (command_length s)(i := 0),
          cursor_x := (cursor_x s)(i := 0)\<rparr>)"

definition keyboard_open :: "'a kbd_state_scheme \<Rightarrow> 'a kbd_state_scheme" where
  "keyboard_open s =
     (let s = fold keyboard_open_tty [0, 1, 2] s;
          s = s\<lparr>active_terminal := 0\<rparr>;
          s = set_active_term 0 s;
          s = update_cursor 7 s
      in enable_irq KEYBOARD_IRQ s)"

text \<open>
  \<open>terminal_read\<close> for a process on terminal \<open>tty\<close> (the value of \<open>get_tty_number()\<close>); \<open>irqs\<close> are the
  interrupt handlers that run while it spins. Copying more than a row of the buffer holds is a fault.
\<close>

definition take_line :: "u32 \<Rightarrow> nat \<Rightarrow> 'a kbd_state_scheme \<Rightarrow> 'a kbd_state_scheme" where
  "take_line buf n s =
     (let a = active_terminal s
      in fold (\<lambda>i s. s\<lparr>mem := (mem s)(buf + of_nat i := command_buffer s a (int i)),
                       command_buffer := (command_buffer s)(a := (command_buffer s a)(int i := 0))\<rparr>)
           [0..<n] s)"

definition terminal_read ::
  "('a kbd_state_scheme \<Rightarrow> 'a kbd_state_scheme) list \<Rightarrow> u32 \<Rightarrow> u32 \<Rightarrow> i32 \<Rightarrow> 'a kbd_state_scheme \<Rightarrow>
   (i32 \<times> 'a kbd_state_scheme) outcome" where
  "terminal_read irqs tty buf nbytes s =
     (let s = set_command_location tty s
      in obind (of_loop (spin_while (\<lambda>s. allow_terminal_read s tty = 0) irqs s)) (\<lambda>s.
         (let s = new_line s; n = nat (sint nbytes)
          in if n > unat TERMINAL_BUFFER_MAX_SIZE then Fault Out_Of_Bounds
             else
               (let s = take_line buf n s; a = active_terminal s;
                    s = s\<lparr>command_length := (command_length s)(a := 0), cursor_x := (cursor_x s)(a := 0),
                          allow_terminal_read := (allow_terminal_read s)(a := 0)\<rparr>
                in Ok (of_nat n, s)))))"

definition terminal_write ::
  "u32 \<Rightarrow> u32 \<Rightarrow> i32 \<Rightarrow> 'a lib_state_scheme \<Rightarrow> i32 \<times> 'a lib_state_scheme" where
  "terminal_write tty buf nbytes s =
     (let n = nat (sint nbytes)
      in (of_nat n, fold (\<lambda>i s. putc (mem s (buf + of_nat i)) tty s) [0..<n] s))"

definition get_active_terminal :: "'a kbd_state_scheme \<Rightarrow> u32" where
  "get_active_terminal s = active_terminal s"


section \<open>The command line as a text with a cursor\<close>

declare of_nat_unat [simp del]

lemma shift_right_eq:
  "index \<le> e + 1 \<Longrightarrow> shift_right b index e = (\<lambda>j. if index < j \<and> j \<le> e + 1 then b (j - 1) else b j)"
  by (induction b index e rule: shift_right.induct) (subst shift_right.simps, auto simp: fun_eq_iff)

lemma shift_left_eq:
  "i \<le> l \<Longrightarrow> shift_left b i l = (\<lambda>j. if i \<le> j \<and> j < l then b (j + 1) else b j)"
  by (induction b i l rule: shift_left.induct) (subst shift_left.simps, auto simp: fun_eq_iff)

definition line_text :: "'a kbd_state_scheme \<Rightarrow> u32 \<Rightarrow> u8 list" where
  "line_text s t = map (\<lambda>i. command_buffer s t (int i)) [0..<unat (command_length s t)]"

definition line_cursor :: "'a kbd_state_scheme \<Rightarrow> u32 \<Rightarrow> nat" where
  "line_cursor s t = unat (cursor_x s t)"

text \<open>The cursor is inside the text, and the text fits its row with room for a terminator.\<close>

definition line_ok :: "'a kbd_state_scheme \<Rightarrow> u32 \<Rightarrow> bool" where
  "line_ok s t \<longleftrightarrow> cursor_x s t \<le> command_length s t \<and> command_length s t < TERMINAL_BUFFER_MAX_SIZE"

definition tail_clear :: "'a kbd_state_scheme \<Rightarrow> u32 \<Rightarrow> bool" where
  "tail_clear s t \<longleftrightarrow> (\<forall>j. unat (command_length s t) \<le> j \<and> j < 1024 \<longrightarrow> command_buffer s t (int j) = 0)"

lemma line_okD:
  assumes "line_ok s t"
  shows "unat (cursor_x s t) \<le> unat (command_length s t)" "unat (command_length s t) < 1024"
    "sint (cursor_x s t) = int (line_cursor s t)" "sint (command_length s t) = int (length (line_text s t))"
    "length (line_text s t) = unat (command_length s t)" "line_cursor s t \<le> length (line_text s t)"
  using assms
  by (auto simp: line_ok_def TERMINAL_BUFFER_MAX_SIZE_def word_le_nat_alt word_less_nat_alt line_text_def
      line_cursor_def intro!: sint_small)

lemma u32_add_one_small: "unat (w :: u32) < 4096 \<Longrightarrow> unat (w + 1) = Suc (unat w)"
  by (simp add: unat_word_ariths)

lemma u32_sub_one: "0 < unat (w :: u32) \<Longrightarrow> unat (w - 1) = unat w - 1"
  by (metis gr0_implies_Suc unat_eq_Suc_dec(2) diff_Suc_1)

lemma tail_clearD:
  "tail_clear s t \<Longrightarrow> unat (command_length s t) \<le> j \<Longrightarrow> j < 1024 \<Longrightarrow> command_buffer s t (int j) = 0"
  by (simp add: tail_clear_def)

lemma tail_clear_shift_left:
  assumes "tail_clear s t" and n: "n = unat (command_length s t)" and "n < 1024" and "k < n"
    and "unat (command_length s' t) = n - 1"
    and b: "command_buffer s' t =
      (\<lambda>j. if int k \<le> j \<and> j < int n then command_buffer s t (j + 1) else command_buffer s t j)"
  shows "tail_clear s' t"
  unfolding tail_clear_def
proof (intro allI impI)
  fix j
  assume j: "unat (command_length s' t) \<le> j \<and> j < 1024"
  show "command_buffer s' t (int j) = 0"
  proof (cases "j < n")
    case True
    then have "Suc j = n" "int j + 1 = int n" using j assms(5) by linarith+
    then show ?thesis
      using True tail_clearD [OF assms(1), of n] assms(3,4) n by (simp add: b)
  next
    case False
    then show ?thesis using tail_clearD [OF assms(1), of j] j n by (simp add: b)
  qed
qed

lemma insert_datum_line:
  fixes s :: "'a kbd_state_scheme" and c :: u8
  assumes ok: "line_ok s (active_terminal s)" and len: "length (line_text s (active_terminal s)) + 1 < 1024"
  defines "t \<equiv> active_terminal s" and "s' \<equiv> insert_datum c (sint (cursor_x s (active_terminal s))) s"
  shows "line_ok s' t"
    and "line_text s' t = take (line_cursor s t) (line_text s t) @ c # drop (line_cursor s t) (line_text s t)"
    and "line_cursor s' t = Suc (line_cursor s t)"
    and "tail_clear s t \<Longrightarrow> tail_clear s' t"
proof -
  note d = line_okD [OF ok, folded t_def]
  let ?k = "line_cursor s t" and ?n = "unat (command_length s t)"
  have b: "command_buffer s' t =
      (\<lambda>j. if j = int ?k then c else if int ?k < j \<and> j \<le> int ?n + 1 then command_buffer s t (j - 1)
           else command_buffer s t j)"
    using d by (simp add: s'_def insert_datum_def Let_def t_def [symmetric] shift_right_eq fun_eq_iff)
  have n: "unat (command_length s' t) = Suc ?n" "unat (cursor_x s' t) = Suc ?k"
    using d by (simp_all add: s'_def insert_datum_def Let_def t_def [symmetric] u32_add_one_small line_cursor_def)
  show "line_cursor s' t = Suc ?k" using n by (simp add: line_cursor_def)
  show "line_ok s' t"
    using n d len by (simp add: line_ok_def TERMINAL_BUFFER_MAX_SIZE_def word_le_nat_alt word_less_nat_alt t_def)
  show "line_text s' t = take ?k (line_text s t) @ c # drop ?k (line_text s t)"
    using d(1) unfolding line_text_def n by (intro upt_Suc_insert) (auto simp: b line_cursor_def)
  assume tc: "tail_clear s t"
  show "tail_clear s' t"
    unfolding tail_clear_def
  proof (intro allI impI)
    fix j
    assume "unat (command_length s' t) \<le> j \<and> j < 1024"
    then obtain m where "j = Suc m" "?n \<le> m" "m < 1024" using n by (cases j) auto
    then show "command_buffer s' t (int j) = 0" 
      using tail_clearD [OF tc, of m] tail_clearD [OF tc, of "Suc m"] d \<open>unat (command_length s' t) \<le> j \<and> j < 1024\<close>
      by (auto simp: b)
  qed
qed


lemma backspace_line:
  fixes s :: "'a kbd_state_scheme"
  assumes ok: "line_ok s (active_terminal s)" and pos: "0 < line_cursor s (active_terminal s)"
  defines "t \<equiv> active_terminal s" and "s' \<equiv> backspace_key s"
  shows "line_ok s' t"
    and "line_text s' t = take (line_cursor s t - 1) (line_text s t) @ drop (line_cursor s t) (line_text s t)"
    and "line_cursor s' t = line_cursor s t - 1"
    and "tail_clear s t \<Longrightarrow> tail_clear s' t"
proof -
  note d = line_okD [OF ok, folded t_def]
  let ?k = "line_cursor s t - 1" and ?n = "unat (command_length s t)"
  have k: "line_cursor s t = Suc ?k" "?k < ?n" using pos d by (auto simp: t_def)
  have b: "command_buffer s' t =
      (\<lambda>j. if int ?k \<le> j \<and> j < int ?n then command_buffer s t (j + 1) else command_buffer s t j)"
    using d k by (simp add: s'_def backspace_key_def Let_def t_def [symmetric] shift_left_eq uint_nat)
  have n: "unat (command_length s' t) = ?n - 1" "unat (cursor_x s' t) = ?k"
    using d k by (simp_all add: s'_def backspace_key_def Let_def t_def [symmetric] u32_sub_one line_cursor_def)
  show "line_cursor s' t = line_cursor s t - 1" using n by (simp add: line_cursor_def)
  show "line_ok s' t"
    using n d k by (auto simp: line_ok_def TERMINAL_BUFFER_MAX_SIZE_def word_le_nat_alt word_less_nat_alt)
  have "line_text s' t = take ?k (line_text s t) @ drop (Suc ?k) (line_text s t)"
    using k unfolding line_text_def n by (intro upt_delete) (auto simp: b add.commute)
  then show "line_text s' t = take ?k (line_text s t) @ drop (line_cursor s t) (line_text s t)"
    using k by simp
  show "tail_clear s t \<Longrightarrow> tail_clear s' t"
    using tail_clear_shift_left [OF _ refl d(2) k(2) n(1) b] .
qed

lemma delete_line:
  fixes s :: "'a kbd_state_scheme"
  assumes ok: "line_ok s (active_terminal s)"
  defines "t \<equiv> active_terminal s" and "s' \<equiv> delete_key s"
  shows "line_ok s' t"
    and "line_text s' t = take (line_cursor s t) (line_text s t) @ drop (Suc (line_cursor s t)) (line_text s t)"
    and "line_cursor s' t = line_cursor s t"
    and "tail_clear s t \<Longrightarrow> tail_clear s' t"
proof -
  note d = line_okD [OF ok, folded t_def]
  let ?k = "line_cursor s t" and ?n = "unat (command_length s t)"
  have guard: "(sint (cursor_x s t) \<ge> 0 \<and> sint (cursor_x s t) < uint (command_length s t)) \<longleftrightarrow> ?k < ?n"
    using d by (simp add: uint_nat)
  show "line_cursor s' t = line_cursor s t"
    by (simp add: s'_def delete_key_def Let_def line_cursor_def)
  have "line_ok s' t \<and>
      line_text s' t = take (line_cursor s t) (line_text s t) @ drop (Suc (line_cursor s t)) (line_text s t) \<and>
      (tail_clear s t \<longrightarrow> tail_clear s' t)"
  proof (cases "?k < ?n")
    case True
    have b: "command_buffer s' t =
        (\<lambda>j. if int ?k \<le> j \<and> j < int ?n then command_buffer s t (j + 1) else command_buffer s t j)"
      using d True guard by (simp add: s'_def delete_key_def Let_def t_def [symmetric] shift_left_eq uint_nat)
    have n: "unat (command_length s' t) = ?n - 1" "unat (cursor_x s' t) = ?k"
      using d True guard by (simp_all add: s'_def delete_key_def Let_def t_def [symmetric] u32_sub_one line_cursor_def)
    have "line_ok s' t"
      using n d True by (auto simp: line_ok_def TERMINAL_BUFFER_MAX_SIZE_def word_le_nat_alt word_less_nat_alt)
    moreover have "line_text s' t = take ?k (line_text s t) @ drop (Suc ?k) (line_text s t)"
      using True unfolding line_text_def n by (intro upt_delete) (auto simp: b add.commute)
    ultimately show ?thesis using tail_clear_shift_left [OF _ refl d(2) True n(1) b] by blast
  next
    case False
    then have "s' = s" using guard by (auto simp: s'_def delete_key_def Let_def t_def)
    then show ?thesis using False ok d by (simp add: t_def)
  qed
  then show "line_ok s' t"
    and "line_text s' t = take (line_cursor s t) (line_text s t) @ drop (Suc (line_cursor s t)) (line_text s t)"
    and "tail_clear s t \<Longrightarrow> tail_clear s' t" by blast+
qed


section \<open>The interface of a line editor\<close>

text \<open>
  What typing relies on: one insertion puts a character before the cursor, one erasure removes the
  one before it. Typing a whole word and taking it back follow for every such editor.
\<close>

locale line_editor =
  fixes ok :: "'s \<Rightarrow> bool" and ltext :: "'s \<Rightarrow> u8 list" and cur :: "'s \<Rightarrow> nat" and cap :: nat
    and ins :: "u8 \<Rightarrow> 's \<Rightarrow> 's" and era :: "'s \<Rightarrow> 's"
  assumes cur_le: "ok s \<Longrightarrow> cur s \<le> length (ltext s)"
    and ins_ok: "ok s \<Longrightarrow> length (ltext s) + 1 < cap \<Longrightarrow> ok (ins c s)"
    and ins_text: "ok s \<Longrightarrow> length (ltext s) + 1 < cap \<Longrightarrow>
      ltext (ins c s) = take (cur s) (ltext s) @ c # drop (cur s) (ltext s)"
    and ins_cur: "ok s \<Longrightarrow> length (ltext s) + 1 < cap \<Longrightarrow> cur (ins c s) = Suc (cur s)"
    and era_ok: "ok s \<Longrightarrow> 0 < cur s \<Longrightarrow> ok (era s)"
    and era_text: "ok s \<Longrightarrow> 0 < cur s \<Longrightarrow> ltext (era s) = take (cur s - 1) (ltext s) @ drop (cur s) (ltext s)"
    and era_cur: "ok s \<Longrightarrow> 0 < cur s \<Longrightarrow> cur (era s) = cur s - 1"
begin

lemma type_word:
  assumes "ok s" and "length (ltext s) + length cs < cap"
  shows "ok (fold ins cs s) \<and> cur (fold ins cs s) = cur s + length cs \<and>
    ltext (fold ins cs s) = take (cur s) (ltext s) @ cs @ drop (cur s) (ltext s)"
  using assms
proof (induction cs arbitrary: s)
  case Nil
  then show ?case by simp
next
  case (Cons c cs)
  then have room: "length (ltext s) + 1 < cap \<or> cs = [] \<and> length (ltext s) + 1 < cap" by auto
  then have s: "ok (ins c s)" "cur (ins c s) = Suc (cur s)"
    "ltext (ins c s) = take (cur s) (ltext s) @ c # drop (cur s) (ltext s)"
    using Cons.prems(1) ins_ok ins_text ins_cur by auto
  have l: "cur s \<le> length (ltext s)" using Cons.prems(1) cur_le by blast
  have "length (ltext (ins c s)) + length cs < cap" using s(3) l Cons.prems(2) by simp
  from Cons.IH [OF s(1) this] show ?case using s l by (simp add: min_def)
qed

lemma erase_typed:
  assumes "ok s" and "k \<le> cur s"
  shows "ok ((era ^^ k) s) \<and> cur ((era ^^ k) s) = cur s - k \<and>
    ltext ((era ^^ k) s) = take (cur s - k) (ltext s) @ drop (cur s) (ltext s)"
  using assms
proof (induction k)
  case 0
  then show ?case by simp
next
  case (Suc k)
  let ?s = "(era ^^ k) s"
  have l: "cur s \<le> length (ltext s)" using Suc.prems(1) cur_le by blast
  have IH: "ok ?s" "cur ?s = cur s - k" "ltext ?s = take (cur s - k) (ltext s) @ drop (cur s) (ltext s)"
    using Suc by auto
  then have p: "0 < cur ?s" using Suc.prems by simp
  show ?case
    using IH l era_ok [OF IH(1) p] era_cur [OF IH(1) p] era_text [OF IH(1) p] Suc.prems(2)
    by (auto simp: min_def)
qed

text \<open>Typing a word and erasing as many characters restores the line.\<close>

lemma type_then_erase:
  assumes "ok s" and "length (ltext s) + length cs < cap"
  shows "ltext ((era ^^ length cs) (fold ins cs s)) = ltext s \<and> cur ((era ^^ length cs) (fold ins cs s)) = cur s"
  using type_word [OF assms] erase_typed [of "fold ins cs s" "length cs"] cur_le [OF assms(1)]
  by auto

end

definition type_datum :: "u8 \<Rightarrow> 'a kbd_state_scheme \<Rightarrow> 'a kbd_state_scheme" where
  "type_datum c s = insert_datum c (sint (cursor_x s (active_terminal s))) s"

lemma edit_active_terminal [simp]:
  "active_terminal (type_datum c s) = active_terminal s"
  "active_terminal (backspace_key s) = active_terminal s"
  "active_terminal (delete_key s) = active_terminal s"
  by (simp_all add: type_datum_def insert_datum_def backspace_key_def delete_key_def Let_def)

interpretation kbd_line: line_editor "\<lambda>s. line_ok s (active_terminal s)" "\<lambda>s. line_text s (active_terminal s)"
  "\<lambda>s. line_cursor s (active_terminal s)" 1024 type_datum backspace_key
proof unfold_locales
  fix s :: "'a kbd_state_scheme" and c
  let ?t = "active_terminal s"
  assume ok: "line_ok s ?t"
  show "line_cursor s ?t \<le> length (line_text s ?t)" using line_okD [OF ok] by simp
  { assume len: "length (line_text s ?t) + 1 < 1024"
    note i = insert_datum_line [OF ok len, of c, folded type_datum_def]
    show "line_ok (type_datum c s) (active_terminal (type_datum c s))"
      "line_text (type_datum c s) (active_terminal (type_datum c s)) =
         take (line_cursor s ?t) (line_text s ?t) @ c # drop (line_cursor s ?t) (line_text s ?t)"
      "line_cursor (type_datum c s) (active_terminal (type_datum c s)) = Suc (line_cursor s ?t)"
      using i by simp_all }
  { assume pos: "0 < line_cursor s ?t"
    note i = backspace_line [OF ok pos]
    show "line_ok (backspace_key s) (active_terminal (backspace_key s))"
      "line_text (backspace_key s) (active_terminal (backspace_key s)) =
         take (line_cursor s ?t - 1) (line_text s ?t) @ drop (line_cursor s ?t) (line_text s ?t)"
      "line_cursor (backspace_key s) (active_terminal (backspace_key s)) = line_cursor s ?t - 1"
      using i by simp_all }
qed


section \<open>The invariant of the driver\<close>

text \<open>
  The two copies of the active terminal (in \<open>keyboard.c\<close> and in \<open>lib.c\<close>) agree, and every line is
  well formed.
\<close>

definition kbd_ok :: "'a kbd_state_scheme \<Rightarrow> bool" where
  "kbd_ok s \<longleftrightarrow> active_terminal s < 3 \<and> active_term s = active_terminal s \<and> (\<forall>t<3. line_ok s t)"

lemmas screen_op_defs = outb_def update_cursor_def load_video_memory_def clear_the_screen_def clear_def
  carriage_return_def set_command_location_def put_here_def scrolling_def advance_line_def putc_def
  new_line_def Let_def

lemma kbd_frame [simp]:
  "command_buffer (outb d p s) = command_buffer s" "command_length (outb d p s) = command_length s"
  "cursor_x (outb d p s) = cursor_x s" "active_terminal (outb d p s) = active_terminal s"
  "keyboardflag (outb d p s) = keyboardflag s" "allow_terminal_read (outb d p s) = allow_terminal_read s"
  "command_buffer (update_cursor x s) = command_buffer s" "command_length (update_cursor x s) = command_length s"
  "cursor_x (update_cursor x s) = cursor_x s" "active_terminal (update_cursor x s) = active_terminal s"
  "keyboardflag (update_cursor x s) = keyboardflag s" "allow_terminal_read (update_cursor x s) = allow_terminal_read s"
  "command_buffer (load_video_memory v s) = command_buffer s" "command_length (load_video_memory v s) = command_length s"
  "cursor_x (load_video_memory v s) = cursor_x s" "active_terminal (load_video_memory v s) = active_terminal s"
  "keyboardflag (load_video_memory v s) = keyboardflag s" "active_term (load_video_memory v s) = active_term s"
  "command_buffer (clear_the_screen s) = command_buffer s" "command_length (clear_the_screen s) = command_length s"
  "cursor_x (clear_the_screen s) = cursor_x s" "active_terminal (clear_the_screen s) = active_terminal s"
  "keyboardflag (clear_the_screen s) = keyboardflag s" "active_term (clear_the_screen s) = active_term s"
  "command_buffer (carriage_return s) = command_buffer s" "command_length (carriage_return s) = command_length s"
  "cursor_x (carriage_return s) = cursor_x s" "active_terminal (carriage_return s) = active_terminal s"
  "active_term (carriage_return s) = active_term s"
  "command_buffer (new_line s) = command_buffer s" "command_length (new_line s) = command_length s"
  "cursor_x (new_line s) = cursor_x s" "active_terminal (new_line s) = active_terminal s"
  "active_term (new_line s) = active_term s" "allow_terminal_read (new_line s) = allow_terminal_read s"
  "command_buffer (putc c tty s) = command_buffer s" "command_length (putc c tty s) = command_length s"
  "cursor_x (putc c tty s) = cursor_x s" "active_terminal (putc c tty s) = active_terminal s"
  "active_term (putc c tty s) = active_term s" "active_term (outb d p s) = active_term s"
  "command_buffer (set_command_location tty s) = command_buffer s" "command_length (set_command_location tty s) = command_length s"
  "cursor_x (set_command_location tty s) = cursor_x s" "active_terminal (set_command_location tty s) = active_terminal s"
  "active_term (set_command_location tty s) = active_term s"
  by (simp_all add: screen_op_defs)

lemma kbd_set_active_term [simp]:
  "command_length (set_active_term v s) = command_length s" "cursor_x (set_active_term v s) = cursor_x s"
  "active_terminal (set_active_term v s) = active_terminal s" "command_buffer (set_active_term v s) = command_buffer s"
  "keyboardflag (set_active_term v s) = keyboardflag s"
  "v < 3 \<Longrightarrow> active_term (set_active_term v s) = v"
  by (simp_all add: set_active_term_def)

lemma line_ok_cong:
  "command_length s' t = command_length s t \<Longrightarrow> cursor_x s' t = cursor_x s t \<Longrightarrow> line_ok s' t = line_ok s t"
  by (simp add: line_ok_def)

lemma kbd_ok_cong:
  assumes "kbd_ok s" and "active_terminal s' = active_terminal s" and "active_term s' = active_term s"
    and "command_length s' = command_length s" and "cursor_x s' = cursor_x s"
  shows "kbd_ok s'"
  using assms by (simp add: kbd_ok_def line_ok_def)

lemma kbd_ok_edit:
  assumes "kbd_ok s" and "active_terminal s' = active_terminal s" and "active_term s' = active_term s"
    and "line_ok s' (active_terminal s)"
    and "\<And>t. t \<noteq> active_terminal s \<Longrightarrow> command_length s' t = command_length s t \<and> cursor_x s' t = cursor_x s t"
  shows "kbd_ok s'"
  unfolding kbd_ok_def
proof (intro conjI allI impI)
  show "active_terminal s' < 3" "active_term s' = active_terminal s'" using assms by (auto simp: kbd_ok_def)
  fix t :: u32
  assume "t < 3"
  then show "line_ok s' t"
    using assms line_ok_cong [of s' t s] by (cases "t = active_terminal s") (auto simp: kbd_ok_def)
qed

lemma function_key_terminal:
  "(0x3B :: u8) \<le> sc \<Longrightarrow> sc \<le> 0x3D \<Longrightarrow> (ucast sc AND 7 :: u32) - 3 < 3"
proof -
  assume "(0x3B :: u8) \<le> sc" "sc \<le> 0x3D"
  then have "unat sc \<in> {59, 60, 61}" by (auto simp: word_le_nat_alt)
  then have "of_nat (unat sc) \<in> {59, 60, 61 :: u8}" by auto
  then have "sc \<in> {59, 60, 61}" by (simp add: of_nat_unat)
  then show ?thesis by auto
qed


lemma set_flag_simps [simp]:
  "active_terminal (set_flag f s) = active_terminal s" "active_term (set_flag f s) = active_term s"
  "command_length (set_flag f s) = command_length s" "cursor_x (set_flag f s) = cursor_x s"
  "command_buffer (set_flag f s) = command_buffer s"
  by (simp_all add: set_flag_def Let_def)

lemma kbd_okD: "kbd_ok s \<Longrightarrow> line_ok s (active_terminal s)"
  by (simp add: kbd_ok_def)

lemma kbd_ok_type: "kbd_ok s \<Longrightarrow> length (line_text s (active_terminal s)) + 1 < 1024 \<Longrightarrow> kbd_ok (type_datum c s)"
  by (rule kbd_ok_edit [of s])
    (use kbd_line.ins_ok [of s c] kbd_okD [of s] in \<open>auto simp: type_datum_def insert_datum_def Let_def\<close>)

lemma kbd_ok_backspace: "kbd_ok s \<Longrightarrow> kbd_ok (backspace_key s)"
proof (cases "0 < line_cursor s (active_terminal s)")
  case True
  assume "kbd_ok s"
  then show ?thesis
    by (rule kbd_ok_edit)
      (use True kbd_line.era_ok [of s] kbd_okD [OF \<open>kbd_ok s\<close>] in \<open>auto simp: backspace_key_def Let_def\<close>)
next
  case False
  assume "kbd_ok s"
  then show ?thesis
    using False line_okD(3) [OF kbd_okD [OF \<open>kbd_ok s\<close>]] by (simp add: backspace_key_def Let_def)
qed

lemma kbd_ok_delete: "kbd_ok s \<Longrightarrow> kbd_ok (delete_key s)"
  by (rule kbd_ok_edit [of s])
    (use delete_line(1) [of s] kbd_okD [of s] in \<open>auto simp: delete_key_def Let_def\<close>)

lemma kbd_ok_extra: "kbd_ok s \<Longrightarrow> kbd_ok (extra_key n s)"
proof -
  assume ok: "kbd_ok s"
  note d = line_okD(1,2) [OF kbd_okD [OF ok]]
  have "line_ok (extra_key n s) (active_terminal s)"
    using d u32_sub_one [of "cursor_x s (active_terminal s)"]
      u32_add_one_small [of "cursor_x s (active_terminal s)"]
    by (auto simp: extra_key_def Let_def line_ok_def TERMINAL_BUFFER_MAX_SIZE_def word_le_nat_alt word_less_nat_alt)
  then show ?thesis
    by (intro kbd_ok_edit [OF ok]) (auto simp: extra_key_def Let_def)
qed

lemma kbd_ok_function_key: "kbd_ok s \<Longrightarrow> 0x3B \<le> sc \<Longrightarrow> sc \<le> 0x3D \<Longrightarrow> kbd_ok (function_key sc s)"
  using function_key_terminal [of sc] by (auto simp: function_key_def Let_def kbd_ok_def line_ok_def)

lemma kbd_ok_ctrl_l: "kbd_ok s \<Longrightarrow> kbd_ok (ctrl_l s)"
  by (rule kbd_ok_edit [of s]) (auto simp: ctrl_l_def Let_def line_ok_def TERMINAL_BUFFER_MAX_SIZE_def)

lemma kbd_ok_update_cursor: "kbd_ok (update_cursor x s) = kbd_ok s"
  by (simp add: kbd_ok_def line_ok_def)

lemma process_keyboard_input_ok:
  assumes "kbd_ok s"
  shows "kbd_ok (process_keyboard_input dev sc s)"
proof -
  let ?t = "active_terminal s"
  have room: "kbd_ok (place_character_at_index sc (sint (cursor_x s ?t)) s)"
    if "command_length s ?t + 1 < TERMINAL_BUFFER_MAX_SIZE" for sc
  proof -
    have "unat (command_length s ?t) < 1024" using line_okD [OF kbd_okD [OF assms]] by simp
    then have "unat (command_length s ?t + 1) = Suc (unat (command_length s ?t))"
      by (intro u32_add_one_small) simp
    then have "length (line_text s ?t) + 1 < 1024"
      using that line_okD(5) [OF kbd_okD [OF assms]] by (simp add: TERMINAL_BUFFER_MAX_SIZE_def word_less_nat_alt)
    from kbd_ok_type [OF assms this] show ?thesis by (simp add: place_character_at_index_def type_datum_def)
  qed
  have inb: "kbd_ok (snd (inb dev p s))" for p
    by (rule kbd_ok_cong [OF assms]) (simp_all add: inb_def Let_def)
  have flag: "kbd_ok (set_flag f s)" and allow: "kbd_ok (s\<lparr>allow_terminal_read := g\<rparr>)" for f g
    by (rule kbd_ok_cong [OF assms]; simp)+
  show ?thesis
    unfolding process_keyboard_input_def Let_def kbd_ok_update_cursor
    using assms room inb flag allow
    by (simp add: case_prod_beta kbd_ok_backspace kbd_ok_delete kbd_ok_extra kbd_ok_function_key kbd_ok_ctrl_l)
qed

lemma printthebuffer_frame:
  fixes s :: "'a kbd_state_scheme"
  shows "command_length (printthebuffer s) = command_length s \<and> cursor_x (printthebuffer s) = cursor_x s \<and>
    command_buffer (printthebuffer s) = command_buffer s \<and> active_terminal (printthebuffer s) = active_terminal s \<and>
    active_term (printthebuffer s) = active_term s"
proof -
  have "command_length (fold (\<lambda>i s. putc (command_buffer s t (int i)) t s) is s) = command_length s \<and>
      cursor_x (fold (\<lambda>i s. putc (command_buffer s t (int i)) t s) is s) = cursor_x s \<and>
      command_buffer (fold (\<lambda>i s. putc (command_buffer s t (int i)) t s) is s) = command_buffer s \<and>
      active_terminal (fold (\<lambda>i s. putc (command_buffer s t (int i)) t s) is s) = active_terminal s \<and>
      active_term (fold (\<lambda>i s. putc (command_buffer s t (int i)) t s) is s) = active_term s" for t "is" and s :: "'a kbd_state_scheme"
    by (induction "is" arbitrary: s) simp_all
  then show ?thesis by (simp add: printthebuffer_def Let_def del: upt_Suc)
qed

lemma keyboard_round_ok:
  assumes "kbd_ok s"
  shows "kbd_ok (snd (inb dev q (printthebuffer (process_keyboard_input dev sc (snd (inb dev p s))))))"
proof -
  have inb: "kbd_ok (snd (inb dev r u)) = kbd_ok u" for r and u :: "'a kbd_state_scheme"
    by (simp add: kbd_ok_def line_ok_def inb_def Let_def)
  have "kbd_ok (process_keyboard_input dev sc (snd (inb dev p s)))"
    using assms by (intro process_keyboard_input_ok) (simp add: inb)
  then have "kbd_ok (printthebuffer (process_keyboard_input dev sc (snd (inb dev p s))))"
    by (rule kbd_ok_cong) (simp_all add: printthebuffer_frame)
  then show ?thesis by (simp add: inb)
qed

lemma keyboard_loop_ok:
  assumes "keyboard_loop dev s = Some s'"
  shows "kbd_ok s \<longrightarrow> kbd_ok s'"
  by (rule keyboard_loop.raw_induct [where P = "\<lambda>dev s s'. kbd_ok s \<longrightarrow> kbd_ok s'", OF _ assms])
    (auto simp: Let_def case_prod_beta split: if_splits dest: keyboard_round_ok)

lemma keyboard_interruption_ok:
  assumes "keyboard_interruption dev s = Some s'" and "kbd_ok s"
  shows "kbd_ok s'"
proof -
  have fr: "kbd_ok (sti (send_eoi KEYBOARD_IRQ u)) = kbd_ok u" and cl: "kbd_ok (cli u) = kbd_ok u" for u :: "'a kbd_state_scheme"
    by (simp_all add: kbd_ok_def line_ok_def send_eoi_def cli_def sti_def outb_def Let_def)
  show ?thesis
    using assms keyboard_loop_ok [of dev "cli s"] by (auto simp: keyboard_interruption_def fr cl split: option.splits)
qed


section \<open>The handler returns\<close>

lemma process_keyboard_input_io: "length (io s) < length (io (process_keyboard_input dev sc s))"
  by (simp add: process_keyboard_input_def Let_def case_prod_beta update_cursor_def outb_def inb_def
      place_character_at_index_def insert_datum_def backspace_key_def delete_key_def set_flag_def
      function_key_def load_video_memory_def set_active_term_def extra_key_def ctrl_l_def
      clear_the_screen_def clear_def)

lemma printthebuffer_io [simp]: "io (printthebuffer s) = io s"
proof -
  have "io (fold (\<lambda>i s. putc (command_buffer s t (int i)) t s) is s) = io s" for t "is" and s :: "'a kbd_state_scheme"
    by (induction "is" arbitrary: s) (simp_all add: screen_op_defs)
  then show ?thesis by (simp add: printthebuffer_def Let_def carriage_return_def del: upt_Suc)
qed

text \<open>
  A controller whose status bit clears after some amount of traffic: the handler drains it and
  returns.
\<close>

lemma keyboard_loop_returns:
  assumes "\<And>tr. N \<le> length tr \<Longrightarrow> dev tr KEYBOARD_STATUS_PORT AND BUFFER_NOT_EMPTY = 0"
  shows "\<exists>s'. keyboard_loop dev s = Some s'"
proof (induction "N - length (io s)" arbitrary: s rule: less_induct)
  case less
  let ?p = "printthebuffer (process_keyboard_input dev (fst (inb dev KEYBOARD_PORT s)) (snd (inb dev KEYBOARD_PORT s)))"
  let ?s = "snd (inb dev KEYBOARD_STATUS_PORT ?p)"
  have grow: "length (io s) < length (io ?p)"
    using process_keyboard_input_io [of "snd (inb dev KEYBOARD_PORT s)" dev "fst (inb dev KEYBOARD_PORT s)"]
    by (simp add: inb_def Let_def)
  then have grow': "length (io s) < length (io ?s)" by (simp add: inb_def Let_def)
  have step: "keyboard_loop dev s =
      (if fst (inb dev KEYBOARD_STATUS_PORT ?p) AND BUFFER_NOT_EMPTY \<noteq> 0 then keyboard_loop dev ?s else Some ?s)"
    by (subst keyboard_loop.simps) (simp add: Let_def case_prod_beta)
  show ?case
  proof (cases "N \<le> length (io ?p)")
    case True
    then show ?thesis using assms [of "io ?p"] step by (simp add: inb_def Let_def)
  next
    case False
    then have "N - length (io ?s) < N - length (io s)" using grow grow' by simp
    then show ?thesis using less step by auto
  qed
qed

section \<open>Handing over a line\<close>

lemma take_line_eq:
  fixes s :: "'a kbd_state_scheme"
  assumes "n \<le> 2 ^ 32"
  defines "a \<equiv> active_terminal s"
  shows "take_line buf n s =
     s\<lparr>mem := blit (mem s) buf n (\<lambda>i. command_buffer s a (int (unat i))),
       command_buffer := (command_buffer s)(a := \<lambda>j. if 0 \<le> j \<and> j < int n then 0 else command_buffer s a j)\<rparr>"
  using assms(1)
proof (induction n)
  case 0
  have "(\<lambda>j. if 0 \<le> j \<and> j < int 0 then 0 else command_buffer s a j) = command_buffer s a" by (rule ext) auto
  then show ?case by (simp only: take_line_def) simp
next
  case (Suc n)
  let ?b = "\<lambda>k j. if 0 \<le> j \<and> j < int k then 0 else command_buffer s a j"
  let ?m = "\<lambda>k. blit (mem s) buf k (\<lambda>i. command_buffer s a (int (unat i)))"
  have m: "(?m n)(buf + of_nat n := command_buffer s a (int n)) = ?m (Suc n)"
    using blit_Suc [of n "mem s" buf "\<lambda>i. command_buffer s a (int (unat i))"] Suc.prems
    by (simp add: unat_of_nat_u32)
  have b: "(?b n)(int n := 0) = ?b (Suc n)" by (auto simp: fun_eq_iff)
  have IH: "take_line buf n s = s\<lparr>mem := ?m n, command_buffer := (command_buffer s)(a := ?b n)\<rparr>"
    by (rule Suc.IH) (use Suc.prems in simp)
  have "take_line buf (Suc n) s = (take_line buf n s)
      \<lparr>mem := (mem (take_line buf n s))(buf + of_nat n := command_buffer (take_line buf n s) a (int n)),
       command_buffer := (command_buffer (take_line buf n s))
         (a := (command_buffer (take_line buf n s) a)(int n := 0))\<rparr>"
    by (simp add: take_line_def a_def Let_def)
  also have "\<dots> = s\<lparr>mem := (?m n)(buf + of_nat n := command_buffer s a (int n)),
      command_buffer := (command_buffer s)(a := (?b n)(int n := 0))\<rparr>"
    by (simp add: IH)
  finally show ?case by (simp only: m b)
qed

text \<open>
  What a read returns, from the state \<open>u\<close> in which its wait ended: the bytes are those of the
  \<^emph>\<open>active\<close> terminal's line, whichever terminal the caller belongs to.
\<close>

lemma terminal_read_eq:
  fixes u :: "'a kbd_state_scheme"
  assumes "spin_while (\<lambda>s. allow_terminal_read s tty = 0) irqs (set_command_location tty s) = Some u"
    and "n = nat (sint nbytes)" and "n \<le> 1024"
  defines "a \<equiv> active_terminal u" and "v \<equiv> new_line u"
  shows "terminal_read irqs tty buf nbytes s =
     Ok (of_nat n, v\<lparr>mem := blit (mem v) buf n (\<lambda>i. command_buffer u a (int (unat i))),
       command_buffer := (command_buffer u)(a := \<lambda>j. if 0 \<le> j \<and> j < int n then 0 else command_buffer u a j),
       command_length := (command_length u)(a := 0), cursor_x := (cursor_x u)(a := 0),
       allow_terminal_read := (allow_terminal_read u)(a := 0)\<rparr>)"
  using assms by (simp add: terminal_read_def TERMINAL_BUFFER_MAX_SIZE_def take_line_eq Let_def cong: if_cong)

lemma terminal_read_waits:
  assumes "terminal_read irqs tty buf nbytes s = Ok (r, s')"
  shows "\<exists>u k. k \<le> length irqs \<and> u = run_all (take k irqs) (set_command_location tty s) \<and>
    allow_terminal_read u tty \<noteq> 0"
  using assms spin_while_Some [of _ irqs "set_command_location tty s"]
  by (auto simp: terminal_read_def Let_def obind_eq_Ok of_loop_def split: option.splits)

section \<open>Opening\<close>

lemma keyboard_open_ok: "kbd_ok (keyboard_open s)" "t < 3 \<Longrightarrow> tail_clear (keyboard_open s) t"
proof -
  have u: "\<forall>t<3. command_length (fold keyboard_open_tty [0, 1, 2] s) t = 0 \<and>
      cursor_x (fold keyboard_open_tty [0, 1, 2] s) t = 0 \<and>
      (\<forall>j. 0 \<le> j \<and> j < 1024 \<longrightarrow> command_buffer (fold keyboard_open_tty [0, 1, 2] s) t j = 0)"
    by (auto simp: u32_less_3 keyboard_open_tty_def set_command_location_def TERMINAL_BUFFER_MAX_SIZE_def)
  have e: "command_length (enable_irq k x) = command_length x" "cursor_x (enable_irq k x) = cursor_x x"
    "command_buffer (enable_irq k x) = command_buffer x" "active_terminal (enable_irq k x) = active_terminal x"
    "active_term (enable_irq k x) = active_term x" for k and x :: "'a kbd_state_scheme"
    by (simp_all add: enable_irq_def Let_def outb_def)
  show "kbd_ok (keyboard_open s)"
    using u by (simp add: kbd_ok_def line_ok_def keyboard_open_def Let_def e set_active_term_def TERMINAL_BUFFER_MAX_SIZE_def
        del: fold_simps)
  show "t < 3 \<Longrightarrow> tail_clear (keyboard_open s) t"
    using u by (simp add: tail_clear_def keyboard_open_def Let_def e del: fold_simps)
qed

section \<open>Writing to a terminal\<close>

text \<open>Printing leaves the bytes outside the terminal's buffer alone.\<close>

lemma fold_putc_outside:
  assumes "on_screen tty s" and "4000 \<le> unat (a - video_buff tty)"
  shows "mem (fold (\<lambda>c. putc c tty) cs s) a = mem s a"
  using assms(1)
proof (induction cs arbitrary: s)
  case (Cons c cs)
  then show ?case using assms(2) by (simp add: putc_on_screen putc_mem_outside)
qed simp

text \<open>
  \<open>terminal_write\<close> fetches each byte after printing the ones before it; from a buffer outside the
  terminal's video buffer this prints the bytes the buffer held at the start.
\<close>
lemma terminal_write_eq:
  assumes "on_screen tty s" and "n = nat (sint nbytes)" and "disjoint_runs (video_buff tty) 4000 buf n"
  shows "terminal_write tty buf nbytes s = (of_nat n, fold (\<lambda>c. putc c tty) (bytes (ptr (mem s) buf) n) s)"
proof -
  have "k \<le> n \<Longrightarrow> fold (\<lambda>i s. putc (mem s (buf + of_nat i)) tty s) [0..<k] s =
      fold (\<lambda>c. putc c tty) (bytes (ptr (mem s) buf) k) s" for k
  proof (induction k)
    case (Suc k)
    have "mem (fold (\<lambda>c. putc c tty) (bytes (ptr (mem s) buf) k) s) (buf + of_nat k) = mem s (buf + of_nat k)"
      using disjoint_runs_outside [OF assms(3), of k] Suc.prems by (intro fold_putc_outside assms(1)) simp
    then show ?case using Suc by (simp add: bytes_def ptr_def)
  qed (simp add: bytes_def)
  then show ?thesis using assms(2) by (simp add: terminal_write_def Let_def)
qed


section \<open>Properties of the terminal driver\<close>

definition blank_kbd :: kbd_state where
  "blank_kbd = keyboard_open (rtc_state.extend blank_rtc
     (kbd_state.fields 0 (\<lambda>_ _. 0) (\<lambda>_. 0) (\<lambda>_. 0) (\<lambda>_. 0) (\<lambda>_. 0)))"

lemma blank_kbd_facts:
  "kbd_ok blank_kbd" "line_ok blank_kbd 0" "tail_clear blank_kbd 0" "active_terminal blank_kbd = 0"
  "line_text blank_kbd 0 = []"
proof -
  show "kbd_ok blank_kbd" "tail_clear blank_kbd 0"
    unfolding blank_kbd_def by (rule keyboard_open_ok; simp)+
  then show "line_ok blank_kbd 0" by (simp add: kbd_ok_def)
  show "active_terminal blank_kbd = 0" "line_text blank_kbd 0 = []"
    by (simp_all add: blank_kbd_def keyboard_open_def keyboard_open_tty_def Let_def enable_irq_def
        KEYBOARD_IRQ_def line_text_def)
qed

text \<open>The line \<open>ls\<close>, typed and finished.\<close>

definition typed_kbd :: kbd_state where
  "typed_kbd = (fold type_datum [108, 115] blank_kbd)\<lparr>allow_terminal_read := (\<lambda>_. 1)\<rparr>"

lemma typed_kbd_facts:
  "line_ok typed_kbd 0" "tail_clear typed_kbd 0" "active_terminal typed_kbd = 0" "allow_terminal_read typed_kbd 0 = 1"
proof -
  let ?k = "fold type_datum [108, 115] blank_kbd"
  have s1: "line_ok (type_datum 108 blank_kbd) 0" "tail_clear (type_datum 108 blank_kbd) 0"
    "length (line_text (type_datum 108 blank_kbd) 0) = 1"
    using insert_datum_line [of blank_kbd 108] blank_kbd_facts by (simp_all add: type_datum_def)
  have "active_terminal ?k = 0" using blank_kbd_facts by simp
  moreover have "line_ok ?k 0" "tail_clear ?k 0"
    using insert_datum_line [of "type_datum 108 blank_kbd" 115] s1 blank_kbd_facts
    by (simp_all add: type_datum_def [of 115])
  ultimately show "line_ok typed_kbd 0" "tail_clear typed_kbd 0" "active_terminal typed_kbd = 0"
    "allow_terminal_read typed_kbd 0 = 1"
    by (simp_all add: typed_kbd_def line_ok_def tail_clear_def)
qed

text \<open>
  C29. The keyboard interrupt ends whenever the controller's buffer empties after finitely many port
  accesses, and keeps the invariant of the driver: the active terminal is one of the three and is the
  one \<open>lib.c\<close> prints to, and on every terminal the cursor stays within the line and the line within
  its 1024-byte row.
\<close>
theorem keyboard_interruption_safe:
  assumes "kbd_ok s" and "\<forall>tr. N \<le> length tr \<longrightarrow> dev tr KEYBOARD_STATUS_PORT AND BUFFER_NOT_EMPTY = 0"
  shows "\<exists>s'. keyboard_interruption dev s = Some s' \<and> kbd_ok s'"
proof -
  obtain u where "keyboard_loop dev (cli s) = Some u"
    using keyboard_loop_returns [of N dev "cli s"] assms(2) by blast
  then have "keyboard_interruption dev s = Some (sti (send_eoi KEYBOARD_IRQ u))"
    by (simp add: keyboard_interruption_def)
  then show ?thesis using keyboard_interruption_ok assms(1) by blast
qed

theorem keyboard_interruption_safe_witness:
  "\<exists>s'. keyboard_interruption (\<lambda>tr p. if length tr < 40 then 0x1E else 0) blank_kbd = Some s' \<and> kbd_ok s'"
  by (rule keyboard_interruption_safe [where N = 40]) (simp_all add: blank_kbd_facts KEYBOARD_STATUS_PORT_def)

text \<open>
  C30. The three editing keys act on the line as on a text with a cursor: a character goes in before
  the cursor, Backspace removes the character before it, Delete the one after it; and typing a word
  followed by as many Backspaces restores the line and the cursor.
\<close>
theorem line_editing_correct:
  fixes s :: "'a kbd_state_scheme"
  assumes "line_ok s t" and "t = active_terminal s" and "length (line_text s t) + length cs < 1024"
    and "0 < length cs"
  shows "line_text (fold type_datum cs s) t = take (line_cursor s t) (line_text s t) @ cs @ drop (line_cursor s t) (line_text s t) \<and>
    line_text (delete_key s) t = take (line_cursor s t) (line_text s t) @ drop (Suc (line_cursor s t)) (line_text s t) \<and>
    line_text ((backspace_key ^^ length cs) (fold type_datum cs s)) t = line_text s t \<and>
    line_cursor ((backspace_key ^^ length cs) (fold type_datum cs s)) t = line_cursor s t"
proof -
  have f: "active_terminal (fold type_datum cs u) = active_terminal u" for u :: "'a kbd_state_scheme"
    by (induction cs arbitrary: u) simp_all
  have b: "active_terminal ((backspace_key ^^ k) u) = active_terminal u" for k and u :: "'a kbd_state_scheme"
    by (induction k) simp_all
  show ?thesis
    using kbd_line.type_word [of s cs] kbd_line.type_then_erase [of s cs] delete_line(2) [of s] assms f b by simp
qed

theorem line_editing_correct_witness:
  "line_text (fold type_datum [104, 105] blank_kbd) 0 =
      take (line_cursor blank_kbd 0) (line_text blank_kbd 0) @ [104, 105] @ drop (line_cursor blank_kbd 0) (line_text blank_kbd 0) \<and>
    line_text (delete_key blank_kbd) 0 =
      take (line_cursor blank_kbd 0) (line_text blank_kbd 0) @ drop (Suc (line_cursor blank_kbd 0)) (line_text blank_kbd 0) \<and>
    line_text ((backspace_key ^^ length [104, 105 :: u8]) (fold type_datum [104, 105] blank_kbd)) 0 = line_text blank_kbd 0 \<and>
    line_cursor ((backspace_key ^^ length [104, 105 :: u8]) (fold type_datum [104, 105] blank_kbd)) 0 = line_cursor blank_kbd 0"
  by (rule line_editing_correct) (simp_all add: blank_kbd_facts)

text \<open>
  C31. A read of a terminal that finds a finished line delivers that line's text followed by zero
  bytes, as many bytes as asked for, writes only the caller's buffer and the screen, and empties the
  line. The line is that of the active terminal in the state \<open>u\<close> in which the wait ended.
\<close>
theorem terminal_read_delivers_line:
  fixes u :: "'a kbd_state_scheme"
  assumes "spin_while (\<lambda>s. allow_terminal_read s tty = 0) irqs (set_command_location tty s) = Some u"
    and "n = nat (sint nbytes)" and "n \<le> 1024" and "a = active_terminal u"
    and "line_ok u a" and "tail_clear u a"
  shows "\<exists>v. terminal_read irqs tty buf nbytes s = Ok (of_nat n, v) \<and>
    bytes (ptr (mem v) buf) n = take n (line_text u a @ replicate 1024 0) \<and>
    line_text v a = [] \<and> line_cursor v a = 0 \<and> allow_terminal_read v a = 0 \<and>
    (\<forall>p. n \<le> unat (p - buf) \<longrightarrow> mem v p = mem (new_line u) p) \<and>
    (length (line_text u a) \<le> n \<longrightarrow> tail_clear v a)"
proof -
  have cell: "command_buffer u a (int i) = (line_text u a @ replicate 1024 0) ! i" if "i < 1024" for i
    using that tail_clearD [OF assms(6), of i] line_okD(5) [OF assms(5)]
    by (auto simp: nth_append line_text_def)
  have "bytes (ptr (blit m buf n (\<lambda>i. command_buffer u a (int (unat i)))) buf) n =
      take n (line_text u a @ replicate 1024 0)" for m
    using assms(3) cell by (intro nth_equalityI) (simp_all add: ptr_def blit_at unat_of_nat_u32 del: take_append)
  then show ?thesis
    using terminal_read_eq [OF assms(1,2,3), of buf, folded assms(4)] tail_clearD [OF assms(6)]
      line_okD(5) [OF assms(5)]
    by (auto simp: line_text_def line_cursor_def blit_outside tail_clear_def)
qed

theorem terminal_read_delivers_line_witness:
  "\<exists>v. terminal_read [] 0 0x8000000 128 typed_kbd = Ok (of_nat 128, v) \<and>
    bytes (ptr (mem v) 0x8000000) 128 = take 128 (line_text (set_command_location 0 typed_kbd) 0 @ replicate 1024 0) \<and>
    line_text v 0 = [] \<and> line_cursor v 0 = 0 \<and> allow_terminal_read v 0 = 0 \<and>
    (\<forall>p. 128 \<le> unat (p - 0x8000000) \<longrightarrow> mem v p = mem (new_line (set_command_location 0 typed_kbd)) p) \<and>
    (length (line_text (set_command_location 0 typed_kbd) 0) \<le> 128 \<longrightarrow> tail_clear v 0)"
  by (rule terminal_read_delivers_line)
    (use typed_kbd_facts in \<open>simp_all add: line_ok_def tail_clear_def set_command_location_def\<close>)

text \<open>
  C32. A write to a terminal prints exactly the buffer's bytes on the caller's own terminal, as the
  abstract terminal would, whichever terminal is shown, and returns their number; the position stays
  on the screen and the other terminals are untouched.
\<close>
theorem terminal_write_refines:
  assumes "on_screen tty s" and "tty < 3" and "n = nat (sint nbytes)"
    and "disjoint_runs (video_buff tty) 4000 buf n"
  shows "\<exists>s'. terminal_write tty buf nbytes s = (of_nat n, s') \<and> on_screen tty s' \<and>
    abs_term tty s' = fold term_putc (bytes (ptr (mem s) buf) n) (abs_term tty s) \<and>
    (\<forall>t. t < 3 \<and> t \<noteq> tty \<longrightarrow> abs_term t s' = abs_term t s)"
  using assms by (simp add: terminal_write_eq screen_text.fold_inv screen_text.fold_abs fold_putc_other)

theorem terminal_write_refines_witness:
  "\<exists>s'. terminal_write 2 0x8000000 3 blank_lib = (of_nat 3, s') \<and> on_screen 2 s' \<and>
    abs_term 2 s' = fold term_putc (bytes (ptr (mem blank_lib) 0x8000000) 3) (abs_term 2 blank_lib) \<and>
    (\<forall>t. t < 3 \<and> t \<noteq> 2 \<longrightarrow> abs_term t s' = abs_term t blank_lib)"
  by (rule terminal_write_refines)
    (simp_all add: on_screen_def blank_lib_def disjoint_runs_def video_buff_def video_defs)

end
