(* ===== verification/Printf.thy ===== *)
theory Printf
  imports Screen
begin

text \<open>
  \<open>printf\<close> of \<open>student-distrib/lib.c\<close>. The format is a string object; \<open>args\<close> are the words on the
  stack above it, read one after the other; the local \<open>conv_buf\<close> starts with unknown contents.
\<close>

text \<open>A string literal as an array, the zero byte after it included.\<close>

definition lit :: "string \<Rightarrow> cstr" where
  "lit cs = (\<lambda>i. if unat i < length cs then of_char (cs ! unat i) else 0)"

section \<open>Conversions\<close>

definition puts_active :: "cstr \<Rightarrow> 'a lib_state_scheme \<Rightarrow> 'a lib_state_scheme outcome" where
  "puts_active str s = obind (puts str (active_term s) s) (\<lambda>(_, s). Ok s)"

text \<open>\<open>%#x\<close>: the number goes to \<open>conv_buf + 8\<close>, zeros in front of it so that eight digits are printed.\<close>

definition hex_padded :: "cstr \<Rightarrow> u32 \<Rightarrow> cstr outcome" where
  "hex_padded conv_buf v =
     obind (itoa v (\<lambda>i. conv_buf (i + 8)) 16) (\<lambda>number.
     obind (of_loop (strlen number)) (\<lambda>starting_index.
       (let conv_buf = (\<lambda>i. if i \<ge> 8 then number (i - 8) else conv_buf i);
            conv_buf = fold (\<lambda>i b. b(of_nat i := of_char CHR ''0'')) [unat starting_index..<8] conv_buf
        in Ok (\<lambda>i. conv_buf (starting_index + i)))))"

definition signed_text :: "cstr \<Rightarrow> i32 \<Rightarrow> cstr outcome" where
  "signed_text conv_buf v =
     (if sint v < 0 then
        (let conv_buf = conv_buf(0 := of_char CHR ''-'')
         in obind (itoa (- v) (\<lambda>i. conv_buf (i + 1)) 10) (\<lambda>number.
              Ok (\<lambda>i. if i \<ge> 1 then number (i - 1) else conv_buf i)))
      else itoa v conv_buf 10)"

text \<open>One conversion: the number of arguments it consumed and the new state.\<close>

definition conversion ::
  "cstr \<Rightarrow> bool \<Rightarrow> u8 \<Rightarrow> u32 \<Rightarrow> 'a lib_state_scheme \<Rightarrow> (nat \<times> 'a lib_state_scheme) outcome" where
  "conversion conv_buf alternate c v s =
     (if c = of_char CHR ''%'' then Ok (0, putc (of_char CHR ''%'') (active_term s) s)
      else if c = of_char CHR ''x'' then
        obind (if alternate then hex_padded conv_buf v else itoa v conv_buf 16) (\<lambda>b.
        obind (puts_active b s) (\<lambda>s. Ok (1, s)))
      else if c = of_char CHR ''u'' then
        obind (itoa v conv_buf 10) (\<lambda>b. obind (puts_active b s) (\<lambda>s. Ok (1, s)))
      else if c = of_char CHR ''d'' then
        obind (signed_text conv_buf v) (\<lambda>b. obind (puts_active b s) (\<lambda>s. Ok (1, s)))
      else if c = of_char CHR ''c'' then Ok (1, putc (ucast v) (active_term s) s)
      else if c = of_char CHR ''s'' then obind (puts_active (ptr (mem s) v) s) (\<lambda>s. Ok (1, s))
      else Ok (0, s))"

text \<open>
  The two nested \<open>switch\<close> statements; \<open>mode\<close> is \<^const>\<open>None\<close> in the outer one and \<open>Some alternate\<close>
  at \<open>format_char_switch\<close>.
\<close>

partial_function (option) printf_loop ::
  "cstr \<Rightarrow> cstr \<Rightarrow> (nat \<Rightarrow> u32) \<Rightarrow> u32 \<Rightarrow> nat \<Rightarrow> bool option \<Rightarrow> 'a lib_state_scheme \<Rightarrow>
   (i32 \<times> 'a lib_state_scheme) outcome option" where
  "printf_loop conv_buf fmt args buf esp mode s =
     (case mode of
        None \<Rightarrow>
          if fmt buf \<noteq> 0 then
            if fmt buf = of_char CHR ''%'' then printf_loop conv_buf fmt args (buf + 1) esp (Some False) s
            else printf_loop conv_buf fmt args (buf + 1) esp None (putc (fmt buf) (active_term s) s)
          else Some (Ok (buf, s))
      | Some alternate \<Rightarrow>
          if fmt buf = of_char CHR ''#'' then printf_loop conv_buf fmt args (buf + 1) esp (Some True) s
          else (case conversion conv_buf alternate (fmt buf) (args esp) s of
                  Ok (k, s) \<Rightarrow> printf_loop conv_buf fmt args (buf + 1) (esp + k) None s
                | Fault e \<Rightarrow> Some (Fault e)
                | No_Return \<Rightarrow> Some No_Return))"

definition printf ::
  "cstr \<Rightarrow> cstr \<Rightarrow> (nat \<Rightarrow> u32) \<Rightarrow> 'a lib_state_scheme \<Rightarrow> (i32 \<times> 'a lib_state_scheme) outcome" where
  "printf conv_buf fmt args s =
     (case printf_loop conv_buf fmt args 0 0 None s of None \<Rightarrow> No_Return | Some r \<Rightarrow> r)"

section \<open>Formats without conversions\<close>

text \<open>A message without \<open>%\<close> is printed as it is, on the active terminal.\<close>

lemma active_term_putc [simp]: "active_term (putc c tty s) = active_term s"
  by (simp add: putc_def put_here_def advance_line_def scrolling_def Let_def)

lemma printf_plain_from:
  assumes "is_cstr fmt n" and "\<forall>i<n. fmt (of_nat i) \<noteq> of_char CHR ''%''" and "k \<le> n"
  shows "printf_loop cb fmt args (of_nat k) 0 None s =
     Some (Ok (of_nat n, fold (\<lambda>c. putc c (active_term s)) (drop k (bytes fmt n)) s))"
  using assms(3)
proof (induction "n - k" arbitrary: k s)
  case 0
  then show ?case using assms(1) by (subst printf_loop.simps) (simp add: is_cstr_def)
next
  case (Suc d)
  then have k: "k < n" by simp
  then have c: "fmt (of_nat k) \<noteq> 0" "fmt (of_nat k) \<noteq> of_char CHR ''%''"
    and d: "drop k (bytes fmt n) = fmt (of_nat k) # drop (Suc k) (bytes fmt n)"
    using assms by (auto simp: is_cstr_def Cons_nth_drop_Suc [symmetric])
  have "printf_loop cb fmt args (of_nat k) 0 None s =
      printf_loop cb fmt args (of_nat (Suc k)) 0 None (putc (fmt (of_nat k)) (active_term s) s)"
    using c by (subst printf_loop.simps) (simp add: add.commute)
  also have "\<dots> = Some (Ok (of_nat n, fold (\<lambda>c. putc c (active_term s)) (drop k (bytes fmt n)) s))"
    using Suc.hyps(1) [of "Suc k" "putc (fmt (of_nat k)) (active_term s) s"] Suc.hyps(2) k
    by (simp add: d)
  finally show ?case .
qed

lemma printf_plain:
  assumes "is_cstr fmt n" and "\<forall>i<n. fmt (of_nat i) \<noteq> of_char CHR ''%''"
  shows "printf cb fmt args s = Ok (of_nat n, fold (\<lambda>c. putc c (active_term s)) (bytes fmt n) s)"
  using printf_plain_from [OF assms, of 0 cb args s] by (simp add: printf_def)

lemma is_cstr_lit:
  assumes "length cs < 2 ^ 32" and "\<forall>c\<in>set cs. (of_char c :: u8) \<noteq> 0"
  shows "is_cstr (lit cs) (length cs)" and "bytes (lit cs) (length cs) = map of_char cs"
  using assms by (auto simp: is_cstr_def lit_def unat_of_nat_u32 list_eq_iff_nth_eq)

lemma printf_literal:
  assumes "length cs < 2 ^ 32" and "\<forall>c\<in>set cs. (of_char c :: u8) \<noteq> 0 \<and> (of_char c :: u8) \<noteq> of_char CHR ''%''"
  shows "printf cb (lit cs) args s = Ok (of_nat (length cs), fold (\<lambda>c. putc c (active_term s)) (map of_char cs) s)"
proof -
  have "\<forall>i<length cs. lit cs (of_nat i) \<noteq> of_char CHR ''%''"
    using assms by (auto simp: lit_def unat_of_nat_u32)
  then show ?thesis
    using printf_plain [OF is_cstr_lit(1)] is_cstr_lit(2) assms by metis
qed


section \<open>What a format prints\<close>

definition number_text :: "nat \<Rightarrow> nat \<Rightarrow> u8 list" where
  "number_text r v = (if v = 0 then [of_char CHR ''0''] else map (\<lambda>d. itoa_lookup ! d) (rev (digits r v)))"

definition conv_text :: "(u32 \<Rightarrow> u8 list) \<Rightarrow> bool \<Rightarrow> u8 \<Rightarrow> u32 \<Rightarrow> u8 list" where
  "conv_text str alternate c v =
     (if c = of_char CHR ''%'' then [of_char CHR ''%'']
      else if c = of_char CHR ''x'' then
        (if alternate then replicate (8 - length (number_text 16 (unat v))) (of_char CHR ''0'') else [])
          @ number_text 16 (unat v)
      else if c = of_char CHR ''u'' then number_text 10 (unat v)
      else if c = of_char CHR ''d'' then
        (if sint v < 0 then of_char CHR ''-'' # number_text 10 (unat (- v)) else number_text 10 (unat v))
      else if c = of_char CHR ''c'' then [ucast v]
      else if c = of_char CHR ''s'' then str v
      else [])"

definition conv_args :: "u8 \<Rightarrow> nat" where
  "conv_args c = (if c \<in> of_char ` {CHR ''x'', CHR ''u'', CHR ''d'', CHR ''c'', CHR ''s''} then 1 else 0)"

fun rendered :: "(u32 \<Rightarrow> u8 list) \<Rightarrow> (nat \<Rightarrow> u32) \<Rightarrow> nat \<Rightarrow> bool option \<Rightarrow> u8 list \<Rightarrow> u8 list" where
  "rendered str args esp mode [] = []"
| "rendered str args esp None (c # cs) =
     (if c = of_char CHR ''%'' then rendered str args esp (Some False) cs
      else c # rendered str args esp None cs)"
| "rendered str args esp (Some alternate) (c # cs) =
     (if c = of_char CHR ''#'' then rendered str args esp (Some True) cs
      else conv_text str alternate c (args esp) @ rendered str args (esp + conv_args c) None cs)"

text \<open>The format does not end in the middle of a conversion.\<close>

fun complete :: "bool option \<Rightarrow> u8 list \<Rightarrow> bool" where
  "complete mode [] \<longleftrightarrow> mode = None"
| "complete None (c # cs) \<longleftrightarrow> complete (if c = of_char CHR ''%'' then Some False else None) cs"
| "complete (Some a) (c # cs) \<longleftrightarrow> complete (if c = of_char CHR ''#'' then Some True else None) cs"

lemma itoa_text:
  assumes "2 \<le> radix" and "radix \<le> 36"
  shows "\<exists>s. itoa v buf radix = Ok s \<and> is_cstr s (length (number_text (unat radix) (unat v))) \<and>
    bytes s (length (number_text (unat radix) (unat v))) = number_text (unat radix) (unat v)"
proof (cases "v = 0")
  case True
  then show ?thesis
    by (intro exI [of _ "buf(0 := of_char CHR ''0'', 1 := 0)"])
      (simp add: itoa_def number_text_def is_cstr_def bytes_def)
next
  case False
  then show ?thesis
    using itoa_string [OF assms, of v buf] by (simp add: number_text_def unat_0_iff)
qed

lemma puts_active_text:
  assumes "is_cstr b (length t)" and "bytes b (length t) = t"
  shows "puts_active b s = Ok (fold (\<lambda>c. putc c (active_term s)) t s)"
  using puts_eq [OF assms(1), of "active_term s" s] assms(2) by (simp add: puts_active_def)

lemma number_text_le: "length (number_text 16 (unat (v :: u32))) \<le> 8"
proof -
  have "length (digits 16 n) \<le> k" if "n < 16 ^ k" for n k
    using that
  proof (induction k arbitrary: n)
    case 0
    then show ?case by simp
  next
    case (Suc k)
    then have "n div 16 < 16 ^ k" by (simp add: less_mult_imp_div_less mult.commute)
    then show ?case using Suc.IH [of "n div 16"] by (subst digits.simps) auto
  qed
  from this [of "unat v" 8] show ?thesis using unat_u32_lt [of v] by (simp add: number_text_def)
qed

lemma fold_zeros: "fold (\<lambda>i b. b(of_nat i := z)) [l..<8] f j = (if l \<le> unat j \<and> unat j < 8 then z else f j)"
  for f :: cstr
proof (cases "l \<le> 8")
  case True
  have "fold (\<lambda>i b. b(of_nat i := z)) [l..<k] f j = (if l \<le> unat j \<and> unat j < k then z else f j)" if "l \<le> k" "k \<le> 8" for k
    using that
  proof (induction k rule: dec_induct)
    case base
    then show ?case by auto
  next
    case (step k)
    have "j = of_nat k \<longleftrightarrow> unat j = k" using step.prems unat_of_nat_u32 [of k] by auto
    then show ?case using step by auto
  qed
  from this [of 8] show ?thesis using True by simp
qed auto

lemma hex_padded_text:
  "\<exists>b. hex_padded cb v = Ok b \<and>
     is_cstr b 8 \<and> bytes b 8 = replicate (8 - length (number_text 16 (unat v))) (of_char CHR ''0'') @ number_text 16 (unat v)"
proof -
  let ?t = "number_text 16 (unat v)" and ?z = "of_char CHR ''0'' :: u8"
  obtain s where s: "itoa v (\<lambda>i. cb (i + 8)) 16 = Ok s" "is_cstr s (length ?t)" "bytes s (length ?t) = ?t"
    using itoa_text [of 16 v "\<lambda>i. cb (i + 8)"] by auto
  define l where "l = length ?t"
  have l: "l \<le> 8" using number_text_le by (simp add: l_def)
  have ul: "unat (of_nat l :: u32) = l" using l by (simp add: unat_of_nat_u32)
  define b where "b = (\<lambda>i. fold (\<lambda>i b. b(of_nat i := ?z)) [l..<8] (\<lambda>i. if i \<ge> 8 then s (i - 8) else cb i) (of_nat l + i))"
  have ok: "hex_padded cb v = Ok b"
    using s strlen_is_cstr [OF s(2)] ul by (simp add: hex_padded_def Let_def b_def l_def)
  have b1: "b (of_nat i) = (if i < 8 - l then ?z else s (of_nat (i - (8 - l))))" if "i \<le> 8" for i
  proof -
    have u: "unat (of_nat l + of_nat i :: u32) = l + i"
      using that l unat_of_nat_u32 [of "l + i"] by simp
    show ?thesis
    proof (cases "i < 8 - l")
      case True
      then have "l + i < 8" by simp
      then show ?thesis using u True by (simp add: b_def fold_zeros)
    next
      case False
      then have "\<not> l + i < 8" by simp
      moreover have "(8 :: u32) \<le> of_nat l + of_nat i" using u False by (simp add: word_le_nat_alt)
      moreover have "(of_nat l + of_nat i - 8 :: u32) = of_nat (i - (8 - l))"
      proof -
        define k where "k = i - (8 - l)"
        have "l + i = k + 8" using False l by (simp add: k_def)
        then have "(of_nat l + of_nat i :: u32) = of_nat k + 8" by (metis of_nat_add of_nat_numeral)
        then show ?thesis unfolding k_def [symmetric] by simp
      qed
      ultimately show ?thesis using False by (simp add: b_def fold_zeros u del: of_nat_diff)
    qed
  qed
  have nz: "s (of_nat k) \<noteq> 0" if "k < l" for k using s(2) that by (simp add: is_cstr_def l_def)
  have "is_cstr b 8"
    unfolding is_cstr_def
  proof (intro conjI allI impI)
    show "b (of_nat 8) = 0" using b1 [of 8] s(2) l by (simp add: is_cstr_def l_def del: of_nat_diff)
    fix i :: nat
    assume "i < 8"
    then show "b (of_nat i) \<noteq> 0" using b1 [of i] nz [of "i - (8 - l)"] l by (simp del: of_nat_diff)
  qed simp
  moreover have "bytes b 8 = replicate (8 - l) ?z @ ?t"
  proof (rule nth_equalityI)
    fix i
    assume "i < length (bytes b 8)"
    then have i: "i < 8" by simp
    have "?t ! j = s (of_nat j)" if "j < l" for j using s(3) that nth_bytes [of j "length ?t" s] by (simp add: l_def)
    then show "bytes b 8 ! i = (replicate (8 - l) ?z @ ?t) ! i"
      using i b1 [of i] l by (auto simp: nth_append)
  qed (use l in \<open>simp add: l_def\<close>)
  ultimately show ?thesis using ok by (auto simp: l_def)
qed


lemma signed_text_eq:
  "\<exists>b. signed_text cb v = Ok b \<and>
     (let t = conv_text str alt (of_char CHR ''d'') v in is_cstr b (length t) \<and> bytes b (length t) = t)"
proof (cases "sint v < 0")
  case False
  then show ?thesis using itoa_text [of 10 v cb] by (simp add: signed_text_def conv_text_def Let_def)
next
  case True
  let ?cb = "cb(0 := of_char CHR ''-'')" and ?t = "number_text 10 (unat (- v))"
  obtain s where s: "itoa (- v) (\<lambda>i. ?cb (i + 1)) 10 = Ok s" "is_cstr s (length ?t)" "bytes s (length ?t) = ?t"
    using itoa_text [of 10 "- v" "\<lambda>i. ?cb (i + 1)"] by auto
  define b where "b = (\<lambda>i. if i \<ge> 1 then s (i - 1) else ?cb i)"
  have len: "Suc (length ?t) < 2 ^ 32"
  proof -
    have "length (digits 10 (unat (- v))) \<le> 32" using unat_u32_lt [of "- v"] by (intro digits_length) auto
    then show ?thesis by (simp add: number_text_def)
  qed
  have b0: "b 0 = of_char CHR ''-''" by (simp add: b_def)
  have bS: "b (of_nat (Suc i)) = s (of_nat i)" if "i \<le> length ?t" for i
  proof -
    have "unat (of_nat (Suc i) :: u32) = Suc i" using that len by (intro unat_of_nat_u32) simp
    then have "1 \<le> (of_nat (Suc i) :: u32)" by (simp add: word_le_nat_alt)
    then show ?thesis by (simp add: b_def)
  qed
  have "is_cstr b (Suc (length ?t))"
    unfolding is_cstr_def
  proof (intro conjI allI impI)
    show "b (of_nat (Suc (length ?t))) = 0" using bS [of "length ?t"] s(2) by (simp add: is_cstr_def)
    fix i
    assume "i < Suc (length ?t)"
    then show "b (of_nat i) \<noteq> 0" using b0 bS [of "i - 1"] s(2) by (cases i) (auto simp: is_cstr_def)
  qed (use len in simp)
  moreover have "bytes b (Suc (length ?t)) = of_char CHR ''-'' # ?t"
  proof (rule nth_equalityI)
    fix i
    assume "i < length (bytes b (Suc (length ?t)))"
    then have i: "i < Suc (length ?t)" by simp
    have "?t ! j = s (of_nat j)" if "j < length ?t" for j using s(3) that nth_bytes [of j "length ?t" s] by simp
    then show "bytes b (Suc (length ?t)) ! i = (of_char CHR ''-'' # ?t) ! i"
      using i b0 bS [of "i - 1"] by (cases i) auto
  qed simp
  moreover have "signed_text cb v = Ok b"
    using True s(1) by (simp add: signed_text_def Let_def b_def cong: if_cong)
  ultimately show ?thesis using True by (simp add: conv_text_def Let_def)
qed

text \<open>The string argument \<open>v\<close> of a \<open>%s\<close>: a terminated string outside the buffer that is printed to.\<close>

definition string_at :: "(u32 \<Rightarrow> u8 list) \<Rightarrow> u32 \<Rightarrow> memory \<Rightarrow> u32 \<Rightarrow> bool" where
  "string_at str tty m v \<longleftrightarrow> is_cstr (ptr m v) (length (str v)) \<and> bytes (ptr m v) (length (str v)) = str v \<and>
     disjoint_runs (video_buff tty) 4000 v (Suc (length (str v)))"

lemma conversion_text:
  assumes "c = of_char CHR ''s'' \<longrightarrow> string_at str (active_term s) (mem s) v"
  shows "conversion cb alt c v s =
     Ok (conv_args c, fold (\<lambda>c. putc c (active_term s)) (conv_text str alt c v) s)"
proof -
  obtain h where h: "itoa v cb 16 = Ok h" "is_cstr h (length (number_text 16 (unat v)))"
    "bytes h (length (number_text 16 (unat v))) = number_text 16 (unat v)"
    using itoa_text [of 16 v cb] by auto
  obtain d where d: "itoa v cb 10 = Ok d" "is_cstr d (length (number_text 10 (unat v)))"
    "bytes d (length (number_text 10 (unat v))) = number_text 10 (unat v)"
    using itoa_text [of 10 v cb] by auto
  obtain p where p: "hex_padded cb v = Ok p" "is_cstr p 8"
    "bytes p 8 = replicate (8 - length (number_text 16 (unat v))) (of_char CHR ''0'') @ number_text 16 (unat v)"
    using hex_padded_text [of cb v] by auto
  obtain g where g: "signed_text cb v = Ok g"
    "is_cstr g (length (conv_text str alt (of_char CHR ''d'') v))"
    "bytes g (length (conv_text str alt (of_char CHR ''d'') v)) = conv_text str alt (of_char CHR ''d'') v"
    using signed_text_eq [of cb v str alt] by (auto simp: Let_def)
  have p8: "length (replicate (8 - length (number_text 16 (unat v))) (of_char CHR ''0'' :: u8) @ number_text 16 (unat v)) = 8"
    using number_text_le [of v] by simp
  note ph = puts_active_text [OF h(2,3), of s] and pd = puts_active_text [OF d(2,3), of s]
    and pg = puts_active_text [OF g(2,3), of s]
    and pp = puts_active_text [of p "replicate (8 - length (number_text 16 (unat v))) (of_char CHR ''0'') @ number_text 16 (unat v)" s, unfolded p8, OF p(2,3)]
  have ps: "puts_active (ptr (mem s) v) s = Ok (fold (\<lambda>c. putc c (active_term s)) (str v) s)" if "c = of_char CHR ''s''"
    using assms that by (intro puts_active_text) (auto simp: string_at_def)
  consider "c = of_char CHR ''%''" | "c = of_char CHR ''x''" | "c = of_char CHR ''u''" | "c = of_char CHR ''d''"
    | "c = of_char CHR ''c''" | "c = of_char CHR ''s''"
    | "c \<noteq> of_char CHR ''%''" "c \<notin> of_char ` {CHR ''x'', CHR ''u'', CHR ''d'', CHR ''c'', CHR ''s''}"
    by auto
  then show ?thesis
  proof cases
    case 2
    then show ?thesis using h(1) p(1) ph pp by (simp add: conversion_def conv_args_def conv_text_def)
  next
    case 3
    then show ?thesis using d(1) pd by (simp add: conversion_def conv_args_def conv_text_def)
  next
    case 4
    then show ?thesis using g(1) pg by (simp add: conversion_def conv_args_def)
  next
    case 6
    then show ?thesis using ps by (simp add: conversion_def conv_args_def conv_text_def)
  qed (auto simp: conversion_def conv_args_def conv_text_def)
qed


fun strings_at :: "(u32 \<Rightarrow> bool) \<Rightarrow> (nat \<Rightarrow> u32) \<Rightarrow> nat \<Rightarrow> bool option \<Rightarrow> u8 list \<Rightarrow> bool" where
  "strings_at ok args esp mode [] \<longleftrightarrow> True"
| "strings_at ok args esp None (c # cs) \<longleftrightarrow>
     strings_at ok args esp (if c = of_char CHR ''%'' then Some False else None) cs"
| "strings_at ok args esp (Some a) (c # cs) \<longleftrightarrow>
     (if c = of_char CHR ''#'' then strings_at ok args esp (Some True) cs
      else (c = of_char CHR ''s'' \<longrightarrow> ok (args esp)) \<and> strings_at ok args (esp + conv_args c) None cs)"

lemma string_at_putc:
  assumes "on_screen tty s" and "string_at str tty (mem s) v"
  shows "string_at str tty (mem (putc c tty s)) v"
proof -
  have "ptr (mem (putc c tty s)) v (of_nat i) = ptr (mem s) v (of_nat i)" if "i \<le> length (str v)" for i
    using assms that disjoint_runs_outside [of "video_buff tty" 4000 v "Suc (length (str v))" i]
      putc_mem_outside [OF assms(1)] by (simp add: ptr_def string_at_def)
  then show ?thesis
    using assms(2) by (auto simp: string_at_def is_cstr_def list_eq_iff_nth_eq)
qed

lemma string_at_fold:
  "on_screen tty s \<Longrightarrow> string_at str tty (mem s) v \<Longrightarrow> string_at str tty (mem (fold (\<lambda>c. putc c tty) cs s)) v"
  by (induction cs arbitrary: s) (auto simp: string_at_putc putc_on_screen)

lemma active_term_fold [simp]: "active_term (fold (\<lambda>c. putc c tty) cs s) = active_term s"
  by (induction cs arbitrary: s) auto

lemma strings_at_mono:
  "strings_at ok args esp mode cs \<Longrightarrow> (\<And>v. ok v \<Longrightarrow> ok' v) \<Longrightarrow> strings_at ok' args esp mode cs"
  by (induction ok args esp mode cs rule: strings_at.induct) auto

lemma printf_loop_renders:
  assumes fmt: "is_cstr fmt n" and "k \<le> n" and "complete mode (drop k (bytes fmt n))"
    and "on_screen (active_term s) s"
    and "strings_at (string_at str (active_term s) (mem s)) args esp mode (drop k (bytes fmt n))"
  shows "printf_loop cb fmt args (of_nat k) esp mode s =
     Some (Ok (of_nat n, fold (\<lambda>c. putc c (active_term s)) (rendered str args esp mode (drop k (bytes fmt n))) s))"
  using assms(2-5)
proof (induction "n - k" arbitrary: k esp mode s)
  case 0
  then have "k = n" "mode = None" by auto
  then show ?case using fmt by (subst printf_loop.simps) (simp add: is_cstr_def)
next
  case (Suc d)
  let ?c = "fmt (of_nat k)" and ?rest = "drop (Suc k) (bytes fmt n)" and ?t = "active_term s"
  have k: "k < n" and hyp: "d = n - Suc k" "Suc k \<le> n" using Suc.hyps(2) by auto
  have c: "?c \<noteq> 0" and d: "drop k (bytes fmt n) = ?c # ?rest"
    using fmt k by (auto simp: is_cstr_def Cons_nth_drop_Suc [symmetric])
  have suc: "(of_nat k + 1 :: u32) = of_nat (Suc k)" by simp
  note IH = Suc.hyps(1) [OF hyp]
  show ?case
  proof (cases mode)
    case None
    show ?thesis
    proof (cases "?c = of_char CHR ''%''")
      case True
      then show ?thesis
        using IH [of "Some False" s esp] Suc.prems c None d
        by (subst printf_loop.simps) (simp add: suc del: of_nat_Suc)
    next
      case False
      have "strings_at (string_at str ?t (mem (putc ?c ?t s))) args esp None ?rest"
        using Suc.prems(3,4) None d False by (auto intro: strings_at_mono string_at_putc)
      then show ?thesis
        using IH [of None "putc ?c ?t s" esp] Suc.prems c None d False
        by (subst printf_loop.simps) (simp add: suc putc_on_screen del: of_nat_Suc)
    qed
  next
    case (Some alt)
    show ?thesis
    proof (cases "?c = of_char CHR ''#''")
      case True
      then show ?thesis
        using IH [of "Some True" s esp] Suc.prems Some d
        by (subst printf_loop.simps) (simp add: suc del: of_nat_Suc)
    next
      case False
      let ?s = "fold (\<lambda>c. putc c ?t) (conv_text str alt ?c (args esp)) s"
      have "strings_at (string_at str ?t (mem ?s)) args (esp + conv_args ?c) None ?rest"
        using Suc.prems(3,4) Some d False by (auto intro: strings_at_mono string_at_fold)
      moreover have "conversion cb alt ?c (args esp) s = Ok (conv_args ?c, ?s)"
        using Suc.prems(4) Some d False by (intro conversion_text) simp
      ultimately show ?thesis
        using IH [of None ?s "esp + conv_args ?c"] Suc.prems Some d False
        by (subst printf_loop.simps) (simp add: suc screen_text.fold_inv del: of_nat_Suc)
    qed
  qed
qed

lemma printf_renders:
  assumes "is_cstr fmt n" and "complete None (bytes fmt n)" and "on_screen (active_term s) s"
    and "strings_at (string_at str (active_term s) (mem s)) args 0 None (bytes fmt n)"
  shows "printf cb fmt args s =
     Ok (of_nat n, fold (\<lambda>c. putc c (active_term s)) (rendered str args 0 None (bytes fmt n)) s)"
  using printf_loop_renders [OF assms(1), of 0 None s str args 0 cb] assms(2-4) by (simp add: printf_def)

text \<open>
  C34. \<open>printf\<close> prints the format with every conversion (\<open>%%\<close>, \<open>%x\<close>, \<open>%#x\<close>, \<open>%u\<close>, \<open>%d\<close>, \<open>%c\<close>, \<open>%s\<close>)
  replaced by the text of its argument, arguments taken in order, on the active terminal, and returns
  the length of the format. The format must not end inside a conversion, and the strings of \<open>%s\<close> lie
  outside the video buffer.
\<close>
theorem printf_correct:
  assumes "is_cstr fmt n" and "complete None (bytes fmt n)" and "on_screen (active_term s) s"
    and "strings_at (string_at str (active_term s) (mem s)) args 0 None (bytes fmt n)"
  shows "\<exists>s'. printf cb fmt args s = Ok (of_nat n, s') \<and>
     abs_term (active_term s) s' =
       fold term_putc (rendered str args 0 None (bytes fmt n)) (abs_term (active_term s) s)"
  using printf_renders [OF assms] assms(3) by (simp add: screen_text.fold_abs)

theorem printf_correct_witness:
  "\<exists>s'. printf (\<lambda>_. 0) (lit ''%d:%#x:%s'') (\<lambda>i. if i = 0 then -42 else if i = 1 then 0xBEEF else 0x8000000) blank_lib =
       Ok (of_nat (length ''%d:%#x:%s''), s') \<and>
     abs_term (active_term blank_lib) s' =
       fold term_putc (rendered (\<lambda>_. []) (\<lambda>i. if i = 0 then -42 else if i = 1 then 0xBEEF else 0x8000000) 0 None
         (bytes (lit ''%d:%#x:%s'') (length ''%d:%#x:%s''))) (abs_term (active_term blank_lib) blank_lib)"
proof -
  have b: "is_cstr (lit ''%d:%#x:%s'') (length ''%d:%#x:%s'')"
    "bytes (lit ''%d:%#x:%s'') (length ''%d:%#x:%s'') = map of_char ''%d:%#x:%s''"
    by (rule is_cstr_lit; simp)+
  have "string_at (\<lambda>_. []) (active_term blank_lib) (mem blank_lib) 0x8000000"
    by (simp add: string_at_def is_cstr_def ptr_def blank_lib_def bytes_def disjoint_runs_def video_buff_def video_defs)
  then show ?thesis
    by (intro printf_correct b(1)) (simp_all add: b(2) del: list.size,
      simp_all add: on_screen_def blank_lib_def conv_args_def)
qed

end
