(* ===== verification/Paging.thy ===== *)
theory Paging
  imports Keyboard Printf
begin

text \<open>
  The paging manager of \<open>student-distrib/paging.c\<close> with the entry layouts of \<open>x86_desc.h\<close>: one page
  directory per process, a page table for the first 4MB used before the first process runs and
  another one shared by the processes. Entries are kept as 32-bit words and written field by field,
  as the bit-field structures do. The addresses of the tables are chosen by the linker and are
  arguments.
\<close>

record layout =
  page_directories_addr :: u32
  page_table_addr :: u32
  new_page_table_addr :: u32
  end_pit_handler_addr :: u32

text \<open>
  \<open>mem\<close> is memory as the loaded page directory shows it. Below 8MB every directory shows the same physical bytes; behind the program
  page at 128MB it shows the 4MB page frame that the directory's entry names. \<open>frames\<close> holds the bytes of the 4MB page frames that are
  not behind that page at the moment.
\<close>

record paging_state = kbd_state +
  process_number_global :: i32
  cr0 :: u32
  cr3 :: u32
  cr4 :: u32
  page_directories :: "nat \<Rightarrow> nat \<Rightarrow> u32"
  page_table :: "nat \<Rightarrow> u32"
  new_page_table :: "nat \<Rightarrow> u32"
  new_page_dir_addr :: u32
  frames :: "u32 \<Rightarrow> memory"

definition MAX_NUM_OF_PROCESSES :: u8 where "MAX_NUM_OF_PROCESSES = 8"
definition PROGRAM_IMG_ENTRY :: nat where "PROGRAM_IMG_ENTRY = 0x20"

section \<open>Bit fields\<close>

definition set_field :: "nat \<Rightarrow> nat \<Rightarrow> u32 \<Rightarrow> u32 \<Rightarrow> u32" where
  "set_field pos len v w = (w AND NOT (push_bit pos (mask len))) OR push_bit pos (v AND mask len)"

definition get_field :: "nat \<Rightarrow> nat \<Rightarrow> u32 \<Rightarrow> u32" where
  "get_field pos len w = drop_bit pos w AND mask len"

lemma get_set_field_same:
  "pos + len \<le> 32 \<Longrightarrow> get_field pos len (set_field pos len v w) = v AND mask len"
  by (rule bit_word_eqI) (auto simp: get_field_def set_field_def bit_simps)

lemma get_set_field_other:
  "pos + len \<le> pos' \<or> pos' + len' \<le> pos \<Longrightarrow> get_field pos len (set_field pos' len' v w) = get_field pos len w"
  by (rule bit_word_eqI) (auto simp: get_field_def set_field_def bit_simps dest: bit_imp_le_length)

lemma and_mask_small:
  assumes "unat (v :: u32) < 2 ^ n"
  shows "v AND mask n = v"
proof -
  have "unat (take_bit n v) = unat v" using assms by (simp add: unsigned_take_bit_eq take_bit_nat_eq_self)
  then show ?thesis by (simp add: take_bit_eq_mask word_unat_eq_iff)
qed

text \<open>Splitting an address at bit \<open>n\<close> and putting it together again.\<close>

lemma split_join: "push_bit n (drop_bit n a) OR (a AND mask n) = (a :: u32)"
  by (rule bit_word_eqI) (auto simp: bit_simps)

lemma drop_bit_join:
  assumes "unat (a :: u32) < 2 ^ (32 - n)" and "n \<le> 32"
  shows "drop_bit n (push_bit n a OR (b AND mask n)) = a"
proof -
  have "k < 32 - n" if "bit a k" for k
    using and_mask_small [OF assms(1)] that by (metis bit_and_iff bit_mask_iff)
  then show ?thesis by (intro bit_word_eqI) (fastforce simp: bit_simps)
qed

section \<open>Table entries\<close>

definition pte_write :: "u32 \<Rightarrow> u32 \<Rightarrow> u32 \<Rightarrow> u32 \<Rightarrow> u32 \<Rightarrow> u32 \<Rightarrow> u32" where
  "pte_write present read_write user_supervisor global page_addr w =
     (let w = set_field 0 1 present w; w = set_field 1 1 read_write w; w = set_field 2 1 user_supervisor w;
          w = set_field 3 1 0 w; w = set_field 4 1 0 w; w = set_field 5 1 0 w; w = set_field 6 1 0 w;
          w = set_field 7 1 0 w; w = set_field 8 1 global w; w = set_field 9 3 0 w
      in set_field 12 20 page_addr w)"

definition pde_KB_write :: "u32 \<Rightarrow> u32 \<Rightarrow> u32 \<Rightarrow> u32 \<Rightarrow> u32 \<Rightarrow> u32" where
  "pde_KB_write present read_write user_supervisor table_addr w =
     (let w = set_field 0 1 present w; w = set_field 1 1 read_write w; w = set_field 2 1 user_supervisor w;
          w = set_field 3 1 0 w; w = set_field 4 1 0 w; w = set_field 5 1 0 w; w = set_field 7 1 0 w;
          w = set_field 8 1 0 w; w = set_field 9 3 0 w
      in set_field 12 20 table_addr w)"

definition pde_MB_write :: "u32 \<Rightarrow> u32 \<Rightarrow> u32 \<Rightarrow> u32 \<Rightarrow> u32 \<Rightarrow> u32 \<Rightarrow> u32 \<Rightarrow> u32" where
  "pde_MB_write present read_write user_supervisor page_size global page_addr w =
     (let w = set_field 0 1 present w; w = set_field 1 1 read_write w; w = set_field 2 1 user_supervisor w;
          w = set_field 3 1 0 w; w = set_field 4 1 0 w; w = set_field 5 1 0 w; w = set_field 6 1 0 w;
          w = set_field 7 1 page_size w; w = set_field 8 1 global w; w = set_field 9 3 0 w;
          w = set_field 12 1 0 w
      in set_field 22 10 page_addr w)"

lemmas entry_writes = pte_write_def pde_KB_write_def pde_MB_write_def Let_def

lemma pte_write_fields:
  "get_field 0 1 (pte_write p rw us g a w) = p AND 1" "get_field 1 1 (pte_write p rw us g a w) = rw AND 1"
  "get_field 2 1 (pte_write p rw us g a w) = us AND 1" "get_field 12 20 (pte_write p rw us g a w) = a AND mask 20"
  by (simp_all add: entry_writes get_set_field_same get_set_field_other mask_eq_exp_minus_1 [of 1])

lemma pde_KB_write_fields:
  "get_field 0 1 (pde_KB_write p rw us a w) = p AND 1" "get_field 1 1 (pde_KB_write p rw us a w) = rw AND 1"
  "get_field 2 1 (pde_KB_write p rw us a w) = us AND 1" "get_field 7 1 (pde_KB_write p rw us a w) = 0"
  "get_field 12 20 (pde_KB_write p rw us a w) = a AND mask 20"
  by (simp_all add: entry_writes get_set_field_same get_set_field_other mask_eq_exp_minus_1 [of 1])

lemma pde_MB_write_fields:
  "get_field 0 1 (pde_MB_write p rw us ps g a w) = p AND 1" "get_field 1 1 (pde_MB_write p rw us ps g a w) = rw AND 1"
  "get_field 2 1 (pde_MB_write p rw us ps g a w) = us AND 1" "get_field 7 1 (pde_MB_write p rw us ps g a w) = ps AND 1"
  "get_field 22 10 (pde_MB_write p rw us ps g a w) = a AND mask 10"
  by (simp_all add: entry_writes get_set_field_same get_set_field_other mask_eq_exp_minus_1 [of 1])

lemmas entry_fields = pte_write_fields [unfolded One_nat_def] pde_KB_write_fields [unfolded One_nat_def]
  pde_MB_write_fields [unfolded One_nat_def]

section \<open>Operations\<close>

text \<open>
  Loading CR3. The bytes behind the program page (128MB to 132MB) are those of the page frame that the
  loaded directory has there; those shown before go back to the frame of the previous directory. When both
  directories name the same frame, both processes have the same bytes.
\<close>

definition in_program_page :: "u32 \<Rightarrow> bool" where
  "in_program_page a \<longleftrightarrow> SZ_128MB \<le> a \<and> a < SZ_128MB + SZ_4MB"

definition directory_at :: "layout \<Rightarrow> u32 \<Rightarrow> nat" where
  "directory_at L a = unat (a - page_directories_addr L) div 0x1000"

definition program_frame :: "layout \<Rightarrow> u32 \<Rightarrow> 'a paging_state_scheme \<Rightarrow> u32" where
  "program_frame L a s = get_field 22 10 (page_directories s (directory_at L a) PROGRAM_IMG_ENTRY)"

definition load_cr3 :: "layout \<Rightarrow> u32 \<Rightarrow> 'a paging_state_scheme \<Rightarrow> 'a paging_state_scheme" where
  "load_cr3 L v s =
     (let v = v AND 0xFFFFFFE7; fr = (frames s)(program_frame L (cr3 s) s := mem s)
      in s\<lparr>frames := fr, mem := (\<lambda>a. if in_program_page a then fr (program_frame L v s) a else mem s a), cr3 := v\<rparr>)"

definition enable_paging :: "u32 \<Rightarrow> 'a paging_state_scheme \<Rightarrow> 'a paging_state_scheme" where
  "enable_paging flags s = s\<lparr>cr4 := cr4 s OR flags, cr0 := cr0 s OR 0x80000000\<rparr>"

definition init_paging :: "layout \<Rightarrow> 'a paging_state_scheme \<Rightarrow> i32 \<times> 'a paging_state_scheme" where
  "init_paging L s =
     (let s = s\<lparr>process_number_global := 0\<rparr>;
          s = s\<lparr>page_table := (\<lambda>i. if i < 1024 then pte_write (if i = 0 then 0 else 1) 0 0 0 (of_nat i) (page_table s i)
                                  else page_table s i)\<rparr>;
          d = page_directories s 0;
          d = d(0 := pde_KB_write 1 0 0 (drop_bit 12 (page_table_addr L)) (d 0));
          d = d(1 := pde_MB_write 1 1 0 1 1 1 (d 1));
          d = (\<lambda>i. if 2 \<le> i \<and> i < 1024 then pde_MB_write 0 1 0 0 0 (of_nat i) (d i) else d i);
          s = s\<lparr>page_directories := (page_directories s)(0 := d)\<rparr>;
          s = load_cr3 L (page_directories_addr L) s
      in (0, enable_paging 0x10 s))"

definition setup_new_task :: "layout \<Rightarrow> u8 \<Rightarrow> 'a paging_state_scheme \<Rightarrow> i32 \<times> 'a paging_state_scheme" where
  "setup_new_task L process_number s =
     (if process_number \<ge> MAX_NUM_OF_PROCESSES then (-1, s)
      else
        (let n = unat process_number;
             s = s\<lparr>new_page_dir_addr := page_directories_addr L + 0x1000 * of_nat n\<rparr>;
             s = s\<lparr>new_page_table := (\<lambda>i. if i < 1024 then pte_write (if i = 0 then 0 else 1) 1 1 1 (of_nat i) (new_page_table s i)
                                         else new_page_table s i)\<rparr>;
             d = page_directories s n;
             d = d(0 := pde_KB_write 1 1 1 (drop_bit 12 (new_page_table_addr L)) (d 0));
             d = d(1 := pde_MB_write 1 1 0 1 1 1 (d 1));
             d = d(PROGRAM_IMG_ENTRY := pde_MB_write 1 1 1 1 0 (ucast process_number + 1) (d PROGRAM_IMG_ENTRY));
             s = s\<lparr>page_directories := (page_directories s)(n := d)\<rparr>;
             s = load_cr3 L (new_page_dir_addr s) s
         in (0, enable_paging 0x90 s)))"

section \<open>Address translation\<close>

text \<open>
  The two-level walk of the processor with 4MB pages enabled, in user or supervisor mode; \<open>tables\<close>
  gives the page table at a page frame.
\<close>

definition walk :: "(u32 \<Rightarrow> (nat \<Rightarrow> u32) option) \<Rightarrow> (nat \<Rightarrow> u32) \<Rightarrow> bool \<Rightarrow> u32 \<Rightarrow> u32 option" where
  "walk tables dir user va =
     (let pde = dir (unat (drop_bit 22 va))
      in if get_field 0 1 pde = 0 \<or> user \<and> get_field 2 1 pde = 0 then None
         else if get_field 7 1 pde = 1 then Some (push_bit 22 (get_field 22 10 pde) OR (va AND mask 22))
         else case tables (get_field 12 20 pde) of
                None \<Rightarrow> None
              | Some pt \<Rightarrow>
                  (let pte = pt (unat (drop_bit 12 va AND mask 10))
                   in if get_field 0 1 pte = 0 \<or> user \<and> get_field 2 1 pte = 0 then None
                      else Some (push_bit 12 (get_field 12 20 pte) OR (va AND mask 12))))"

definition tables_of :: "layout \<Rightarrow> 'a paging_state_scheme \<Rightarrow> u32 \<Rightarrow> (nat \<Rightarrow> u32) option" where
  "tables_of L s frame =
     (if frame = drop_bit 12 (new_page_table_addr L) then Some (new_page_table s)
      else if frame = drop_bit 12 (page_table_addr L) then Some (page_table s) else None)"

definition translate :: "layout \<Rightarrow> 'a paging_state_scheme \<Rightarrow> nat \<Rightarrow> bool \<Rightarrow> u32 \<Rightarrow> u32 option" where
  "translate L s n user va = walk (tables_of L s) (page_directories s n) user va"


lemma unat_drop_bit: "unat (drop_bit n (va :: u32)) = unat va div 2 ^ n"
proof -
  have "unat (drop_bit n va) = drop_bit n (unat va)"
    using unat_u32_lt [of va] by (simp add: unsigned_drop_bit_eq take_bit_nat_eq_self)
  then show ?thesis by (simp only: drop_bit_eq_div)
qed

lemma table_frame_small: "drop_bit 12 a AND mask 20 = drop_bit 12 (a :: u32)"
  using unat_u32_lt [of a] by (intro and_mask_small) (simp add: unat_drop_bit less_mult_imp_div_less)

text \<open>The directory of a process after \<open>setup_new_task\<close>.\<close>

lemma setup_new_task_state:
  fixes s :: "'a paging_state_scheme"
  assumes "p < 8" and "setup_new_task L p s = (r, s')"
  shows "r = 0"
    and "page_directories s' (unat p) 0 = pde_KB_write 1 1 1 (drop_bit 12 (new_page_table_addr L)) (page_directories s (unat p) 0)"
    and "page_directories s' (unat p) 1 = pde_MB_write 1 1 0 1 1 1 (page_directories s (unat p) 1)"
    and "page_directories s' (unat p) 32 = pde_MB_write 1 1 1 1 0 (ucast p + 1) (page_directories s (unat p) 32)"
    and "i \<noteq> 0 \<Longrightarrow> i \<noteq> 1 \<Longrightarrow> i \<noteq> 32 \<Longrightarrow> page_directories s' (unat p) i = page_directories s (unat p) i"
    and "q \<noteq> unat p \<Longrightarrow> page_directories s' q = page_directories s q"
    and "i < 1024 \<Longrightarrow> new_page_table s' i = pte_write (if i = 0 then 0 else 1) 1 1 1 (of_nat i) (new_page_table s i)"
    and "cr3 s' = (page_directories_addr L + 0x1000 * of_nat (unat p)) AND 0xFFFFFFE7"
proof -
  have np: "\<not> 8 \<le> p" using assms(1) by (simp add: not_le)
  have r: "r = fst (setup_new_task L p s)" and s': "s' = snd (setup_new_task L p s)" using assms(2) by simp_all
  note defs = setup_new_task_def MAX_NUM_OF_PROCESSES_def PROGRAM_IMG_ENTRY_def Let_def enable_paging_def load_cr3_def
  show "r = 0" using np unfolding r by (simp add: defs)
  show "page_directories s' (unat p) 0 = pde_KB_write 1 1 1 (drop_bit 12 (new_page_table_addr L)) (page_directories s (unat p) 0)"
    and "page_directories s' (unat p) 1 = pde_MB_write 1 1 0 1 1 1 (page_directories s (unat p) 1)"
    and "page_directories s' (unat p) 32 = pde_MB_write 1 1 1 1 0 (ucast p + 1) (page_directories s (unat p) 32)"
    and "i \<noteq> 0 \<Longrightarrow> i \<noteq> 1 \<Longrightarrow> i \<noteq> 32 \<Longrightarrow> page_directories s' (unat p) i = page_directories s (unat p) i"
    and "q \<noteq> unat p \<Longrightarrow> page_directories s' q = page_directories s q"
    and "i < 1024 \<Longrightarrow> new_page_table s' i = pte_write (if i = 0 then 0 else 1) 1 1 1 (of_nat i) (new_page_table s i)"
    and "cr3 s' = (page_directories_addr L + 0x1000 * of_nat (unat p)) AND 0xFFFFFFE7"
    using np unfolding s' by (simp_all add: defs)
qed

lemma u8_plus_one: "p < (8 :: u8) \<Longrightarrow> unat (ucast p + 1 :: u32) = unat p + 1"
  by (simp add: word_less_nat_alt unat_word_ariths unsigned_ucast_eq take_bit_nat_eq_self)

text \<open>
  The program page of process \<open>p\<close> is the 4MB frame \<open>p + 1\<close>, open to user mode; the kernel's page is
  mapped one to one and closed to user mode; the first 4MB are mapped one to one except page 0.
\<close>

lemma translate_program:
  assumes "p < 8" and "setup_new_task L p s = (r, s')" and "in_program_page va"
  shows "translate L s' (unat p) user va = Some (push_bit 22 (ucast p + 1) OR (va AND mask 22))"
proof -
  have "unat (drop_bit 22 va) = 32"
    using assms(3)
    by (simp add: unat_drop_bit in_program_page_def word_le_nat_alt word_less_nat_alt size_defs div_nat_eqI)
  moreover have "(ucast p + 1 :: u32) AND mask 10 = ucast p + 1"
    using u8_plus_one [OF assms(1)] assms(1) by (intro and_mask_small) (simp add: word_less_nat_alt)
  ultimately show ?thesis
    using setup_new_task_state(4) [OF assms(1,2)] by (simp add: translate_def walk_def Let_def entry_fields)
qed

lemma translate_kernel:
  assumes "p < 8" and "setup_new_task L p s = (r, s')" and "SZ_4MB \<le> va" and "va < SZ_8MB"
  shows "translate L s' (unat p) user va = (if user then None else Some va)"
proof -
  have d: "unat (drop_bit 22 va) = 1"
    using assms(3,4) by (simp add: unat_drop_bit word_le_nat_alt word_less_nat_alt size_defs div_nat_eqI)
  then have "drop_bit 22 va = 1" by (simp add: word_unat_eq_iff)
  then have "push_bit 22 1 OR (va AND mask 22) = va" using split_join [of 22 va] by simp
  moreover have "(1 :: u32) AND mask 10 = 1" by (intro and_mask_small) simp
  ultimately show ?thesis
    using setup_new_task_state(3) [OF assms(1,2)] d by (simp add: translate_def walk_def Let_def entry_fields)
qed

lemma translate_low:
  assumes "p < 8" and "setup_new_task L p s = (r, s')" and "va < SZ_4MB"
  shows "translate L s' (unat p) user va = (if va < SZ_4KB then None else Some va)"
proof -
  have d: "unat (drop_bit 22 va) = 0"
    using assms(3) by (simp add: unat_drop_bit word_less_nat_alt size_defs)
  define i where "i = unat (drop_bit 12 va AND mask 10)"
  have "unat va < 4194304" using assms(3) by (simp add: word_less_nat_alt size_defs)
  then have "unat (drop_bit 12 va) < 2 ^ 10" by (simp add: unat_drop_bit less_mult_imp_div_less)
  then have m: "drop_bit 12 va AND mask 10 = drop_bit 12 va" and i10: "i < 1024" and i: "i = unat va div 4096"
    by (simp_all add: and_mask_small i_def unat_drop_bit)
  have z: "va < SZ_4KB \<longleftrightarrow> i = 0" by (simp add: i word_less_nat_alt size_defs div_eq_0_iff)
  have a: "(of_nat i :: u32) AND mask 20 = drop_bit 12 va"
    using table_frame_small [of va] m by (simp add: i_def)
  have "tables_of L s' (drop_bit 12 (new_page_table_addr L)) = Some (new_page_table s')"
    by (simp add: tables_of_def)
  then show ?thesis
    using setup_new_task_state(2) [OF assms(1,2)] setup_new_task_state(7) [OF assms(1,2) i10] d z a split_join [of 12 va]
    by (cases "i = 0") (simp_all add: translate_def walk_def Let_def entry_fields table_frame_small i_def [symmetric])
qed

text \<open>Different processes have different frames behind the program page, and none of them is the kernel's.\<close>

lemma program_frames_distinct:
  fixes p q :: u8
  assumes "p < 8" "q < 8" "p \<noteq> q"
  shows "push_bit 22 (ucast p + 1) OR (a AND mask 22) \<noteq> (push_bit 22 (ucast q + 1) OR (b AND mask 22) :: u32)"
proof
  assume eq: "push_bit 22 (ucast p + 1) OR (a AND mask 22) = (push_bit 22 (ucast q + 1) OR (b AND mask 22) :: u32)"
  have u: "unat (ucast p + 1 :: u32) < 2 ^ (32 - 22)" "unat (ucast q + 1 :: u32) < 2 ^ (32 - 22)"
    using assms u8_plus_one by (simp_all add: word_less_nat_alt)
  have "(ucast p + 1 :: u32) = ucast q + 1"
    using drop_bit_join [OF u(1), of a] drop_bit_join [OF u(2), of b] eq by simp
  then have "unat p = unat q" using u8_plus_one assms(1,2) by (metis add_right_cancel)
  then show False using assms(3) by (simp add: word_unat_eq_iff)
qed

text \<open>
  The bytes of a program survive the run of another one exactly because their directories name different frames: what is stored behind
  the program page while directory \<open>b\<close> is loaded is gone again when \<open>a\<close> is back.
\<close>

lemma program_bytes_survive:
  assumes "cr3 s = a AND 0xFFFFFFE7" and "program_frame L (a AND 0xFFFFFFE7) s \<noteq> program_frame L (b AND 0xFFFFFFE7) s"
    and "t = load_cr3 L b s" and "in_program_page x"
  shows "mem (load_cr3 L a (t\<lparr>mem := m\<rparr>)) x = mem s x"
  using assms by (simp add: load_cr3_def Let_def program_frame_def)

lemma program_bytes_shared:
  assumes "cr3 s = a AND 0xFFFFFFE7" and "program_frame L (a AND 0xFFFFFFE7) s = program_frame L (b AND 0xFFFFFFE7) s"
    and "t = load_cr3 L b s" and "in_program_page x"
  shows "mem t x = mem s x" "mem (load_cr3 L a (t\<lparr>mem := m\<rparr>)) x = m x"
  using assms by (simp_all add: load_cr3_def Let_def program_frame_def)

section \<open>Properties of the address spaces\<close>

definition blank_paging :: paging_state where
  "blank_paging = kbd_state.extend blank_kbd
     (paging_state.fields 0 0 0 0 (\<lambda>_ _. 0) (\<lambda>_. 0) (\<lambda>_. 0) 0 (\<lambda>_ _. 0))"

definition sample_layout :: layout where
  "sample_layout = \<lparr>page_directories_addr = 0x420000, page_table_addr = 0x430000,
     new_page_table_addr = 0x431000, end_pit_handler_addr = 0x401000\<rparr>"

text \<open>
  C24. After \<open>setup_new_task\<close> for process \<open>p\<close> the processor's page walk gives: the program page at
  128MB is the 4MB frame \<open>p + 1\<close>, open to user mode; the kernel page is mapped one to one for the
  kernel and closed to user mode; the first 4MB are mapped one to one, user mode included, except
  page 0, which is unmapped. The other directories are unchanged.
\<close>
theorem task_address_space:
  assumes "p < 8" and "s' = snd (setup_new_task L p s)"
  shows "fst (setup_new_task L p s) = 0 \<and>
    (\<forall>va user. in_program_page va \<longrightarrow> translate L s' (unat p) user va = Some (push_bit 22 (ucast p + 1) OR (va AND mask 22))) \<and>
    (\<forall>va user. SZ_4MB \<le> va \<and> va < SZ_8MB \<longrightarrow> translate L s' (unat p) user va = (if user then None else Some va)) \<and>
    (\<forall>va user. va < SZ_4MB \<longrightarrow> translate L s' (unat p) user va = (if va < SZ_4KB then None else Some va)) \<and>
    (\<forall>q. q \<noteq> unat p \<longrightarrow> page_directories s' q = page_directories s q)"
proof -
  obtain r where r: "setup_new_task L p s = (r, s')" using assms(2) by (cases "setup_new_task L p s") simp
  show ?thesis
    using translate_program [OF assms(1) r] translate_kernel [OF assms(1) r] translate_low [OF assms(1) r]
      setup_new_task_state(1,6) [OF assms(1) r] r
    by simp
qed

theorem task_address_space_witness:
  "translate sample_layout (snd (setup_new_task sample_layout 3 blank_paging)) (unat (3 :: u8)) True 0x8048000 = Some 0x1048000 \<and>
    translate sample_layout (snd (setup_new_task sample_layout 3 blank_paging)) (unat (3 :: u8)) True 0x400000 = None \<and>
    translate sample_layout (snd (setup_new_task sample_layout 3 blank_paging)) (unat (3 :: u8)) False 0x400000 = Some 0x400000 \<and>
    translate sample_layout (snd (setup_new_task sample_layout 3 blank_paging)) (unat (3 :: u8)) True 0xB8000 = Some 0xB8000 \<and>
    translate sample_layout (snd (setup_new_task sample_layout 3 blank_paging)) (unat (3 :: u8)) False 0xFFF = None"
  using task_address_space [of 3 "snd (setup_new_task sample_layout 3 blank_paging)" sample_layout blank_paging]
  by (simp add: in_program_page_def size_defs mask_eq_exp_minus_1)

text \<open>
  C23. Memory isolation: two processes set up one after the other see different physical bytes behind
  their program pages, whatever the two virtual addresses, and a process other than number 0 never
  reaches the kernel's 4MB through its program page.
\<close>
theorem program_pages_isolated:
  assumes "p < 8" and "q < 8" and "p \<noteq> q"
    and "s1 = snd (setup_new_task L p s)" and "s2 = snd (setup_new_task L q s1)"
    and "in_program_page a" and "in_program_page b"
  shows "\<exists>x y. translate L s1 (unat p) True a = Some x \<and> translate L s2 (unat p) True a = Some x \<and>
    translate L s2 (unat q) True b = Some y \<and> x \<noteq> y \<and> (p \<noteq> 0 \<longrightarrow> \<not> (SZ_4MB \<le> x \<and> x < SZ_8MB))"
proof -
  obtain r r' where r: "setup_new_task L p s = (r, s1)" "setup_new_task L q s1 = (r', s2)"
    using assms(4,5) by (metis prod.collapse)
  let ?x = "push_bit 22 (ucast p + 1) OR (a AND mask 22) :: u32"
  have t: "translate L s1 (unat p) True a = Some ?x"
    using translate_program [OF assms(1) r(1) assms(6)] .
  have d: "page_directories s2 (unat p) = page_directories s1 (unat p)"
    by (rule setup_new_task_state(6) [OF assms(2) r(2)]) (use assms(3) in \<open>simp add: word_unat_eq_iff\<close>)
  have idx: "drop_bit 22 a = 0x20"
    using assms(6) unat_drop_bit [of 22 a]
    by (auto simp: in_program_page_def size_defs word_le_nat_alt word_less_nat_alt word_unat_eq_iff
        intro!: div_nat_eqI)
  have e: "page_directories s1 (unat p) 32 = pde_MB_write 1 1 1 1 0 (ucast p + 1) (page_directories s (unat p) 32)"
    using setup_new_task_state(4) [OF assms(1) r(1)] .
  have t2: "translate L s2 (unat p) True a = Some ?x"
    using t by (simp add: translate_def walk_def Let_def d idx e pde_MB_write_fields [unfolded One_nat_def] split: if_splits)
  have k: "\<not> (SZ_4MB \<le> ?x \<and> ?x < SZ_8MB)" if "p \<noteq> 0"
  proof
    assume "SZ_4MB \<le> ?x \<and> ?x < SZ_8MB"
    then have "unat ?x div 2 ^ 22 = 1"
      by (intro div_nat_eqI) (simp_all add: size_defs word_le_nat_alt word_less_nat_alt)
    then have "unat (drop_bit 22 ?x) = 1" by (simp only: unat_drop_bit)
    moreover have "drop_bit 22 ?x = ucast p + 1"
      using u8_plus_one [OF assms(1)] assms(1) by (intro drop_bit_join) (simp_all add: word_less_nat_alt)
    ultimately have "unat p = 0" using u8_plus_one [OF assms(1)] by simp
    then show False using that by (simp add: unat_eq_0)
  qed
  show ?thesis
    using t t2 k translate_program [OF assms(2) r(2) assms(7)] program_frames_distinct [OF assms(1-3)] by auto
qed

theorem program_pages_isolated_witness:
  "\<exists>x y. translate sample_layout (snd (setup_new_task sample_layout 1 blank_paging)) (unat (1 :: u8)) True 0x8048000 = Some x \<and>
    translate sample_layout (snd (setup_new_task sample_layout 2 (snd (setup_new_task sample_layout 1 blank_paging))))
      (unat (1 :: u8)) True 0x8048000 = Some x \<and>
    translate sample_layout (snd (setup_new_task sample_layout 2 (snd (setup_new_task sample_layout 1 blank_paging))))
      (unat (2 :: u8)) True 0x83FFFFF = Some y \<and> x \<noteq> y \<and> ((1 :: u8) \<noteq> 0 \<longrightarrow> \<not> (SZ_4MB \<le> x \<and> x < SZ_8MB))"
  by (rule program_pages_isolated) (simp_all add: in_program_page_def size_defs)

end
