(* ===== verification/Process.thy ===== *)
theory Process
  imports Paging
begin

text \<open>
  Processes and system calls: \<open>student-distrib/syscalls.c\<close>. A process control block (PCB) lies at
  the top of the 8KB kernel stack of its process; the model keeps the PCBs in a store indexed by
  that address, so that the two ways of finding a PCB in the code (from the process number and from
  a stack pointer rounded down to 8KB) are address computations here too.
\<close>

section \<open>State\<close>

text \<open>The five file operation tables; a descriptor points to one of them or is null.\<close>

datatype fops = Stdin_Fops | Stdout_Fops | Rtc_Fops | File_Fops | Dir_Fops

record file_descriptor =
  jumptable :: "fops option"
  fd_inode :: u32
  fileposition :: i32
  flags :: i32

record pcb =
  fds :: "nat \<Rightarrow> file_descriptor"
  filenames :: "nat \<Rightarrow> cstr"
  parent_ksp :: u32
  parent_kbp :: u32
  process_number :: u8
  parent_process_number :: u8
  argbuf :: cstr
  has_child :: u32
  tty_number :: u32
  ksp_before_change :: u32
  kbp_before_change :: u32

record kernel_state = paging_state +
  running_processes :: u8
  kernel_stack_bottom :: u32
  page_dir_addr :: u32
  current_process_number :: u8
  tss_esp0 :: u32
  esp :: u32
  ebp :: u32
  page_dir_addr1 :: u32
  pcbs :: "u32 \<Rightarrow> pcb"

text \<open>
  What a system call meets that its arguments do not fix: the addresses chosen by the linker, the
  devices, the interrupt handlers that run while it waits, the address of its local \<open>buf[4]\<close>, and
  the previous contents of its uninitialised locals.
\<close>

record 's env =
  lay :: layout
  dev :: device
  irqs :: "('s \<Rightarrow> 's) list"
  buf_addr :: u32
  dentry0 :: dentry
  conv_buf0 :: cstr
  fname0 :: cstr
  localargbuf0 :: cstr
  entry_point0 :: u32

text \<open>How a call ends: it returns, enters user mode at an address, or makes the parent's \<open>execute\<close> return.\<close>

datatype exit = Ret i32 | To_User u32 | Execute_Returns i32

definition IN_USE :: i32 where "IN_USE = 1"
definition NOT_IN_USE :: i32 where "NOT_IN_USE = 0"
definition PROGRAM_LOAD_ADDR :: u32 where "PROGRAM_LOAD_ADDR = 0x08048000"
definition ENTRY_POINT_OFFSET :: u32 where "ENTRY_POINT_OFFSET = 24"

definition pcb_addr :: "u8 \<Rightarrow> u32" where
  "pcb_addr n = SZ_8MB - SZ_8KB * (ucast n + 1)"

definition stack_bottom :: "u8 \<Rightarrow> u32" where
  "stack_bottom n = SZ_8MB - SZ_8KB * ucast n - 4"

definition this_pcb_addr :: "'a kernel_state_scheme \<Rightarrow> u32" where
  "this_pcb_addr s = kernel_stack_bottom s AND ALIGN_8KB"

definition update_pcb :: "u32 \<Rightarrow> (pcb \<Rightarrow> pcb) \<Rightarrow> 'a kernel_state_scheme \<Rightarrow> 'a kernel_state_scheme" where
  "update_pcb a f s = s\<lparr>pcbs := (pcbs s)(a := f (pcbs s a))\<rparr>"

definition set_fd :: "nat \<Rightarrow> (file_descriptor \<Rightarrow> file_descriptor) \<Rightarrow> pcb \<Rightarrow> pcb" where
  "set_fd i f p = p\<lparr>fds := (fds p)(i := f (fds p i))\<rparr>"

definition get_tty_number :: "'a kernel_state_scheme \<Rightarrow> u32" where
  "get_tty_number s = tty_number (pcbs s (this_pcb_addr s))"

section \<open>Descriptors: open, close, read, write\<close>

definition no_function :: i32 where "no_function = 0"

definition open_stdin :: "nat \<Rightarrow> 'a kernel_state_scheme \<Rightarrow> 'a kernel_state_scheme" where
  "open_stdin fd s =
     update_pcb (this_pcb_addr s) (set_fd fd (\<lambda>d. d\<lparr>jumptable := Some Stdin_Fops, flags := IN_USE\<rparr>)) s"

definition open_stdout :: "nat \<Rightarrow> 'a kernel_state_scheme \<Rightarrow> 'a kernel_state_scheme" where
  "open_stdout fd s =
     update_pcb (this_pcb_addr s) (set_fd fd (\<lambda>d. d\<lparr>jumptable := Some Stdout_Fops, flags := IN_USE\<rparr>)) s"

text \<open>The loop of \<open>open\<close> looks for the first free descriptor from 2 on.\<close>

definition free_fd :: "pcb \<Rightarrow> nat option" where
  "free_fd p = find (\<lambda>i. flags (fds p i) = NOT_IN_USE) [2..<8]"

definition fops_of_type :: "u32 \<Rightarrow> fops option \<Rightarrow> fops option" where
  "fops_of_type t old =
     (if t = 0 then Some Rtc_Fops else if t = 1 then Some Dir_Fops
      else if t = 2 then Some File_Fops else old)"

definition open_file :: "'a kernel_state_scheme env \<Rightarrow> cstr \<Rightarrow> 'a kernel_state_scheme \<Rightarrow>
    (i32 \<times> 'a kernel_state_scheme) outcome" where
  "open_file E name s =
     (let a = this_pcb_addr s
      in if strncmp name (lit ''stdin'') 5 = 0 then Ok (0, open_stdin 0 s)
         else if strncmp name (lit ''stdout'') 5 = 0 then Ok (0, open_stdout 1 s)
         else obind (read_dentry_by_name name (dentry0 E) s) (\<lambda>(r, d).
           if r = -1 then Ok (-1, s)
           else case free_fd (pcbs s a) of
             None \<Rightarrow>
               obind (printf (conv_buf0 E) (lit ''The File Descriptor Array is Filled\<newline>'') (\<lambda>_. 0) s)
                 (\<lambda>(_, s). Ok (-1, s))
           | Some i \<Rightarrow>
               if filetype d = 0 \<and> rtc_open = -1 then Ok (-1, s)
               else obind (strcpy_arr 32 (filenames (pcbs s a) i) name) (\<lambda>nm.
                 Ok (of_nat i,
                   update_pcb a (\<lambda>p. (set_fd i (\<lambda>f. f\<lparr>jumptable := fops_of_type (filetype d) (jumptable f),
                                                   flags := IN_USE, fd_inode := dentry_inode d\<rparr>) p)
                                  \<lparr>filenames := (filenames p)(i := nm)\<rparr>) s))))"

definition fops_read :: "'a kernel_state_scheme env \<Rightarrow> fops option \<Rightarrow> u32 \<Rightarrow> i32 \<Rightarrow> cstr \<Rightarrow> u32 \<Rightarrow>
    'a kernel_state_scheme \<Rightarrow> (i32 \<times> 'a kernel_state_scheme) outcome" where
  "fops_read E t buf nbytes name pos s =
     (case t of
        None \<Rightarrow> Fault Null_Call
      | Some Stdin_Fops \<Rightarrow> terminal_read (irqs E) (get_tty_number s) buf nbytes s
      | Some Stdout_Fops \<Rightarrow> Ok (no_function, s)
      | Some Rtc_Fops \<Rightarrow> of_loop (rtc_read (irqs E) s)
      | Some File_Fops \<Rightarrow> file_read (dentry0 E) buf nbytes (Some name) pos s
      | Some Dir_Fops \<Rightarrow> dir_read buf s)"

definition fops_write :: "'a kernel_state_scheme env \<Rightarrow> fops option \<Rightarrow> u32 \<Rightarrow> i32 \<Rightarrow>
    'a kernel_state_scheme \<Rightarrow> (i32 \<times> 'a kernel_state_scheme) outcome" where
  "fops_write E t buf nbytes s =
     (case t of
        None \<Rightarrow> Fault Null_Call
      | Some Stdin_Fops \<Rightarrow> Ok (no_function, s)
      | Some Stdout_Fops \<Rightarrow> Ok (terminal_write (get_tty_number s) buf nbytes s)
      | Some Rtc_Fops \<Rightarrow> Ok (rtc_write (dev E) buf nbytes s)
      | Some File_Fops \<Rightarrow> Ok (file_write, s)
      | Some Dir_Fops \<Rightarrow> Ok (dir_write, s))"

definition fops_close :: "fops option \<Rightarrow> i32 outcome" where
  "fops_close t =
     (case t of
        None \<Rightarrow> Fault Null_Call
      | Some Stdin_Fops \<Rightarrow> Ok no_function
      | Some Stdout_Fops \<Rightarrow> Ok no_function
      | Some Rtc_Fops \<Rightarrow> Ok rtc_close
      | Some File_Fops \<Rightarrow> Ok file_close
      | Some Dir_Fops \<Rightarrow> Ok dir_close)"

definition bad_fd :: "i32 \<Rightarrow> i32 \<Rightarrow> pcb \<Rightarrow> bool" where
  "bad_fd lowest fd p \<longleftrightarrow> sint fd < sint lowest \<or> sint fd > 7 \<or> flags (fds p (unat fd)) = NOT_IN_USE"

definition sys_read :: "'a kernel_state_scheme env \<Rightarrow> i32 \<Rightarrow> u32 \<Rightarrow> i32 \<Rightarrow> 'a kernel_state_scheme \<Rightarrow>
    (i32 \<times> 'a kernel_state_scheme) outcome" where
  "sys_read E fd buf nbytes s =
     (let s = sti s; a = this_pcb_addr s; p = pcbs s a; i = unat fd
      in if bad_fd 0 fd p \<or> buf = NULL_PTR then Ok (-1, s)
         else obind (fops_read E (jumptable (fds p i)) buf nbytes (filenames p i) (fileposition (fds p i)) s)
           (\<lambda>(bytesread, s).
             Ok (bytesread, update_pcb a (set_fd i (\<lambda>d. d\<lparr>fileposition := fileposition d + bytesread\<rparr>)) s)))"

definition sys_write :: "'a kernel_state_scheme env \<Rightarrow> i32 \<Rightarrow> u32 \<Rightarrow> i32 \<Rightarrow> 'a kernel_state_scheme \<Rightarrow>
    (i32 \<times> 'a kernel_state_scheme) outcome" where
  "sys_write E fd buf nbytes s =
     (let p = pcbs s (this_pcb_addr s)
      in if bad_fd 0 fd p \<or> buf = NULL_PTR then Ok (-1, s)
         else fops_write E (jumptable (fds p (unat fd))) buf nbytes s)"

definition sys_close :: "i32 \<Rightarrow> 'a kernel_state_scheme \<Rightarrow> (i32 \<times> 'a kernel_state_scheme) outcome" where
  "sys_close fd s =
     (let a = this_pcb_addr s; p = pcbs s a; i = unat fd
      in if bad_fd 2 fd p then Ok (-1, s)
         else obind (fops_close (jumptable (fds p i))) (\<lambda>retval.
           Ok (retval, update_pcb a (set_fd i (\<lambda>d. d\<lparr>jumptable := None, fd_inode := 0, fileposition := 0,
                                                  flags := NOT_IN_USE\<rparr>)) s)))"

section \<open>Arguments and video memory\<close>

text \<open>\<open>strlen\<close> and \<open>strcpy\<close> on an array of \<open>cap\<close> bytes that must hold its terminator.\<close>

definition strlen_arr :: "nat \<Rightarrow> cstr \<Rightarrow> nat outcome" where
  "strlen_arr cap src =
     (case find (\<lambda>i. src (of_nat i) = 0) [0..<cap] of None \<Rightarrow> Fault Out_Of_Bounds | Some n \<Rightarrow> Ok n)"

definition copy_out :: "u32 \<Rightarrow> cstr \<Rightarrow> nat \<Rightarrow> memory \<Rightarrow> memory" where
  "copy_out buf src n m = fold (\<lambda>i m. m(buf + of_nat i := src (of_nat i))) [0..<Suc n] m"

definition getargs :: "u32 \<Rightarrow> i32 \<Rightarrow> 'a kernel_state_scheme \<Rightarrow> (i32 \<times> 'a kernel_state_scheme) outcome" where
  "getargs buf nbytes s =
     (if buf = NULL_PTR \<or> nbytes = 0 then Ok (-1, s)
      else (let p = pcbs s (this_pcb_addr s)
            in obind (strlen_arr 100 (argbuf p)) (\<lambda>n.
                 if of_nat n > nbytes then Ok (-1, s)
                 else Ok (0, s\<lparr>mem := copy_out buf (argbuf p) n (mem s)\<rparr>))))"

definition vidmap :: "u32 \<Rightarrow> 'a kernel_state_scheme \<Rightarrow> i32 \<times> 'a kernel_state_scheme" where
  "vidmap screen_start s =
     (if screen_start < SZ_128MB \<or> screen_start > SZ_128MB + SZ_4MB then (-1, s)
      else
        (let t = get_tty_number s
         in if t = 0 then (0, s\<lparr>mem := store32 (mem s) screen_start VIDEO_BUF1\<rparr>)
            else if t = 1 then (0, s\<lparr>mem := store32 (mem s) screen_start VIDEO_BUF2\<rparr>)
            else if t = 2 then (0, s\<lparr>mem := store32 (mem s) screen_start VIDEO_BUF3\<rparr>)
            else (0, s)))"

definition set_handler :: "i32 \<Rightarrow> u32 \<Rightarrow> i32" where "set_handler signum handler_address = 0"
definition sigreturn :: i32 where "sigreturn = 0"

section \<open>Setters and getters\<close>

definition set_running_processes :: "u8 \<Rightarrow> 'a kernel_state_scheme \<Rightarrow> 'a kernel_state_scheme" where
  "set_running_processes v s = s\<lparr>running_processes := v\<rparr>"
definition get_running_processes :: "'a kernel_state_scheme \<Rightarrow> u8" where
  "get_running_processes s = running_processes s"
definition set_kernel_stack_bottom :: "u32 \<Rightarrow> 'a kernel_state_scheme \<Rightarrow> 'a kernel_state_scheme" where
  "set_kernel_stack_bottom v s = s\<lparr>kernel_stack_bottom := v\<rparr>"
definition get_kernel_stack_bottom :: "'a kernel_state_scheme \<Rightarrow> u32" where
  "get_kernel_stack_bottom s = kernel_stack_bottom s"
definition set_page_dir_addr :: "u32 \<Rightarrow> 'a kernel_state_scheme \<Rightarrow> 'a kernel_state_scheme" where
  "set_page_dir_addr v s = s\<lparr>page_dir_addr := v\<rparr>"
definition get_page_dir_addr :: "'a kernel_state_scheme \<Rightarrow> u32" where
  "get_page_dir_addr s = page_dir_addr s"
definition set_current_process_number :: "u8 \<Rightarrow> 'a kernel_state_scheme \<Rightarrow> 'a kernel_state_scheme" where
  "set_current_process_number v s = s\<lparr>current_process_number := v\<rparr>"
definition get_current_process_number :: "'a kernel_state_scheme \<Rightarrow> u8" where
  "get_current_process_number s = current_process_number s"


section \<open>Starting programs\<close>

text \<open>
  The command is split at its first space: the name goes to \<open>fname[32]\<close>, the rest to
  \<open>localargbuf[1024]\<close>. \<^const>\<open>None\<close> inside the outcome is \<open>return -1\<close>.
\<close>

definition put_arr :: "nat \<Rightarrow> cstr \<Rightarrow> u32 \<Rightarrow> u8 \<Rightarrow> cstr outcome" where
  "put_arr cap arr i v = (if unat i < cap then Ok (arr(i := v)) else Fault Out_Of_Bounds)"

partial_function (option) parse_loop ::
  "cstr \<Rightarrow> u32 \<Rightarrow> bool \<Rightarrow> u32 \<Rightarrow> cstr \<Rightarrow> cstr \<Rightarrow> (u32 \<times> bool \<times> u32 \<times> cstr \<times> cstr) option outcome option" where
  "parse_loop command i first_space_reached length_of_fname fname localargbuf =
     (if command i \<noteq> 0 then
        if command i = of_char CHR '' '' \<and> \<not> first_space_reached then
          (case put_arr 32 fname i 0 of
             Ok fname \<Rightarrow> parse_loop command (i + 1) True i fname localargbuf
           | Fault e \<Rightarrow> Some (Fault e) | No_Return \<Rightarrow> Some No_Return)
        else if first_space_reached then
          (case put_arr 1024 localargbuf (i - length_of_fname - 1) (command i) of
             Ok localargbuf \<Rightarrow> parse_loop command (i + 1) first_space_reached length_of_fname fname localargbuf
           | Fault e \<Rightarrow> Some (Fault e) | No_Return \<Rightarrow> Some No_Return)
        else if i \<ge> 32 \<and> \<not> first_space_reached then Some (Ok None)
        else
          (case put_arr 32 fname i (command i) of
             Ok fname \<Rightarrow> parse_loop command (i + 1) first_space_reached length_of_fname fname localargbuf
           | Fault e \<Rightarrow> Some (Fault e) | No_Return \<Rightarrow> Some No_Return)
      else Some (Ok (Some (i, first_space_reached, length_of_fname, fname, localargbuf))))"

definition parse_command :: "cstr \<Rightarrow> cstr \<Rightarrow> cstr \<Rightarrow> (cstr \<times> cstr) option outcome" where
  "parse_command command fname localargbuf =
     obind (obind (of_loop (parse_loop command 0 False 0 fname localargbuf)) id) (\<lambda>r.
       case r of
         None \<Rightarrow> Ok None
       | Some (i, first_space_reached, length_of_fname, fname, localargbuf) \<Rightarrow>
           obind (put_arr 1024 localargbuf (i - length_of_fname - 1) 0) (\<lambda>localargbuf.
             if first_space_reached then Ok (Some (fname, localargbuf))
             else obind (put_arr 32 fname i 0) (\<lambda>fname. Ok (Some (fname, localargbuf)))))"

text \<open>The search for a free slot in the bit mask of running processes.\<close>

function slot_loop :: "nat \<Rightarrow> u8 \<Rightarrow> u8 \<Rightarrow> (u8 \<times> u8) option" where
  "slot_loop i bitmask running =
     (if i < 8 then
        if running AND bitmask = 0 then Some (of_nat i, bitmask)
        else (let bitmask = drop_bit 1 bitmask
              in if bitmask = 0 then None else slot_loop (Suc i) bitmask running)
      else None)"
  by pat_completeness auto
termination by (relation "measure (\<lambda>(i, b, r). 8 - i)") auto

declare slot_loop.simps [simp del]

definition open_slot :: "u8 \<Rightarrow> (u8 \<times> u8) option" where
  "open_slot running = slot_loop 0 0x80 running"

definition entry_bytes :: "u32 \<Rightarrow> memory \<Rightarrow> u32 \<Rightarrow> u32" where
  "entry_bytes buf m entry_point =
     fold (\<lambda>i e. e OR push_bit (8 * i) (ucast (m (buf + of_nat i)))) [0..<4] entry_point"

text \<open>
  \<open>to_the_user_space\<close> of \<open>interrupthandler.S\<close>: the flags it builds have interrupts enabled; the next
  entry into the kernel starts on the stack that the TSS names.
\<close>

definition to_the_user_space :: "u32 \<Rightarrow> 'a kernel_state_scheme \<Rightarrow> exit \<times> 'a kernel_state_scheme" where
  "to_the_user_space entry_point s =
     (let s = cli s in (To_User entry_point, s\<lparr>interrupts_on := True, esp := tss_esp0 s\<rparr>))"

definition clear_fds :: "pcb \<Rightarrow> pcb" where
  "clear_fds p = fold (\<lambda>i. set_fd i (\<lambda>d. d\<lparr>fd_inode := 0, fileposition := 0, flags := NOT_IN_USE\<rparr>)) [0..<8] p"

text \<open>The new PCB, from the stores of \<open>parent_ksp\<close> to those of \<open>process_number\<close>.\<close>

definition link_process :: "u8 \<Rightarrow> 'a kernel_state_scheme \<Rightarrow> 'a kernel_state_scheme" where
  "link_process open_process s =
     (let a = pcb_addr open_process; q = esp s AND ALIGN_8KB;
          s = update_pcb a (\<lambda>p. p\<lparr>parent_ksp := esp s, parent_kbp := ebp s\<rparr>) s;
          s = (if running_processes s = 0xC0
               then update_pcb a (\<lambda>p. p\<lparr>parent_process_number := 0, tty_number := 1\<rparr>) s
               else
                 (let s = update_pcb a (\<lambda>p. p\<lparr>parent_process_number := process_number (pcbs s q)\<rparr>) s;
                      s = update_pcb q (\<lambda>p. p\<lparr>has_child := 1\<rparr>) s
                  in update_pcb a (\<lambda>p. p\<lparr>tty_number := tty_number (pcbs s q)\<rparr>) s))
      in update_pcb a (\<lambda>p. p\<lparr>process_number := open_process\<rparr>) s)"

definition set_stack :: "u8 \<Rightarrow> 'a kernel_state_scheme \<Rightarrow> 'a kernel_state_scheme" where
  "set_stack n s = s\<lparr>tss_esp0 := stack_bottom n, kernel_stack_bottom := stack_bottom n\<rparr>"

definition open_std :: "'a kernel_state_scheme env \<Rightarrow> 'a kernel_state_scheme \<Rightarrow> 'a kernel_state_scheme outcome" where
  "open_std E s =
     obind (open_file E (lit ''stdin'') s) (\<lambda>(_, s).
     obind (open_file E (lit ''stdout'') s) (\<lambda>(_, s). Ok s))"

text \<open>\<open>execute\<close> from the loaded program to user mode.\<close>

definition start_process ::
  "'a kernel_state_scheme env \<Rightarrow> u8 \<Rightarrow> cstr \<Rightarrow> u32 \<Rightarrow> 'a kernel_state_scheme \<Rightarrow>
   (exit \<times> 'a kernel_state_scheme) outcome" where
  "start_process E open_process localargbuf entry_point s =
     (let a = pcb_addr open_process; s = link_process open_process s; s = update_pcb a clear_fds s
      in obind (strcpy_arr 100 (argbuf (pcbs s a)) localargbuf) (\<lambda>args.
           (let s = update_pcb a (\<lambda>p. p\<lparr>argbuf := args\<rparr>) s; s = set_stack open_process s
            in obind (open_std E s) (\<lambda>s. Ok (to_the_user_space entry_point s)))))"

definition ELF_MAGIC :: cstr where
  "ELF_MAGIC = (\<lambda>i. if i = 0 then 0x7F else if i = 1 then 0x45 else if i = 2 then 0x4C else if i = 3 then 0x46 else 0)"

definition execute ::
  "'a kernel_state_scheme env \<Rightarrow> u32 \<Rightarrow> 'a kernel_state_scheme \<Rightarrow> (exit \<times> 'a kernel_state_scheme) outcome" where
  "execute E command s =
     (if command = NULL_PTR then Ok (Ret (-1), s)
      else obind (parse_command (ptr (mem s) command) (fname0 E) (localargbuf0 E)) (\<lambda>r.
        case r of
          None \<Rightarrow> Ok (Ret (-1), s)
        | Some (fname, localargbuf) \<Rightarrow>
            obind (fs_read (dentry0 E) (Some fname) 0 (buf_addr E) 4 s) (\<lambda>(r, s).
            if r = -1 then Ok (Ret (-1), s)
            else if strncmp (ptr (mem s) (buf_addr E)) ELF_MAGIC 4 \<noteq> 0 then Ok (Ret (-1), s)
            else case open_slot (running_processes s) of
              None \<Rightarrow> Ok (Ret (-1), s)
            | Some (open_process, bitmask) \<Rightarrow>
                (let s = s\<lparr>running_processes := running_processes s OR bitmask,
                           current_process_number := open_process\<rparr>
                 in obind (fs_read (dentry0 E) (Some fname) ENTRY_POINT_OFFSET (buf_addr E) 4 s) (\<lambda>(r, s).
                    if r = -1 then Ok (Ret (-1), s)
                    else
                      (let entry_point = entry_bytes (buf_addr E) (mem s) 0;
                           (r, s) = setup_new_task (lay E) open_process s
                       in if r = -1 then Ok (Ret (-1), s)
                          else obind (fs_load (dentry0 E) (Some fname) PROGRAM_LOAD_ADDR s) (\<lambda>(_, s).
                                 start_process E open_process localargbuf entry_point s)))))))"

section \<open>Ending programs\<close>

definition halt_mask :: "u8 \<Rightarrow> u8" where
  "halt_mask n = ((\<lambda>bitmask. drop_bit 1 bitmask + 0x80) ^^ unat n) 0x7F"

definition restart_shell ::
  "'a kernel_state_scheme env \<Rightarrow> 'a kernel_state_scheme \<Rightarrow> (exit \<times> 'a kernel_state_scheme) outcome" where
  "restart_shell E s =
     obind (printf (conv_buf0 E) (lit ''Silly rabbit, trix are for kids.\<newline>'') (\<lambda>_. 0) s) (\<lambda>(_, s).
     obind (fs_read (dentry0 E) (Some (lit ''shell'')) ENTRY_POINT_OFFSET (buf_addr E) 4 s) (\<lambda>(r, s).
       if r = -1 then Ok (Ret (-1), s)
       else Ok (to_the_user_space (entry_bytes (buf_addr E) (mem s) (entry_point0 E)) s)))"

definition return_to_parent :: "layout \<Rightarrow> u8 \<Rightarrow> 'a kernel_state_scheme \<Rightarrow> exit \<times> 'a kernel_state_scheme" where
  "return_to_parent L status s =
     (let a = this_pcb_addr s;
          s = s\<lparr>running_processes := running_processes s AND halt_mask (process_number (pcbs s a))\<rparr>;
          s = s\<lparr>current_process_number := parent_process_number (pcbs s a)\<rparr>;
          s = update_pcb (pcb_addr (parent_process_number (pcbs s a))) (\<lambda>p. p\<lparr>has_child := 0\<rparr>) s;
          s = s\<lparr>page_dir_addr := page_directories_addr L + 0x1000 * ucast (parent_process_number (pcbs s a))\<rparr>;
          s = load_cr3 L (page_dir_addr s) s;
          s = enable_paging 0x90 s;
          s = set_stack (parent_process_number (pcbs s a)) s;
          s = s\<lparr>esp := parent_ksp (pcbs s a), ebp := parent_kbp (pcbs s a)\<rparr>
      in (Execute_Returns (ucast status), s))"

definition halt ::
  "'a kernel_state_scheme env \<Rightarrow> u8 \<Rightarrow> 'a kernel_state_scheme \<Rightarrow> (exit \<times> 'a kernel_state_scheme) outcome" where
  "halt E status s =
     (if parent_process_number (pcbs s (this_pcb_addr s)) = 0 then restart_shell E s
      else Ok (return_to_parent (lay E) status s))"


section \<open>Booting the three shells\<close>

definition push_words :: "u32 list \<Rightarrow> u32 \<Rightarrow> memory \<Rightarrow> memory" where
  "push_words ws sp m = snd (fold (\<lambda>w (sp, m). (sp - 4, store32 m (sp - 4) w)) ws (sp, m))"

definition switch_frame :: "layout \<Rightarrow> u32 \<Rightarrow> u32 \<Rightarrow> u32 list" where
  "switch_frame L entry_point ksb =
     [0x2B, 0x083FFFF0, 0, 0x23, entry_point, 0, 0, 0, 0, 0, 0, 0, 0, end_pit_handler_addr L, ksb]"

definition boot_shell ::
  "'a kernel_state_scheme env \<Rightarrow> u32 \<Rightarrow> u8 \<Rightarrow> 'a kernel_state_scheme \<Rightarrow> (bool \<times> 'a kernel_state_scheme) outcome" where
  "boot_shell E entry_point i s =
     (let (r, s) = setup_new_task (lay E) i s
      in if r = -1 then Ok (False, s)
         else obind (fs_load (dentry0 E) (Some (lit ''shell'')) PROGRAM_LOAD_ADDR s) (\<lambda>(_, s).
           (let a = pcb_addr i;
                s = update_pcb a (\<lambda>p. p\<lparr>parent_ksp := esp s, parent_kbp := ebp s,
                      parent_process_number := 0, process_number := i\<rparr>) s;
                s = update_pcb a clear_fds s;
                s = update_pcb a (\<lambda>p. p\<lparr>has_child := 0, tty_number := ucast i - 1\<rparr>) s;
                s = set_stack i s;
                s = (if i \<noteq> 1
                     then s\<lparr>mem := push_words (switch_frame (lay E) entry_point (kernel_stack_bottom s))
                                     (kernel_stack_bottom s) (mem s)\<rparr>
                     else s);
                s = update_pcb a (\<lambda>p. p\<lparr>ksp_before_change := kernel_stack_bottom s - 60,
                      kbp_before_change := kernel_stack_bottom s - 60\<rparr>) s
            in obind (open_std E s) (\<lambda>s. Ok (True, s)))))"

fun boot_shells ::
  "'a kernel_state_scheme env \<Rightarrow> u32 \<Rightarrow> u8 list \<Rightarrow> 'a kernel_state_scheme \<Rightarrow> (bool \<times> 'a kernel_state_scheme) outcome" where
  "boot_shells E entry_point [] s = Ok (True, s)"
| "boot_shells E entry_point (i # is) s =
     obind (boot_shell E entry_point i s) (\<lambda>(ok, s).
       if ok then boot_shells E entry_point is s else Ok (False, s))"

definition bootup ::
  "'a kernel_state_scheme env \<Rightarrow> 'a kernel_state_scheme \<Rightarrow> (exit \<times> 'a kernel_state_scheme) outcome" where
  "bootup E s =
     obind (fs_read (dentry0 E) (Some (lit ''shell'')) ENTRY_POINT_OFFSET (buf_addr E) 4 s) (\<lambda>(r, s).
       if r = -1 then Ok (Ret (-1), s)
       else
         (let entry_point = entry_bytes (buf_addr E) (mem s) 0
          in obind (boot_shells E entry_point [3, 2, 1] s) (\<lambda>(ok, s).
               if \<not> ok then Ok (Ret (-1), s)
               else
                 (let s = s\<lparr>mem := memcpy (mem s) VIDEO_BUF1 VIDEO SZ_4KB\<rparr>;
                      s = s\<lparr>mem := memcpy (mem s) VIDEO_BUF2 VIDEO SZ_4KB\<rparr>;
                      s = s\<lparr>mem := memcpy (mem s) VIDEO_BUF3 VIDEO SZ_4KB\<rparr>;
                      s = s\<lparr>running_processes := running_processes s OR 0x70\<rparr>;
                      s = s\<lparr>current_process_number := 1\<rparr>;
                      s = sti s
                  in Ok (to_the_user_space entry_point s)))))"

definition execute_test ::
  "'a kernel_state_scheme env \<Rightarrow> u32 \<Rightarrow> 'a kernel_state_scheme \<Rightarrow> 'a kernel_state_scheme outcome" where
  "execute_test E test_string s = obind (execute E test_string s) (\<lambda>(_, s). Ok s)"

section \<open>A kernel for evaluations\<close>

text \<open>
  The small image mounted; shells 1, 2 and 3 without parents, shell 1 current, each with its standard
  streams open.
\<close>

definition sample_fd :: "fops option \<Rightarrow> i32 \<Rightarrow> file_descriptor" where
  "sample_fd t f = \<lparr>jumptable = t, fd_inode = 0, fileposition = 0, flags = f\<rparr>"

definition sample_pcb :: "nat \<Rightarrow> pcb" where
  "sample_pcb p =
     \<lparr>fds = (\<lambda>i. if i = 0 then sample_fd (Some Stdin_Fops) IN_USE
               else if i = 1 then sample_fd (Some Stdout_Fops) IN_USE else sample_fd None NOT_IN_USE),
      filenames = (\<lambda>_ _. 0), parent_ksp = 0, parent_kbp = 0, process_number = of_nat p,
      parent_process_number = 0, argbuf = (\<lambda>_. 0), has_child = 0, tty_number = of_nat (p - 1),
      ksp_before_change = stack_bottom (of_nat p) - 60, kbp_before_change = stack_bottom (of_nat p) - 60\<rparr>"

definition sample_kernel :: kernel_state where
  "sample_kernel =
     paging_state.extend (blank_paging\<lparr>cr3 := 0x421000\<rparr>)
       (kernel_state.fields 0xF0 (stack_bottom 1) 0x421000 1 (stack_bottom 1) (stack_bottom 1) (stack_bottom 1) 0x421000
         (\<lambda>a. if a = pcb_addr 2 then sample_pcb 2 else if a = pcb_addr 3 then sample_pcb 3 else sample_pcb 1))"

definition sample_env :: "kernel_state env" where
  "sample_env =
     \<lparr>lay = sample_layout, dev = (\<lambda>_ _. 0), irqs = [], buf_addr = 0x7FDF00,
      dentry0 = \<lparr>filename = (\<lambda>_. 0xCC), filetype = 0xCC, dentry_inode = 0xCC\<rparr>,
      conv_buf0 = (\<lambda>_. 0xCC), fname0 = (\<lambda>_. 0xCC), localargbuf0 = (\<lambda>_. 0), entry_point0 = 0xCC\<rparr>"

lemma sample_kernel_simps [simp]:
  "running_processes sample_kernel = 0xF0" "current_process_number sample_kernel = 1"
  "kernel_stack_bottom sample_kernel = stack_bottom 1" "tss_esp0 sample_kernel = stack_bottom 1"
  "esp sample_kernel = stack_bottom 1" "cr3 sample_kernel = 0x421000"
  "pcbs sample_kernel = (\<lambda>a. if a = pcb_addr 2 then sample_pcb 2 else if a = pcb_addr 3 then sample_pcb 3 else sample_pcb 1)"
  by (simp_all add: sample_kernel_def paging_state.defs kernel_state.defs)

lemma sample_env_simps [simp]:
  "lay sample_env = sample_layout" "buf_addr sample_env = 0x7FDF00" "localargbuf0 sample_env = (\<lambda>_. 0)"
  by (simp_all add: sample_env_def)

end
