(* ===== verification/Scheduler.thy ===== *)
theory Scheduler
  imports Process
begin

text \<open>
  The timer interrupt of \<open>student-distrib/scheduler.c\<close>: a round-robin choice among the running
  processes that have no child, and the switch of page directory, kernel stack and saved stack
  pointers.
\<close>

definition pit_init :: "'a pic_state_scheme \<Rightarrow> 'a pic_state_scheme" where
  "pit_init s =
     (let s = outb 0x36 0x43 s;
          s = outb (36157 AND 0xFF) 0x40 s;
          s = outb (ucast (drop_bit 8 (36157 :: u32))) 0x40 s
      in enable_irq 0 s)"

text \<open>The search, from the process after the current one on; \<open>leafless p\<close> is \<open>has_child\<close> of process \<open>p\<close>.\<close>

partial_function (option) next_loop :: "u8 \<Rightarrow> u8 \<Rightarrow> (u8 \<Rightarrow> bool) \<Rightarrow> u8 \<Rightarrow> u8 \<Rightarrow> u8 option" where
  "next_loop current running parent next_process_number bitmask =
     (if next_process_number \<noteq> current then
        if bitmask AND (running AND 0x7F) \<noteq> 0 \<and> \<not> parent next_process_number then Some next_process_number
        else next_loop current running parent ((next_process_number + 1) mod 8)
               (if drop_bit 1 bitmask = 0 then 0x80 else drop_bit 1 bitmask)
      else Some next_process_number)"

definition next_process :: "'a kernel_state_scheme \<Rightarrow> u8 option" where
  "next_process s =
     (let current = get_current_process_number s; first = (current + 1) mod 8
      in next_loop current (get_running_processes s) (\<lambda>p. has_child (pcbs s (pcb_addr p)) \<noteq> 0)
           first ((drop_bit 1 ^^ unat first) 0x80))"

definition switch_to :: "layout \<Rightarrow> u8 \<Rightarrow> 'a kernel_state_scheme \<Rightarrow> 'a kernel_state_scheme" where
  "switch_to L next s =
     (let a = pcb_addr (get_current_process_number s);
          s = update_pcb a (\<lambda>p. p\<lparr>ksp_before_change := esp s\<rparr>) s;
          s = update_pcb a (\<lambda>p. p\<lparr>kbp_before_change := ebp s\<rparr>) s;
          s = set_current_process_number next s;
          s = set_process_term_number (tty_number (pcbs s a)) s;
          s = set_page_dir_addr (page_directories_addr L + 0x1000 * ucast next) s;
          s = s\<lparr>page_dir_addr1 := page_directories_addr L + 0x1000 * ucast next\<rparr>;
          s = load_cr3 L (page_dir_addr1 s) s;
          s = enable_paging 0x90 s;
          s = s\<lparr>tss_esp0 := stack_bottom next\<rparr>;
          s = set_kernel_stack_bottom (stack_bottom next) s;
          s = s\<lparr>esp := ksp_before_change (pcbs s (pcb_addr next))\<rparr>
      in s\<lparr>ebp := kbp_before_change (pcbs s (pcb_addr next))\<rparr>)"

definition pit_interruption :: "layout \<Rightarrow> 'a kernel_state_scheme \<Rightarrow> 'a kernel_state_scheme option" where
  "pit_interruption L s =
     (let s = cli s; s = send_eoi 0 s
      in case next_process s of
           None \<Rightarrow> None
         | Some next \<Rightarrow>
             if get_current_process_number s = next then Some s else Some (switch_to L next s))"

end
