(* ===== verification/Process_Table.thy ===== *)
theory Process_Table
  imports Scheduler
begin

text \<open>
  The process table: the bit mask of running processes, the parent links in the PCBs, and the
  registers that name the current process. Allocation, release and round-robin choice are shown to
  be those of a set of slots, and a context invariant is kept by starting a program, by ending one and
  by the timer interrupt.
\<close>

section \<open>The mask of running processes\<close>

definition slot_bit :: "nat \<Rightarrow> u8" where
  "slot_bit p = push_bit (7 - p) 1"

definition slots :: "u8 \<Rightarrow> nat set" where
  "slots r = {p. p < 8 \<and> bit r (7 - p)}"

lemma bit_slot_bit: "p < 8 \<Longrightarrow> bit (slot_bit p) k \<longleftrightarrow> k = 7 - p"
  by (auto simp: slot_bit_def bit_exp_iff possible_bit_def)

lemma and_slot_bit: "p < 8 \<Longrightarrow> r AND slot_bit p = 0 \<longleftrightarrow> p \<notin> slots r"
proof -
  assume p: "p < 8"
  have "r AND slot_bit p = 0 \<longleftrightarrow> (\<forall>k<8. \<not> (bit r k \<and> k = 7 - p))"
    using p by (simp add: bit_eq_iff bit_and_iff bit_slot_bit)
  also have "\<dots> \<longleftrightarrow> \<not> bit r (7 - p)" 
  proof -
    have "7 - p < 8" by simp
    then show ?thesis by blast
  qed
  finally show ?thesis using p by (simp add: slots_def)
qed

lemma drop_slot_bit: "p < 8 \<Longrightarrow> drop_bit 1 (slot_bit p) = (if p = 7 then 0 else slot_bit (Suc p))"
proof -
  assume p: "p < 8"
  show ?thesis
  proof (rule bit_word_eqI)
    fix n
    have "bit (drop_bit 1 (slot_bit p)) n \<longleftrightarrow> n + 1 = 7 - p"
      using p by (simp add: bit_drop_bit_eq bit_slot_bit)
    then show "bit (drop_bit 1 (slot_bit p)) n = bit (if p = 7 then 0 else slot_bit (Suc p)) n"
      using p by (auto simp: bit_slot_bit)
  qed
qed

lemma slot_bit_0: "slot_bit 0 = 0x80" by (simp add: slot_bit_def)

lemma slot_bit_neq_0: "p < 8 \<Longrightarrow> slot_bit p \<noteq> 0"
  using bit_slot_bit [of p "7 - p"] by auto

lemma slots_or: "p < 8 \<Longrightarrow> slots (r OR slot_bit p) = insert p (slots r)"
  by (auto simp: slots_def bit_or_iff bit_slot_bit)

lemma slot_loop_eq:
  "i \<le> 8 \<Longrightarrow> slot_loop i (if i = 8 then 0 else slot_bit i) r =
     (if i = 8 then None else map_option (\<lambda>p. (of_nat p, slot_bit p)) (find (\<lambda>p. p \<notin> slots r) [i..<8]))"
proof (induction i rule: inc_induct)
  case base
  then show ?case by (subst slot_loop.simps) simp
next
  case (step i)
  then have "[i..<8] = i # [Suc i..<8]" by (simp add: upt_rec)
  then show ?case
    using step and_slot_bit [of i r] drop_slot_bit [of i] slot_bit_neq_0 [of "Suc i"]
    by (subst slot_loop.simps) (auto simp: Let_def)
qed

lemma open_slot_eq:
  "open_slot r = map_option (\<lambda>p. (of_nat p, slot_bit p)) (find (\<lambda>p. p \<notin> slots r) [0..<8])"
  using slot_loop_eq [of 0 r] by (simp add: open_slot_def slot_bit_0)

lemma bit_shift_down: "bit (drop_bit 1 (m :: u8) + 0x80) k \<longleftrightarrow> k = 7 \<or> k < 7 \<and> bit m (Suc k)"
proof -
  have d: "bit (drop_bit 1 m) k \<longleftrightarrow> k < 7 \<and> bit m (Suc k)" for k
    using bit_imp_le_length [of m "Suc k"] by (auto simp: bit_drop_bit_eq)
  have h: "bit (0x80 :: u8) k \<longleftrightarrow> k = 7" for k
    using bit_slot_bit [of 0 k] by (simp add: slot_bit_0)
  have "drop_bit 1 m + 0x80 = drop_bit 1 m OR 0x80"
    by (rule disjunctive_add_eq_or) (rule bit_word_eqI, simp only: bit_and_iff d h, auto)
  then show ?thesis by (simp only: bit_or_iff d h) auto
qed

lemma halt_mask_bit: "p < 8 \<Longrightarrow> bit (halt_mask (of_nat p)) k \<longleftrightarrow> k < 8 \<and> k \<noteq> 7 - p"
proof -
  assume p: "p < 8"
  have rounds: "bit (((\<lambda>bitmask. drop_bit 1 bitmask + 0x80) ^^ j) (0x7F :: u8)) k \<longleftrightarrow> k < 8 \<and> k \<noteq> 7 - j"
    if "j < 8" for j k
    using that
  proof (induction j arbitrary: k)
    case 0
    have "(0x7F :: u8) = NOT (slot_bit 0)" by (simp add: slot_bit_0)
    then show ?case by (simp only: funpow_0 bit_not_iff) (auto simp: bit_slot_bit)
  next
    case (Suc j)
    note IH = Suc.IH [OF Suc_lessD [OF Suc.prems], of "Suc k"]
    show ?case by (simp only: funpow.simps o_apply bit_shift_down IH) (use Suc.prems in auto)
  qed
  have "unat (of_nat p :: u8) = p" using p by (simp add: unat_of_nat take_bit_nat_eq_self)
  then show ?thesis unfolding halt_mask_def using rounds [OF p] by simp
qed

lemma slots_halt: "p < 8 \<Longrightarrow> slots (r AND halt_mask (of_nat p)) = slots r - {p}"
  by (auto simp: slots_def bit_and_iff halt_mask_bit)

section \<open>The interface: a finite set of slots\<close>

locale slot_allocator =
  fixes used :: "'s \<Rightarrow> nat set" and alloc :: "'s \<Rightarrow> (nat \<times> 's) option" and release :: "nat \<Rightarrow> 's \<Rightarrow> 's"
    and n_slots :: nat
  assumes alloc_Some: "alloc s = Some (p, t) \<Longrightarrow> p < n_slots \<and> p \<notin> used s \<and> used t = insert p (used s)"
    and alloc_None: "alloc s = None \<longleftrightarrow> {..<n_slots} \<subseteq> used s"
    and release: "p < n_slots \<Longrightarrow> used (release p s) = used s - {p}"
begin

text \<open>A slot that was handed out is in use, and giving it back restores the set.\<close>

lemma alloc_release: "alloc s = Some (p, t) \<Longrightarrow> used (release p t) = used s"
  using alloc_Some release by fastforce

lemma alloc_distinct: "alloc s = Some (p, t) \<Longrightarrow> alloc t = Some (q, u) \<Longrightarrow> p \<noteq> q"
  using alloc_Some by blast

lemma release_makes_room: "p < n_slots \<Longrightarrow> alloc (release p s) \<noteq> None"
  using alloc_None release by fastforce

end

definition alloc_mask :: "u8 \<Rightarrow> (nat \<times> u8) option" where
  "alloc_mask r = map_option (\<lambda>(p, m). (unat p, r OR m)) (open_slot r)"

definition release_mask :: "nat \<Rightarrow> u8 \<Rightarrow> u8" where
  "release_mask p r = r AND halt_mask (of_nat p)"

lemma unat_of_nat_u8: "p < 8 \<Longrightarrow> unat (of_nat p :: u8) = p"
  by (simp add: unat_of_nat take_bit_nat_eq_self)

interpretation proc_slots: slot_allocator slots alloc_mask release_mask 8
proof unfold_locales
  fix r t p
  assume "alloc_mask r = Some (p, t)"
  then obtain q where q: "find (\<lambda>p. p \<notin> slots r) [0..<8] = Some q" and p: "p = unat (of_nat q :: u8)" "t = r OR slot_bit q"
    by (auto simp: alloc_mask_def open_slot_eq)
  then have "q < 8" "q \<notin> slots r" by (auto simp: find_Some_iff)
  then show "p < 8 \<and> p \<notin> slots r \<and> slots t = insert p (slots r)" using p by (simp add: unat_of_nat_u8 slots_or)
next
  fix r
  show "(alloc_mask r = None) = ({..<8} \<subseteq> slots r)"
    by (auto simp: alloc_mask_def open_slot_eq find_None_iff)
next
  fix p r
  assume "p < (8 :: nat)"
  then show "slots (release_mask p r) = slots r - {p}" by (simp add: release_mask_def slots_halt)
qed


section \<open>The round-robin choice\<close>

text \<open>The abstract scheduler: the first runnable process after the current one, cyclically.\<close>

definition pick :: "nat set \<Rightarrow> nat \<Rightarrow> nat" where
  "pick R c = (case find (\<lambda>q. q \<in> R) (map (\<lambda>k. (c + k) mod 8) [1..<8]) of None \<Rightarrow> c | Some q \<Rightarrow> q)"

lemma u8_less_8: "(p :: u8) < 8 \<longleftrightarrow> unat p < 8"
  by (simp add: word_less_nat_alt)

lemma u8_of_unat: "of_nat (unat p) = (p :: u8)"
  by (simp add: word_unat_eq_iff unat_of_nat take_bit_nat_eq_self)

lemma of_nat_u8_eq: "p < 8 \<Longrightarrow> q < 8 \<Longrightarrow> (of_nat p :: u8) = of_nat q \<longleftrightarrow> p = q"
  by (metis unat_of_nat_u8)

lemma u8_succ_mod: "q < 8 \<Longrightarrow> (of_nat q + 1 :: u8) mod 8 = of_nat (Suc q mod 8)"
proof -
  assume q: "q < 8"
  have "unat ((of_nat q + 1 :: u8) mod 8) = Suc q mod 8"
    using q by (simp add: unat_mod_distrib unat_word_ariths unat_of_nat_u8)
  moreover have "unat (of_nat (Suc q mod 8) :: u8) = Suc q mod 8" by (simp add: unat_of_nat_u8)
  ultimately show ?thesis by (simp add: word_unat_eq_iff)
qed

lemma mask_succ: "q < 8 \<Longrightarrow> (if drop_bit 1 (slot_bit q) = 0 then 0x80 else drop_bit 1 (slot_bit q)) = slot_bit (Suc q mod 8)"
  using drop_slot_bit [of q] slot_bit_neq_0 [of "Suc q"] by (cases "q = 7") (auto simp: slot_bit_0)

lemma runnable_mask:
  assumes "q < 8"
  shows "slot_bit q AND (r AND 0x7F) \<noteq> 0 \<longleftrightarrow> q \<noteq> 0 \<and> q \<in> slots r"
proof -
  have m: "bit (0x7F :: u8) k \<longleftrightarrow> k < 7" for k
  proof -
    have "(0x7F :: u8) = mask 7" by (simp add: mask_eq_exp_minus_1)
    then show ?thesis by (simp only: bit_mask_iff) (auto simp: possible_bit_def)
  qed
  have "slot_bit q AND (r AND 0x7F) = (r AND 0x7F) AND slot_bit q" by (simp add: and.commute)
  then show ?thesis
    using and_slot_bit [OF assms, of "r AND 0x7F"] m [of "7 - q"] assms
    by (simp add: slots_def bit_and_iff) linarith
qed

lemma next_loop_eq:
  assumes c: "c < 8" and "1 \<le> k" and "k \<le> 8"
  shows "next_loop (of_nat c) r par (of_nat ((c + k) mod 8)) (slot_bit ((c + k) mod 8)) =
     Some (of_nat (case find (\<lambda>q. q \<noteq> 0 \<and> q \<in> slots r \<and> \<not> par (of_nat q)) (map (\<lambda>k. (c + k) mod 8) [k..<8]) of
             None \<Rightarrow> c | Some q \<Rightarrow> q))"
  using assms(3,2)
proof (induction k rule: inc_induct)
  case base
  then show ?case using c by (subst next_loop.simps) simp
next
  case (step k)
  let ?q = "(c + k) mod 8"
  have q: "?q < 8" "Suc ?q mod 8 = (c + Suc k) mod 8" by (simp_all add: mod_Suc_eq)
  have "?q \<noteq> c" using step.hyps step.prems c by (cases "c + k < 8") (auto simp: mod_if)
  then have "(of_nat ?q :: u8) \<noteq> of_nat c" using q c of_nat_u8_eq by blast
  moreover have "[k..<8] = k # [Suc k..<8]" using step.hyps by (simp add: upt_rec)
  ultimately show ?case
    using step.IH step.prems runnable_mask [OF q(1), of r] u8_succ_mod [OF q(1)] mask_succ [OF q(1)] q(2)
    by (subst next_loop.simps) simp
qed

lemma shift_to_slot_bit: "p < 8 \<Longrightarrow> (drop_bit 1 ^^ p) 0x80 = slot_bit p"
proof (induction p)
  case 0
  then show ?case by (simp add: slot_bit_0)
next
  case (Suc p)
  have "(drop_bit 1 ^^ Suc p) (0x80 :: u8) = drop_bit 1 ((drop_bit 1 ^^ p) 0x80)" by (simp only: funpow.simps o_apply)
  also have "\<dots> = slot_bit (Suc p)" using Suc drop_slot_bit [of p] by (simp only: Suc_lessD) simp
  finally show ?case .
qed

text \<open>Processes that may be scheduled: running, not the idle slot 0, and without a child.\<close>

definition leaves :: "'a kernel_state_scheme \<Rightarrow> nat set" where
  "leaves s = {p \<in> slots (running_processes s). p \<noteq> 0 \<and> has_child (pcbs s (pcb_addr (of_nat p))) = 0}"

lemma next_process_eq:
  assumes "current_process_number s < 8"
  shows "next_process s = Some (of_nat (pick (leaves s) (unat (current_process_number s))))"
proof -
  define c where "c = unat (current_process_number s)"
  have c: "c < 8" "current_process_number s = of_nat c"
    using assms by (simp_all add: c_def u8_less_8 u8_of_unat)
  have one: "(of_nat c + 1 :: u8) mod 8 = of_nat ((c + 1) mod 8)" using u8_succ_mod [OF c(1)] by simp
  have u: "unat (of_nat ((c + 1) mod 8) :: u8) = (c + 1) mod 8" by (simp add: unat_of_nat_u8)
  have "(drop_bit 1 ^^ ((c + 1) mod 8)) (0x80 :: u8) = slot_bit ((c + 1) mod 8)"
    by (intro shift_to_slot_bit) simp
  then have "next_process s = next_loop (of_nat c) (running_processes s)
      (\<lambda>p. has_child (pcbs s (pcb_addr p)) \<noteq> 0) (of_nat ((c + 1) mod 8)) (slot_bit ((c + 1) mod 8))"
    using c one u by (simp only: next_process_def Let_def get_current_process_number_def get_running_processes_def)
  also have "\<dots> = Some (of_nat (pick (leaves s) c))"
  proof -
    have "(\<lambda>q. q \<in> leaves s) = (\<lambda>q. q \<noteq> 0 \<and> q \<in> slots (running_processes s) \<and>
        \<not> has_child (pcbs s (pcb_addr (of_nat q))) \<noteq> 0)"
      by (auto simp: leaves_def)
    then show ?thesis
      using next_loop_eq [OF c(1), of 1 "running_processes s" "\<lambda>p. has_child (pcbs s (pcb_addr p)) \<noteq> 0"]
      by (simp only: pick_def)
  qed
  finally show ?thesis by (simp add: c_def)
qed

lemma pick_in: "c < 8 \<Longrightarrow> pick R c = c \<or> pick R c \<in> R \<and> pick R c < 8"
  by (auto simp: pick_def find_Some_iff split: option.splits)

text \<open>No starvation: every runnable process is reached within seven choices.\<close>

definition cyclic_distance :: "nat \<Rightarrow> nat \<Rightarrow> nat" where
  "cyclic_distance c q = (if c \<le> q then q - c else q + 8 - c)"

lemma cyclic_distance_step:
  assumes "c < 8" and "q < 8" and "q \<noteq> c" and "1 \<le> j" and "j \<le> cyclic_distance c q"
  shows "cyclic_distance ((c + j) mod 8) q = cyclic_distance c q - j"
proof (cases "c + j < 8")
  case True
  then show ?thesis using assms by (auto simp: cyclic_distance_def)
next
  case False
  have "cyclic_distance c q < 8" using assms(1-3) by (auto simp: cyclic_distance_def)
  then have "c + j < 16" using assms(1,5) by linarith
  then have m: "(c + j) mod 8 = c + j - 8" using False by (simp add: le_mod_geq)
  have cq: "q < c" using assms(2,5) False by (auto simp: cyclic_distance_def split: if_splits)
  then have "j \<le> q + 8 - c" using assms(5) by (simp add: cyclic_distance_def)
  then have "c + j - 8 \<le> q" using assms(1) by linarith
  then show ?thesis using cq False by (simp add: m cyclic_distance_def)
qed

lemma pick_distance:
  assumes "c < 8" and "q \<in> R" and "q < 8" and "q \<noteq> c"
  shows "pick R c < 8 \<and> cyclic_distance (pick R c) q < cyclic_distance c q"
proof -
  define d where "d = cyclic_distance c q"
  have d: "1 \<le> d" "d < 8" using assms by (auto simp: d_def cyclic_distance_def)
  have dq: "(c + d) mod 8 = q"
    using assms by (auto simp: d_def cyclic_distance_def)
  let ?xs = "map (\<lambda>k. (c + k) mod 8) [1..<8]"
  have nth: "?xs ! i = (c + Suc i) mod 8" if "i < 7" for i using that by simp
  have "q \<in> set ?xs" using d dq by (auto simp: image_iff intro!: bexI [of _ d])
  then have "find (\<lambda>q. q \<in> R) ?xs \<noteq> None" unfolding find_None_iff using assms(2) by blast
  then obtain p where p: "find (\<lambda>q. q \<in> R) ?xs = Some p" by auto
  then obtain i where i: "i < 7" "?xs ! i = p" "\<forall>j<i. ?xs ! j \<notin> R"
    unfolding find_Some_iff by auto
  have "Suc i \<le> d"
  proof (rule ccontr)
    assume "\<not> Suc i \<le> d"
    then have "d - 1 < i" using d by linarith
    then have "?xs ! (d - 1) \<notin> R" using i(3) by blast
    then show False using nth [of "d - 1"] d dq assms(2) by simp
  qed
  moreover have pk: "pick R c = (c + Suc i) mod 8" using p i nth [OF i(1)] by (simp only: pick_def option.case)
  ultimately show ?thesis
    using cyclic_distance_step [OF assms(1,3,4), of "Suc i"] d unfolding pk d_def by simp
qed

lemma pick_reaches:
  assumes "c < 8" and "q \<in> R" and "q < 8"
  shows "\<exists>k \<le> cyclic_distance c q. (pick R ^^ k) c = q"
  using assms(1)
proof (induction "cyclic_distance c q" arbitrary: c rule: less_induct)
  case less
  show ?case
  proof (cases "q = c")
    case True
    then show ?thesis by (intro exI [of _ 0]) simp
  next
    case False
    note d = pick_distance [OF less.prems assms(2,3) False]
    then obtain k where "k \<le> cyclic_distance (pick R c) q" "(pick R ^^ k) (pick R c) = q"
      using less.hyps [of "pick R c"] by auto
    then show ?thesis using d by (intro exI [of _ "Suc k"]) (simp add: funpow_swap1)
  qed
qed

lemma no_starvation:
  assumes "c < 8" and "q \<in> R" and "q < 8"
  shows "\<exists>k \<le> 7. (pick R ^^ k) c = q"
proof -
  have "cyclic_distance c q \<le> 7" using assms by (auto simp: cyclic_distance_def)
  moreover obtain k where "k \<le> cyclic_distance c q" "(pick R ^^ k) c = q" using pick_reaches [OF assms] by blast
  ultimately show ?thesis by (intro exI [of _ k]) simp
qed

section \<open>Properties of the process table\<close>

text \<open>
  C26. \<open>execute\<close>'s slot search returns the lowest free process number together with its bit, adding
  the bit marks exactly that process as running, and the mask that \<open>halt\<close> computes for it takes
  exactly that process away again.
\<close>
theorem slot_round_trip:
  assumes "open_slot r = Some (p, b)"
  shows "unat p < 8 \<and> unat p \<notin> slots r \<and> (\<forall>q < unat p. q \<in> slots r) \<and>
    slots (r OR b) = insert (unat p) (slots r) \<and> slots ((r OR b) AND halt_mask p) = slots r"
proof -
  have a: "alloc_mask r = Some (unat p, r OR b)" using assms by (simp add: alloc_mask_def)
  have "(\<forall>q < unat p. q \<in> slots r)"
    using assms by (auto simp: open_slot_eq find_Some_iff unat_of_nat_u8)
  moreover have "release_mask (unat p) (r OR b) = (r OR b) AND halt_mask p"
    by (simp add: release_mask_def u8_of_unat)
  ultimately show ?thesis
    using proc_slots.alloc_Some [OF a] proc_slots.alloc_release [OF a] by simp
qed

theorem slot_round_trip_witness:
  "unat (4 :: u8) < 8 \<and> unat (4 :: u8) \<notin> slots 0xF2 \<and> 3 \<in> slots 0xF2 \<and>
    slots (0xF2 OR 0x08) = insert (unat (4 :: u8)) (slots 0xF2) \<and> slots ((0xF2 OR 0x08) AND halt_mask 4) = slots 0xF2"
proof -
  have "open_slot 0xF2 = Some (4, 0x08)" by (simp add: open_slot_def slot_loop.simps)
  from slot_round_trip [OF this] show ?thesis by simp
qed

text \<open>
  C25. The timer's choice is round robin among the running processes that have no child (slot 0
  excluded): the search always ends, picks the next such process in cyclic order, and every such
  process is picked within seven ticks.
\<close>
theorem round_robin_fair:
  assumes "current_process_number s < 8" and "q \<in> leaves s"
  shows "next_process s = Some (of_nat (pick (leaves s) (unat (current_process_number s)))) \<and>
    (\<exists>k \<le> 7. (pick (leaves s) ^^ k) (unat (current_process_number s)) = q)"
proof -
  have "q < 8" using assms(2) by (simp add: leaves_def slots_def)
  then show ?thesis
    using assms next_process_eq [OF assms(1)] no_starvation [of "unat (current_process_number s)" q "leaves s"]
    by (simp add: u8_less_8)
qed

theorem round_robin_fair_witness:
  "next_process sample_kernel = Some (of_nat (pick (leaves sample_kernel) (unat (current_process_number sample_kernel)))) \<and>
    (\<exists>k \<le> 7. (pick (leaves sample_kernel) ^^ k) (unat (current_process_number sample_kernel)) = 3)"
  by (rule round_robin_fair) (simp_all add: leaves_def slots_def sample_pcb_def)

end
