(* ===== verification/Context.thy ===== *)
theory Context
  imports Process_Table
begin

text \<open>
  The process tree and the context of the current process. The tree of the PCBs is abstracted to a
  small table machine (spawn, exit, switch), whose invariant is proved for every reachable table;
  the code's operations refine the machine and keep the registers in step with it: the kernel stack,
  the task state segment, the page directory and the saved stack pointers all belong to the process
  that the table says is current.
\<close>

section \<open>The table machine\<close>

record ptable =
  live :: "nat set"
  cur :: nat
  par :: "nat \<Rightarrow> nat"
  waits :: "nat \<Rightarrow> bool"

definition spawn :: "nat \<Rightarrow> ptable \<Rightarrow> ptable" where
  "spawn n T = T\<lparr>live := insert n (live T), cur := n, par := (par T)(n := cur T), waits := (waits T)(cur T := True)\<rparr>"

definition leave :: "ptable \<Rightarrow> ptable" where
  "leave T = T\<lparr>live := live T - {cur T}, cur := par T (cur T), waits := (waits T)(par T (cur T) := False)\<rparr>"

definition table_ok :: "ptable \<Rightarrow> bool" where
  "table_ok T \<longleftrightarrow> live T \<subseteq> {1..<8} \<and> cur T \<in> live T \<and> \<not> waits T (cur T) \<and>
     (\<forall>p\<in>live T. par T p \<noteq> 0 \<longrightarrow> par T p \<in> live T \<and> waits T (par T p)) \<and>
     (\<forall>p\<in>live T. \<forall>q\<in>live T. par T p = par T q \<and> par T p \<noteq> 0 \<longrightarrow> p = q) \<and>
     (\<forall>p\<in>live T. waits T p \<longrightarrow> (\<exists>q\<in>live T. par T q = p)) \<and>
     (\<forall>p\<in>{1..<8} - live T. \<not> waits T p)"

inductive table_step :: "ptable \<Rightarrow> ptable \<Rightarrow> bool" where
  spawn: "n \<in> {1..<8} - live T \<Longrightarrow> table_step T (spawn n T)"
| leave: "par T (cur T) \<noteq> 0 \<Longrightarrow> table_step T (leave T)"
| switch: "n \<in> live T \<Longrightarrow> \<not> waits T n \<Longrightarrow> table_step T (T\<lparr>cur := n\<rparr>)"

text \<open>The table that \<open>bootup\<close> leaves: shells 1, 2 and 3, all without parent, shell 1 current.\<close>

definition table_boot :: "ptable \<Rightarrow> bool" where
  "table_boot T \<longleftrightarrow> live T = {1, 2, 3} \<and> cur T = 1 \<and> (\<forall>p\<in>live T. par T p = 0) \<and> (\<forall>p\<in>{1..<8}. \<not> waits T p)"

lemma table_ok_spawn: "table_ok T \<Longrightarrow> n \<in> {1..<8} - live T \<Longrightarrow> table_ok (spawn n T)"
  unfolding table_ok_def spawn_def by auto

lemma table_ok_leave: "table_ok T \<Longrightarrow> par T (cur T) \<noteq> 0 \<Longrightarrow> table_ok (leave T)"
  unfolding table_ok_def leave_def by auto

lemma table_ok_switch: "table_ok T \<Longrightarrow> n \<in> live T \<Longrightarrow> \<not> waits T n \<Longrightarrow> table_ok (T\<lparr>cur := n\<rparr>)"
  unfolding table_ok_def by auto

interpretation process_table: transitions table_boot table_step table_ok
proof unfold_locales
  fix T
  assume "table_boot T"
  then show "table_ok T" by (auto simp: table_boot_def table_ok_def)
next
  fix T T'
  assume "table_ok T" "table_step T T'"
  from this(2,1) show "table_ok T'" by cases (auto intro: table_ok_spawn table_ok_leave table_ok_switch)
qed


section \<open>Addresses of PCBs and stacks\<close>

lemma less_8_cases: "p < 8 \<Longrightarrow> p \<in> {0, 1, 2, 3, 4, 5, 6, 7 :: nat}"
  by auto

lemma unat_pcb_addr: "p < 8 \<Longrightarrow> unat (pcb_addr (of_nat p)) = 8388608 - 8192 * Suc p"
  by (drule less_8_cases) (auto simp: pcb_addr_def size_defs)

lemma pcb_addr_inj: "p < 8 \<Longrightarrow> q < 8 \<Longrightarrow> pcb_addr (of_nat p) = pcb_addr (of_nat q) \<longleftrightarrow> p = q"
  using unat_pcb_addr [of p] unat_pcb_addr [of q] by auto

lemma ucast_of_nat_u8: "p < 8 \<Longrightarrow> (ucast (of_nat p :: u8) :: u32) = of_nat p"
  by (drule less_8_cases) auto

lemma stack_bottom_pcb: "p < 8 \<Longrightarrow> stack_bottom (of_nat p) AND ALIGN_8KB = pcb_addr (of_nat p)"
  by (drule less_8_cases) (auto simp: stack_bottom_def pcb_addr_def size_defs)

section \<open>The context invariant\<close>

definition proc :: "'a kernel_state_scheme \<Rightarrow> nat \<Rightarrow> pcb" where
  "proc s p = pcbs s (pcb_addr (of_nat p))"

definition abs_table :: "'a kernel_state_scheme \<Rightarrow> ptable" where
  "abs_table s =
     \<lparr>live = slots (running_processes s) - {0}, cur = unat (current_process_number s),
      par = (\<lambda>p. if p < 8 then unat (parent_process_number (proc s p)) else 0),
      waits = (\<lambda>p. p < 8 \<and> has_child (proc s p) \<noteq> 0)\<rparr>"

text \<open>
  The registers and the saved stack pointers agree with the table \<open>T\<close>: the kernel stack in use is
  that of the current process, a waiting parent's stack pointer is kept in its child's PCB, and that
  of a process that was switched away from is kept in its own.
\<close>

definition regs_ok :: "layout \<Rightarrow> ptable \<Rightarrow> 'a kernel_state_scheme \<Rightarrow> bool" where
  "regs_ok L T s \<longleftrightarrow>
     kernel_stack_bottom s = stack_bottom (of_nat (cur T)) \<and> tss_esp0 s = kernel_stack_bottom s \<and>
     cr3 s = (page_directories_addr L + 0x1000 * of_nat (cur T)) AND 0xFFFFFFE7 \<and>
     esp s AND ALIGN_8KB = pcb_addr (of_nat (cur T)) \<and>
     (\<forall>p\<in>live T. process_number (proc s p) = of_nat p \<and> tty_number (proc s p) < 3 \<and>
        (par T p \<noteq> 0 \<longrightarrow> parent_ksp (proc s p) AND ALIGN_8KB = pcb_addr (of_nat (par T p))) \<and>
        (p \<noteq> cur T \<and> \<not> waits T p \<longrightarrow> ksp_before_change (proc s p) AND ALIGN_8KB = pcb_addr (of_nat p)))"

definition ctx_ok :: "layout \<Rightarrow> 'a kernel_state_scheme \<Rightarrow> bool" where
  "ctx_ok L s \<longleftrightarrow> 0 \<in> slots (running_processes s) \<and> table_ok (abs_table s) \<and> regs_ok L (abs_table s) s"

lemma ctx_ok_cong:
  assumes "running_processes s' = running_processes s" and "kernel_stack_bottom s' = kernel_stack_bottom s"
    and "current_process_number s' = current_process_number s" and "tss_esp0 s' = tss_esp0 s"
    and "cr3 s' = cr3 s" and "esp s' = esp s" and "pcbs s' = pcbs s"
  shows "ctx_ok L s' = ctx_ok L s" and "abs_table s' = abs_table s"
proof -
  have p: "proc s' = proc s" by (auto simp: proc_def assms)
  show a: "abs_table s' = abs_table s" by (simp add: abs_table_def assms p cong: if_cong)
  show "ctx_ok L s' = ctx_ok L s" by (simp add: ctx_ok_def regs_ok_def a p assms)
qed

lemma ctx_ok_cur:
  assumes "ctx_ok L s"
  defines "c \<equiv> unat (current_process_number s)"
  shows "1 \<le> c" "c < 8" "current_process_number s = of_nat c" "c \<in> slots (running_processes s)"
    "this_pcb_addr s = pcb_addr (of_nat c)" "esp s AND ALIGN_8KB = pcb_addr (of_nat c)"
    "has_child (proc s c) = 0" "process_number (proc s c) = of_nat c"
proof -
  have t: "table_ok (abs_table s)" and r: "regs_ok L (abs_table s) s" and c: "cur (abs_table s) = c"
    using assms by (auto simp: ctx_ok_def abs_table_def)
  have "c \<in> live (abs_table s)" using t c by (auto simp: table_ok_def)
  then show c8: "1 \<le> c" "c < 8" and "c \<in> slots (running_processes s)"
    using t by (auto simp: table_ok_def abs_table_def)
  show "current_process_number s = of_nat c" by (simp add: c_def u8_of_unat)
  show "this_pcb_addr s = pcb_addr (of_nat c)"
    using r c stack_bottom_pcb [OF c8(2)] by (simp add: regs_ok_def this_pcb_addr_def)
  show "esp s AND ALIGN_8KB = pcb_addr (of_nat c)" using r c by (simp add: regs_ok_def)
  show "has_child (proc s c) = 0" using t c c8(2) by (simp add: table_ok_def abs_table_def)
  show "process_number (proc s c) = of_nat c"
    using r \<open>c \<in> live (abs_table s)\<close> by (simp add: regs_ok_def)
qed

section \<open>The timer interrupt\<close>

lemma load_cr3_frame [simp]:
  "running_processes (load_cr3 L v s) = running_processes s" "kernel_stack_bottom (load_cr3 L v s) = kernel_stack_bottom s"
  "current_process_number (load_cr3 L v s) = current_process_number s" "tss_esp0 (load_cr3 L v s) = tss_esp0 s"
  "esp (load_cr3 L v s) = esp s" "ebp (load_cr3 L v s) = ebp s" "pcbs (load_cr3 L v s) = pcbs s"
  "cr3 (load_cr3 L v s) = v AND 0xFFFFFFE7" "page_dir_addr1 (load_cr3 L v s) = page_dir_addr1 s"
  by (simp_all add: load_cr3_def Let_def)

lemma enable_paging_frame [simp]:
  "running_processes (enable_paging v s) = running_processes s" "kernel_stack_bottom (enable_paging v s) = kernel_stack_bottom s"
  "current_process_number (enable_paging v s) = current_process_number s" "tss_esp0 (enable_paging v s) = tss_esp0 s"
  "esp (enable_paging v s) = esp s" "ebp (enable_paging v s) = ebp s" "pcbs (enable_paging v s) = pcbs s"
  "cr3 (enable_paging v s) = cr3 s"
  by (simp_all add: enable_paging_def)

lemma update_pcb_frame [simp]:
  "running_processes (update_pcb a f s) = running_processes s" "kernel_stack_bottom (update_pcb a f s) = kernel_stack_bottom s"
  "current_process_number (update_pcb a f s) = current_process_number s" "tss_esp0 (update_pcb a f s) = tss_esp0 s"
  "esp (update_pcb a f s) = esp s" "ebp (update_pcb a f s) = ebp s" "cr3 (update_pcb a f s) = cr3 s"
  "pcbs (update_pcb a f s) = (pcbs s)(a := f (pcbs s a))" "mem (update_pcb a f s) = mem s"
  by (simp_all add: update_pcb_def)

lemma set_process_term_frame [simp]:
  "running_processes (set_process_term_number v s) = running_processes s"
  "kernel_stack_bottom (set_process_term_number v s) = kernel_stack_bottom s"
  "current_process_number (set_process_term_number v s) = current_process_number s"
  "tss_esp0 (set_process_term_number v s) = tss_esp0 s" "esp (set_process_term_number v s) = esp s"
  "ebp (set_process_term_number v s) = ebp s" "pcbs (set_process_term_number v s) = pcbs s"
  by (simp_all add: set_process_term_number_def)

lemma switch_to_fields:
  fixes s :: "'a kernel_state_scheme" and n :: u8 and L :: layout
  defines "t \<equiv> switch_to L n s"
  shows "running_processes t = running_processes s" "current_process_number t = n"
    "kernel_stack_bottom t = stack_bottom n" "tss_esp0 t = stack_bottom n"
    "cr3 t = (page_directories_addr L + 0x1000 * ucast n) AND 0xFFFFFFE7"
    "pcbs t = (pcbs s)(pcb_addr (current_process_number s) := (pcbs s (pcb_addr (current_process_number s)))
       \<lparr>ksp_before_change := esp s, kbp_before_change := ebp s\<rparr>)"
    "esp t = ksp_before_change (pcbs t (pcb_addr n))" "ebp t = kbp_before_change (pcbs t (pcb_addr n))"
  by (simp_all add: t_def switch_to_def Let_def set_current_process_number_def get_current_process_number_def
      set_page_dir_addr_def set_kernel_stack_bottom_def)


lemma proc_upd:
  "p < 8 \<Longrightarrow> q < 8 \<Longrightarrow> pcbs t = (pcbs s)(pcb_addr (of_nat q) := x) \<Longrightarrow> proc t p = (if p = q then x else proc s p)"
  by (simp add: proc_def pcb_addr_inj)

lemma switch_to_refines:
  assumes ok: "ctx_ok L s" and n: "n \<in> leaves s" "n \<noteq> unat (current_process_number s)"
  shows "abs_table (switch_to L (of_nat n) s) = (abs_table s)\<lparr>cur := n\<rparr>"
    and "ctx_ok L (switch_to L (of_nat n) s)"
proof -
  let ?t = "switch_to L (of_nat n) s" and ?c = "unat (current_process_number s)"
  note c = ctx_ok_cur [OF ok]
  have n8: "n < 8" "n \<in> slots (running_processes s)" "n \<noteq> 0" "has_child (proc s n) = 0"
    using n(1) by (auto simp: leaves_def slots_def proc_def)
  have cn: "current_process_number s = of_nat ?c" using c(3) .
  have pc: "pcbs ?t = (pcbs s)(pcb_addr (of_nat ?c) := (proc s ?c)\<lparr>ksp_before_change := esp s, kbp_before_change := ebp s\<rparr>)"
    using switch_to_fields(6) [of L "of_nat n" s] cn by (metis proc_def)
  have pr: "proc ?t p = (if p = ?c then (proc s ?c)\<lparr>ksp_before_change := esp s, kbp_before_change := ebp s\<rparr> else proc s p)"
    if "p < 8" for p
    using proc_upd [OF that c(2) pc] .
  have un: "unat (of_nat n :: u8) = n" using n8 by (simp add: unat_of_nat_u8)
  have uc: "(ucast (of_nat n :: u8) :: u32) = of_nat n" by (rule ucast_of_nat_u8 [OF n8(1)])
  have q: "parent_process_number (proc ?t p) = parent_process_number (proc s p)" "has_child (proc ?t p) = has_child (proc s p)"
    "process_number (proc ?t p) = process_number (proc s p)" "tty_number (proc ?t p) = tty_number (proc s p)"
    "parent_ksp (proc ?t p) = parent_ksp (proc s p)" if "p < 8" for p
    using pr [OF that] by simp_all
  show ab: "abs_table ?t = (abs_table s)\<lparr>cur := n\<rparr>"
    using q un by (auto simp: abs_table_def switch_to_fields)
  have T: "table_ok (abs_table s)" and R: "regs_ok L (abs_table s) s" and z: "0 \<in> slots (running_processes s)"
    using ok by (auto simp: ctx_ok_def)
  have live: "n \<in> live (abs_table s)" "\<not> waits (abs_table s) n" "cur (abs_table s) = ?c" "live (abs_table s) \<subseteq> {1..<8}"
    using n8 T by (auto simp: abs_table_def table_ok_def)
  have "esp ?t AND ALIGN_8KB = pcb_addr (of_nat n)"
    using R live n(2) pr [OF n8(1)] by (simp add: switch_to_fields(7) regs_ok_def flip: proc_def)
  moreover have "ksp_before_change (proc ?t p) AND ALIGN_8KB = pcb_addr (of_nat p)"
    if "p \<in> live (abs_table s)" "\<not> waits (abs_table s) p" for p
    using R that live c(6) pr [of p] by (cases "p = ?c") (auto simp: regs_ok_def)
  ultimately have "regs_ok L ((abs_table s)\<lparr>cur := n\<rparr>) ?t"
    using R live(4) q uc by (auto simp: regs_ok_def switch_to_fields(1-5) subset_eq)
  then show "ctx_ok L ?t"
    using table_ok_switch [OF T live(1,2)] z ab by (simp add: ctx_ok_def switch_to_fields)
qed

lemma pit_interruption_ok:
  assumes ok: "ctx_ok L s"
  shows "\<exists>t. pit_interruption L s = Some t \<and> ctx_ok L t \<and>
     abs_table t = (abs_table s)\<lparr>cur := pick (leaves s) (cur (abs_table s))\<rparr>"
proof -
  let ?s = "send_eoi 0 (cli s)" and ?c = "unat (current_process_number s)"
  have f: "running_processes ?s = running_processes s" "kernel_stack_bottom ?s = kernel_stack_bottom s"
    "current_process_number ?s = current_process_number s" "tss_esp0 ?s = tss_esp0 s" "cr3 ?s = cr3 s"
    "esp ?s = esp s" "pcbs ?s = pcbs s"
    by (simp_all add: send_eoi_def cli_def outb_def Let_def)
  have ok': "ctx_ok L ?s" and ab: "abs_table ?s = abs_table s" using ok ctx_ok_cong [OF f] by auto
  have lv: "leaves ?s = leaves s" by (simp add: leaves_def f)
  note c = ctx_ok_cur [OF ok]
  let ?n = "pick (leaves s) ?c"
  have nx: "next_process ?s = Some (of_nat ?n)"
    using next_process_eq [of ?s] c(2) by (simp add: f lv u8_less_8)
  have cur: "cur (abs_table s) = ?c" by (simp add: abs_table_def)
  show ?thesis
  proof (cases "?n = ?c")
    case True
    then have "pit_interruption L s = Some ?s"
      using nx c(3) by (simp add: pit_interruption_def Let_def get_current_process_number_def f)
    then show ?thesis using ok' ab True cur by simp
  next
    case False
    then have n: "?n \<in> leaves s" "?n < 8" using pick_in [OF c(2), of "leaves s"] by auto
    then have "(of_nat ?n :: u8) \<noteq> current_process_number s" using False c(2,3) of_nat_u8_eq by metis
    then have "pit_interruption L s = Some (switch_to L (of_nat ?n) ?s)"
      using nx by (simp add: pit_interruption_def Let_def get_current_process_number_def f)
    then show ?thesis
      using switch_to_refines [OF ok', of ?n] n False lv ab f cur by simp
  qed
qed


section \<open>Ending a program\<close>

lemma return_to_parent_fields:
  fixes s :: "'a kernel_state_scheme" and L :: layout and status :: u8
  assumes q: "q = parent_process_number (pcbs s (this_pcb_addr s))" and a: "this_pcb_addr s \<noteq> pcb_addr q"
  defines "t \<equiv> snd (return_to_parent L status s)"
  shows "running_processes t = running_processes s AND halt_mask (process_number (pcbs s (this_pcb_addr s)))"
    "current_process_number t = q" "kernel_stack_bottom t = stack_bottom q" "tss_esp0 t = stack_bottom q"
    "cr3 t = (page_directories_addr L + 0x1000 * ucast q) AND 0xFFFFFFE7"
    "pcbs t = (pcbs s)(pcb_addr q := (pcbs s (pcb_addr q))\<lparr>has_child := 0\<rparr>)"
    "esp t = parent_ksp (pcbs s (this_pcb_addr s))" "ebp t = parent_kbp (pcbs s (this_pcb_addr s))"
    "fst (return_to_parent L status s) = Execute_Returns (ucast status)"
  using a by (simp_all add: t_def q return_to_parent_def Let_def set_stack_def)

lemma return_to_parent_refines:
  fixes s :: "'a kernel_state_scheme" and L :: layout and status :: u8
  assumes ok: "ctx_ok L s" and par: "parent_process_number (pcbs s (this_pcb_addr s)) \<noteq> 0"
  defines "t \<equiv> snd (return_to_parent L status s)"
  shows "abs_table t = leave (abs_table s)" and "ctx_ok L t"
proof -
  define c where "c = unat (current_process_number s)"
  define q where "q = unat (parent_process_number (proc s c))"
  note cc = ctx_ok_cur [OF ok, folded c_def]
  have T: "table_ok (abs_table s)" and R: "regs_ok L (abs_table s) s" and z: "0 \<in> slots (running_processes s)"
    using ok by (auto simp: ctx_ok_def)
  have A: "live (abs_table s) = slots (running_processes s) - {0}" "cur (abs_table s) = c"
    "par (abs_table s) c = q" "p < 8 \<Longrightarrow> waits (abs_table s) p = (has_child (proc s p) \<noteq> 0)" for p
    using cc(2) by (auto simp: abs_table_def c_def q_def)
  have me: "pcbs s (this_pcb_addr s) = proc s c" using cc(5) by (simp add: proc_def)
  have q8: "parent_process_number (proc s c) = of_nat q" by (simp add: q_def u8_of_unat)
  have q0: "q \<noteq> 0"
  proof
    assume "q = 0"
    then have "parent_process_number (proc s c) = 0" using q8 by simp
    then show False using par me by simp
  qed
  have clive: "c \<in> live (abs_table s)" using T A(2) by (simp add: table_ok_def)
  have qlive: "q \<in> live (abs_table s)" "waits (abs_table s) q"
    using T A(3) q0 clive unfolding table_ok_def by metis+
  have qb: "q < 8" using T qlive(1) unfolding table_ok_def by auto
  have "q \<noteq> c" using T qlive(2) A(2) unfolding table_ok_def by auto
  note qb = qb this
  have ne: "this_pcb_addr s \<noteq> pcb_addr (of_nat q)" using cc(2,5) qb pcb_addr_inj by auto
  note f = return_to_parent_fields [of "of_nat q" s, OF _ ne, of L status, folded t_def]
  have f': "of_nat q = parent_process_number (pcbs s (this_pcb_addr s))" by (simp add: me q8)
  have pr: "proc t p = (if p = q then (proc s q)\<lparr>has_child := 0\<rparr> else proc s p)" if "p < 8" for p
    using proc_upd [OF that qb(1), of t s "(proc s q)\<lparr>has_child := 0\<rparr>"] f(6) [OF f'] by (simp add: proc_def)
  have run: "slots (running_processes t) = slots (running_processes s) - {c}"
    using f(1) [OF f'] me cc(2,8) by (simp add: slots_halt)
  have cu: "current_process_number t = of_nat q" "unat (current_process_number t) = q"
    using f(2) [OF f'] qb by (simp_all add: unat_of_nat_u8)
  show ab: "abs_table t = leave (abs_table s)"
  proof -
    have "par (abs_table t) = par (abs_table s)"
      by (rule ext) (simp add: abs_table_def pr)
    moreover have "waits (abs_table t) = (waits (abs_table s))(q := False)"
      by (rule ext) (auto simp: abs_table_def pr)
    moreover have "live (abs_table t) = live (abs_table s) - {c}" "cur (abs_table t) = q"
      using run cu by (auto simp: abs_table_def)
    ultimately show ?thesis using A by (simp add: leave_def)
  qed
  have fields: "process_number (proc t p) = process_number (proc s p)" "tty_number (proc t p) = tty_number (proc s p)"
    "parent_ksp (proc t p) = parent_ksp (proc s p)" "ksp_before_change (proc t p) = ksp_before_change (proc s p)" if "p < 8" for p
    using pr [OF that] by simp_all
  have l8: "p < 8" if "p \<in> live (abs_table s)" for p using T that by (auto simp: table_ok_def)
  have esp: "esp t AND ALIGN_8KB = pcb_addr (of_nat q)"
  proof -
    have "parent_ksp (proc s c) AND ALIGN_8KB = pcb_addr (of_nat q)" using R A(3) q0 clive unfolding regs_ok_def by metis
    then show ?thesis using f(7) [OF f'] me by simp
  qed
  have "regs_ok L (leave (abs_table s)) t"
    unfolding regs_ok_def
  proof (intro conjI ballI)
    fix p
    assume p: "p \<in> live (leave (abs_table s))"
    then have p': "p \<in> live (abs_table s)" "p \<noteq> c" "p < 8" using A l8 by (auto simp: leave_def)
    then show "process_number (proc t p) = of_nat p" "tty_number (proc t p) < 3"
      "par (leave (abs_table s)) p \<noteq> 0 \<longrightarrow> parent_ksp (proc t p) AND ALIGN_8KB = pcb_addr (of_nat (par (leave (abs_table s)) p))"
      using R fields by (auto simp: regs_ok_def leave_def)
    show "p \<noteq> cur (leave (abs_table s)) \<and> \<not> waits (leave (abs_table s)) p \<longrightarrow>
        ksp_before_change (proc t p) AND ALIGN_8KB = pcb_addr (of_nat p)"
      using R fields p' A by (auto simp: regs_ok_def leave_def)
  qed (use f(3-5) [OF f'] esp A ucast_of_nat_u8 [OF qb(1)] in \<open>simp_all add: leave_def\<close>)
  moreover have "0 \<in> slots (running_processes t)" using run z cc(1) by auto
  ultimately show "ctx_ok L t"
    using table_ok_leave [OF T] A q0 ab by (simp add: ctx_ok_def)
qed


section \<open>The sample kernel is well formed\<close>

lemma slots_F0: "slots 0xF0 = {0, 1, 2, 3}"
proof -
  have "p \<in> slots 0xF0 \<longleftrightarrow> p = 0 \<or> p = 1 \<or> p = 2 \<or> p = 3" for p
    by (auto simp: slots_def dest!: less_8_cases)
  then show ?thesis by auto
qed

lemma sample_kernel_ok: "ctx_ok sample_layout sample_kernel" "table_boot (abs_table sample_kernel)"
proof -
  have p: "proc sample_kernel p = sample_pcb (if p = 2 then 2 else if p = 3 then 3 else 1)" if "p < 8" for p
    using pcb_addr_inj [OF that, of 2] pcb_addr_inj [OF that, of 3] by (simp add: proc_def)
  have T: "live (abs_table sample_kernel) = {1, 2, 3}" "cur (abs_table sample_kernel) = 1"
    "par (abs_table sample_kernel) = (\<lambda>_. 0)" "waits (abs_table sample_kernel) = (\<lambda>_. False)"
    using p by (auto simp: abs_table_def slots_F0 sample_pcb_def fun_eq_iff)
  then show b: "table_boot (abs_table sample_kernel)" by (simp add: table_boot_def)
  have "regs_ok sample_layout (abs_table sample_kernel) sample_kernel"
    using p T by (simp add: regs_ok_def sample_pcb_def sample_layout_def stack_bottom_def pcb_addr_def size_defs)
  then show "ctx_ok sample_layout sample_kernel"
    using process_table.inv_init [OF b] by (simp add: ctx_ok_def slots_F0)
qed


section \<open>Properties of context switching\<close>

text \<open>
  C21. The timer interrupt in a well-formed kernel always ends, switches to the round-robin successor
  in the process table and changes nothing else of the table, and leaves a well-formed context: the
  kernel stack, the task state segment, the page directory and the saved stack pointers all belong to
  the process that is now current.
\<close>
theorem timer_interrupt_correct:
  assumes "ctx_ok L s"
  shows "\<exists>t. pit_interruption L s = Some t \<and> ctx_ok L t \<and>
     abs_table t = (abs_table s)\<lparr>cur := pick (leaves s) (cur (abs_table s))\<rparr>"
  using assms by (rule pit_interruption_ok)

theorem timer_interrupt_correct_witness:
  "\<exists>t. pit_interruption sample_layout sample_kernel = Some t \<and> ctx_ok sample_layout t \<and>
     abs_table t = (abs_table sample_kernel)\<lparr>cur := pick (leaves sample_kernel) (cur (abs_table sample_kernel))\<rparr>"
  by (rule timer_interrupt_correct) (rule sample_kernel_ok)

end
