(* ===== verification/Command.thy ===== *)
theory Command
  imports Process
begin

text \<open>
  The command line of \<open>execute\<close>: a name up to the first space and the arguments after it, for every
  length, including the lengths at which the code writes outside its local arrays.
\<close>

section \<open>The two phases of the loop\<close>

abbreviation SPACE :: u8 where "SPACE \<equiv> of_char CHR '' ''"

lemma parse_args_from:
  assumes str: "is_cstr command k" and "L < i" and "i \<le> k" and fits: "k - Suc L \<le> 1024"
  shows "parse_loop command (of_nat i) True (of_nat L) f la =
     Some (Ok (Some (of_nat k, True, of_nat L, f,
       \<lambda>j. if i - Suc L \<le> unat j \<and> unat j < k - Suc L then command (of_nat (unat j + L + 1)) else la j)))"
  using assms(2,3)
proof (induction "k - i" arbitrary: i la)
  case 0
  then show ?case using str by (subst parse_loop.simps) (auto simp: is_cstr_def fun_eq_iff)
next
  case (Suc d)
  then have i: "i < k" by simp
  have nz: "command (of_nat i) \<noteq> 0" using str i by (simp add: is_cstr_def)
  have k: "k < 2 ^ 32" using str by (simp add: is_cstr_def)
  have ix: "(of_nat i - of_nat L - 1 :: u32) = of_nat (i - Suc L)"
    using Suc.prems by (simp add: of_nat_diff)
  have un: "unat (of_nat (i - Suc L) :: u32) = i - Suc L" using i k by (intro unat_of_nat_u32) simp
  have in_arr: "i - Suc L < 1024" using i fits Suc.prems by linarith
  have si: "of_nat i + 1 = (of_nat (Suc i) :: u32)" by simp
  have "parse_loop command (of_nat i) True (of_nat L) f la =
      parse_loop command (of_nat (Suc i)) True (of_nat L) f (la(of_nat (i - Suc L) := command (of_nat i)))"
    by (subst parse_loop.simps) (simp add: nz put_arr_def ix un in_arr si del: of_nat_Suc)
  also have "\<dots> = Some (Ok (Some (of_nat k, True, of_nat L, f,
       \<lambda>j. if Suc i - Suc L \<le> unat j \<and> unat j < k - Suc L then command (of_nat (unat j + L + 1))
           else (la(of_nat (i - Suc L) := command (of_nat i))) j)))"
    using Suc i by (intro Suc.hyps(1)) simp_all
  also have "(\<lambda>j. if Suc i - Suc L \<le> unat j \<and> unat j < k - Suc L then command (of_nat (unat j + L + 1))
           else (la(of_nat (i - Suc L) := command (of_nat i))) j) =
      (\<lambda>j. if i - Suc L \<le> unat j \<and> unat j < k - Suc L then command (of_nat (unat j + L + 1)) else la j)"
  proof
    fix j :: u32
    have "j = of_nat (i - Suc L) \<longleftrightarrow> unat j = i - Suc L" using un by (simp_all add: word_unat_eq_iff)
    moreover have "i - Suc L + L + 1 = i" using Suc.prems by simp
    ultimately show "(if Suc i - Suc L \<le> unat j \<and> unat j < k - Suc L then command (of_nat (unat j + L + 1))
           else (la(of_nat (i - Suc L) := command (of_nat i))) j) =
      (if i - Suc L \<le> unat j \<and> unat j < k - Suc L then command (of_nat (unat j + L + 1)) else la j)"
      using Suc.prems i by (cases "unat j = i - Suc L") (auto simp del: of_nat_add of_nat_Suc)
  qed
  finally show ?case .
qed

text \<open>Arguments of more than 1024 bytes run over the end of the local array.\<close>

lemma parse_args_overflow:
  assumes str: "is_cstr command k" and long: "1024 < k - Suc L" and "L < i" and "i - Suc L \<le> 1024"
  shows "parse_loop command (of_nat i) True (of_nat L) f la = Some (Fault Out_Of_Bounds)"
  using assms(3,4)
proof (induction "1024 - (i - Suc L)" arbitrary: i la)
  case 0
  have ix: "(of_nat i - of_nat L - 1 :: u32) = of_nat (i - Suc L)" using 0 by (simp add: of_nat_diff)
  have "i - Suc L = 1024" "i < k" using 0 long by auto
  moreover have "command (of_nat i) \<noteq> 0" using str \<open>i < k\<close> by (simp add: is_cstr_def)
  ultimately show ?case by (subst parse_loop.simps) (simp add: put_arr_def ix del: of_nat_diff)
next
  case (Suc d)
  have i: "i < k" "i - Suc L < 1024" using Suc.hyps(2) Suc.prems long by auto
  have nz: "command (of_nat i) \<noteq> 0" using str i by (simp add: is_cstr_def)
  have ix: "(of_nat i - of_nat L - 1 :: u32) = of_nat (i - Suc L)" using Suc.prems by (simp add: of_nat_diff)
  have un: "unat (of_nat (i - Suc L) :: u32) = i - Suc L" using i by (intro unat_of_nat_u32) simp
  have si: "of_nat i + 1 = (of_nat (Suc i) :: u32)" by simp
  have "parse_loop command (of_nat i) True (of_nat L) f la =
      parse_loop command (of_nat (Suc i)) True (of_nat L) f (la(of_nat (i - Suc L) := command (of_nat i)))"
    by (subst parse_loop.simps) (simp add: nz put_arr_def ix un i(2) si del: of_nat_Suc)
  also have "\<dots> = Some (Fault Out_Of_Bounds)" by (rule Suc.hyps(1)) (use Suc.hyps(2) Suc.prems in auto)
  finally show ?case .
qed

text \<open>\<open>l\<close> is the length of the name: no byte before it is a space or the terminator.\<close>

definition name_ends :: "cstr \<Rightarrow> nat \<Rightarrow> bool" where
  "name_ends command l \<longleftrightarrow> l < 2 ^ 32 \<and> (\<forall>i<l. command (of_nat i) \<noteq> 0 \<and> command (of_nat i) \<noteq> SPACE) \<and>
     (command (of_nat l) = 0 \<or> command (of_nat l) = SPACE)"

lemma parse_name_from:
  assumes "name_ends command l" and "i \<le> m" and "m \<le> l" and "m \<le> 32"
  shows "parse_loop command (of_nat i) False 0 f la =
     parse_loop command (of_nat m) False 0 (\<lambda>j. if i \<le> unat j \<and> unat j < m then command j else f j) la"
  using assms(2)
proof (induction "m - i" arbitrary: i f)
  case 0
  then have "(\<lambda>j. if i \<le> unat j \<and> unat j < m then command j else f j) = f" by (auto simp: fun_eq_iff)
  then show ?case using 0 by simp
next
  case (Suc d)
  then have i: "i < m" by simp
  have c: "command (of_nat i) \<noteq> 0" "command (of_nat i) \<noteq> SPACE" using assms(1,3) i by (auto simp: name_ends_def)
  have un: "unat (of_nat i :: u32) = i" using i assms(4) by (intro unat_of_nat_u32) simp
  have g: "\<not> (32 \<le> (of_nat i :: u32))" using un i assms(4) by (simp add: word_le_nat_alt)
  have "parse_loop command (of_nat i) False 0 f la =
      parse_loop command (of_nat (Suc i)) False 0 (f(of_nat i := command (of_nat i))) la"
    using i assms(4) by (subst parse_loop.simps) (simp add: c [simplified] g put_arr_def un add.commute)
  also have "\<dots> = parse_loop command (of_nat m) False 0
      (\<lambda>j. if Suc i \<le> unat j \<and> unat j < m then command j else (f(of_nat i := command (of_nat i))) j) la"
    using Suc i by (intro Suc.hyps(1)) simp_all
  also have "(\<lambda>j. if Suc i \<le> unat j \<and> unat j < m then command j else (f(of_nat i := command (of_nat i))) j) =
      (\<lambda>j. if i \<le> unat j \<and> unat j < m then command j else f j)"
  proof
    fix j :: u32
    have "j = of_nat i \<longleftrightarrow> unat j = i" using un by (simp_all add: word_unat_eq_iff)
    then show "(if Suc i \<le> unat j \<and> unat j < m then command j else (f(of_nat i := command (of_nat i))) j) =
      (if i \<le> unat j \<and> unat j < m then command j else f j)"
      using i by (cases "unat j = i") auto
  qed
  finally show ?case .
qed

section \<open>What the parser returns\<close>

lemma parse_to_space:
  assumes "name_ends command l" and "command (of_nat l) = SPACE" and "l < 32"
  shows "parse_loop command 0 False 0 f la =
     parse_loop command (of_nat (Suc l)) True (of_nat l) (\<lambda>j. if unat j = l then 0 else if unat j < l then command j else f j) la"
proof -
  let ?f = "\<lambda>j. if 0 \<le> unat j \<and> unat j < l then command j else f j"
  have un: "unat (of_nat l :: u32) = l" using assms(3) by (intro unat_of_nat_u32) simp
  have si: "of_nat l + 1 = (of_nat (Suc l) :: u32)" by simp
  have eq: "?f(of_nat l := 0) = (\<lambda>j. if unat j = l then 0 else if unat j < l then command j else f j)"
    using un by (auto simp: fun_eq_iff word_unat_eq_iff)
  have "parse_loop command 0 False 0 f la = parse_loop command (of_nat l) False 0 ?f la"
    using parse_name_from [OF assms(1), of 0 l f la] assms(3) by simp
  also have "\<dots> = parse_loop command (of_nat (Suc l)) True (of_nat l) (?f(of_nat l := 0)) la"
    using assms(3) by (subst parse_loop.simps) (simp add: assms(2) put_arr_def un si del: of_nat_Suc)
  finally show ?thesis unfolding eq .
qed

lemma parse_at_space:
  assumes "is_cstr command k" and "name_ends command l" and "l < k" and "l < 32" and "k - Suc l < 1024"
  shows "parse_command command f la =
     Ok (Some (\<lambda>j. if unat j = l then 0 else if unat j < l then command j else f j,
       \<lambda>j. if unat j = k - Suc l then 0 else if unat j < k - Suc l then command (of_nat (unat j + l + 1)) else la j))"
proof -
  let ?f = "\<lambda>j. if unat j = l then 0 else if unat j < l then command j else f j"
  have c: "command (of_nat l) = SPACE" using assms by (auto simp: name_ends_def is_cstr_def)
  have un: "unat (of_nat (k - Suc l) :: u32) = k - Suc l" using assms(5) by (intro unat_of_nat_u32) simp
  have ix: "(of_nat k - of_nat l - 1 :: u32) = of_nat (k - Suc l)" using assms by (simp add: of_nat_diff)
  have eq: "\<And>j :: u32. j = of_nat (k - Suc l) \<longleftrightarrow> unat j = k - Suc l" using un by (simp add: word_unat_eq_iff)
  have "parse_loop command 0 False 0 f la = parse_loop command (of_nat (Suc l)) True (of_nat l) ?f la"
    by (rule parse_to_space [OF assms(2) c assms(4)])
  also have "\<dots> = Some (Ok (Some (of_nat k, True, of_nat l, ?f,
       \<lambda>j. if Suc l - Suc l \<le> unat j \<and> unat j < k - Suc l then command (of_nat (unat j + l + 1)) else la j)))"
    using assms by (intro parse_args_from) simp_all
  finally show ?thesis
    using assms(5) by (simp add: parse_command_def put_arr_def ix un fun_upd_def eq del: of_nat_add)
qed

lemma parse_long_args:
  assumes "is_cstr command k" and "name_ends command l" and "l < k" and "l < 32" and "1024 \<le> k - Suc l"
  shows "parse_command command f la = Fault Out_Of_Bounds"
proof -
  have c: "command (of_nat l) = SPACE" using assms by (auto simp: name_ends_def is_cstr_def)
  let ?f = "\<lambda>j. if unat j = l then 0 else if unat j < l then command j else f j"
  have loop: "parse_loop command 0 False 0 f la = parse_loop command (of_nat (Suc l)) True (of_nat l) ?f la"
    by (rule parse_to_space [OF assms(2) c assms(4)])
  show ?thesis
  proof (cases "k - Suc l = 1024")
    case True
    have ix: "(of_nat k - of_nat l - 1 :: u32) = of_nat (k - Suc l)" using assms(3) by (simp add: of_nat_diff)
    have "parse_loop command (of_nat (Suc l)) True (of_nat l) ?f la = Some (Ok (Some (of_nat k, True, of_nat l, ?f,
         \<lambda>j. if Suc l - Suc l \<le> unat j \<and> unat j < k - Suc l then command (of_nat (unat j + l + 1)) else la j)))"
      using assms True by (intro parse_args_from) simp_all
    then show ?thesis by (simp add: loop parse_command_def put_arr_def ix True del: of_nat_Suc)
  next
    case False
    then have "parse_loop command (of_nat (Suc l)) True (of_nat l) ?f la = Some (Fault Out_Of_Bounds)"
      using assms(5) by (intro parse_args_overflow [OF assms(1)]) simp_all
    then show ?thesis by (simp add: loop parse_command_def del: of_nat_Suc)
  qed
qed

text \<open>
  Without a space the arguments are the previous contents of the local array, cut off one byte before
  the length of the name.
\<close>
lemma parse_no_space:
  assumes "is_cstr command k" and "name_ends command k" and "0 < k" and "k < 32"
  shows "parse_command command f la =
     Ok (Some (\<lambda>j. if unat j = k then 0 else if unat j < k then command j else f j,
       \<lambda>j. if unat j = k - Suc 0 then 0 else la j))"
proof -
  let ?f = "\<lambda>j. if 0 \<le> unat j \<and> unat j < k then command j else f j"
  have un: "unat (of_nat k :: u32) = k" "unat (of_nat (k - Suc 0) :: u32) = k - Suc 0"
    using assms by (intro unat_of_nat_u32; simp)+
  have ix: "(of_nat k - 1 :: u32) = of_nat (k - Suc 0)" using assms by (simp add: of_nat_diff)
  have eqs: "\<And>j :: u32. j = of_nat k \<longleftrightarrow> unat j = k" "\<And>j :: u32. j = of_nat (k - Suc 0) \<longleftrightarrow> unat j = k - Suc 0"
    using un by (simp_all add: word_unat_eq_iff)
  have "parse_loop command 0 False 0 f la = parse_loop command (of_nat k) False 0 ?f la"
    using parse_name_from [OF assms(2), of 0 k f la] assms(4) by simp
  also have "\<dots> = Some (Ok (Some (of_nat k, False, 0, ?f, la)))"
    using assms(1) by (subst parse_loop.simps) (simp add: is_cstr_def)
  finally show ?thesis
    using assms(4) by (simp add: parse_command_def put_arr_def ix un fun_upd_def eqs)
qed

text \<open>Names of 33 bytes and more are refused; one of exactly 32 bytes, and the empty command, are not.\<close>

lemma parse_long_name:
  assumes "name_ends command l" and "32 < l"
  shows "parse_command command f la = Ok None"
proof -
  have c: "command 32 \<noteq> 0" "command 32 \<noteq> SPACE" using assms by (auto simp: name_ends_def)
  have "parse_loop command 0 False 0 f la =
      parse_loop command (of_nat 32) False 0 (\<lambda>j. if 0 \<le> unat j \<and> unat j < 32 then command j else f j) la"
    using parse_name_from [OF assms(1), of 0 32 f la] assms(2) by simp
  also have "\<dots> = Some (Ok None)" using c by (subst parse_loop.simps) simp
  finally show ?thesis by (simp add: parse_command_def)
qed

lemma parse_32:
  assumes "is_cstr command k" and "name_ends command 32"
  shows "parse_command command f la = Fault Out_Of_Bounds"
proof -
  have k: "32 \<le> k"
    using assms by (intro leI notI) (auto simp: is_cstr_def name_ends_def)
  let ?f = "\<lambda>j. if 0 \<le> unat j \<and> unat j < 32 then command j else f j"
  have "parse_loop command 0 False 0 f la = parse_loop command 32 False 0 ?f la"
    using parse_name_from [OF assms(2), of 0 32 f la] by simp
  also have "\<dots> = (if command 32 = 0 then Some (Ok (Some (32, False, 0, ?f, la))) else Some (Fault Out_Of_Bounds))"
    using assms(2) by (subst parse_loop.simps) (auto simp: name_ends_def put_arr_def)
  finally show ?thesis by (simp add: parse_command_def put_arr_def)
qed

lemma parse_empty: "command 0 = 0 \<Longrightarrow> parse_command command f la = Fault Out_Of_Bounds"
  by (simp add: parse_command_def parse_loop.simps put_arr_def unsigned_minus_1_eq_mask mask_eq_exp_minus_1)

section \<open>The two strings\<close>

lemma parse_with_args:
  assumes "is_cstr command k" and "name_ends command l" and "l < k" and "l < 32" and "k - Suc l < 1024"
  shows "\<exists>fname args. parse_command command f la = Ok (Some (fname, args)) \<and>
    is_cstr fname l \<and> bytes fname l = take l (bytes command k) \<and>
    is_cstr args (k - Suc l) \<and> bytes args (k - Suc l) = drop (Suc l) (bytes command k)"
proof -
  define a where "a = k - Suc l"
  have a: "k - Suc l = a" "k = a + l + 1" "a < 1024" "k < 2 ^ 32" using assms by (auto simp: a_def is_cstr_def)
  have nz: "\<And>i. i < k \<Longrightarrow> command (of_nat i) \<noteq> 0" using assms(1) by (simp add: is_cstr_def)
  let ?f = "\<lambda>j. if unat j = l then 0 else if unat j < l then command j else f j"
  let ?a = "\<lambda>j. if unat j = a then 0 else if unat j < a then command (of_nat (unat j + l + 1)) else la j"
  have "parse_command command f la = Ok (Some (?f, ?a))" using parse_at_space [OF assms] unfolding a(1) .
  moreover have "is_cstr ?f l" "bytes ?f l = take l (bytes command k)"
    using assms(3,4) nz by (auto simp: is_cstr_def unat_of_nat_u32 list_eq_iff_nth_eq)
  moreover have "is_cstr ?a a"
    using a nz by (auto simp: is_cstr_def unat_of_nat_u32 simp del: of_nat_add of_nat_Suc)
  moreover have "bytes ?a a = drop (Suc l) (bytes command k)"
  proof (rule nth_equalityI)
    fix i assume "i < length (bytes ?a a)"
    then show "bytes ?a a ! i = drop (Suc l) (bytes command k) ! i"
      using a by (simp add: unat_of_nat_u32 add.commute del: of_nat_add of_nat_Suc)
  qed (simp add: a(1))
  ultimately show ?thesis unfolding a(1) by blast
qed

lemma parse_name_only:
  assumes "is_cstr command k" and "name_ends command k" and "0 < k" and "k < 32"
  shows "\<exists>fname args. parse_command command f la = Ok (Some (fname, args)) \<and> is_cstr fname k \<and> bytes fname k = bytes command k \<and>
    args = la(of_nat (k - 1) := 0)"
proof -
  let ?f = "\<lambda>j. if unat j = k then 0 else if unat j < k then command j else f j"
  have "is_cstr ?f k" "bytes ?f k = bytes command k"
    using assms(1,4) by (auto simp: is_cstr_def unat_of_nat_u32 list_eq_iff_nth_eq)
  moreover have "unat (of_nat (k - 1) :: u32) = k - 1" using assms(4) by (intro unat_of_nat_u32) simp
  then have "(\<lambda>j. if unat j = k - Suc 0 then 0 else la j) = la(of_nat (k - 1) := 0)" by (auto simp: fun_eq_iff word_unat_eq_iff)
  ultimately show ?thesis using parse_no_space [OF assms] by auto
qed

section \<open>Properties of the parser\<close>

text \<open>
  C20. \<open>execute\<close> splits a command line at its first space, for every length of the name (\<open>l\<close>) and of the line (\<open>k\<close>): name and
  arguments are terminated strings when the name has fewer than 32 bytes and the arguments fewer than 1024. Without a space
  the name is the whole line, and the argument array keeps its previous contents but for a zero one byte before the length of the
  name. A name of more than 32 bytes is refused. A name of exactly 32 bytes, arguments of 1024 bytes or more, and the empty line make
  the parser write outside its local arrays.
\<close>

theorem command_split:
  assumes "is_cstr command k" and "name_ends command l"
  shows "(l < k \<and> l < 32 \<and> k - Suc l < 1024 \<longrightarrow>
      (\<exists>fname args. parse_command command f la = Ok (Some (fname, args)) \<and>
         is_cstr fname l \<and> bytes fname l = take l (bytes command k) \<and>
         is_cstr args (k - Suc l) \<and> bytes args (k - Suc l) = drop (Suc l) (bytes command k))) \<and>
    (l = k \<and> 0 < k \<and> k < 32 \<longrightarrow>
      (\<exists>fname args. parse_command command f la = Ok (Some (fname, args)) \<and> is_cstr fname k \<and> bytes fname k = bytes command k \<and>
         args = la(of_nat (k - 1) := 0))) \<and>
    (32 < l \<longrightarrow> parse_command command f la = Ok None) \<and>
    (l = 32 \<or> k = 0 \<or> l < k \<and> l < 32 \<and> 1024 \<le> k - Suc l \<longrightarrow> parse_command command f la = Fault Out_Of_Bounds) \<and> l \<le> k"
proof (intro conjI impI)
  show "l \<le> k" using assms by (intro leI notI) (auto simp: is_cstr_def name_ends_def)
next
  assume "l < k \<and> l < 32 \<and> k - Suc l < 1024"
  then show "\<exists>fname args. parse_command command f la = Ok (Some (fname, args)) \<and>
      is_cstr fname l \<and> bytes fname l = take l (bytes command k) \<and>
      is_cstr args (k - Suc l) \<and> bytes args (k - Suc l) = drop (Suc l) (bytes command k)"
    by (intro parse_with_args [OF assms]) simp_all
next
  assume "l = k \<and> 0 < k \<and> k < 32"
  then show "\<exists>fname args. parse_command command f la = Ok (Some (fname, args)) \<and> is_cstr fname k \<and> bytes fname k = bytes command k \<and>
      args = la(of_nat (k - 1) := 0)"
    using parse_name_only assms by blast
next
  assume "32 < l"
  then show "parse_command command f la = Ok None" by (rule parse_long_name [OF assms(2)])
next
  assume "l = 32 \<or> k = 0 \<or> l < k \<and> l < 32 \<and> 1024 \<le> k - Suc l"
  then show "parse_command command f la = Fault Out_Of_Bounds"
    using parse_32 parse_empty parse_long_args assms by (auto simp: is_cstr_def)
qed

theorem command_split_witness:
  "\<exists>fname args. parse_command (lit ''cat frame0'') (\<lambda>_. 0xCC) (\<lambda>_. 0xCC) = Ok (Some (fname, args)) \<and>
     is_cstr fname 3 \<and> bytes fname 3 = map of_char ''cat'' \<and> is_cstr args 6 \<and> bytes args 6 = map of_char ''frame0''"
proof -
  have c: "is_cstr (lit ''cat frame0'') 10" "bytes (lit ''cat frame0'') 10 = map of_char ''cat frame0''"
  proof -
    have l: "length ''cat frame0'' = 10" and z: "\<forall>c\<in>set ''cat frame0''. (of_char c :: u8) \<noteq> 0" by simp_all
    show "is_cstr (lit ''cat frame0'') 10" "bytes (lit ''cat frame0'') 10 = map of_char ''cat frame0''"
      using is_cstr_lit [OF _ z] unfolding l by auto
  qed
  have "i < 3 \<longleftrightarrow> i = 0 \<or> i = 1 \<or> i = (2 :: nat)" for i by arith
  then have "name_ends (lit ''cat frame0'') 3" by (auto simp: name_ends_def lit_def)
  then show ?thesis
    using command_split [OF c(1), of 3 "\<lambda>_. 0xCC" "\<lambda>_. 0xCC"] by (simp add: c(2))
qed

end
