(* ===== verification/Image.thy ===== *)
theory Image
  imports Files
begin

text \<open>
  States that hold the same file system image, however the rest of memory differs: every notion of the
  file system (directory, names, inodes, contents) agrees on them. The kernel writes to memory between
  the steps of loading a program; these lemmas carry the file system across.
\<close>

definition same_image :: "'a files_state_scheme \<Rightarrow> 'b files_state_scheme \<Rightarrow> bool" where
  "same_image s t \<longleftrightarrow> bb_start t = bb_start s \<and> fs_dentries t = fs_dentries s \<and> inodes t = inodes s \<and>
     data_start t = data_start s \<and> num_dentries t = num_dentries s \<and> num_inodes t = num_inodes s \<and>
     num_datablocks t = num_datablocks s \<and>
     (\<forall>i < fs_len s. mem t (bb_start s + of_nat i) = mem s (bb_start s + of_nat i))"

lemma same_imageD:
  assumes "same_image s t"
  shows "bb_start t = bb_start s" "fs_dentries t = fs_dentries s" "inodes t = inodes s" "data_start t = data_start s"
    "num_dentries t = num_dentries s" "num_inodes t = num_inodes s" "num_datablocks t = num_datablocks s"
    "fs_len t = fs_len s" "fs_mounted t = fs_mounted s"
    "i < fs_len s \<Longrightarrow> mem t (bb_start s + of_nat i) = mem s (bb_start s + of_nat i)"
  using assms by (simp_all add: same_image_def fs_len_def fs_mounted_def)

lemma same_image_trans: "same_image s t \<Longrightarrow> same_image t u \<Longrightarrow> same_image s u"
  by (simp add: same_image_def fs_len_def)

lemma same_image_blit:
  assumes "disjoint_runs buf k (bb_start s) (fs_len s)"
  shows "same_image s (s\<lparr>mem := blit (mem s) buf k f\<rparr>)"
  using image_frame [OF assms] by (simp add: same_image_def)

lemma same_image32:
  assumes "same_image s t" and "i + 3 < fs_len s"
  shows "load32 (mem t) (bb_start s + of_nat i) = load32 (mem s) (bb_start s + of_nat i)"
proof -
  have "mem t (bb_start s + of_nat i + of_nat j) = mem s (bb_start s + of_nat i + of_nat j)" if "j \<le> 3" for j
    using same_imageD(10) [OF assms(1), of "i + j"] assms(2) that by (simp add: add.assoc)
  from this [of 0] this [of 1] this [of 2] this [of 3] show ?thesis by (simp add: load32_def)
qed

lemma same_inode_size:
  assumes "same_image s t" and "fs_mounted s" and "n < num_inodes s"
  shows "inode_size t n = inode_size s n"
  using same_image32 [OF assms(1), of "4096 * (1 + unat n)"] inode_in_image [OF assms(3), of 3]
    inode_addr [OF assms(2), of n 0] same_imageD(3) [OF assms(1)]
  by (simp add: inode_size_def)

lemma same_data_block:
  assumes "same_image s t" and "fs_mounted s" and "n < num_inodes s" and "j < 1023"
  shows "data_block t n (of_nat j) = data_block s n (of_nat j)"
proof -
  have "inodes s + FS_PAGE_SIZE * n + 4 + 4 * of_nat j = bb_start s + of_nat (4096 * (1 + unat n) + (4 + 4 * j))"
    using inode_addr [OF assms(2), of n "4 + 4 * j"] by (simp add: algebra_simps)
  then show ?thesis
    using same_image32 [OF assms(1), of "4096 * (1 + unat n) + (4 + 4 * j)"] assms(4)
      inode_in_image [OF assms(3), of "4 + 4 * j + 3"] same_imageD(3) [OF assms(1)]
    by (simp add: data_block_def ac_simps)
qed

lemma same_file:
  assumes "same_image s t" and "fs_mounted s" and "inode_ok s n"
  shows "file_size t n = file_size s n" "inode_ok t n"
    "p \<le> file_size s n \<Longrightarrow> file_byte t n p = file_byte s n p"
proof -
  have n: "n < num_inodes s" using assms(3) by (simp add: inode_ok_def)
  show sz: "file_size t n = file_size s n" using same_inode_size [OF assms(1,2) n] by (simp add: file_size_def)
  have b: "data_block t n (of_nat (p div 4096)) = data_block s n (of_nat (p div 4096))" if "p \<le> file_size s n" for p
  proof -
    have "p div 4096 < 1023" using that file_size_le [OF assms(3)] by (simp add: less_mult_imp_div_less)
    then show ?thesis by (rule same_data_block [OF assms(1,2) n])
  qed
  have "data_block t n (of_nat j) = data_block s n (of_nat j)" if "j \<le> file_size s n div 4096" for j
    using b [of "j * 4096"] that by (simp add: less_eq_div_iff_mult_less_eq)
  then show "inode_ok t n" using assms(3) sz same_imageD [OF assms(1)] by (simp add: inode_ok_def)
  show "file_byte t n p = file_byte s n p" if "p \<le> file_size s n"
    using file_addr_image [OF assms(2,3) that] b [OF that] same_imageD(4,10) [OF assms(1)]
    by (auto simp: file_byte_def file_addr_def)
qed

lemma same_entry:
  assumes "same_image s t" and "fs_mounted s" and "dir_ok s" and "i < 63"
  shows "entry_len t i = entry_len s i" "entry_name t i = entry_name s i" "entry_copy t i d = entry_copy s i d"
    "is_cstr (dentry_name t i) (entry_len s i)"
proof -
  have a: "dentry_addr t i = dentry_addr s i" using same_imageD(2) [OF assms(1)] by (simp add: dentry_addr_def)
  have addr: "dentry_addr s i + of_nat j = bb_start s + of_nat (64 + 64 * i + j)" for j
    using assms(2) by (simp add: dentry_addr_def fs_mounted_def)
  have nm: "dentry_name t i (of_nat j) = dentry_name s i (of_nat j)" if "j < 64" for j
    using same_imageD(10) [OF assms(1), of "64 + 64 * i + j"] entry_in_image [OF assms(4), of s] that addr [of j] a
    by (simp add: dentry_name_def ptr_def add.assoc)
  have l: "entry_len s i < 32" "is_cstr (dentry_name s i) (entry_len s i)" using assms(3,4) by (auto simp: dir_ok_def)
  then show str: "is_cstr (dentry_name t i) (entry_len s i)" using nm by (auto simp: is_cstr_def)
  show len: "entry_len t i = entry_len s i"
    using strlen_is_cstr [OF str] str by (simp add: entry_len_def [of t] is_cstr_def unat_of_nat_u32)
  show "entry_name t i = entry_name s i" using len nm l by (simp add: entry_name_def bytes_eq_iff)
  have w: "load32 (mem t) (dentry_addr t i + of_nat k) = load32 (mem s) (dentry_addr s i + of_nat k)" if "k + 3 < 64" for k
    using same_image32 [OF assms(1), of "64 + 64 * i + k"] entry_in_image [OF assms(4), of s] that addr [of k] a
    by (simp add: add.assoc)
  have nw: "dentry_name t i j = dentry_name s i j" if "unat j < entry_len s i" for j
    using nm [of "unat j"] that l(1) by (simp add: u32_of_unat)
  show "entry_copy t i d = entry_copy s i d"
    using w [of 32] w [of 36] nw len by (auto simp: entry_copy_def fun_eq_iff)
qed

lemma same_dir:
  assumes "same_image s t" and "fs_mounted s" and "dir_ok s"
  shows "dir_ok t"
    "find (\<lambda>i. entry_name t i = name) [0..<63] = find (\<lambda>i. entry_name s i = name) [0..<63]"
proof -
  show "dir_ok t" using same_entry [OF assms] assms(3) by (simp add: dir_ok_def)
  show "find (\<lambda>i. entry_name t i = name) [0..<63] = find (\<lambda>i. entry_name s i = name) [0..<63]"
    using same_entry(2) [OF assms] by (intro find_cong) auto
qed

end
