(* ===== verification/Execute.thy ===== *)
theory Execute
  imports Context Command Image
begin

text \<open>
  \<open>execute\<close> against the process table: the parsing of the command line, the memory the loader
  touches, and the new process with its parent, terminal, stack and page directory.
\<close>

section \<open>Starting a program\<close>

lemma read_data_loop_mem:
  "\<exists>m. snd (read_data_loop n off buf len k loc cb addr s) = s\<lparr>mem := m\<rparr>"
proof (induction n off buf len k loc cb addr s rule: read_data_loop.induct)
  case (1 n off buf len k loc cb addr s)
  show ?case
  proof (cases "k < len \<and> read_data_advance s n loc cb addr \<noteq> None")
    case True
    then obtain loc' cb' addr' where a: "read_data_advance s n loc cb addr = Some (loc', cb', addr')" by auto
    show ?thesis
    proof (cases "k + off \<ge> inode_size s n")
      case True
      then show ?thesis using a by (subst read_data_loop.simps) (auto intro: exI [of _ "mem s"])
    next
      case False
      obtain m where "snd (read_data_loop n off buf len (k + 1) (loc' + 1) cb' (addr' + 1)
          (s\<lparr>mem := (mem s)(buf + k := mem s addr')\<rparr>)) = s\<lparr>mem := m\<rparr>"
        using 1 [OF _ a refl refl] True False by auto
      then show ?thesis using a True False by (subst read_data_loop.simps) auto
    qed
  next
    case False
    then show ?thesis
      by (subst read_data_loop.simps) (auto intro: exI [of _ "mem s"] split: option.splits)
  qed
qed

lemma read_data_mem: "\<exists>m. snd (read_data n off buf len s) = s\<lparr>mem := m\<rparr>"
  using read_data_loop_mem by (auto simp: read_data_def Let_def intro: exI [of _ "mem s"])

lemma fs_read_mem:
  assumes "fs_read d f off buf len s = Ok (r, t)"
  shows "\<exists>m. t = s\<lparr>mem := m\<rparr>"
proof -
  have "t = s \<or> (\<exists>n. t = snd (read_data n off buf len s))"
    using assms by (auto simp: fs_read_def obind_eq_Ok split: option.splits if_splits) (metis snd_conv)+
  then show ?thesis using read_data_mem [of _ off buf len s] by (metis machine.surjective machine.update_convs(1))
qed

lemma fs_load_mem:
  assumes "fs_load d f addr s = Ok (r, t)"
  shows "\<exists>m. t = s\<lparr>mem := m\<rparr>"
proof -
  have "t = s \<or> (\<exists>n len. t = snd (read_data n 0 addr len s))"
    using assms by (auto simp: fs_load_def obind_eq_Ok split: option.splits if_splits prod.splits) (metis snd_conv)+
  then show ?thesis using read_data_mem [of _ 0 addr _ s] by (metis machine.surjective machine.update_convs(1))
qed

lemma setup_new_task_frame [simp]:
  "running_processes (snd (setup_new_task L p s)) = running_processes s"
  "kernel_stack_bottom (snd (setup_new_task L p s)) = kernel_stack_bottom s"
  "current_process_number (snd (setup_new_task L p s)) = current_process_number s"
  "tss_esp0 (snd (setup_new_task L p s)) = tss_esp0 s" "esp (snd (setup_new_task L p s)) = esp s"
  "ebp (snd (setup_new_task L p s)) = ebp s" "pcbs (snd (setup_new_task L p s)) = pcbs s"
  by (simp_all add: setup_new_task_def Let_def)

text \<open>The standard streams need no file: opening them never fails.\<close>

lemma open_std_eq: "open_std E s = Ok (open_stdout 1 (open_stdin 0 s))"
proof -
  have "strncmp (lit ''stdin'') (lit ''stdin'') 5 = 0" "strncmp (lit ''stdout'') (lit ''stdin'') 5 \<noteq> 0"
    "strncmp (lit ''stdout'') (lit ''stdout'') 5 = 0"
    by (simp_all add: strncmp_def strncmp_loop.simps lit_def)
  then show ?thesis by (simp add: open_std_def open_file_def Let_def)
qed

lemma open_std_frame:
  "running_processes (open_stdin fd s) = running_processes s" "running_processes (open_stdout fd s) = running_processes s"
  "current_process_number (open_stdin fd s) = current_process_number s"
  "current_process_number (open_stdout fd s) = current_process_number s"
  "cr3 (open_stdin fd s) = cr3 s" "cr3 (open_stdout fd s) = cr3 s"
  "tss_esp0 (open_stdin fd s) = tss_esp0 s" "tss_esp0 (open_stdout fd s) = tss_esp0 s"
  "esp (open_stdin fd s) = esp s" "esp (open_stdout fd s) = esp s"
  "kernel_stack_bottom (open_stdin fd s) = kernel_stack_bottom s"
  "kernel_stack_bottom (open_stdout fd s) = kernel_stack_bottom s"
  by (simp_all add: open_stdin_def open_stdout_def)

section \<open>The new process\<close>

text \<open>The descriptor table a program starts with.\<close>

definition std_fds :: "(nat \<Rightarrow> file_descriptor) \<Rightarrow> bool" where
  "std_fds f \<longleftrightarrow> jumptable (f 0) = Some Stdin_Fops \<and> jumptable (f 1) = Some Stdout_Fops \<and>
     flags (f 0) = IN_USE \<and> flags (f 1) = IN_USE \<and> (\<forall>i\<in>{2..<8}. flags (f i) = NOT_IN_USE) \<and>
     (\<forall>i<8. fileposition (f i) = 0)"

lemma set_fd_simps [simp]:
  "process_number (set_fd i f p) = process_number p" "parent_process_number (set_fd i f p) = parent_process_number p"
  "parent_ksp (set_fd i f p) = parent_ksp p" "parent_kbp (set_fd i f p) = parent_kbp p"
  "tty_number (set_fd i f p) = tty_number p" "has_child (set_fd i f p) = has_child p"
  "ksp_before_change (set_fd i f p) = ksp_before_change p" "argbuf (set_fd i f p) = argbuf p"
  "filenames (set_fd i f p) = filenames p" "fds (set_fd i f p) = (fds p)(i := f (fds p i))"
  by (simp_all add: set_fd_def)

lemma clear_fds_simps [simp]:
  "process_number (clear_fds p) = process_number p" "parent_process_number (clear_fds p) = parent_process_number p"
  "parent_ksp (clear_fds p) = parent_ksp p" "tty_number (clear_fds p) = tty_number p" "has_child (clear_fds p) = has_child p"
  "ksp_before_change (clear_fds p) = ksp_before_change p" "argbuf (clear_fds p) = argbuf p"
  "parent_kbp (clear_fds p) = parent_kbp p"
  "i < 8 \<Longrightarrow> fileposition (fds (clear_fds p) i) = 0" "i < 8 \<Longrightarrow> flags (fds (clear_fds p) i) = NOT_IN_USE"
proof -
  let ?clr = "\<lambda>i. set_fd i (\<lambda>d. d\<lparr>fd_inode := 0, fileposition := 0, flags := NOT_IN_USE\<rparr>)"
  have "process_number (fold ?clr is p) = process_number p \<and>
     parent_process_number (fold ?clr is p) = parent_process_number p \<and> parent_ksp (fold ?clr is p) = parent_ksp p \<and>
     tty_number (fold ?clr is p) = tty_number p \<and> has_child (fold ?clr is p) = has_child p \<and>
     ksp_before_change (fold ?clr is p) = ksp_before_change p \<and> parent_kbp (fold ?clr is p) = parent_kbp p \<and> argbuf (fold ?clr is p) = argbuf p \<and>
     (\<forall>i. fds (fold ?clr is p) i =
        (if i \<in> set is then (fds p i)\<lparr>fd_inode := 0, fileposition := 0, flags := NOT_IN_USE\<rparr> else fds p i))" for "is"
    by (induction "is" arbitrary: p) auto
  from this [of "[0..<8]"] show
    "process_number (clear_fds p) = process_number p" "parent_process_number (clear_fds p) = parent_process_number p"
    "parent_ksp (clear_fds p) = parent_ksp p" "tty_number (clear_fds p) = tty_number p" "has_child (clear_fds p) = has_child p"
    "ksp_before_change (clear_fds p) = ksp_before_change p" "argbuf (clear_fds p) = argbuf p"
    "parent_kbp (clear_fds p) = parent_kbp p"
    "i < 8 \<Longrightarrow> fileposition (fds (clear_fds p) i) = 0" "i < 8 \<Longrightarrow> flags (fds (clear_fds p) i) = NOT_IN_USE"
    by (simp_all add: clear_fds_def)
qed

lemma link_process_fields:
  fixes s :: "'a kernel_state_scheme"
  assumes "running_processes s \<noteq> 0xC0" and q: "q = esp s AND ALIGN_8KB" and a: "a = pcb_addr n" "q \<noteq> a"
  defines "t \<equiv> link_process n s"
  shows "running_processes t = running_processes s" "current_process_number t = current_process_number s"
    "cr3 t = cr3 s" "esp t = esp s"
    "pcbs t = (pcbs s)(q := (pcbs s q)\<lparr>has_child := 1\<rparr>, a := (pcbs s a)\<lparr>parent_ksp := esp s, parent_kbp := ebp s,
       parent_process_number := process_number (pcbs s q), tty_number := tty_number (pcbs s q), process_number := n\<rparr>)"
  using assms unfolding t_def by (simp_all add: link_process_def Let_def fun_eq_iff)

lemma start_process_fields:
  fixes s :: "'a kernel_state_scheme"
  assumes "running_processes s \<noteq> 0xC0" and q: "q = esp s AND ALIGN_8KB" and a: "a = pcb_addr (of_nat n)" "q \<noteq> a"
    and n: "n < 8" and r: "start_process E (of_nat n) la e s = Ok (x, t)"
  obtains P where "x = To_User e" "running_processes t = running_processes s"
    "current_process_number t = current_process_number s" "cr3 t = cr3 s" "esp t = stack_bottom (of_nat n)"
    "tss_esp0 t = stack_bottom (of_nat n)" "kernel_stack_bottom t = stack_bottom (of_nat n)"
    "pcbs t = (pcbs s)(q := (pcbs s q)\<lparr>has_child := 1\<rparr>, a := P)"
    "parent_ksp P = esp s" "parent_kbp P = ebp s" "parent_process_number P = process_number (pcbs s q)" "tty_number P = tty_number (pcbs s q)"
    "process_number P = of_nat n" "has_child P = has_child (pcbs s a)" "std_fds (fds P)"
    "strcpy_arr 100 (argbuf (pcbs s a)) la = Ok (argbuf P)"
proof -
  define u where "u = update_pcb a clear_fds (link_process (of_nat n) s)"
  note l = link_process_fields [OF assms(1) q a]
  obtain args where args: "strcpy_arr 100 (argbuf (pcbs u a)) la = Ok args"
    and t: "(x, t) = to_the_user_space e (open_stdout 1 (open_stdin 0 (set_stack (of_nat n) (update_pcb a (\<lambda>p. p\<lparr>argbuf := args\<rparr>) u))))"
    using r by (auto simp: start_process_def Let_def obind_eq_Ok open_std_eq a(1) u_def)
  define v where "v = set_stack (of_nat n) (update_pcb a (\<lambda>p. p\<lparr>argbuf := args\<rparr>) u)"
  have av: "this_pcb_addr v = a" "this_pcb_addr (open_stdin 0 v) = a"
    using stack_bottom_pcb [OF n] a by (simp_all add: v_def this_pcb_addr_def set_stack_def open_stdin_def)
  let ?P = "set_fd 1 (\<lambda>d. d\<lparr>jumptable := Some Stdout_Fops, flags := IN_USE\<rparr>)
    (set_fd 0 (\<lambda>d. d\<lparr>jumptable := Some Stdin_Fops, flags := IN_USE\<rparr>) ((clear_fds (pcbs (link_process (of_nat n) s) a))\<lparr>argbuf := args\<rparr>))"
  have pt: "pcbs t = (pcbs (link_process (of_nat n) s))(a := ?P)"
    using t av by (simp add: to_the_user_space_def Let_def v_def [symmetric] cli_def open_stdout_def)
      (simp add: open_stdin_def av v_def set_stack_def u_def)
  show ?thesis
  proof (rule that [of ?P])
    show "pcbs t = (pcbs s)(q := (pcbs s q)\<lparr>has_child := 1\<rparr>, a := ?P)" by (simp add: pt l(5))
    show "std_fds (fds ?P)" by (auto simp: std_fds_def)
    show "strcpy_arr 100 (argbuf (pcbs s a)) la = Ok (argbuf ?P)" using args by (simp add: u_def l(5))
    show "x = To_User e" "running_processes t = running_processes s"
      "current_process_number t = current_process_number s" "cr3 t = cr3 s" "esp t = stack_bottom (of_nat n)"
      "tss_esp0 t = stack_bottom (of_nat n)" "kernel_stack_bottom t = stack_bottom (of_nat n)"
      using t l(1-3) by (simp_all add: to_the_user_space_def Let_def cli_def open_std_frame set_stack_def u_def)
  qed (simp_all add: l(5))
qed

section \<open>Refinement of the table machine\<close>

text \<open>What the stores of \<open>execute\<close> amount to on the table, once a slot is known.\<close>

lemma spawned:
  fixes s t :: "'a kernel_state_scheme"
  assumes ok: "ctx_ok L s" and n: "n \<in> {1..<8} - live (abs_table s)" and c: "c = cur (abs_table s)"
    and run: "slots (running_processes t) = insert n (slots (running_processes s))"
    and cu: "current_process_number t = of_nat n"
    and regs: "kernel_stack_bottom t = stack_bottom (of_nat n)" "tss_esp0 t = stack_bottom (of_nat n)"
      "esp t = stack_bottom (of_nat n)" "cr3 t = (page_directories_addr L + 0x1000 * of_nat n) AND 0xFFFFFFE7"
    and pcbs: "pcbs t = (pcbs s)(pcb_addr (of_nat c) := (proc s c)\<lparr>has_child := 1\<rparr>, pcb_addr (of_nat n) := P)"
    and P: "parent_ksp P = esp s" "parent_process_number P = process_number (proc s c)"
      "tty_number P = tty_number (proc s c)" "process_number P = of_nat n" "has_child P = has_child (proc s n)"
  shows "abs_table t = spawn n (abs_table s)" and "ctx_ok L t" and "proc t n = P"
proof -
  have T: "table_ok (abs_table s)" and R: "regs_ok L (abs_table s) s" and z: "0 \<in> slots (running_processes s)"
    using ok by (auto simp: ctx_ok_def)
  have c8: "1 \<le> c" "c < 8" "process_number (proc s c) = of_nat c" "c \<in> live (abs_table s)" and n8: "1 \<le> n" "n < 8" "n \<noteq> c"
    using T R c n by (auto simp: table_ok_def regs_ok_def)
  have pr: "proc t p = (if p = n then P else if p = c then (proc s c)\<lparr>has_child := 1\<rparr> else proc s p)" if "p < 8" for p
    using that c8 n8 pcb_addr_inj [OF that, of n] pcb_addr_inj [OF that, of c] by (simp add: proc_def pcbs)
  show "proc t n = P" using pr [OF n8(2)] by simp
  have hn: "has_child (proc s n) = 0" using T n by (auto simp: table_ok_def abs_table_def)
  show ab: "abs_table t = spawn n (abs_table s)"
  proof -
    have "live (abs_table t) = insert n (live (abs_table s))" "cur (abs_table t) = n"
      using run cu n8 by (auto simp: abs_table_def unat_of_nat_u8)
    moreover have "par (abs_table t) = (par (abs_table s))(n := c)" "waits (abs_table t) = (waits (abs_table s))(c := True)"
      using P c8 n8 hn by (auto simp: abs_table_def pr unat_of_nat_u8 fun_eq_iff split: if_splits)
    ultimately show ?thesis by (simp add: spawn_def c)
  qed
  have "regs_ok L (spawn n (abs_table s)) t"
    unfolding regs_ok_def
  proof (intro conjI ballI)
    fix p
    assume "p \<in> live (spawn n (abs_table s))"
    moreover have "p \<in> live (abs_table s) \<Longrightarrow> p < 8" using T by (auto simp: table_ok_def)
    ultimately consider "p = n" | "p \<noteq> n" "p \<in> live (abs_table s)" "p < 8" by (auto simp: spawn_def)
    then show "process_number (proc t p) = of_nat p" "tty_number (proc t p) < 3"
      "par (spawn n (abs_table s)) p \<noteq> 0 \<longrightarrow> parent_ksp (proc t p) AND ALIGN_8KB = pcb_addr (of_nat (par (spawn n (abs_table s)) p))"
      "p \<noteq> cur (spawn n (abs_table s)) \<and> \<not> waits (spawn n (abs_table s)) p \<longrightarrow>
         ksp_before_change (proc t p) AND ALIGN_8KB = pcb_addr (of_nat p)"
      by (cases; use P c8 n8 R c in \<open>simp add: pr regs_ok_def spawn_def\<close>)+
  qed (use regs stack_bottom_pcb [OF n8(2)] in \<open>simp_all add: spawn_def\<close>)
  then show "ctx_ok L t" using ab table_ok_spawn [OF T n] run z by (simp add: ctx_ok_def)
qed

text \<open>The successful path of \<open>execute\<close>, up to the start of the process.\<close>

lemma execute_starts_process:
  fixes s t :: "'a kernel_state_scheme"
  assumes "execute E cmd s = Ok (To_User e, t)"
  obtains n b fname la u where "open_slot (running_processes s) = Some (n, b)" "n < 8"
    "parse_command (ptr (mem s) cmd) (fname0 E) (localargbuf0 E) = Ok (Some (fname, la))"
    "running_processes u = running_processes s OR b" "current_process_number u = n" "pcbs u = pcbs s" "esp u = esp s" "ebp u = ebp s"
    "cr3 u = (page_directories_addr (lay E) + 0x1000 * of_nat (unat n)) AND 0xFFFFFFE7"
    "start_process E n la e u = Ok (To_User e, t)"
proof -
  obtain fname la where parse: "parse_command (ptr (mem s) cmd) (fname0 E) (localargbuf0 E) = Ok (Some (fname, la))"
    using assms by (auto simp: execute_def obind_eq_Ok split: if_splits option.splits)
  obtain r1 s1 where r1: "fs_read (dentry0 E) (Some fname) 0 (buf_addr E) 4 s = Ok (r1, s1)" "r1 \<noteq> -1"
    using assms parse by (auto simp: execute_def obind_eq_Ok split: if_splits)
  obtain m1 where s1: "s1 = s\<lparr>mem := m1\<rparr>" using fs_read_mem [OF r1(1)] by blast
  obtain n b where nb: "open_slot (running_processes s) = Some (n, b)"
    using assms parse r1 s1 by (auto simp: execute_def split: if_splits option.splits)
  define s2 where "s2 = s1\<lparr>running_processes := running_processes s OR b, current_process_number := n\<rparr>"
  obtain r2 s3 where r2: "fs_read (dentry0 E) (Some fname) ENTRY_POINT_OFFSET (buf_addr E) 4 s2 = Ok (r2, s3)" "r2 \<noteq> -1"
    using assms parse r1 s1 nb by (auto simp: execute_def obind_eq_Ok Let_def s2_def split: if_splits)
  obtain m3 where s3: "s3 = s2\<lparr>mem := m3\<rparr>" using fs_read_mem [OF r2(1)] by blast
  define s4 where "s4 = snd (setup_new_task (lay E) n s3)"
  have n8: "n < 8" using nb by (auto simp: open_slot_eq find_Some_iff u8_less_8 unat_of_nat_u8)
  have su: "setup_new_task (lay E) n s3 = (0, s4)"
    using setup_new_task_state(1) [OF n8, of "lay E" s3] s4_def by (metis prod.collapse)
  obtain r5 u where u: "fs_load (dentry0 E) (Some fname) PROGRAM_LOAD_ADDR s4 = Ok (r5, u)"
    "start_process E n la (entry_bytes (buf_addr E) (mem s3) 0) u = Ok (To_User e, t)"
    using assms parse r1 s1 nb r2 su by (auto simp: execute_def obind_eq_Ok Let_def s2_def split: if_splits)
  obtain m5 where m5: "u = s4\<lparr>mem := m5\<rparr>" using fs_load_mem [OF u(1)] by blast
  have "entry_bytes (buf_addr E) (mem s3) 0 = e"
    using u(2) by (auto simp: start_process_def Let_def obind_eq_Ok to_the_user_space_def)
  then show ?thesis
    by (intro that [OF nb n8 parse, of u])
      (use u(2) setup_new_task_state(8) [OF n8 su] in \<open>simp_all add: m5 s4_def s3 s2_def s1\<close>)
qed

lemma execute_refines:
  fixes s t :: "'a kernel_state_scheme"
  assumes ok: "ctx_ok (lay E) s" and ex: "execute E cmd s = Ok (To_User e, t)"
  shows "\<exists>n \<in> {1..<8} - live (abs_table s). abs_table t = spawn n (abs_table s) \<and> ctx_ok (lay E) t \<and>
     std_fds (fds (proc t n)) \<and> tty_number (proc t n) = tty_number (proc s (cur (abs_table s))) \<and>
     parent_ksp (proc t n) = esp s \<and> parent_kbp (proc t n) = ebp s \<and>
     (\<exists>fname la. parse_command (ptr (mem s) cmd) (fname0 E) (localargbuf0 E) = Ok (Some (fname, la)) \<and>
        strcpy_arr 100 (argbuf (proc s n)) la = Ok (argbuf (proc t n)))"
proof -
  obtain n' b fname la u where nb: "open_slot (running_processes s) = Some (n', b)" "n' < 8"
      "parse_command (ptr (mem s) cmd) (fname0 E) (localargbuf0 E) = Ok (Some (fname, la))"
    and u: "running_processes u = running_processes s OR b" "current_process_number u = n'" "pcbs u = pcbs s" "esp u = esp s" "ebp u = ebp s"
      "cr3 u = (page_directories_addr (lay E) + 0x1000 * of_nat (unat n')) AND 0xFFFFFFE7"
    and st: "start_process E n' la e u = Ok (To_User e, t)"
    using execute_starts_process [OF ex] by metis
  define n where "n = unat n'"
  define c where "c = cur (abs_table s)"
  have n': "n' = of_nat n" by (simp add: n_def u8_of_unat)
  have alloc: "alloc_mask (running_processes s) = Some (n, running_processes s OR b)" using nb by (simp add: alloc_mask_def n_def)
  note al = proc_slots.alloc_Some [OF alloc]
  have cc: "1 \<le> c" "c < 8" "c \<in> slots (running_processes s)" "esp s AND ALIGN_8KB = pcb_addr (of_nat c)" "0 \<in> slots (running_processes s)"
    using ctx_ok_cur [OF ok] ok by (auto simp: c_def abs_table_def ctx_ok_def)
  have n8: "n \<in> {1..<8} - live (abs_table s)" "n < 8" "n \<noteq> c"
    using al cc by (auto simp: abs_table_def intro: Suc_leI gr0I)
  have "running_processes u \<noteq> 0xC0"
  proof
    assume "running_processes u = 0xC0"
    then have "insert n (slots (running_processes s)) = slots 0xC0" using al u(1) by simp
    moreover have "slots 0xC0 = {0, 1}" by (auto simp: slots_def dest!: less_8_cases)
    ultimately have "n \<in> {0, 1}" "c \<in> {0, 1}" using cc(3) by blast+
    then show False using cc(1) n8 by auto
  qed
  note run = this
  have q: "pcb_addr (of_nat c) = esp u AND ALIGN_8KB" "pcb_addr (of_nat c) \<noteq> pcb_addr (of_nat n)"
    using cc n8 pcb_addr_inj u(4) by auto
  obtain P where P: "To_User e = To_User e" "running_processes t = running_processes u"
    "current_process_number t = current_process_number u" "cr3 t = cr3 u" "esp t = stack_bottom (of_nat n)"
    "tss_esp0 t = stack_bottom (of_nat n)" "kernel_stack_bottom t = stack_bottom (of_nat n)"
    "pcbs t = (pcbs u)(pcb_addr (of_nat c) := (pcbs u (pcb_addr (of_nat c)))\<lparr>has_child := 1\<rparr>, pcb_addr (of_nat n) := P)"
    "parent_ksp P = esp u" "parent_kbp P = ebp u" "parent_process_number P = process_number (pcbs u (pcb_addr (of_nat c)))"
    "tty_number P = tty_number (pcbs u (pcb_addr (of_nat c)))"
    "process_number P = of_nat n" "has_child P = has_child (pcbs u (pcb_addr (of_nat n)))" "std_fds (fds P)"
    "strcpy_arr 100 (argbuf (pcbs u (pcb_addr (of_nat n)))) la = Ok (argbuf P)"
    by (rule start_process_fields [OF run q(1) refl q(2) n8(2) st [unfolded n']])
  have t: "abs_table t = spawn n (abs_table s)" "ctx_ok (lay E) t" "proc t n = P"
    by (rule spawned [OF ok n8(1) c_def, where P = P];
      use P(2-14) u al in \<open>simp add: proc_def n' unat_of_nat_u8 [OF n8(2)]\<close>)+
  have "tty_number P = tty_number (proc s c)" "parent_ksp P = esp s" "parent_kbp P = ebp s"
    "strcpy_arr 100 (argbuf (proc s n)) la = Ok (argbuf P)"
    using P(9-16) u(3-5) by (simp_all add: proc_def)
  then show ?thesis using n8(1) t P(15) nb(3) unfolding c_def by blast
qed

section \<open>A launch that succeeds\<close>

text \<open>The entry point of a program: four bytes at offset 24, little-endian.\<close>

definition program_entry :: "'a files_state_scheme \<Rightarrow> u32 \<Rightarrow> u32" where
  "program_entry s n = fold (\<lambda>i e. e OR push_bit (8 * i) (ucast (file_byte s n (24 + i)))) [0..<4] 0"

text \<open>
  File \<open>n\<close> is an executable that fits its page: the magic number, an entry point, and a size that
  ends below 132MB.
\<close>
definition program_file :: "'a files_state_scheme \<Rightarrow> u32 \<Rightarrow> bool" where
  "program_file s n \<longleftrightarrow> inode_ok s n \<and> 28 \<le> file_size s n \<and> file_size s n \<le> 0x3B8000 \<and>
     file_byte s n 0 = 0x7F \<and> file_byte s n 1 = 0x45 \<and> file_byte s n 2 = 0x4C \<and> file_byte s n 3 = 0x46"

text \<open>The image is mounted outside the program page, and the kernel's four-byte buffer is outside the image.\<close>

definition image_safe :: "u32 \<Rightarrow> 'a files_state_scheme \<Rightarrow> bool" where
  "image_safe buf s \<longleftrightarrow> fs_mounted s \<and> dir_ok s \<and> buf \<noteq> NULL_PTR \<and>
     disjoint_runs buf 4 (bb_start s) (fs_len s) \<and> (\<forall>i < fs_len s. \<not> in_program_page (bb_start s + of_nat i))"

lemma program_page_disjoint:
  assumes "\<forall>i < fs_len s. \<not> in_program_page (bb_start s + of_nat i)" and "k \<le> 0x3B8000"
  shows "disjoint_runs PROGRAM_LOAD_ADDR k (bb_start s) (fs_len s)"
proof -
  let ?d = "unat (bb_start s - PROGRAM_LOAD_ADDR)" and ?e = "unat (PROGRAM_LOAD_ADDR - bb_start s)"
  have in_page: "in_program_page (PROGRAM_LOAD_ADDR + of_nat j)" if "j < 0x3B8000" for j
  proof -
    have "unat (PROGRAM_LOAD_ADDR + of_nat j) = 0x8048000 + j"
      using that by (simp add: PROGRAM_LOAD_ADDR_def unat_word_ariths unat_of_nat)
    then show ?thesis using that by (simp add: in_program_page_def size_defs word_le_nat_alt word_less_nat_alt)
  qed
  have "k \<le> ?d"
  proof (rule leI, rule notI)
    assume "?d < k"
    then have "in_program_page (PROGRAM_LOAD_ADDR + of_nat ?d)" using assms(2) by (intro in_page) simp
    moreover have "0 < fs_len s" by (simp add: fs_len_def)
    ultimately show False using assms(1) by (force simp: u32_of_unat)
  qed
  moreover have "fs_len s \<le> ?e"
  proof (rule leI, rule notI)
    assume "?e < fs_len s"
    then have "\<not> in_program_page (bb_start s + of_nat ?e)" using assms(1) by blast
    then show False using in_page [of 0] by (simp add: u32_of_unat)
  qed
  ultimately show ?thesis by (simp add: disjoint_runs_def)
qed

lemma entry_bytes_blit:
  "entry_bytes buf (blit m buf 4 (\<lambda>i. g (unat i))) e =
     fold (\<lambda>i e. e OR push_bit (8 * i) (ucast (g i))) [0..<4] e"
proof -
  have "blit m buf 4 (\<lambda>i. g (unat i)) (buf + of_nat j) = g j" if "j < 4" for j
    using that blit_at [of j 4 m buf "\<lambda>i. g (unat i)"] by (simp add: unat_of_nat_u32)
  then show ?thesis unfolding entry_bytes_def by (intro fold_cong) auto
qed

lemma magic_match:
  assumes "program_file s n"
  shows "strncmp (ptr (blit m buf 4 (\<lambda>i. file_byte s n (unat i))) buf) ELF_MAGIC 4 = 0"
proof -
  have b: "blit m buf 4 (\<lambda>i. file_byte s n (unat i)) (buf + of_nat j) = file_byte s n j" if "j < 4" for j
    using that blit_at [of j 4 m buf "\<lambda>i. file_byte s n (unat i)"] by (simp add: unat_of_nat_u32)
  have "file_byte s n i = ELF_MAGIC (of_nat i)" if "i < 4" for i
  proof -
    have "i = 0 \<or> i = 1 \<or> i = 2 \<or> i = 3" using that by arith
    then show ?thesis using assms by (elim disjE) (simp_all add: program_file_def ELF_MAGIC_def)
  qed
  then show ?thesis using b by (simp add: strncmp_zero same_upto_def ptr_def)
qed

text \<open>Nothing of \<open>setup_new_task\<close> and \<open>start_process\<close> touches memory outside the program page.\<close>

lemma setup_new_task_mem:
  "\<not> in_program_page a \<Longrightarrow> mem (snd (setup_new_task L p s)) a = mem s a"
  by (simp add: setup_new_task_def Let_def load_cr3_def enable_paging_def)

lemma setup_new_task_fs [simp]:
  "bb_start (snd (setup_new_task L p s)) = bb_start s" "fs_dentries (snd (setup_new_task L p s)) = fs_dentries s"
  "inodes (snd (setup_new_task L p s)) = inodes s" "data_start (snd (setup_new_task L p s)) = data_start s"
  "num_dentries (snd (setup_new_task L p s)) = num_dentries s" "num_inodes (snd (setup_new_task L p s)) = num_inodes s"
  "num_datablocks (snd (setup_new_task L p s)) = num_datablocks s"
  by (simp_all add: setup_new_task_def Let_def load_cr3_def enable_paging_def)

lemma same_image_setup:
  assumes "\<forall>i < fs_len s. \<not> in_program_page (bb_start s + of_nat i)"
  shows "same_image s (snd (setup_new_task L p s))"
  using assms by (simp add: same_image_def setup_new_task_mem)

lemma start_process_mem:
  assumes "start_process E n la e s = Ok (x, t)"
  shows "mem t = mem s"
  using assms by (auto simp: start_process_def obind_eq_Ok Let_def open_std_eq to_the_user_space_def
      link_process_def set_stack_def open_stdin_def open_stdout_def)

lemma start_process_Ok:
  assumes "is_cstr la k" and "k < 100"
  shows "\<exists>t. start_process E n la e s = Ok (To_User e, t)"
  using assms by (simp add: start_process_def Let_def strcpy_arr_eq open_std_eq to_the_user_space_def)

text \<open>
  A command whose name is an executable in the directory, with arguments of less than 100 bytes, is
  started whenever a process slot is free.
\<close>
lemma execute_success:
  fixes s :: "'a kernel_state_scheme"
  assumes cmd: "cmd \<noteq> NULL_PTR" and parse: "parse_command (ptr (mem s) cmd) (fname0 E) (localargbuf0 E) = Ok (Some (fname, la))"
    and str: "is_cstr fname l" "is_cstr la k" "k < 100"
    and safe: "image_safe (buf_addr E) s"
    and found: "find (\<lambda>i. entry_name s i = bytes fname l) [0..<63] = Some i" "n = dentry_inode (entry_copy s i (dentry0 E))"
    and prog: "program_file s n" and slot: "open_slot (running_processes s) = Some (p, b)"
  shows "\<exists>t. execute E cmd s = Ok (To_User (program_entry s n), t) \<and>
    (\<forall>j < file_size s n. mem t (PROGRAM_LOAD_ADDR + of_nat j) = file_byte s n j)"
proof -
  let ?buf = "buf_addr E" and ?d = "dentry0 E"
  have fs: "fs_mounted s" "dir_ok s" "?buf \<noteq> NULL_PTR" "disjoint_runs ?buf 4 (bb_start s) (fs_len s)"
    "\<forall>i < fs_len s. \<not> in_program_page (bb_start s + of_nat i)" and ino: "inode_ok s n" "28 \<le> file_size s n" "file_size s n \<le> 0x3B8000"
    using safe prog by (auto simp: image_safe_def program_file_def)
  define s1 where "s1 = s\<lparr>mem := blit (mem s) ?buf 4 (\<lambda>j. file_byte s n (unat j))\<rparr>"
  have r1: "fs_read ?d (Some fname) 0 ?buf 4 s = Ok (4, s1)"
    using fs_read_eq [OF fs(1,2) str(1) fs(3), of 4 ?d 0] fs(4) found ino by (simp add: s1_def Let_def)
  have mg: "strncmp (ptr (mem s1) ?buf) ELF_MAGIC 4 = 0" "running_processes s1 = running_processes s"
    using magic_match [OF prog] by (simp_all add: s1_def)
  define s2 where "s2 = s1\<lparr>running_processes := running_processes s OR b, current_process_number := p\<rparr>"
  have i2: "same_image s s2" using same_image_blit [OF fs(4)] by (simp add: same_image_def s2_def s1_def)
  note f2 = same_imageD [OF i2] same_file [OF i2 fs(1) ino(1)] same_dir [OF i2 fs(1,2)]
  have e2: "entry_copy s2 i ?d = entry_copy s i ?d"
    using same_entry(3) [OF i2 fs(1,2)] found(1) by (auto simp: find_Some_iff)
  define s3 where "s3 = s2\<lparr>mem := blit (mem s2) ?buf 4 (\<lambda>j. file_byte s n (24 + unat j))\<rparr>"
  have r2: "fs_read ?d (Some fname) ENTRY_POINT_OFFSET ?buf 4 s2 = Ok (4, s3)"
    using fs_read_eq [of s2 fname l ?buf 4 ?d ENTRY_POINT_OFFSET] f2 fs str(1) found e2 ino
    by (simp add: s3_def Let_def ENTRY_POINT_OFFSET_def) (intro arg_cong [where f = "\<lambda>m. s2\<lparr>mem := m\<rparr>"] blit_cong, simp add: unat_of_nat_u32 f2)
  have i3: "same_image s s3"
    using same_image_trans [OF i2 same_image_blit, of ?buf 4] f2 fs(4) by (simp add: s3_def)
  define s4 where "s4 = snd (setup_new_task (lay E) p s3)"
  have p8: "p < 8" using slot by (auto simp: open_slot_eq find_Some_iff u8_less_8 unat_of_nat_u8)
  have su: "setup_new_task (lay E) p s3 = (0, s4)"
    using setup_new_task_state(1) [OF p8, of "lay E" s3] s4_def by (metis prod.collapse)
  have i4: "same_image s s4"
    unfolding s4_def using same_imageD [OF i3] fs(5) by (intro same_image_trans [OF i3 same_image_setup]) simp
  note f4 = same_imageD [OF i4] same_file [OF i4 fs(1) ino(1)] same_dir [OF i4 fs(1,2)]
  have e4: "entry_copy s4 i ?d = entry_copy s i ?d"
    using same_entry(3) [OF i4 fs(1,2)] found(1) by (auto simp: find_Some_iff)
  define u where "u = s4\<lparr>mem := blit (mem s4) PROGRAM_LOAD_ADDR (file_size s n) (\<lambda>j. file_byte s4 n (unat j))\<rparr>"
  have r4: "\<exists>r. fs_load ?d (Some fname) PROGRAM_LOAD_ADDR s4 = Ok (r, u)"
    using fs_load_eq [of s4 fname l i n ?d PROGRAM_LOAD_ADDR] f4 fs str(1) found e4 ino
      program_page_disjoint [OF fs(5) ino(3)] by (simp add: u_def)
  have en: "entry_bytes ?buf (mem s3) 0 = program_entry s n"
    by (simp add: s3_def entry_bytes_blit [where g = "\<lambda>j. file_byte s n (24 + j)"] program_entry_def)
  obtain t where t: "start_process E p la (program_entry s n) u = Ok (To_User (program_entry s n), t)"
    using start_process_Ok [OF str(2,3)] by blast
  have "execute E cmd s = Ok (To_User (program_entry s n), t)"
    using cmd parse r1 slot r2 su r4 en t mg by (auto simp: execute_def s2_def)
  moreover have "mem t (PROGRAM_LOAD_ADDR + of_nat j) = file_byte s n j" if "j < file_size s n" for j
    using that start_process_mem [OF t] f4 ino(3) by (simp add: u_def blit_at unat_of_nat_u32)
  ultimately show ?thesis by blast
qed

end
