(* ===== verification/Execute_Errors.thy ===== *)
theory Execute_Errors
  imports Execute
begin

text \<open>
  The error returns of \<open>execute\<close>: on a well-formed image every path that does not start a program
  returns -1 and leaves the kernel as it was, except for the four bytes of its local buffer.
\<close>

section \<open>The parsed name\<close>

text \<open>Whatever the command, a name that the parser accepts is terminated inside \<open>fname[32]\<close>.\<close>

lemma parse_loop_zero:
  assumes "parse_loop command i sp len f la = Some r" and "r = Ok (Some (i', sp', len', f', la'))"
    and "sp \<longrightarrow> (\<exists>j. unat j < 32 \<and> f j = 0)"
  shows "sp' \<longrightarrow> (\<exists>j. unat j < 32 \<and> f' j = 0)"
proof -
  have "r = Ok (Some (i', sp', len', f', la')) \<longrightarrow> (sp \<longrightarrow> (\<exists>j. unat j < 32 \<and> f j = 0)) \<longrightarrow>
      (sp' \<longrightarrow> (\<exists>j. unat j < 32 \<and> f' j = 0))"
    by (rule parse_loop.raw_induct [where P = "\<lambda>command i sp len f la r. r = Ok (Some (i', sp', len', f', la')) \<longrightarrow>
        (sp \<longrightarrow> (\<exists>j. unat j < 32 \<and> f j = 0)) \<longrightarrow> (sp' \<longrightarrow> (\<exists>j. unat j < 32 \<and> f' j = 0))", OF _ assms(1)])
      (fastforce simp: put_arr_def split: if_splits)
  then show ?thesis using assms by blast
qed

lemma parse_name_cstr:
  assumes "parse_command command f0 la0 = Ok (Some (fname, la))"
  obtains l where "is_cstr fname l" "l < 32"
proof -
  obtain q where q: "parse_loop command 0 False 0 f0 la0 = Some (Ok (Some q))"
    using assms by (cases "parse_loop command 0 False 0 f0 la0") (auto simp: parse_command_def obind_eq_Ok split: option.splits)
  obtain i sp len f la' where r: "parse_loop command 0 False 0 f0 la0 = Some (Ok (Some (i, sp, len, f, la')))"
    using q by (cases q) simp
  then have n: "fname = (if sp then f else f(i := 0))" "\<not> sp \<Longrightarrow> unat i < 32"
    using assms by (auto simp: parse_command_def obind_eq_Ok put_arr_def split: if_splits)
  have "\<exists>j. unat j < 32 \<and> fname j = 0"
    using parse_loop_zero [OF r refl] n by (cases sp) auto
  then show ?thesis by (metis that is_cstr_Least order.strict_trans1)
qed

section \<open>Failing launches\<close>

text \<open>A well-formed image: every directory entry names a well-formed inode.\<close>

definition image_ok :: "u32 \<Rightarrow> 'a files_state_scheme \<Rightarrow> bool" where
  "image_ok buf s \<longleftrightarrow> image_safe buf s \<and> (\<forall>i<63. inode_ok s (load32 (mem s) (dentry_addr s i + 36)))"

lemma fs_read_image_ok:
  fixes s t :: "'a files_state_scheme"
  assumes "image_ok buf s" and "is_cstr fname l" and "fs_read d (Some fname) off buf 4 s = Ok (r, t)"
  obtains "find (\<lambda>i. entry_name s i = bytes fname l) [0..<63] = None" "r = -1" "t = s"
  | i c f where "find (\<lambda>i. entry_name s i = bytes fname l) [0..<63] = Some i" "r \<noteq> -1" "c \<le> 4"
      "t = s\<lparr>mem := blit (mem s) buf c f\<rparr>"
proof -
  have fs: "fs_mounted s" "dir_ok s" "buf \<noteq> NULL_PTR" "disjoint_runs buf 4 (bb_start s) (fs_len s)"
    and ino: "\<And>i. find (\<lambda>i. entry_name s i = bytes fname l) [0..<63] = Some i \<Longrightarrow> inode_ok s (dentry_inode (entry_copy s i d))"
    using assms(1) by (auto simp: image_ok_def image_safe_def find_Some_iff entry_copy_def)
  have small: "(of_nat c :: i32) \<noteq> -1" if "c \<le> 4" for c
    using that by (simp add: word_unat_eq_iff unat_of_nat_u32 unsigned_minus_1_eq_mask mask_eq_exp_minus_1)
  note eq = fs_read_eq [of s fname l buf 4 d off, OF fs(1,2) assms(2) fs(3) _ ino]
  show ?thesis
  proof (cases "find (\<lambda>i. entry_name s i = bytes fname l) [0..<63]")
    case None
    then show ?thesis using eq fs(4) assms(3) that(1) by simp
  next
    case (Some i)
    let ?c = "min 4 (file_size s (dentry_inode (entry_copy s i d)) - unat off)"
    show ?thesis
      by (rule that(2) [OF Some, of ?c])
        (use eq fs(4) assms(3) Some small [of ?c] in \<open>auto simp: Let_def\<close>)
  qed
qed

lemma image_ok_same:
  assumes "image_ok buf s" and "same_image s t"
  shows "image_ok buf t"
proof -
  have fs: "fs_mounted s" "dir_ok s" "image_safe buf s"
    and ino: "\<And>i. i < 63 \<Longrightarrow> inode_ok s (load32 (mem s) (dentry_addr s i + 36))"
    using assms(1) by (auto simp: image_ok_def image_safe_def)
  note same_imageD [OF assms(2)]
  moreover have "load32 (mem t) (dentry_addr t i + 36) = load32 (mem s) (dentry_addr s i + 36)" if "i < 63" for i
    using same_entry(3) [OF assms(2) fs(1,2) that] by (simp add: entry_copy_def)
  ultimately show ?thesis
    using fs ino same_dir [OF assms(2) fs(1,2)] same_file(2) [OF assms(2) fs(1)]
    by (simp add: image_ok_def image_safe_def)
qed

lemma execute_fails:
  fixes s t :: "'a kernel_state_scheme"
  assumes ok: "image_ok (buf_addr E) s" and ex: "execute E cmd s = Ok (Ret r, t)"
  shows "r = -1 \<and> (\<exists>c f. c \<le> 4 \<and> t = s\<lparr>mem := blit (mem s) (buf_addr E) c f\<rparr>)"
proof -
  let ?buf = "buf_addr E"
  have same: "\<exists>c f. c \<le> 4 \<and> s = s\<lparr>mem := blit (mem s) ?buf c f\<rparr>" by (rule exI [of _ 0]) simp
  consider "cmd = NULL_PTR" | "parse_command (ptr (mem s) cmd) (fname0 E) (localargbuf0 E) = Ok None"
    | fname la where "cmd \<noteq> NULL_PTR" "parse_command (ptr (mem s) cmd) (fname0 E) (localargbuf0 E) = Ok (Some (fname, la))"
    using ex
    by (cases "parse_command (ptr (mem s) cmd) (fname0 E) (localargbuf0 E)"; cases "cmd = NULL_PTR")
      (force simp: execute_def)+
  then show ?thesis
  proof cases
    case 3
    obtain l where l: "is_cstr fname l" using parse_name_cstr [OF 3(2)] by blast
    obtain r1 s1 where r1: "fs_read (dentry0 E) (Some fname) 0 ?buf 4 s = Ok (r1, s1)"
      using ex 3 by (auto simp: execute_def obind_eq_Ok)
    show ?thesis
    proof (rule fs_read_image_ok [OF ok l r1])
      assume "r1 = -1" and "s1 = s"
      then show ?thesis using ex 3 r1 same by (simp add: execute_def)
    next
      fix i c f
      assume i: "find (\<lambda>i. entry_name s i = bytes fname l) [0..<63] = Some i" "r1 \<noteq> -1" and c: "c \<le> 4" and s1: "s1 = s\<lparr>mem := blit (mem s) ?buf c f\<rparr>"
      show ?thesis
      proof (cases "strncmp (ptr (mem s1) ?buf) ELF_MAGIC 4 \<noteq> 0 \<or> open_slot (running_processes s1) = None")
        case True
        then show ?thesis using ex 3 r1 i c s1 by (auto simp: execute_def split: if_splits)
      next
        case False
        then obtain p b where go: "strncmp (ptr (mem s1) ?buf) ELF_MAGIC 4 = 0" "open_slot (running_processes s1) = Some (p, b)"
          by auto
        define s2 where "s2 = s1\<lparr>running_processes := running_processes s OR b, current_process_number := p\<rparr>"
        have "disjoint_runs ?buf c (bb_start s) (fs_len s)"
          using ok c by (auto simp: image_ok_def image_safe_def disjoint_runs_def)
        then have i2: "same_image s s2" by (simp add: same_image_def s2_def s1 image_frame)
        have ok2: "image_ok ?buf s2" by (rule image_ok_same [OF ok i2])
        have fd: "find (\<lambda>i. entry_name s2 i = bytes fname l) [0..<63] = Some i"
          using same_dir(2) [OF i2] ok i by (simp add: image_ok_def image_safe_def)
        obtain r2 s3 where r2: "fs_read (dentry0 E) (Some fname) ENTRY_POINT_OFFSET ?buf 4 s2 = Ok (r2, s3)"
          using ex 3 r1 i go s1 by (auto simp: execute_def obind_eq_Ok s2_def Let_def)
        have r2n: "r2 \<noteq> -1" by (rule fs_read_image_ok [OF ok2 l r2]) (use fd in auto)
        have p8: "p < 8" using go(2) by (auto simp: open_slot_eq find_Some_iff u8_less_8 unat_of_nat_u8)
        obtain s4 where su: "setup_new_task (lay E) p s3 = (0, s4)"
          using setup_new_task_state(1) [OF p8, of "lay E" s3] by (metis prod.collapse)
        show ?thesis
          using ex 3 r1 i go s1 r2 r2n su
          by (auto simp: execute_def obind_eq_Ok s2_def Let_def start_process_def to_the_user_space_def)
      qed
    qed
  qed (use ex same in \<open>auto simp: execute_def split: if_splits\<close>)
qed

text \<open>A full process table.\<close>

lemma execute_no_slot:
  fixes s :: "'a kernel_state_scheme"
  assumes "cmd \<noteq> NULL_PTR" and parse: "parse_command (ptr (mem s) cmd) (fname0 E) (localargbuf0 E) = Ok (Some (fname, la))"
    and ok: "image_ok (buf_addr E) s" and full: "open_slot (running_processes s) = None"
  shows "\<exists>t. execute E cmd s = Ok (Ret (-1), t)"
proof -
  obtain l where l: "is_cstr fname l" using parse_name_cstr [OF parse] by blast
  have fs: "fs_mounted s" "dir_ok s" "buf_addr E \<noteq> NULL_PTR" "disjoint_runs (buf_addr E) 4 (bb_start s) (fs_len s)"
    and ino: "\<And>i. find (\<lambda>i. entry_name s i = bytes fname l) [0..<63] = Some i \<Longrightarrow> inode_ok s (dentry_inode (entry_copy s i (dentry0 E)))"
    using ok by (auto simp: image_ok_def image_safe_def find_Some_iff entry_copy_def)
  obtain r u where r: "fs_read (dentry0 E) (Some fname) 0 (buf_addr E) 4 s = Ok (r, u)"
    using fs_read_eq [of s fname l "buf_addr E" 4 "dentry0 E" 0, OF fs(1,2) l fs(3) _ ino] fs(4)
    by (auto simp: Let_def split: option.splits)
  then have "running_processes u = running_processes s" using fs_read_mem by fastforce
  then show ?thesis using assms r by (auto simp: execute_def)
qed

end
