(* ===== verification/Boot.thy ===== *)
theory Boot
  imports Execute
begin

text \<open>
  \<open>bootup\<close>: the three shells and the context it enters user mode with are the initial state of the
  table machine.
\<close>

section \<open>One shell\<close>

lemma boot_shell_fields:
  fixes s t :: "'a kernel_state_scheme"
  assumes boot: "boot_shell E e (of_nat i) s = Ok (True, t)" and i: "i < 8"
  obtains P where "pcbs t = (pcbs s)(pcb_addr (of_nat i) := P)" "running_processes t = running_processes s"
    "kernel_stack_bottom t = stack_bottom (of_nat i)" "tss_esp0 t = stack_bottom (of_nat i)"
    "cr3 t = (page_directories_addr (lay E) + 0x1000 * of_nat i) AND 0xFFFFFFE7"
    "process_number P = of_nat i" "parent_process_number P = 0" "has_child P = 0"
    "tty_number P = of_nat i - 1" "ksp_before_change P = stack_bottom (of_nat i) - 60" "std_fds (fds P)"
proof -
  have i8: "(of_nat i :: u8) < 8" using i by (simp add: u8_less_8 unat_of_nat_u8)
  define s1 where "s1 = snd (setup_new_task (lay E) (of_nat i) s)"
  have su: "setup_new_task (lay E) (of_nat i) s = (0, s1)"
    using setup_new_task_state(1) [OF i8, of "lay E" s] s1_def by (metis prod.collapse)
  obtain r s2 where l: "fs_load (dentry0 E) (Some (lit ''shell'')) PROGRAM_LOAD_ADDR s1 = Ok (r, s2)"
    using boot su by (auto simp: boot_shell_def obind_eq_Ok)
  obtain m where s2: "s2 = s1\<lparr>mem := m\<rparr>" using fs_load_mem [OF l] by blast
  let ?a = "pcb_addr (of_nat i)" and ?b = "stack_bottom (of_nat i)"
  let ?Q = "(clear_fds ((pcbs s ?a)\<lparr>parent_ksp := esp s, parent_kbp := ebp s, parent_process_number := 0, process_number := of_nat i\<rparr>))
    \<lparr>has_child := 0, tty_number := of_nat i - 1, ksp_before_change := ?b - 60, kbp_before_change := ?b - 60\<rparr>"
  define v where "v = set_stack (of_nat i) (update_pcb ?a (\<lambda>p. p\<lparr>has_child := 0, tty_number := ucast (of_nat i :: u8) - 1\<rparr>)
    (update_pcb ?a clear_fds (update_pcb ?a (\<lambda>p. p\<lparr>parent_ksp := esp s2, parent_kbp := ebp s2,
       parent_process_number := 0, process_number := of_nat i\<rparr>) s2)))"
  define v' where "v' = (if of_nat i \<noteq> (1 :: u8) then v\<lparr>mem := push_words (switch_frame (lay E) e (kernel_stack_bottom v)) (kernel_stack_bottom v) (mem v)\<rparr> else v)"
  define w where "w = update_pcb ?a (\<lambda>p. p\<lparr>ksp_before_change := kernel_stack_bottom v' - 60, kbp_before_change := kernel_stack_bottom v' - 60\<rparr>) v'"
  have "boot_shell E e (of_nat i) s = Ok (True, open_stdout 1 (open_stdin 0 w))"
    using su l unfolding boot_shell_def by (simp add: open_std_eq w_def v'_def v_def Let_def)
  then have t: "t = open_stdout 1 (open_stdin 0 w)" using boot by simp
  have v: "pcbs v' = pcbs v" "running_processes v' = running_processes v" "kernel_stack_bottom v' = kernel_stack_bottom v"
    "tss_esp0 v' = tss_esp0 v" "cr3 v' = cr3 v" by (simp_all add: v'_def)
  have w: "pcbs w = (pcbs s)(?a := ?Q)" "running_processes w = running_processes s"
    "kernel_stack_bottom w = ?b" "tss_esp0 w = ?b" "cr3 w = cr3 s1"
    using i by (simp_all add: w_def v v_def s2 s1_def set_stack_def ucast_of_nat_u8)
  have aw: "this_pcb_addr w = ?a" "this_pcb_addr (open_stdin 0 w) = ?a"
    using stack_bottom_pcb [OF i] by (simp_all add: this_pcb_addr_def open_stdin_def w)
  let ?P = "set_fd 1 (\<lambda>d. d\<lparr>jumptable := Some Stdout_Fops, flags := IN_USE\<rparr>)
    (set_fd 0 (\<lambda>d. d\<lparr>jumptable := Some Stdin_Fops, flags := IN_USE\<rparr>) ?Q)"
  show ?thesis
  proof (rule that [of ?P])
    show "pcbs t = (pcbs s)(?a := ?P)"
      unfolding t by (simp add: open_stdout_def aw) (simp add: open_stdin_def aw w)
    show "cr3 t = (page_directories_addr (lay E) + 0x1000 * of_nat i) AND 0xFFFFFFE7"
      using setup_new_task_state(8) [OF i8 su] i by (simp add: t open_std_frame w unat_of_nat_u8)
    show "std_fds (fds ?P)" by (auto simp: std_fds_def)
  qed (simp_all add: t open_std_frame w)
qed

section \<open>The initial state\<close>

text \<open>
  Before \<open>bootup\<close> only slot 0 is taken, and the PCBs of the slots that it does not fill are zero memory.
\<close>

definition pre_boot :: "'a kernel_state_scheme \<Rightarrow> bool" where
  "pre_boot s \<longleftrightarrow> running_processes s = 0x80 \<and> (\<forall>p\<in>{4..<8}. has_child (proc s p) = 0)"

lemma bootup_shells:
  fixes s t :: "'a kernel_state_scheme"
  assumes "bootup E s = Ok (To_User e, t)"
  obtains u0 u1 u2 u3 where "pcbs u0 = pcbs s" "running_processes u0 = running_processes s"
    "boot_shell E e (of_nat 3) u0 = Ok (True, u1)" "boot_shell E e (of_nat 2) u1 = Ok (True, u2)"
    "boot_shell E e (of_nat 1) u2 = Ok (True, u3)" "pcbs t = pcbs u3" "running_processes t = running_processes u3 OR 0x70"
    "current_process_number t = 1" "kernel_stack_bottom t = kernel_stack_bottom u3" "tss_esp0 t = tss_esp0 u3"
    "cr3 t = cr3 u3" "esp t = tss_esp0 u3"
proof -
  obtain r u0 where f: "fs_read (dentry0 E) (Some (lit ''shell'')) ENTRY_POINT_OFFSET (buf_addr E) 4 s = Ok (r, u0)"
    using assms by (auto simp: bootup_def obind_eq_Ok)
  obtain m where m: "u0 = s\<lparr>mem := m\<rparr>" using fs_read_mem [OF f] by blast
  obtain u3 where b: "boot_shells E e [3, 2, 1] u0 = Ok (True, u3)" and t: "pcbs t = pcbs u3"
    "running_processes t = running_processes u3 OR 0x70"
    "current_process_number t = 1" "kernel_stack_bottom t = kernel_stack_bottom u3" "tss_esp0 t = tss_esp0 u3"
    "cr3 t = cr3 u3" "esp t = tss_esp0 u3"
    using assms f by (auto simp: bootup_def obind_eq_Ok Let_def to_the_user_space_def cli_def sti_def split: if_splits simp del: boot_shells.simps)
  obtain u1 u2 where "boot_shell E e 3 u0 = Ok (True, u1)" "boot_shell E e 2 u1 = Ok (True, u2)" "boot_shell E e 1 u2 = Ok (True, u3)"
    using b by (auto simp: obind_eq_Ok split: if_splits)
  then show ?thesis using that [of u0 u1 u2 u3] t by (simp add: m)
qed

lemma slots_boot: "slots (0x80 OR 0x70) = {0, 1, 2, 3}"
  using slots_F0 by simp

lemma bootup_ok:
  fixes s t :: "'a kernel_state_scheme"
  assumes pre: "pre_boot s" and boot: "bootup E s = Ok (To_User e, t)"
  shows "table_boot (abs_table t)" and "ctx_ok (lay E) t" and "\<forall>p\<in>{1, 2, 3}. std_fds (fds (proc t p)) \<and> tty_number (proc t p) = of_nat p - 1"
proof -
  obtain u0 u1 u2 u3 where u: "pcbs u0 = pcbs s" "running_processes u0 = running_processes s"
    "boot_shell E e (of_nat 3) u0 = Ok (True, u1)" "boot_shell E e (of_nat 2) u1 = Ok (True, u2)"
    "boot_shell E e (of_nat 1) u2 = Ok (True, u3)" "pcbs t = pcbs u3" "running_processes t = running_processes u3 OR 0x70"
    "current_process_number t = 1" "kernel_stack_bottom t = kernel_stack_bottom u3" "tss_esp0 t = tss_esp0 u3"
    "cr3 t = cr3 u3" "esp t = tss_esp0 u3"
    by (rule bootup_shells [OF boot])
  obtain P3 where P3: "pcbs u1 = (pcbs u0)(pcb_addr (of_nat 3) := P3)" "running_processes u1 = running_processes u0"
    "process_number P3 = of_nat 3" "parent_process_number P3 = 0" "has_child P3 = 0" "tty_number P3 = of_nat 3 - 1"
    "ksp_before_change P3 = stack_bottom (of_nat 3) - 60" "std_fds (fds P3)"
    by (rule boot_shell_fields [OF u(3)]) auto
  obtain P2 where P2: "pcbs u2 = (pcbs u1)(pcb_addr (of_nat 2) := P2)" "running_processes u2 = running_processes u1"
    "process_number P2 = of_nat 2" "parent_process_number P2 = 0" "has_child P2 = 0" "tty_number P2 = of_nat 2 - 1"
    "ksp_before_change P2 = stack_bottom (of_nat 2) - 60" "std_fds (fds P2)"
    by (rule boot_shell_fields [OF u(4)]) auto
  obtain P1 where P1: "pcbs u3 = (pcbs u2)(pcb_addr (of_nat 1) := P1)" "running_processes u3 = running_processes u2"
    "process_number P1 = of_nat 1" "parent_process_number P1 = 0" "has_child P1 = 0" "tty_number P1 = of_nat 1 - 1"
    "ksp_before_change P1 = stack_bottom (of_nat 1) - 60" "std_fds (fds P1)"
    "kernel_stack_bottom u3 = stack_bottom (of_nat 1)" "tss_esp0 u3 = stack_bottom (of_nat 1)"
    "cr3 u3 = (page_directories_addr (lay E) + 0x1000 * of_nat 1) AND 0xFFFFFFE7"
    by (rule boot_shell_fields [OF u(5)]) auto
  have run: "slots (running_processes t) = {0, 1, 2, 3}"
    using pre slots_boot by (simp add: u P1 P2 P3 pre_boot_def)
  have pr: "proc t p = (if p = 1 then P1 else if p = 2 then P2 else if p = 3 then P3 else proc s p)" if "p < 8" for p
    using that pcb_addr_inj [of p 1] pcb_addr_inj [of p 2] pcb_addr_inj [of p 3]
    by (auto simp: proc_def u P1 P2 P3)
  show tb: "table_boot (abs_table t)"
    using pre by (auto simp: table_boot_def abs_table_def run u(8) pr P1 P2 P3 pre_boot_def)
  have a: "(stack_bottom (of_nat p) - 60) AND ALIGN_8KB = pcb_addr (of_nat p)" if "p \<in> {1, 2, 3}" for p
    using that by (auto simp: stack_bottom_def pcb_addr_def size_defs)
  have "regs_ok (lay E) (abs_table t) t"
    using stack_bottom_pcb [of 1] a [of 1] a [of 2] a [of 3]
    by (auto simp: regs_ok_def abs_table_def run u(8-12) P1 P2 P3 pr)
  then show "ctx_ok (lay E) t"
    using process_table.inv_init [OF tb] by (simp add: ctx_ok_def run)
  show "\<forall>p\<in>{1, 2, 3}. std_fds (fds (proc t p)) \<and> tty_number (proc t p) = of_nat p - 1"
    by (simp add: pr P1 P2 P3)
qed

section \<open>Booting succeeds\<close>

text \<open>The kernel stacks, 64KB below 8MB, are outside the image; booting builds frames on them.\<close>

definition stacks_safe :: "'a files_state_scheme \<Rightarrow> bool" where
  "stacks_safe s \<longleftrightarrow> (\<forall>i < fs_len s. \<not> (0x7F0000 \<le> bb_start s + of_nat i \<and> bb_start s + of_nat i < SZ_8MB))"

lemma store32_outside: "unat (a - p) \<ge> 4 \<Longrightarrow> store32 m p w a = m a"
  by (auto simp: store32_def)

lemma push_words_outside:
  assumes "0x7F0000 + 4 * length ws \<le> unat sp" and "unat sp \<le> 0x800000" and "\<not> (0x7F0000 \<le> a \<and> a < SZ_8MB)"
  shows "push_words ws sp m a = m a"
  using assms
proof (induction ws arbitrary: sp m)
  case (Cons w ws)
  have sp: "unat (sp - 4) = unat sp - 4" using Cons.prems(1) by (simp add: unat_sub word_le_nat_alt)
  have "push_words (w # ws) sp m = push_words ws (sp - 4) (store32 m (sp - 4) w)" by (simp add: push_words_def)
  moreover have "store32 m (sp - 4) w a = m a"
    by (rule store32_outside) (use Cons.prems sp in \<open>auto simp: unat_sub_if_size word_size word_le_nat_alt word_less_nat_alt size_defs\<close>)
  ultimately show ?case using Cons.IH [of "sp - 4"] Cons.prems sp by simp
qed (simp add: push_words_def)

lemma lit_shell: "is_cstr (lit ''shell'') 5" "bytes (lit ''shell'') 5 = map of_char ''shell''"
proof -
  have l: "length ''shell'' = 5" by simp
  have c: "\<forall>c\<in>set ''shell''. (of_char c :: u8) \<noteq> 0" by simp
  show "is_cstr (lit ''shell'') 5" "bytes (lit ''shell'') 5 = map of_char ''shell''"
    using is_cstr_lit [OF _ c] unfolding l by auto
qed

text \<open>The program that \<open>bootup\<close> starts: the directory entry \<open>shell\<close>, naming executable \<open>n\<close>.\<close>

definition shell_entry :: "'a files_state_scheme \<Rightarrow> nat \<Rightarrow> u32 \<Rightarrow> bool" where
  "shell_entry s i n \<longleftrightarrow> find (\<lambda>i. entry_name s i = map of_char ''shell'') [0..<63] = Some i \<and>
     n = load32 (mem s) (dentry_addr s i + 36) \<and> program_file s n"

definition boot_image :: "u32 \<Rightarrow> nat \<Rightarrow> u32 \<Rightarrow> 'a files_state_scheme \<Rightarrow> bool" where
  "boot_image buf i n s \<longleftrightarrow> image_safe buf s \<and> stacks_safe s \<and> shell_entry s i n"

lemma boot_image_same:
  assumes "boot_image buf i n s" and "same_image s t"
  shows "boot_image buf i n t"
proof -
  have fs: "fs_mounted s" "dir_ok s" "inode_ok s n" "i < 63" and sz: "28 \<le> file_size s n"
    using assms(1) by (auto simp: boot_image_def image_safe_def shell_entry_def program_file_def find_Some_iff)
  have "load32 (mem t) (dentry_addr t i + 36) = load32 (mem s) (dentry_addr s i + 36)"
    using same_entry(3) [OF assms(2) fs(1,2,4)] by (simp add: entry_copy_def)
  moreover have "file_byte t n 0 = file_byte s n 0" "file_byte t n 1 = file_byte s n 1"
    "file_byte t n 2 = file_byte s n 2" "file_byte t n 3 = file_byte s n 3"
    using same_file(3) [OF assms(2) fs(1,3)] sz by simp_all
  ultimately have "shell_entry t i n"
    using assms(1) same_dir(2) [OF assms(2) fs(1,2), of "map of_char ''shell''"] same_file(1,2) [OF assms(2) fs(1,3)]
    unfolding boot_image_def shell_entry_def program_file_def by metis
  then show ?thesis
    using assms(1) same_imageD [OF assms(2)] same_dir(1) [OF assms(2) fs(1,2)]
    by (simp add: boot_image_def image_safe_def stacks_safe_def)
qed

lemma set_stack_bottom: "kernel_stack_bottom (set_stack n s) = stack_bottom n"
  by (simp add: set_stack_def)

lemma same_image_writes:
  "same_image s t \<Longrightarrow> same_image s (update_pcb a f t)" "same_image s t \<Longrightarrow> same_image s (open_stdin fd t)"
  "same_image s t \<Longrightarrow> same_image s (open_stdout fd t)" "same_image s t \<Longrightarrow> same_image s (set_stack n t)"
  by (simp_all add: same_image_def open_stdin_def open_stdout_def update_pcb_def set_stack_def)

lemma same_image_push:
  assumes "same_image s t" and "stacks_safe s" and "0x7F0000 + 4 * length ws \<le> unat sp" and "unat sp \<le> 0x800000"
  shows "same_image s (t\<lparr>mem := push_words ws sp (mem t)\<rparr>)"
  using assms push_words_outside [OF assms(3,4)] by (simp add: same_image_def stacks_safe_def)

lemma boot_shell_Ok:
  fixes s :: "'a kernel_state_scheme"
  assumes img: "boot_image buf k n s" and i: "i \<in> {1, 2, 3}"
  shows "\<exists>t. boot_shell E e (of_nat i) s = Ok (True, t) \<and> same_image s t"
proof -
  have fs: "fs_mounted s" "dir_ok s" "\<forall>i < fs_len s. \<not> in_program_page (bb_start s + of_nat i)" "stacks_safe s"
    and prog: "inode_ok s n" "file_size s n \<le> 0x3B8000"
    using img by (auto simp: boot_image_def image_safe_def shell_entry_def program_file_def)
  have i8: "(of_nat i :: u8) < 8" using i by auto
  define s1 where "s1 = snd (setup_new_task (lay E) (of_nat i) s)"
  have su: "setup_new_task (lay E) (of_nat i) s = (0, s1)"
    using setup_new_task_state(1) [OF i8, of "lay E" s] s1_def by (metis prod.collapse)
  have i1: "same_image s s1" unfolding s1_def by (rule same_image_setup [OF fs(3)])
  have b1: "boot_image buf k n s1" by (rule boot_image_same [OF img i1])
  note f1 = same_imageD [OF i1] same_file(1,2) [OF i1 fs(1) prog(1)] same_dir [OF i1 fs(1,2)]
  define s2 where "s2 = s1\<lparr>mem := blit (mem s1) PROGRAM_LOAD_ADDR (file_size s n) (\<lambda>j. file_byte s1 n (unat j))\<rparr>"
  have dis: "disjoint_runs PROGRAM_LOAD_ADDR (file_size s n) (bb_start s) (fs_len s)"
    by (rule program_page_disjoint [OF fs(3) prog(2)])
  have "\<exists>r. fs_load (dentry0 E) (Some (lit ''shell'')) PROGRAM_LOAD_ADDR s1 = Ok (r, s2)"
    using fs_load_eq [of s1 "lit ''shell''" 5 k n "dentry0 E" PROGRAM_LOAD_ADDR] f1 fs prog lit_shell dis b1
    by (simp add: s2_def boot_image_def shell_entry_def entry_copy_def)
  then obtain r where l: "fs_load (dentry0 E) (Some (lit ''shell'')) PROGRAM_LOAD_ADDR s1 = Ok (r, s2)" by blast
  have i2: "same_image s s2"
    unfolding s2_def by (rule same_image_trans [OF i1 same_image_blit]) (simp add: f1 dis)
  have "same_image s t" if "boot_shell E e (of_nat i) s = Ok (True, t)" for t
    using that su l i fs(4)
    by (auto simp: boot_shell_def open_std_eq Let_def set_stack_bottom switch_frame_def stack_bottom_def size_defs intro!: same_image_writes same_image_push i2)
  then show ?thesis
    using su l by (simp add: boot_shell_def open_std_eq Let_def)
qed

lemma bootup_Ok:
  fixes s :: "'a kernel_state_scheme"
  assumes img: "boot_image (buf_addr E) k n s"
  shows "\<exists>t. bootup E s = Ok (To_User (program_entry s n), t)"
proof -
  let ?buf = "buf_addr E"
  have fs: "fs_mounted s" "dir_ok s" "?buf \<noteq> NULL_PTR" "disjoint_runs ?buf 4 (bb_start s) (fs_len s)"
    and sh: "shell_entry s k n" and ino: "inode_ok s n" "28 \<le> file_size s n"
    using img by (auto simp: boot_image_def image_safe_def shell_entry_def program_file_def)
  define s0 where "s0 = s\<lparr>mem := blit (mem s) ?buf 4 (\<lambda>j. file_byte s n (24 + unat j))\<rparr>"
  have r: "fs_read (dentry0 E) (Some (lit ''shell'')) ENTRY_POINT_OFFSET ?buf 4 s = Ok (4, s0)"
    using fs_read_eq [OF fs(1,2) lit_shell(1) fs(3), of 4 "dentry0 E" ENTRY_POINT_OFFSET] fs(4) sh ino
    by (simp add: s0_def Let_def lit_shell ENTRY_POINT_OFFSET_def shell_entry_def entry_copy_def)
  have e: "entry_bytes ?buf (mem s0) 0 = program_entry s n"
    by (simp add: s0_def entry_bytes_blit [where g = "\<lambda>j. file_byte s n (24 + j)"] program_entry_def)
  have "boot_image ?buf k n s0" unfolding s0_def by (rule boot_image_same [OF img same_image_blit [OF fs(4)]])
  then obtain u1 where u1: "boot_shell E (program_entry s n) (of_nat 3) s0 = Ok (True, u1)" "boot_image ?buf k n u1"
    using boot_shell_Ok [of ?buf k n s0 3 E] boot_image_same by blast
  obtain u2 where u2: "boot_shell E (program_entry s n) (of_nat 2) u1 = Ok (True, u2)" "boot_image ?buf k n u2"
    using boot_shell_Ok [of ?buf k n u1 2 E] boot_image_same u1(2) by blast
  obtain u3 where u3: "boot_shell E (program_entry s n) (of_nat 1) u2 = Ok (True, u3)"
    using boot_shell_Ok [of ?buf k n u2 1 E] u2(2) by blast
  have "boot_shells E (program_entry s n) [3, 2, 1] s0 = Ok (True, u3)"
    using u1 u2 u3 by simp
  then show ?thesis
    using r e by (simp add: bootup_def Let_def to_the_user_space_def del: boot_shells.simps)
qed

end
