(* ===== verification/System.thy ===== *)
theory System
  imports Execute_Errors Boot
begin

text \<open>
  The kernel as a whole: the system call entry of \<open>interrupthandler.S\<close>, the \<open>read\<close> call cut at the
  loop where it waits, a step relation with the timer, clock and keyboard interrupts, every system call
  and the waits inside \<open>read\<close>, and the invariant of the context kept by all of them from \<open>bootup\<close> on.
\<close>

section \<open>What the drivers leave alone\<close>

text \<open>
  The drivers below paging only touch their own part of the state: the record extension that holds the
  page tables and the processes is unchanged.
\<close>

abbreviation upper :: "'a kbd_state_scheme \<Rightarrow> 'a" where
  "upper s \<equiv> kbd_state.more s"

lemma upper_screen [simp]:
  "upper (outb d p s) = upper s" "upper (putc c tty s) = upper s" "upper (new_line s) = upper s"
  "upper (set_command_location tty s) = upper s" "upper (carriage_return s) = upper s"
  "upper (update_cursor x s) = upper s" "upper (load_video_memory v s) = upper s"
  "upper (clear_the_screen s) = upper s" "upper (set_active_term v s) = upper s" "upper (cli s) = upper s"
  "upper (sti s) = upper s" "upper (send_eoi k s) = upper s" "upper (snd (inb dv p s)) = upper s"
  by (simp_all add: screen_op_defs set_active_term_def cli_def sti_def send_eoi_def inb_def)

lemma upper_fold_putc [simp]: "upper (fold (\<lambda>c. putc c tty) cs s) = upper s"
  by (induction cs arbitrary: s) simp_all

lemma upper_keys [simp]:
  "upper (insert_datum c i s) = upper s" "upper (backspace_key s) = upper s" "upper (delete_key s) = upper s"
  "upper (set_flag f s) = upper s" "upper (function_key sc s) = upper s" "upper (extra_key sc s) = upper s"
  "upper (ctrl_l s) = upper s"
  by (simp_all add: insert_datum_def backspace_key_def delete_key_def set_flag_def function_key_def extra_key_def
      ctrl_l_def Let_def)

lemma upper_process_input [simp]: "upper (process_keyboard_input dv sc s) = upper s"
proof -
  obtain v u where i: "inb dv KEYBOARD_PORT s = (v, u)" by (cases "inb dv KEYBOARD_PORT s")
  have "upper u = upper s" using upper_screen(13) [of dv KEYBOARD_PORT s] i by simp
  then show ?thesis by (simp add: process_keyboard_input_def Let_def i place_character_at_index_def)
qed

lemma upper_print [simp]: "upper (printthebuffer s) = upper s"
proof -
  have "upper (fold (\<lambda>i s. putc (command_buffer s t (int i)) t s) ns u) = upper u" for ns t and u :: "'a kbd_state_scheme"
    by (induction ns arbitrary: u) simp_all
  then show ?thesis by (simp add: printthebuffer_def Let_def)
qed

lemma upper_keyboard_loop: "keyboard_loop dv s = Some t \<Longrightarrow> upper t = upper s"
proof -
  assume l: "keyboard_loop dv s = Some t"
  have i: "inb dv p u = (v, w) \<Longrightarrow> upper w = upper u" for dv p v and u w :: "'a kbd_state_scheme"
    using upper_screen(13) [of dv p u] by simp
  show ?thesis
    by (rule keyboard_loop.raw_induct [where P = "\<lambda>dv s t. upper t = upper s", OF _ l])
      (auto simp: Let_def split: if_splits prod.splits dest!: i)
qed

lemma upper_keyboard: "keyboard_interruption dv s = Some t \<Longrightarrow> upper t = upper s"
  using upper_keyboard_loop by (fastforce simp: keyboard_interruption_def split: option.splits)

lemma upper_clock [simp]: "upper (clock_interruption dv s) = upper s"
  by (simp add: clock_interruption_def Let_def inb_def update_vid_def outb_def cli_def sti_def send_eoi_def)

section \<open>What a call that is no process operation keeps\<close>

text \<open>The part of a PCB that the process table and the switches are about; descriptors and arguments are not in it.\<close>

definition pcb_core :: "pcb \<Rightarrow> u8 \<times> u8 \<times> u32 \<times> u32 \<times> u32 \<times> u32 \<times> u32" where
  "pcb_core p = (process_number p, parent_process_number p, parent_ksp p, has_child p, tty_number p, ksp_before_change p, kbp_before_change p)"

definition same_ctx :: "'a kernel_state_scheme \<Rightarrow> 'a kernel_state_scheme \<Rightarrow> bool" where
  "same_ctx s t \<longleftrightarrow> running_processes t = running_processes s \<and> kernel_stack_bottom t = kernel_stack_bottom s \<and>
     current_process_number t = current_process_number s \<and> tss_esp0 t = tss_esp0 s \<and> cr3 t = cr3 s \<and> esp t = esp s \<and>
     (\<forall>a. pcb_core (pcbs t a) = pcb_core (pcbs s a))"

lemma same_ctx_refl [simp]: "same_ctx s s"
  by (simp add: same_ctx_def)

lemma same_ctx_trans [trans]: "same_ctx s t \<Longrightarrow> same_ctx t u \<Longrightarrow> same_ctx s u"
  by (simp add: same_ctx_def)

lemma same_ctxD:
  assumes "same_ctx s t"
  shows "abs_table t = abs_table s" and "ctx_ok L t = ctx_ok L s"
proof -
  have p: "process_number (proc t p) = process_number (proc s p)" "parent_process_number (proc t p) = parent_process_number (proc s p)"
    "parent_ksp (proc t p) = parent_ksp (proc s p)" "has_child (proc t p) = has_child (proc s p)"
    "tty_number (proc t p) = tty_number (proc s p)" "ksp_before_change (proc t p) = ksp_before_change (proc s p)" for p
    using assms by (simp_all add: same_ctx_def pcb_core_def proc_def)
  show a: "abs_table t = abs_table s"
    using assms by (simp add: abs_table_def p same_ctx_def cong: if_cong)
  show "ctx_ok L t = ctx_ok L s"
    unfolding ctx_ok_def regs_ok_def a using assms by (simp add: p same_ctx_def)
qed

lemma same_ctx_upper: "upper t = upper s \<Longrightarrow> same_ctx s t"
  by (cases s; cases t) (simp add: same_ctx_def kbd_state.defs paging_state.defs kernel_state.defs)

lemma same_ctx_mem [simp]: "same_ctx s (s\<lparr>mem := m\<rparr>)"
  by (simp add: same_ctx_def)

lemma same_ctx_update_pcb:
  "same_ctx s t \<Longrightarrow> (\<And>p. pcb_core (f p) = pcb_core p) \<Longrightarrow> same_ctx s (update_pcb a f t)"
  by (simp add: same_ctx_def)

lemma pcb_core_fd [simp]:
  "pcb_core (set_fd i f p) = pcb_core p" "pcb_core (p\<lparr>filenames := x\<rparr>) = pcb_core p"
  by (simp_all add: pcb_core_def set_fd_def)

section \<open>Every system call but \<open>execute\<close> and \<open>halt\<close>\<close>

lemma same_ctx_messages:
  "printf cb (lit ''The File Descriptor Array is Filled\<newline>'') args s = Ok (r, t) \<Longrightarrow> same_ctx s t"
  "printf cb (lit ''Silly rabbit, trix are for kids.\<newline>'') args s = Ok (r, t) \<Longrightarrow> same_ctx s t"
  by (subst (asm) printf_literal; auto intro!: same_ctx_upper)+

lemma same_ctx_terminal_read:
  assumes "terminal_read [] tty buf nbytes s = Ok (r, t)"
  shows "same_ctx s t"
proof -
  have "upper (take_line buf n u) = upper u" for n and u :: "'a kernel_state_scheme"
    unfolding take_line_def Let_def by (induction n) simp_all
  then have "upper t = upper s"
    using assms by (auto simp: terminal_read_def Let_def of_loop_def obind_eq_Ok split: option.splits if_splits)
  then show ?thesis by (rule same_ctx_upper)
qed

lemma same_ctx_rtc_read: "rtc_read [] s = Some (r, t) \<Longrightarrow> same_ctx s t"
  by (rule same_ctx_upper) (auto simp: rtc_read_def split: if_splits)

lemma same_ctx_dir_read: "dir_read buf s = Ok (r, t) \<Longrightarrow> same_ctx s t"
  by (rule same_ctx_upper) (auto simp: dir_read_def obind_eq_Ok Let_def split: if_splits)

lemma same_ctx_file_read: "file_read d buf n f off s = Ok (r, t) \<Longrightarrow> same_ctx s t"
  using fs_read_mem by (force simp: file_read_def)

lemma same_ctx_fops_read:
  assumes "fops_read E jt buf n name pos s = Ok (r, t)" and "irqs E = []"
  shows "same_ctx s t"
  using assms
  by (auto simp: fops_read_def of_loop_def split: option.splits fops.splits
      intro: same_ctx_terminal_read same_ctx_rtc_read same_ctx_dir_read same_ctx_file_read)

lemma same_ctx_sys_read:
  assumes "sys_read E fd buf n s = Ok (r, t)" and "irqs E = []"
  shows "same_ctx s t"
proof -
  have "same_ctx s (sti s)" by (rule same_ctx_upper) simp
  then show ?thesis
    using assms unfolding sys_read_def Let_def
    by (auto simp: obind_eq_Ok split: if_splits intro!: same_ctx_update_pcb intro: same_ctx_trans same_ctx_fops_read)
qed

lemma same_ctx_terminal_write: "same_ctx s (snd (terminal_write tty buf n s))"
proof -
  have "upper (fold (\<lambda>i s. putc (mem s (buf + of_nat i)) tty s) ns u) = upper u" for ns and u :: "'a kernel_state_scheme"
    by (induction ns arbitrary: u) simp_all
  then show ?thesis by (intro same_ctx_upper) (simp add: terminal_write_def Let_def)
qed

lemma same_ctx_rtc_write: "same_ctx s (snd (rtc_write dv buf n s))"
  by (rule same_ctx_upper)
    (simp add: rtc_write_def rtc_write_value_def outb_def inb_def Let_def split: option.splits if_splits)

lemma same_ctx_sys_write: "sys_write E fd buf n s = Ok (r, t) \<Longrightarrow> same_ctx s t"
  using same_ctx_terminal_write [of s "get_tty_number s" buf n] same_ctx_rtc_write [of s "dev E" buf n]
  by (auto simp: sys_write_def fops_write_def Let_def split: if_splits option.splits fops.splits)

lemma same_ctx_open: "open_file E name s = Ok (r, t) \<Longrightarrow> same_ctx s t"
  unfolding open_file_def Let_def open_stdin_def open_stdout_def
  by (auto simp: obind_eq_Ok split: if_splits option.splits intro!: same_ctx_update_pcb dest: same_ctx_messages(1))

lemma same_ctx_close: "sys_close fd s = Ok (r, t) \<Longrightarrow> same_ctx s t"
  unfolding sys_close_def Let_def by (auto simp: obind_eq_Ok split: if_splits intro!: same_ctx_update_pcb)

lemma same_ctx_getargs: "getargs buf n s = Ok (r, t) \<Longrightarrow> same_ctx s t"
  unfolding getargs_def Let_def by (auto simp: obind_eq_Ok split: if_splits)

lemma same_ctx_vidmap: "same_ctx s (snd (vidmap a s))"
  by (simp add: vidmap_def Let_def)

lemmas same_ctx_calls =
  same_ctx_sys_read same_ctx_sys_write same_ctx_open same_ctx_close same_ctx_getargs

section \<open>The system call entry\<close>

definition returns :: "(i32 \<times> 's) outcome \<Rightarrow> (exit \<times> 's) outcome" where
  "returns r = obind r (\<lambda>(v, s). Ok (Ret v, s))"

definition syscall_handler ::
  "'a kernel_state_scheme env \<Rightarrow> u32 \<Rightarrow> u32 \<Rightarrow> u32 \<Rightarrow> u32 \<Rightarrow> 'a kernel_state_scheme \<Rightarrow>
   (exit \<times> 'a kernel_state_scheme) outcome" where
  "syscall_handler E eax ebx ecx edx s =
     (if sint eax < 1 \<or> sint eax > 10 then Ok (Ret (-1), s)
      else if eax = 1 then halt E (ucast ebx) s
      else if eax = 2 then execute E ebx s
      else if eax = 3 then returns (sys_read E ebx ecx edx s)
      else if eax = 4 then returns (sys_write E ebx ecx edx s)
      else if eax = 5 then returns (open_file E (ptr (mem s) ebx) s)
      else if eax = 6 then returns (sys_close ebx s)
      else if eax = 7 then returns (getargs ebx ecx s)
      else if eax = 8 then returns (Ok (vidmap ebx s))
      else if eax = 9 then returns (Ok (set_handler ebx ecx, s))
      else returns (Ok (sigreturn, s)))"

lemma returns_eq_Ok [simp]: "returns r = Ok (x, t) \<longleftrightarrow> (\<exists>v. r = Ok (v, t) \<and> x = Ret v)"
  by (auto simp: returns_def obind_eq_Ok)

text \<open>Entering user mode unwinds the kernel stack of the current process.\<close>

lemma user_space_ctx:
  assumes "ctx_ok L s"
  shows "abs_table (snd (to_the_user_space e s)) = abs_table s" and "ctx_ok L (snd (to_the_user_space e s))"
proof -
  let ?t = "snd (to_the_user_space e s)"
  have f: "running_processes ?t = running_processes s" "kernel_stack_bottom ?t = kernel_stack_bottom s"
    "current_process_number ?t = current_process_number s" "tss_esp0 ?t = tss_esp0 s" "cr3 ?t = cr3 s"
    "esp ?t = tss_esp0 s" "pcbs ?t = pcbs s"
    by (simp_all add: to_the_user_space_def Let_def cli_def)
  show a: "abs_table ?t = abs_table s" by (simp add: abs_table_def f proc_def cong: if_cong)
  have "tss_esp0 s = stack_bottom (of_nat (cur (abs_table s)))" using assms by (simp add: ctx_ok_def regs_ok_def)
  moreover have "cur (abs_table s) < 8" using ctx_ok_cur(2) [OF assms] by (simp add: abs_table_def)
  ultimately have "tss_esp0 s AND ALIGN_8KB = pcb_addr (of_nat (cur (abs_table s)))" by (simp only: stack_bottom_pcb)
  then show "ctx_ok L ?t"
    using assms unfolding ctx_ok_def a regs_ok_def by (simp add: f proc_def)
qed

lemma restart_shell_ctx:
  assumes "ctx_ok L s" and "restart_shell E s = Ok (x, t)"
  shows "abs_table t = abs_table s" and "ctx_ok L t"
proof -
  obtain r1 s1 r2 s2 where p: "printf (conv_buf0 E) (lit ''Silly rabbit, trix are for kids.\<newline>'') (\<lambda>_. 0) s = Ok (r1, s1)"
    and f: "fs_read (dentry0 E) (Some (lit ''shell'')) ENTRY_POINT_OFFSET (buf_addr E) 4 s1 = Ok (r2, s2)"
    and t: "t = s2 \<or> (\<exists>e. t = snd (to_the_user_space e s2))"
    using assms(2) by (auto simp: restart_shell_def obind_eq_Ok split: if_splits) (metis snd_conv)+
  have "same_ctx s s1" by (rule same_ctx_messages(2) [OF p])
  also have "same_ctx s1 s2" using fs_read_mem [OF f] by auto
  finally have c: "same_ctx s s2" .
  show "abs_table t = abs_table s" and "ctx_ok L t"
    using t same_ctxD [OF c] assms(1) user_space_ctx [of _ s2] by auto
qed

lemma halt_refines:
  assumes "ctx_ok (lay E) s" and "halt E status s = Ok (x, t)"
  shows "ctx_ok (lay E) t" and "abs_table t = abs_table s \<or> table_step (abs_table s) (abs_table t)"
proof -
  have "ctx_ok (lay E) t \<and> (abs_table t = abs_table s \<or> table_step (abs_table s) (abs_table t))"
  proof (cases "parent_process_number (pcbs s (this_pcb_addr s)) = 0")
    case True
    then show ?thesis using assms restart_shell_ctx by (auto simp: halt_def)
  next
    case False
    have p: "par (abs_table s) (cur (abs_table s)) \<noteq> 0"
      using False ctx_ok_cur [OF assms(1)] by (simp add: abs_table_def proc_def unat_gt_0)
    have t: "t = snd (return_to_parent (lay E) status s)" using False assms(2) by (simp add: halt_def)
    show ?thesis
      using return_to_parent_refines [OF assms(1) False, of status] table_step.leave [OF p] by (simp add: t)
  qed
  then show "ctx_ok (lay E) t" and "abs_table t = abs_table s \<or> table_step (abs_table s) (abs_table t)" by auto
qed

lemma execute_exits: "execute E cmd s = Ok (x, t) \<Longrightarrow> (\<exists>e. x = To_User e) \<or> (\<exists>r. x = Ret r)"
  by (cases x) (auto simp: execute_def obind_eq_Ok Let_def start_process_def to_the_user_space_def case_prod_beta split: if_splits option.splits)

lemma execute_keeps:
  assumes "ctx_ok (lay E) s" and "image_ok (buf_addr E) s" and "execute E cmd s = Ok (x, t)"
  shows "ctx_ok (lay E) t" and "abs_table t = abs_table s \<or> table_step (abs_table s) (abs_table t)"
proof -
  have "ctx_ok (lay E) t \<and> (abs_table t = abs_table s \<or> table_step (abs_table s) (abs_table t))"
    using execute_exits [OF assms(3)]
  proof (elim disjE exE)
    fix e assume x: "x = To_User e"
    obtain n where "n \<in> {1..<8} - live (abs_table s)" "abs_table t = spawn n (abs_table s)" "ctx_ok (lay E) t"
      using execute_refines [of E s cmd e t] assms x by auto
    then show ?thesis using table_step.spawn [of n "abs_table s"] by simp
  next
    fix r assume x: "x = Ret r"
    obtain m where "t = s\<lparr>mem := m\<rparr>" using execute_fails [of E s cmd r t] assms x by auto
    then show ?thesis using same_ctxD [of s t] assms(1) by simp
  qed
  then show "ctx_ok (lay E) t" and "abs_table t = abs_table s \<or> table_step (abs_table s) (abs_table t)" by auto
qed

lemma same_ctx_syscall:
  assumes "syscall_handler E eax ebx ecx edx s = Ok (x, t)" and "irqs E = []" and "eax \<noteq> 1" and "eax \<noteq> 2"
  shows "same_ctx s t"
  using assms same_ctx_vidmap [of s ebx] by (auto simp: syscall_handler_def split: if_splits intro: same_ctx_calls)

lemma syscall_keeps:
  assumes "ctx_ok (lay E) s" and "image_ok (buf_addr E) s" and "irqs E = []"
    and "syscall_handler E eax ebx ecx edx s = Ok (x, t)"
  shows "ctx_ok (lay E) t" and "abs_table t = abs_table s \<or> table_step (abs_table s) (abs_table t)"
proof -
  consider "halt E (ucast ebx) s = Ok (x, t)" | "execute E ebx s = Ok (x, t)" | "same_ctx s t"
    using same_ctx_syscall [OF assms(4,3)] assms(4) by (cases "eax = 1 \<or> eax = 2") (auto simp: syscall_handler_def)
  then have "ctx_ok (lay E) t \<and> (abs_table t = abs_table s \<or> table_step (abs_table s) (abs_table t))"
    by cases (use halt_refines [OF assms(1)] execute_keeps [OF assms(1,2)] same_ctxD assms(1) in blast)+
  then show "ctx_ok (lay E) t" and "abs_table t = abs_table s \<or> table_step (abs_table s) (abs_table t)" by auto
qed

section \<open>Reads that wait\<close>

text \<open>
  \<open>read\<close> enables interrupts, and on a terminal or the clock it then spins until an interrupt handler sets
  a flag; meanwhile the timer switches to other processes, whose calls may wait in their turn. The call
  is cut at the loop: \<open>read_begins\<close> is what it does up to the loop, with the local variables that it
  comes back with, \<open>read_waits\<close> the condition of the loop, and \<open>read_ends\<close> the rest.
\<close>

record reading =
  rd_fops :: fops
  rd_tty :: u32
  rd_pcb :: u32
  rd_fd :: nat
  rd_buf :: u32
  rd_nbytes :: i32

definition read_begins :: "i32 \<Rightarrow> u32 \<Rightarrow> i32 \<Rightarrow> 'a kernel_state_scheme \<Rightarrow> (reading \<times> 'a kernel_state_scheme) option" where
  "read_begins fd buf nbytes s =
     (let s = sti s; a = this_pcb_addr s; p = pcbs s a; i = unat fd;
          r = \<lparr>rd_fops = Rtc_Fops, rd_tty = get_tty_number s, rd_pcb = a, rd_fd = i, rd_buf = buf, rd_nbytes = nbytes\<rparr>
      in if bad_fd 0 fd p \<or> buf = NULL_PTR then None
         else if jumptable (fds p i) = Some Stdin_Fops
              then Some (r\<lparr>rd_fops := Stdin_Fops\<rparr>, set_command_location (get_tty_number s) s)
         else if jumptable (fds p i) = Some Rtc_Fops then Some (r, s)
         else None)"

definition read_waits :: "reading \<Rightarrow> 'a kernel_state_scheme \<Rightarrow> bool" where
  "read_waits r s \<longleftrightarrow> (if rd_fops r = Stdin_Fops then allow_terminal_read s (rd_tty r) = 0 else interrupt_occurred s = 0)"

definition terminal_read_ends :: "u32 \<Rightarrow> i32 \<Rightarrow> 'a kbd_state_scheme \<Rightarrow> (i32 \<times> 'a kbd_state_scheme) outcome" where
  "terminal_read_ends buf nbytes s =
     (let s = new_line s; n = nat (sint nbytes)
      in if n > unat TERMINAL_BUFFER_MAX_SIZE then Fault Out_Of_Bounds
         else
           (let s = take_line buf n s; a = active_terminal s;
                s = s\<lparr>command_length := (command_length s)(a := 0), cursor_x := (cursor_x s)(a := 0),
                      allow_terminal_read := (allow_terminal_read s)(a := 0)\<rparr>
            in Ok (of_nat n, s)))"

definition read_ends :: "reading \<Rightarrow> 'a kernel_state_scheme \<Rightarrow> (i32 \<times> 'a kernel_state_scheme) outcome" where
  "read_ends r s =
     obind (if rd_fops r = Stdin_Fops then terminal_read_ends (rd_buf r) (rd_nbytes r) s else Ok (0, s\<lparr>interrupt_occurred := 0\<rparr>))
       (\<lambda>(bytesread, s).
         Ok (bytesread, update_pcb (rd_pcb r) (set_fd (rd_fd r) (\<lambda>d. d\<lparr>fileposition := fileposition d + bytesread\<rparr>)) s))"

text \<open>The three parts make up the call: the handlers that run in between are those of the loop.\<close>

lemma terminal_read_parts:
  "terminal_read hs tty buf nbytes s =
     obind (of_loop (spin_while (\<lambda>s. allow_terminal_read s tty = 0) hs (set_command_location tty s))) (terminal_read_ends buf nbytes)"
  by (simp add: terminal_read_def terminal_read_ends_def [abs_def] Let_def)

lemma rtc_read_parts:
  "of_loop (rtc_read hs s) =
     obind (of_loop (spin_while (\<lambda>s. interrupt_occurred s = 0) hs s)) (\<lambda>s. Ok (0, s\<lparr>interrupt_occurred := 0\<rparr>))"
  by (simp add: rtc_read_def of_loop_def split: option.splits)

lemma sys_read_parts:
  assumes "read_begins fd buf nbytes s = Some (r, u)"
  shows "sys_read E fd buf nbytes s = obind (of_loop (spin_while (read_waits r) (irqs E) u)) (read_ends r)"
  using assms
  by (auto simp: read_begins_def Let_def sys_read_def fops_read_def terminal_read_parts rtc_read_parts read_waits_def [abs_def]
      read_ends_def [abs_def] obind_assoc split: if_splits)

section \<open>The kernel as a transition system\<close>

text \<open>
  The state of the system: for each process inside a \<open>read\<close> that waits, the local variables of the call, and the kernel.
  An event is an interrupt, a system call of the current process, the beginning or the end of a wait, or user code,
  which writes where the page tables let it (\<open>task_address_space\<close>): in its program page and in the first 4MB but page 0.
  The gate of system calls disables interrupts and only \<open>read\<close> enables them again, so a call that does not wait is one event.
  Calls are made on an intact file system image.
\<close>

definition user_writable :: "u32 \<Rightarrow> bool" where
  "user_writable a \<longleftrightarrow> in_program_page a \<or> SZ_4KB \<le> a \<and> a < SZ_4MB"

abbreviation cur_proc :: "'a kernel_state_scheme \<Rightarrow> nat" where
  "cur_proc s \<equiv> unat (current_process_number s)"

inductive kernel_event :: "layout \<Rightarrow> (nat \<rightharpoonup> reading) \<times> 'a kernel_state_scheme \<Rightarrow> (nat \<rightharpoonup> reading) \<times> 'a kernel_state_scheme \<Rightarrow> bool"
  for L where
  timer: "pit_interruption L s = Some t \<Longrightarrow> kernel_event L (w, s) (w, t)"
| clock: "kernel_event L (w, s) (w, clock_interruption dv s)"
| keyboard: "keyboard_interruption dv s = Some t \<Longrightarrow> kernel_event L (w, s) (w, t)"
| syscall: "w (cur_proc s) = None \<Longrightarrow> lay E = L \<Longrightarrow> irqs E = [] \<Longrightarrow> image_ok (buf_addr E) s \<Longrightarrow>
    syscall_handler E eax ebx ecx edx s = Ok (x, t) \<Longrightarrow> kernel_event L (w, s) (w, t)"
| waits: "w (cur_proc s) = None \<Longrightarrow> read_begins ebx ecx edx s = Some (r, t) \<Longrightarrow>
    kernel_event L (w, s) (w(cur_proc s \<mapsto> r), t)"
| woken: "w (cur_proc s) = Some r \<Longrightarrow> \<not> read_waits r s \<Longrightarrow> read_ends r s = Ok (v, t) \<Longrightarrow>
    kernel_event L (w, s) (w(cur_proc s := None), t)"
| user: "w (cur_proc s) = None \<Longrightarrow> (\<And>a. \<not> user_writable a \<Longrightarrow> m a = mem s a) \<Longrightarrow> kernel_event L (w, s) (w, s\<lparr>mem := m\<rparr>)"

text \<open>
  The PCBs are a store of their own in the model, and in the machine the first 512 bytes of the eight 8KB blocks below 8MB.
  The two agree as long as nothing writes to those bytes through a pointer: a step of the kernel is an event that leaves them
  alone. \<open>read\<close> and \<open>getargs\<close> do not check their buffers, so a program can break this; one whose buffers are in its
  program page does not (\<open>calls_spare_blocks\<close>).
\<close>

definition kernel_block :: "u32 \<Rightarrow> bool" where
  "kernel_block a \<longleftrightarrow> 0x7F0000 \<le> a \<and> a < SZ_8MB"

definition pcb_byte :: "u32 \<Rightarrow> bool" where
  "pcb_byte a \<longleftrightarrow> kernel_block a \<and> a AND 0x1FFF < 0x200"

definition kernel_step :: "layout \<Rightarrow> (nat \<rightharpoonup> reading) \<times> 'a kernel_state_scheme \<Rightarrow> (nat \<rightharpoonup> reading) \<times> 'a kernel_state_scheme \<Rightarrow> bool" where
  "kernel_step L c d \<longleftrightarrow> kernel_event L c d \<and> (\<forall>a. pcb_byte a \<longrightarrow> mem (snd d) a = mem (snd c) a)"



lemma timer_keeps:
  assumes ok: "ctx_ok L s" and pit: "pit_interruption L s = Some t"
  shows "ctx_ok L t" and "table_step (abs_table s) (abs_table t)"
proof -
  let ?T = "abs_table s" and ?p = "pick (leaves s) (cur (abs_table s))"
  have t: "ctx_ok L t" "abs_table t = ?T\<lparr>cur := ?p\<rparr>" using pit_interruption_ok [OF ok] pit by auto
  have c: "cur ?T \<in> live ?T" "\<not> waits ?T (cur ?T)" using ok by (simp_all add: ctx_ok_def table_ok_def)
  have "cur ?T < 8" using ctx_ok_cur(2) [OF ok] by (simp add: abs_table_def)
  then have "?p \<in> live ?T \<and> \<not> waits ?T ?p"
    using pick_in [of "cur ?T" "leaves s"] c by (auto simp: leaves_def abs_table_def proc_def)
  then show "ctx_ok L t" "table_step ?T (abs_table t)" using t table_step.switch by auto
qed

lemma same_ctx_read_begins: "read_begins fd buf n s = Some (r, t) \<Longrightarrow> same_ctx s t"
  by (rule same_ctx_upper) (auto simp: read_begins_def Let_def split: if_splits)

lemma same_ctx_read_ends:
  assumes "read_ends r s = Ok (v, t)"
  shows "same_ctx s t"
proof -
  have "upper (take_line buf n u) = upper u" for buf n and u :: "'a kernel_state_scheme"
    unfolding take_line_def Let_def by (induction n) simp_all
  then have e: "same_ctx s u" if "terminal_read_ends buf n s = Ok (v, u)" for buf n v u
    using that by (intro same_ctx_upper) (auto simp: terminal_read_ends_def Let_def split: if_splits)
  have "same_ctx s (s\<lparr>interrupt_occurred := 0\<rparr>)" by (rule same_ctx_upper) simp
  then show ?thesis
    using assms e by (auto simp: read_ends_def obind_eq_Ok split: if_splits intro!: same_ctx_update_pcb)
qed

text \<open>
  The invariant of the system: the context of the kernel, and every process inside a \<open>read\<close> that waits is alive,
  has no child, and comes back to its own PCB.
\<close>

definition readers_ok :: "ptable \<Rightarrow> (nat \<rightharpoonup> reading) \<Rightarrow> bool" where
  "readers_ok T w \<longleftrightarrow> (\<forall>p r. w p = Some r \<longrightarrow> p \<in> live T \<and> \<not> waits T p \<and> rd_pcb r = pcb_addr (of_nat p))"

definition system_ok :: "layout \<Rightarrow> (nat \<rightharpoonup> reading) \<times> 'a kernel_state_scheme \<Rightarrow> bool" where
  "system_ok L c \<longleftrightarrow> ctx_ok L (snd c) \<and> readers_ok (abs_table (snd c)) (fst c)"

lemma readers_ok_step:
  "table_step T T' \<Longrightarrow> table_ok T \<Longrightarrow> readers_ok T w \<Longrightarrow> w (cur T) = None \<Longrightarrow> readers_ok T' w"
proof (induction rule: table_step.induct)
  case (spawn n T)
  then show ?case by (auto simp: readers_ok_def spawn_def)
next
  case (leave T)
  then show ?case by (auto simp: readers_ok_def leave_def)
next
  case (switch n T)
  then show ?case by (simp add: readers_ok_def)
qed

lemma read_begins_pcb: "read_begins fd buf n s = Some (r, t) \<Longrightarrow> rd_pcb r = this_pcb_addr s"
  by (auto simp: read_begins_def Let_def this_pcb_addr_def sti_def split: if_splits)

lemma kernel_event_keeps:
  assumes "kernel_event L (w, s) c" and "system_ok L (w, s)"
  shows "system_ok L c \<and> (abs_table (snd c) = abs_table s \<or> table_step (abs_table s) (abs_table (snd c)))"
proof -
  have ok: "ctx_ok L s" "readers_ok (abs_table s) w" "table_ok (abs_table s)" and cur: "cur (abs_table s) = cur_proc s"
    using assms(2) by (simp_all add: system_ok_def ctx_ok_def) (simp add: abs_table_def)
  have same: ?thesis if "c = (w', t)" "same_ctx s t" "readers_ok (abs_table s) w'" for w' t
    using that same_ctxD(1) [OF that(2)] same_ctxD(2) [OF that(2), of L] ok(1) by (simp add: system_ok_def)
  from assms(1) show ?thesis
  proof (cases rule: kernel_event.cases)
    case (timer t)
    then have c: "c = (w, t)" "pit_interruption L s = Some t" by simp_all
    have "abs_table t = (abs_table s)\<lparr>cur := pick (leaves s) (cur (abs_table s))\<rparr>" using pit_interruption_ok [OF ok(1)] c(2) by auto
    then have "readers_ok (abs_table t) w" using ok(2) by (simp add: readers_ok_def)
    then show ?thesis using timer_keeps [OF ok(1) c(2)] by (simp add: c(1) system_ok_def)
  next
    case (clock dv)
    then show ?thesis using same ok(2) by (simp add: same_ctx_upper)
  next
    case (keyboard dv t)
    then show ?thesis using same ok(2) by (simp add: same_ctx_upper upper_keyboard)
  next
    case (syscall E eax ebx ecx edx x t)
    then have c: "c = (w, t)" "w (cur_proc s) = None" and k: "ctx_ok L t" "abs_table t = abs_table s \<or> table_step (abs_table s) (abs_table t)"
      using syscall_keeps [of E s eax ebx ecx edx x t] ok(1) by auto
    have "readers_ok (abs_table t) w" using k(2) ok(2,3) readers_ok_step c(2) cur by metis
    then show ?thesis using k by (simp add: c(1) system_ok_def)
  next
    case (waits fd buf n r t)
    then have c: "c = (w(cur_proc s \<mapsto> r), t)" "read_begins fd buf n s = Some (r, t)" by simp_all
    have "rd_pcb r = pcb_addr (of_nat (cur_proc s))" using read_begins_pcb [OF c(2)] ctx_ok_cur(5) [OF ok(1)] by simp
    then have "readers_ok (abs_table s) (w(cur_proc s \<mapsto> r))" using ok(2,3) cur by (auto simp: readers_ok_def table_ok_def)
    then show ?thesis using same [OF c(1)] same_ctx_read_begins [OF c(2)] by blast
  next
    case (woken r x t)
    then have c: "c = (w(cur_proc s := None), t)" "read_ends r s = Ok (x, t)" by simp_all
    have "readers_ok (abs_table s) (w(cur_proc s := None))" using ok(2) by (auto simp: readers_ok_def)
    then show ?thesis using same [OF c(1)] same_ctx_read_ends [OF c(2)] by blast
  next
    case (user m)
    then show ?thesis using same ok(2) by simp
  qed
qed

interpretation kernel: simulation "\<lambda>c. fst c = Map.empty \<and> ctx_ok L (snd c) \<and> table_boot (abs_table (snd c))" "kernel_step L" "system_ok L"
    "\<lambda>c. abs_table (snd c)" table_step
  for L
proof unfold_locales
  fix c :: "(nat \<rightharpoonup> reading) \<times> 'a kernel_state_scheme"
  assume "fst c = Map.empty \<and> ctx_ok L (snd c) \<and> table_boot (abs_table (snd c))"
  then show "system_ok L c" by (simp add: system_ok_def readers_ok_def)
next
  fix c d :: "(nat \<rightharpoonup> reading) \<times> 'a kernel_state_scheme"
  assume "system_ok L c" "kernel_step L c d"
  then show "system_ok L d" "abs_table (snd d) = abs_table (snd c) \<or> table_step (abs_table (snd c)) (abs_table (snd d))"
    using kernel_event_keeps [of L "fst c" "snd c" d] by (simp_all add: kernel_step_def)
qed

end
