(* ===== verification/Blocks.thy ===== *)
theory Blocks
  imports System
begin

text \<open>
  The eight 8KB blocks below 8MB hold the PCBs and the kernel stacks. Interrupt handlers, the timer switch, user code and
  the system calls whose buffers are in the program page do not write there through memory.
\<close>

section \<open>Steps that leave the blocks alone\<close>

definition spares_blocks :: "'a machine_scheme \<Rightarrow> 'a machine_scheme \<Rightarrow> bool" where
  "spares_blocks s t \<longleftrightarrow> (\<forall>a. kernel_block a \<longrightarrow> mem t a = mem s a)"

definition page_run :: "u32 \<Rightarrow> nat \<Rightarrow> bool" where
  "page_run buf n \<longleftrightarrow> (\<forall>i<n. in_program_page (buf + of_nat i))"

definition screens_ready :: "'a kernel_state_scheme \<Rightarrow> bool" where
  "screens_ready s \<longleftrightarrow> active_term s < 3 \<and> get_tty_number s < 3 \<and> (\<forall>t<3. on_screen t s)"

lemma spares_blocks_refl [simp]: "spares_blocks s s"
  by (simp add: spares_blocks_def)

lemma spares_blocks_trans [trans]: "spares_blocks s t \<Longrightarrow> spares_blocks t u \<Longrightarrow> spares_blocks s u"
  by (simp add: spares_blocks_def)

lemma spares_blocks_mem: "mem t = mem s \<Longrightarrow> spares_blocks s t"
  by (simp add: spares_blocks_def)

lemma block_not_user: "kernel_block a \<Longrightarrow> \<not> user_writable a" "kernel_block a \<Longrightarrow> \<not> in_program_page a"
  by (simp_all add: kernel_block_def user_writable_def in_program_page_def size_defs word_le_nat_alt word_less_nat_alt)

lemma block_not_video:
  assumes "kernel_block a"
  shows "4096 \<le> unat (a - VIDEO)" "t < 3 \<Longrightarrow> 4000 \<le> unat (a - video_buff t)"
proof -
  have a: "0x7F0000 \<le> unat a" "unat a < 0x800000" using assms by (simp_all add: kernel_block_def size_defs word_le_nat_alt word_less_nat_alt)
  then show "4096 \<le> unat (a - VIDEO)" by (simp add: unat_sub_if_size word_size video_defs)
  show "4000 \<le> unat (a - video_buff t)" if "t < 3"
    using that a by (auto simp: u32_less_3 unat_sub_if_size word_size video_defs video_buff_def)
qed

lemma pcb_byte_block: "pcb_byte a \<Longrightarrow> kernel_block a"
  by (simp add: pcb_byte_def)

lemma spares_blit: "page_run buf n \<Longrightarrow> k \<le> n \<Longrightarrow> mem t = blit (mem s) buf k f \<Longrightarrow> spares_blocks s t"
proof -
  assume r: "page_run buf n" "k \<le> n" and t: "mem t = blit (mem s) buf k f"
  have "k \<le> unat (a - buf)" if "kernel_block a" for a
  proof (rule ccontr)
    assume "\<not> k \<le> unat (a - buf)"
    then have "in_program_page (buf + of_nat (unat (a - buf)))" using r unfolding page_run_def by (meson linorder_not_le order.strict_trans2)
    then show False using block_not_user(2) [OF that] by (simp add: u32_of_unat)
  qed
  then show ?thesis using t by (simp add: spares_blocks_def blit_outside)
qed

section \<open>Interrupts and user code\<close>

lemma timer_spares: "pit_interruption L s = Some t \<Longrightarrow> spares_blocks s t"
  using block_not_user(2)
  by (auto simp: spares_blocks_def pit_interruption_def switch_to_def Let_def set_current_process_number_def get_current_process_number_def
      set_process_term_number_def set_page_dir_addr_def load_cr3_def enable_paging_def set_kernel_stack_bottom_def send_eoi_def cli_def outb_def
      split: option.splits if_splits)

lemma clock_spares: "active_term s < 3 \<Longrightarrow> spares_blocks s (clock_interruption dv s)"
  using block_not_video(1)
  by (simp add: spares_blocks_def clock_interruption_def Let_def cli_def sti_def outb_def inb_def send_eoi_def update_vid_shows
      memcpy_video blit_outside)

lemma user_spares: "(\<And>a. \<not> user_writable a \<Longrightarrow> m a = mem s a) \<Longrightarrow> spares_blocks s (s\<lparr>mem := m\<rparr>)"
  using block_not_user(1) by (simp add: spares_blocks_def)

section \<open>System calls\<close>

lemma write_spares: "on_screen tty s \<Longrightarrow> tty < 3 \<Longrightarrow> spares_blocks s (snd (terminal_write tty buf n s))"
proof -
  have "on_screen tty u \<Longrightarrow> spares_blocks u (fold (\<lambda>i s. putc (mem s (buf + of_nat i)) tty s) ns u)" if "tty < 3" for ns and u :: "'a lib_state_scheme"
  proof (induction ns arbitrary: u)
    case (Cons i ns)
    have "spares_blocks u (putc (mem u (buf + of_nat i)) tty u)"
      using block_not_video(2) [OF _ that] putc_mem_outside [OF Cons.prems] by (simp add: spares_blocks_def)
    also have "spares_blocks \<dots> (fold (\<lambda>i s. putc (mem s (buf + of_nat i)) tty s) ns (putc (mem u (buf + of_nat i)) tty u))"
      by (rule Cons.IH) (rule putc_on_screen [OF Cons.prems])
    finally show ?case by simp
  qed simp
  then show "on_screen tty s \<Longrightarrow> tty < 3 \<Longrightarrow> ?thesis" by (simp add: terminal_write_def Let_def)
qed

lemma fold_putc_spares: "on_screen tty s \<Longrightarrow> tty < 3 \<Longrightarrow> spares_blocks s (fold (\<lambda>c. putc c tty) cs s)"
proof (induction cs arbitrary: s)
  case (Cons c cs)
  have "spares_blocks s (putc c tty s)"
    using block_not_video(2) [OF _ Cons.prems(2)] putc_mem_outside [OF Cons.prems(1)] by (simp add: spares_blocks_def)
  also have "spares_blocks \<dots> (fold (\<lambda>c. putc c tty) cs (putc c tty s))"
    by (rule Cons.IH) (use putc_on_screen Cons.prems in auto)
  finally show ?case by simp
qed simp

lemma read_data_spares:
  assumes "page_run buf (unat len)"
  shows "spares_blocks s (snd (read_data_loop n off buf len k loc cb addr s))"
  using assms
proof (induction n off buf len k loc cb addr s rule: read_data_loop.induct)
  case (1 n off buf len k loc cb addr s)
  show ?case
  proof (cases "k < len \<and> (\<exists>x. read_data_advance s n loc cb addr = Some x \<and> \<not> k + off \<ge> inode_size s n)")
    case True
    then obtain loc' cb' addr' where a: "read_data_advance s n loc cb addr = Some (loc', cb', addr')" by auto
    let ?t = "s\<lparr>mem := (mem s)(buf + k := mem s addr')\<rparr>"
    have "in_program_page (buf + of_nat (unat k))" using 1(2) True unfolding page_run_def word_less_nat_alt by blast
    then have "spares_blocks s ?t" using block_not_user(2) by (auto simp: spares_blocks_def u32_of_unat)
    also have "spares_blocks ?t (snd (read_data_loop n off buf len (k + 1) (loc' + 1) cb' (addr' + 1) ?t))"
      using 1(1) [OF _ a refl refl] 1(2) True by auto
    finally show ?thesis using True a by (subst read_data_loop.simps) simp
  next
    case False
    then show ?thesis by (subst read_data_loop.simps) (auto split: option.splits)
  qed
qed

lemma file_read_spares:
  assumes "page_run buf (unat len)" and "file_read d buf len f off s = Ok (r, t)"
  shows "spares_blocks s t"
proof -
  have "t = s \<or> (\<exists>n. t = snd (read_data n off buf len s))"
    using assms(2) by (auto simp: file_read_def fs_read_def obind_eq_Ok split: option.splits if_splits) (metis snd_conv)+
  then show ?thesis using read_data_spares [OF assms(1)] by (auto simp: read_data_def Let_def)
qed

lemma copy_out_eq: "n < 2 ^ 32 - 1 \<Longrightarrow> copy_out buf src n m = blit m buf (Suc n) src"
proof -
  assume "n < 2 ^ 32 - 1"
  have "fold (\<lambda>i m. m(buf + of_nat i := src (of_nat i))) [0..<k] m = blit m buf k src" if "k < 2 ^ 32" for k
    using that
  proof (induction k)
    case (Suc k)
    have IH: "fold (\<lambda>i m. m(buf + of_nat i := src (of_nat i))) [0..<k] m = blit m buf k src"
      by (rule Suc.IH) (use Suc.prems in simp)
    have "fold (\<lambda>i m. m(buf + of_nat i := src (of_nat i))) [0..<Suc k] m =
        (fold (\<lambda>i m. m(buf + of_nat i := src (of_nat i))) [0..<k] m)(buf + of_nat k := src (of_nat k))" by simp
    also have "\<dots> = blit m buf (Suc k) src" unfolding IH by (rule blit_Suc) (use Suc.prems in simp)
    finally show ?case .
  qed simp
  from this [of "Suc n"] show ?thesis using \<open>n < 2 ^ 32 - 1\<close> unfolding copy_out_def by simp
qed

lemma strlen_arr_less: "strlen_arr cap src = Ok n \<Longrightarrow> n < cap"
  by (auto simp: strlen_arr_def find_Some_iff split: option.splits)

lemma getargs_cases:
  assumes "getargs buf nbytes s = Ok (r, t)"
  obtains "t = s" | n f where "n < 100" "mem t = blit (mem s) buf (Suc n) f"
proof (cases "buf = NULL_PTR \<or> nbytes = 0")
  case True
  then show thesis using assms that(1) by (simp add: getargs_def)
next
  case False
  define src where "src = argbuf (pcbs s (this_pcb_addr s))"
  obtain n where n: "strlen_arr 100 src = Ok n" and t: "t = s \<or> t = s\<lparr>mem := copy_out buf src n (mem s)\<rparr>"
    using assms False by (auto simp: getargs_def Let_def src_def obind_eq_Ok split: if_splits)
  have "n < 100" using strlen_arr_less [OF n] .
  then show thesis using t that copy_out_eq [of n buf src "mem s"] by force
qed

lemma getargs_spares: "page_run buf 100 \<Longrightarrow> getargs buf nbytes s = Ok (r, t) \<Longrightarrow> spares_blocks s t"
  by (erule getargs_cases) (use spares_blit Suc_leI in \<open>fastforce+\<close>)

lemma vidmap_spares: "spares_blocks s (snd (vidmap a s))"
proof -
  have "spares_blocks s (s\<lparr>mem := store32 (mem s) a v\<rparr>)" if "SZ_128MB \<le> a" "a \<le> SZ_128MB + SZ_4MB" for v
  proof -
    have "4 \<le> unat (b - a)" if b: "kernel_block b" for b
      using b \<open>SZ_128MB \<le> a\<close> \<open>a \<le> SZ_128MB + SZ_4MB\<close>
      by (simp add: kernel_block_def size_defs unat_sub_if_size word_size word_le_nat_alt word_less_nat_alt)
    then show ?thesis by (simp add: spares_blocks_def store32_outside)
  qed
  then show ?thesis by (auto simp: vidmap_def Let_def not_less)
qed

lemma read_ends_spares:
  assumes "page_run (rd_buf r) (unat (rd_nbytes r))" and "screens_ready s" and "read_ends r s = Ok (v, t)"
  shows "spares_blocks s t"
proof -
  let ?n = "nat (sint (rd_nbytes r))"
  have "sint (rd_nbytes r) < 2 ^ 31" using sint_lt [of "rd_nbytes r"] by simp
  then have n: "?n \<le> unat (rd_nbytes r)"
    using uint_sint [of "rd_nbytes r"] by (cases "0 \<le> sint (rd_nbytes r)") (simp_all add: take_bit_int_eq_self nat_le_iff)
  then have n32: "?n \<le> 2 ^ 32" using unat_u32_lt [of "rd_nbytes r"] by simp
  have s: "active_term s < 3" "on_screen (active_term s) s" using assms(2) by (auto simp: screens_ready_def)
  have "spares_blocks s (new_line s)"
    using block_not_video(2) [OF _ s(1)] screen_ops_outside(3) [OF s(2)] by (simp add: spares_blocks_def)
  moreover have "spares_blocks (new_line s) (take_line (rd_buf r) ?n (new_line s))"
    by (rule spares_blit [OF assms(1) n, where f = "\<lambda>i. command_buffer (new_line s) (active_terminal (new_line s)) (int (unat i))"])
      (use n32 take_line_eq [of ?n "rd_buf r" "new_line s"] in simp)
  ultimately show ?thesis
    using assms(3)
    by (auto simp: read_ends_def terminal_read_ends_def obind_eq_Ok Let_def spares_blocks_def update_pcb_def split: if_splits)
qed

lemma read_begins_spares: "read_begins fd buf n s = Some (r, t) \<Longrightarrow> spares_blocks s t"
  by (rule spares_blocks_mem) (auto simp: read_begins_def Let_def sti_def set_command_location_def split: if_splits)

lemma sys_read_spares:
  assumes "page_run buf (unat nbytes)" and "screens_ready s" and "irqs E = []" and "sys_read E fd buf nbytes s = Ok (r, t)"
    and dir: "jumptable (fds (pcbs s (this_pcb_addr s)) (unat fd)) \<noteq> Some Dir_Fops"
  shows "spares_blocks s t"
proof (cases "read_begins fd buf nbytes s")
  case None
  have "mem (sti s) = mem s" by (simp add: sti_def)
  then have "spares_blocks s (sti s)" by (rule spares_blocks_mem)
  then show ?thesis
    using assms(1,4) dir None file_read_spares [of buf nbytes "dentry0 E" _ _ "sti s"]
    by (auto simp: sys_read_def read_begins_def fops_read_def Let_def obind_eq_Ok sti_def this_pcb_addr_def spares_blocks_def update_pcb_def
        split: if_splits option.splits fops.splits)
next
  case (Some q)
  obtain rd u where q: "q = (rd, u)" by (cases q)
  have f: "rd_buf rd = buf" "rd_nbytes rd = nbytes" "mem u = mem s" "screens_ready u"
    using Some assms(2) unfolding q
    by (auto simp: read_begins_def Let_def sti_def set_command_location_def screens_ready_def on_screen_def get_tty_number_def this_pcb_addr_def split: if_splits)
  have "read_ends rd u = Ok (r, t)"
    using sys_read_parts [of fd buf nbytes s rd u E] Some assms(3,4) q by (auto simp: of_loop_def split: if_splits)
  then have "spares_blocks u t" using read_ends_spares assms(1) f by metis
  then show ?thesis using f(3) by (simp add: spares_blocks_def)
qed

text \<open>
  A system call other than \<open>execute\<close> and \<open>halt\<close> leaves every PCB and kernel stack alone when its buffer is in the program page
  and the positions of the terminals are on their screens. (Listing a directory copies a name of a length that the image decides.)
\<close>

definition safe_buffers :: "u32 \<Rightarrow> u32 \<Rightarrow> u32 \<Rightarrow> u32 \<Rightarrow> 'a kernel_state_scheme \<Rightarrow> bool" where
  "safe_buffers eax ebx ecx edx s \<longleftrightarrow> eax \<noteq> 1 \<and> eax \<noteq> 2 \<and> screens_ready s \<and>
     (eax = 3 \<longrightarrow> page_run ecx (unat edx) \<and> jumptable (fds (pcbs s (this_pcb_addr s)) (unat ebx)) \<noteq> Some Dir_Fops) \<and>
     (eax = 7 \<longrightarrow> page_run ebx 100)"

lemma sys_write_spares: "screens_ready s \<Longrightarrow> sys_write E fd buf n s = Ok (r, t) \<Longrightarrow> spares_blocks s t"
proof -
  assume s: "screens_ready s" and w: "sys_write E fd buf n s = Ok (r, t)"
  have "mem (snd (rtc_write (dev E) buf n s)) = mem s"
    by (simp add: rtc_write_def rtc_write_value_def outb_def inb_def Let_def split: option.splits if_splits)
  then have "spares_blocks s (snd (rtc_write (dev E) buf n s))" by (rule spares_blocks_mem)
  moreover have "spares_blocks s (snd (terminal_write (get_tty_number s) buf n s))" using s unfolding screens_ready_def by (blast intro: write_spares)
  ultimately show ?thesis
    using w by (auto simp: sys_write_def fops_write_def Let_def split: if_splits option.splits fops.splits)
qed

lemma open_spares: "screens_ready s \<Longrightarrow> open_file E name s = Ok (r, t) \<Longrightarrow> spares_blocks s t"
proof -
  assume s: "screens_ready s" and o: "open_file E name s = Ok (r, t)"
  have p: "spares_blocks s u" if "printf cb (lit ''The File Descriptor Array is Filled\<newline>'') args s = Ok (v, u)" for cb args v u
  proof -
    have "u = fold (\<lambda>c. putc c (active_term s)) (map of_char ''The File Descriptor Array is Filled\<newline>'') s"
      using that by (subst (asm) printf_literal) simp_all
    then show ?thesis using s fold_putc_spares unfolding screens_ready_def by blast
  qed
  show ?thesis
    using o unfolding open_file_def Let_def open_stdin_def open_stdout_def
    by (auto simp: obind_eq_Ok update_pcb_def split: if_splits option.splits dest: p intro: spares_blocks_mem)
qed

lemma close_spares: "sys_close fd s = Ok (r, t) \<Longrightarrow> spares_blocks s t"
  by (rule spares_blocks_mem) (auto simp: sys_close_def Let_def obind_eq_Ok update_pcb_def split: if_splits)

lemma calls_spare_blocks:
  assumes "safe_buffers eax ebx ecx edx s" and "irqs E = []" and "syscall_handler E eax ebx ecx edx s = Ok (x, t)"
  shows "spares_blocks s t"
  using assms vidmap_spares [of s ebx]
  by (auto simp: syscall_handler_def safe_buffers_def split: if_splits
      intro: sys_read_spares sys_write_spares open_spares close_spares getargs_spares)

text \<open>So such an event is a step of the kernel.\<close>

lemma kernel_stepI: "kernel_event L (w, s) (v, t) \<Longrightarrow> spares_blocks s t \<Longrightarrow> kernel_step L (w, s) (v, t)"
  using pcb_byte_block by (auto simp: kernel_step_def spares_blocks_def)

end
