(* ===== verification/Lifecycle.thy ===== *)
theory Lifecycle
  imports Blocks
begin

text \<open>
  The life of a program, across the system calls: the arguments that \<open>getargs\<close> hands to it are those
  of the command line, and its \<open>halt\<close> brings the parent back to where it called \<open>execute\<close>.
\<close>

section \<open>Execute, then halt\<close>

lemma leave_spawn:
  assumes "table_ok T" and "n \<notin> live T"
  shows "leave (spawn n T) = T\<lparr>par := (par T)(n := cur T)\<rparr>"
proof -
  have "n \<noteq> cur T" "\<not> waits T (cur T)" using assms by (auto simp: table_ok_def)
  then show ?thesis using assms(2) by (simp add: leave_def spawn_def fun_upd_idem)
qed

lemma execute_halt:
  fixes s t :: "'a kernel_state_scheme"
  assumes ok: "ctx_ok (lay E) s" and ex: "execute E cmd s = Ok (To_User e, t)" and L: "lay E' = lay E"
  shows "\<exists>n u. n \<in> {1..<8} - live (abs_table s) \<and> halt E' status t = Ok (Execute_Returns (ucast status), u) \<and>
    abs_table u = (abs_table s)\<lparr>par := (par (abs_table s))(n := cur (abs_table s))\<rparr> \<and> ctx_ok (lay E) u \<and>
    esp u = esp s \<and> ebp u = ebp s \<and> kernel_stack_bottom u = kernel_stack_bottom s \<and> cr3 u = cr3 s"
proof -
  let ?T = "abs_table s" and ?u = "snd (return_to_parent (lay E') status t)"
  define c where "c = cur ?T"
  obtain n where n: "n \<in> {1..<8} - live ?T" "abs_table t = spawn n ?T" "ctx_ok (lay E) t"
    and P: "parent_ksp (proc t n) = esp s" "parent_kbp (proc t n) = ebp s"
    using execute_refines [OF ok ex] by blast
  have T: "table_ok ?T" "regs_ok (lay E) ?T s" using ok by (simp_all add: ctx_ok_def)
  have c: "1 \<le> c" "c < 8" "n < 8" "n \<noteq> c" using ctx_ok_cur(1,2) [OF ok] n(1) T(1) by (auto simp: c_def abs_table_def table_ok_def)
  have "cur (abs_table t) = n" "par (abs_table t) n = c" by (simp_all add: n(2) spawn_def c_def)
  then have a: "this_pcb_addr t = pcb_addr (of_nat n)" "unat (parent_process_number (proc t n)) = c"
    using ctx_ok_cur(5) [OF n(3)] c(3) by (simp_all add: abs_table_def)
  have q: "parent_process_number (proc t n) = of_nat c" using a(2) c(2) by (simp add: word_unat_eq_iff unat_of_nat_u8)
  have p: "parent_process_number (pcbs t (this_pcb_addr t)) \<noteq> 0" using a c(1) by (auto simp: proc_def)
  have ne: "this_pcb_addr t \<noteq> pcb_addr (of_nat c)" using a(1) pcb_addr_inj c by simp
  have ctx: "abs_table ?u = ?T\<lparr>par := (par ?T)(n := c)\<rparr>" "ctx_ok (lay E) ?u"
    using return_to_parent_refines [OF n(3) p, of status] leave_spawn [OF T(1)] n(1) by (simp_all add: L n(2) c_def)
  have regs: "kernel_stack_bottom ?u = kernel_stack_bottom s" "cr3 ?u = cr3 s"
    using ctx T(2) by (simp_all add: ctx_ok_def regs_ok_def)
  have "esp ?u = esp s" "ebp ?u = ebp s" "fst (return_to_parent (lay E') status t) = Execute_Returns (ucast status)"
    using return_to_parent_fields(7-9) [of "of_nat c" t "lay E'" status] ne q a P by (simp_all add: proc_def)
  then have "halt E' status t = Ok (Execute_Returns (ucast status), ?u)" "esp ?u = esp s" "ebp ?u = ebp s"
    using p by (simp_all add: halt_def prod_eq_iff)
  then show ?thesis using n(1) ctx regs unfolding c_def by blast
qed

section \<open>The arguments of a program\<close>

lemma strlen_arr_eq: "is_cstr src n \<Longrightarrow> n < cap \<Longrightarrow> strlen_arr cap src = Ok n"
proof -
  assume s: "is_cstr src n" and n: "n < cap"
  have "find (\<lambda>i. src (of_nat i) = 0) [0..<cap] = Some n"
    using s n by (auto simp: find_Some_iff is_cstr_def intro!: exI [of _ n])
  then show ?thesis by (simp add: strlen_arr_def)
qed

text \<open>
  The argument buffer of a PCB has 100 bytes and that of \<open>execute\<close> 1024: longer arguments overflow one of them, so a
  program that has been started has at most 99 bytes of arguments.
\<close>

lemma argument_bytes:
  assumes str: "is_cstr command k" "name_ends command l" "l < k"
    and pc: "parse_command command f la0 = Ok (Some (fname, la))" and cp: "strcpy_arr 100 d la = Ok d'"
  shows "l < 32" "k - Suc l < 100"
    and "d' = (\<lambda>i. if unat i < k - Suc l then command (of_nat (unat i + l + 1)) else if unat i = k - Suc l then 0 else d i)"
proof -
  define a where "a = k - Suc l"
  have a: "k - Suc l = a" "k = a + l + 1" using str(3) by (auto simp: a_def)
  have k: "k < 2 ^ 32" "\<And>i. i < k \<Longrightarrow> command (of_nat i) \<noteq> 0" using str(1) by (auto simp: is_cstr_def)
  show l: "l < 32"
  proof (rule ccontr)
    assume "\<not> l < 32"
    then show False using parse_32 [OF str(1), of f la0] parse_long_name [OF str(2), of f la0] str(2) pc by (cases "l = 32") auto
  qed
  have a1024: "a < 1024" using parse_long_args [OF str l, of f la0] pc by (cases "1024 \<le> k - Suc l") (simp_all add: a(1))
  then have la: "la = (\<lambda>j. if unat j = a then 0 else if unat j < a then command (of_nat (unat j + l + 1)) else la0 j)"
    using parse_at_space [OF str l, of f la0] pc unfolding a(1) by simp
  have lacs: "is_cstr la a" using k a a1024 by (auto simp: is_cstr_def la unat_of_nat_u32 simp del: of_nat_add of_nat_Suc)
  have "a < 100" using strcpy_arr_eq [OF lacs, of 100 d] cp by (cases "a < 100") simp_all
  then show "k - Suc l < 100" by (simp add: a(1))
  show "d' = (\<lambda>i. if unat i < k - Suc l then command (of_nat (unat i + l + 1)) else if unat i = k - Suc l then 0 else d i)"
    using strcpy_arr_eq [OF lacs, of 100 d] cp \<open>a < 100\<close> by (auto simp: a(1) la)
qed

text \<open>What a program started by \<open>name args\<close> gets from \<open>getargs\<close>.\<close>

lemma getargs_of_command:
  fixes s t :: "'a kernel_state_scheme"
  assumes ok: "ctx_ok (lay E) s" and ex: "execute E cmd s = Ok (To_User e, t)"
    and str: "is_cstr (ptr (mem s) cmd) k" "name_ends (ptr (mem s) cmd) l" "l < k" and buf: "buf \<noteq> NULL_PTR" "nbytes \<noteq> 0"
  shows "k - Suc l < 100 \<and> getargs buf nbytes t =
    (if k - Suc l \<le> unat nbytes
     then Ok (0, t\<lparr>mem := blit (mem t) buf (k - l) (\<lambda>i. ptr (mem s) cmd (i + of_nat (Suc l)))\<rparr>)
     else Ok (-1, t))"
proof -
  let ?c = "ptr (mem s) cmd"
  define a where "a = k - Suc l"
  have a: "k - Suc l = a" "Suc a = k - l" "k = a + l + 1" using str(3) by (auto simp: a_def)
  obtain n fname la where n: "n \<in> {1..<8} - live (abs_table s)" "abs_table t = spawn n (abs_table s)" "ctx_ok (lay E) t"
    and pc: "parse_command ?c (fname0 E) (localargbuf0 E) = Ok (Some (fname, la))"
    and cp: "strcpy_arr 100 (argbuf (proc s n)) la = Ok (argbuf (proc t n))"
    using execute_refines [OF ok ex] by blast
  note arg = argument_bytes [OF str pc cp, unfolded a(1)]
  have k: "?c (of_nat k) = 0" "\<And>i. i < k \<Longrightarrow> ?c (of_nat i) \<noteq> 0" using str(1) by (auto simp: is_cstr_def)
  have abcs: "is_cstr (argbuf (proc t n)) a"
    using k arg(2) a(3) by (auto simp: is_cstr_def arg(3) unat_of_nat_u32 simp del: of_nat_add of_nat_Suc)
  have "unat (current_process_number t) = n" using arg_cong [OF n(2), of cur] by (simp add: abs_table_def spawn_def)
  then have here: "pcbs t (this_pcb_addr t) = proc t n" using ctx_ok_cur(5) [OF n(3)] by (simp add: proc_def)
  have "blit (mem t) buf (Suc a) (argbuf (proc t n)) = blit (mem t) buf (Suc a) (\<lambda>i. ?c (i + of_nat (Suc l)))"
  proof (rule blit_cong)
    fix i assume i: "i < Suc a"
    have "of_nat i + of_nat (Suc l) = (of_nat (i + l + 1) :: u32)" by simp
    then show "argbuf (proc t n) (of_nat i) = ?c (of_nat i + of_nat (Suc l))"
      using i k(1) arg(2) a(3) by (auto simp: arg(3) unat_of_nat_u32 less_Suc_eq simp del: of_nat_add of_nat_Suc)
  qed
  moreover have "(of_nat a :: i32) > nbytes \<longleftrightarrow> unat nbytes < a" using arg(2) by (simp add: word_less_nat_alt unat_of_nat_u32)
  ultimately show ?thesis
    using buf strlen_arr_eq [OF abcs arg(2)] copy_out_eq [of a buf "argbuf (proc t n)" "mem t"] arg(2)
    by (simp add: getargs_def here not_less a(1) a(2) [symmetric])
qed

section \<open>The sample kernel holds the small image\<close>

lemma small_mounted_cong:
  "bb_start t = bb_start s \<Longrightarrow> fs_dentries t = fs_dentries s \<Longrightarrow> inodes t = inodes s \<Longrightarrow> data_start t = data_start s \<Longrightarrow>
   num_dentries t = num_dentries s \<Longrightarrow> num_inodes t = num_inodes s \<Longrightarrow> num_datablocks t = num_datablocks s \<Longrightarrow>
   dir_reads t = dir_reads s \<Longrightarrow> mem t = mem s \<Longrightarrow> small_mounted s \<Longrightarrow> small_mounted t"
  by (simp only: small_mounted_def)

lemma small_mounted_irq: "small_mounted s \<Longrightarrow> small_mounted (enable_irq i s)"
  by (rule small_mounted_cong [of _ s]) (simp_all add: enable_irq_def outb_def Let_def)

lemma small_mounted_cursor: "small_mounted s \<Longrightarrow> small_mounted (update_cursor x s)"
  by (rule small_mounted_cong [of _ s]) (simp_all add: update_cursor_def outb_def Let_def)

lemma small_mounted_keyboard: "small_mounted s \<Longrightarrow> small_mounted (keyboard_open s)"
proof -
  have tty: "small_mounted (keyboard_open_tty i s)" if "small_mounted s" for i and s :: "'a kbd_state_scheme"
    by (rule small_mounted_cong [of _ s]) (simp_all add: that keyboard_open_tty_def set_command_location_def)
  assume s: "small_mounted s"
  show ?thesis
    unfolding keyboard_open_def Let_def
    by (intro small_mounted_irq small_mounted_cursor, rule small_mounted_cong [of _ "fold keyboard_open_tty [0,1,2] s"])
      (simp_all add: s tty set_active_term_def)
qed

lemma sample_mounted: "small_mounted sample_kernel"
proof -
  have "small_mounted blank_rtc"
    by (rule small_mounted_cong [OF _ _ _ _ _ _ _ _ _ small_fs_mounted])
      (simp_all add: blank_rtc_def rtc_state.defs blank_pic_def pic_state.defs files_state.defs)
  then have "small_mounted (rtc_state.extend blank_rtc r)" for r :: "'a"
    by (rule small_mounted_cong [rotated -1]) (simp_all add: rtc_state.defs)
  then have "small_mounted blank_kbd" unfolding blank_kbd_def by (rule small_mounted_keyboard)
  then show ?thesis
    by (rule small_mounted_cong [rotated -1]) (simp_all add: sample_kernel_def blank_paging_def paging_state.defs kernel_state.defs kbd_state.defs)
qed

lemma small_image_inodes:
  assumes "i < 63"
  shows "load32 small_image (0x410064 + 64 * of_nat i) = 0"
proof -
  have z: "small_image (0x410064 + 64 * of_nat i + of_nat k) = 0" if k: "k < 4" for k
  proof (rule small_image_zero)
    have "0x410064 + 64 * of_nat i + of_nat k = (of_nat (0x410064 + 64 * i + k) :: u32)" by simp
    moreover have "unat (of_nat (0x410064 + 64 * i + k) :: u32) = 0x410064 + 64 * i + k"
      by (rule unat_of_nat_u32) (use assms k in simp)
    ultimately have "unat (0x410064 + 64 * of_nat i + of_nat k :: u32) = 0x410064 + 64 * i + k" by (simp only:)
    then show "unat (0x410064 + 64 * of_nat i + of_nat k :: u32) \<notin> {0x410000, 0x410004, 0x410008, 0x410040, 0x410041,
        0x410042, 0x410043, 0x410044, 0x410060, 0x410080, 0x4100A0, 0x411000, 0x412000, 0x412001, 0x412002, 0x412003,
        0x412018, 0x412019, 0x41201A, 0x41201B}"
      using assms k by simp presburger
  qed
  show ?thesis using z [of 0] z [of 1] z [of 2] z [of 3] by (simp add: load32_def)
qed

lemma sample_image_ok: "image_ok 0x7FDF00 sample_kernel"
proof -
  note f = small_mounted_facts [OF sample_mounted]
  have b: "bb_start sample_kernel = 0x410000" "mem sample_kernel = small_image" "fs_dentries sample_kernel = 0x410040"
    using sample_mounted by (simp_all add: small_mounted_def)
  have "\<not> in_program_page (0x410000 + of_nat i)" if "i < 12288" for i
    using that by (simp add: in_program_page_def size_defs word_le_nat_alt word_less_nat_alt unat_of_nat_u32 unat_word_ariths)
  then show ?thesis
    using f by (simp add: image_ok_def image_safe_def b dentry_addr_def small_image_inodes disjoint_runs_def NULL_PTR_def)
qed

text \<open>Process 1 of the sample kernel runs \<open>shell\<close>, whose name is in the image itself.\<close>

lemma sample_command:
  "parse_command (ptr small_image 0x410040) (\<lambda>_. 0xCC) (\<lambda>_. 0) =
     Ok (Some (\<lambda>j. if unat j = 5 then 0 else if unat j < 5 then ptr small_image 0x410040 j else 0xCC, \<lambda>_. 0))"
proof -
  have "is_cstr (ptr small_image 0x410040) 5" using small_names(1) by (simp add: ptr_def)
  moreover have "name_ends (ptr small_image 0x410040) 5"
    by (auto simp: name_ends_def less_5_iff ptr_def small_image_def)
  ultimately show ?thesis
    using parse_no_space [of "ptr small_image 0x410040" 5 "\<lambda>_. 0xCC" "\<lambda>_. 0"] by simp
qed

lemma sample_program:
  "find (\<lambda>i. entry_name sample_kernel i = bytes (\<lambda>j. if unat j = 5 then 0 else if unat j < 5 then ptr small_image 0x410040 j else 0xCC) 5)
     [0..<63] = Some 0"
  "dentry_inode (entry_copy sample_kernel 0 d) = 0" "program_file sample_kernel 0"
  "is_cstr (\<lambda>j. if unat j = 5 then 0 else if unat j < 5 then ptr small_image 0x410040 j else 0xCC) 5"
  "shell_entry sample_kernel 0 0" "stacks_safe sample_kernel"
proof -
  note f = small_mounted_facts [OF sample_mounted]
  have b: "bb_start sample_kernel = 0x410000" "mem sample_kernel = small_image" "fs_dentries sample_kernel = 0x410040"
    "data_start sample_kernel = 0x412000"
    using sample_mounted by (simp_all add: small_mounted_def)
  have n: "bytes (\<lambda>j. if unat j = 5 then 0 else if unat j < 5 then ptr small_image 0x410040 j else 0xCC) 5 = map of_char ''shell''"
    using small_names(3) by (simp add: bytes_def ptr_def upt_rec)
  have first: "find (\<lambda>i. entry_name sample_kernel i = map of_char ''shell'') [0..<63] = Some 0"
    using f(8) by (simp add: upt_rec)
  then show "find (\<lambda>i. entry_name sample_kernel i = bytes (\<lambda>j. if unat j = 5 then 0 else if unat j < 5 then ptr small_image 0x410040 j else 0xCC) 5)
     [0..<63] = Some 0" unfolding n .
  show d: "dentry_inode (entry_copy sample_kernel 0 d) = 0" using f(10) by (simp add: entry_copy_def)
  show p: "program_file sample_kernel 0"
    using f by (simp add: program_file_def file_byte_def file_addr_def b) (simp add: small_image_def)
  show "is_cstr (\<lambda>j. if unat j = 5 then 0 else if unat j < 5 then ptr small_image 0x410040 j else 0xCC) 5"
    using small_names(1) by (simp add: is_cstr_def ptr_def unat_of_nat_u32)
  show "shell_entry sample_kernel 0 0" using first f(10) p by (simp add: shell_entry_def)
  show "stacks_safe sample_kernel"
    using f(2) by (simp add: stacks_safe_def b size_defs word_le_nat_alt word_less_nat_alt unat_word_ariths unat_of_nat_u32)
qed

lemma sample_parse:
  "parse_command (ptr (mem sample_kernel) 0x410040) (fname0 sample_env) (localargbuf0 sample_env) =
     Ok (Some (\<lambda>j. if unat j = 5 then 0 else if unat j < 5 then ptr small_image 0x410040 j else 0xCC, \<lambda>_. 0))"
  using sample_command sample_mounted by (simp add: small_mounted_def) (simp add: sample_env_def)

lemma sample_slot: "open_slot 0xF0 = Some (4, 8)"
  by (simp add: open_slot_def slot_loop.simps)

lemma sample_launch: "\<exists>t. execute sample_env 0x410040 sample_kernel = Ok (To_User (program_entry sample_kernel 0), t)"
proof -
  have c: "(0x410040 :: u32) \<noteq> NULL_PTR" "image_safe (buf_addr sample_env) sample_kernel"
    "open_slot (running_processes sample_kernel) = Some (4, 8)" "is_cstr (\<lambda>_. 0) 0"
    using sample_image_ok sample_slot by (simp_all add: image_ok_def NULL_PTR_def is_cstr_def)
  show ?thesis
    using execute_success [OF c(1) sample_parse sample_program(4) c(4) _ c(2) sample_program(1)
        sample_program(2) [symmetric] sample_program(3) c(3)] by auto
qed

text \<open>The same kernel with a command line that has arguments, in memory above the image.\<close>

definition sample_typed :: kernel_state where
  "sample_typed = sample_kernel\<lparr>mem := blit small_image 0x500000 9 (lit ''shell -x'')\<rparr>"

lemma sample_typed_line:
  "is_cstr (ptr (mem sample_typed) 0x500000) 8" "name_ends (ptr (mem sample_typed) 0x500000) 5"
proof -
  have p: "ptr (mem sample_typed) 0x500000 (of_nat i) = lit ''shell -x'' (of_nat i)" if "i < 9" for i
    using that blit_at [of i 9 small_image "0x500000" "lit ''shell -x''"] by (simp add: sample_typed_def ptr_def)
  show "is_cstr (ptr (mem sample_typed) 0x500000) 8"
    unfolding is_cstr_def using p [of 0] p [of 1] p [of 2] p [of 3] p [of 4] p [of 5] p [of 6] p [of 7] p [of 8]
    by (auto simp: lit_def dest!: less_8_cases)
  show "name_ends (ptr (mem sample_typed) 0x500000) 5"
    unfolding name_ends_def less_5_iff using p [of 0] p [of 1] p [of 2] p [of 3] p [of 4] p [of 5] by (auto simp: lit_def)
qed

lemma sample_typed_launch: "\<exists>e t. execute sample_env 0x500000 sample_typed = Ok (To_User e, t)"
proof -
  have m: "mem sample_kernel = small_image" "bb_start sample_kernel = 0x410000" using sample_mounted by (simp_all add: small_mounted_def)
  have "disjoint_runs 0x500000 9 (bb_start sample_kernel) (fs_len sample_kernel)"
    using small_mounted_facts(2) [OF sample_mounted] by (simp add: m disjoint_runs_def)
  then have i: "same_image sample_kernel sample_typed" by (simp only: sample_typed_def m(1) [symmetric] same_image_blit)
  have "boot_image 0x7FDF00 0 0 sample_kernel"
    using sample_program(5,6) sample_image_ok by (simp add: boot_image_def image_ok_def)
  then have ok: "image_ok (buf_addr sample_env) sample_typed" "boot_image 0x7FDF00 0 0 sample_typed"
    using image_ok_same [OF sample_image_ok i] boot_image_same [OF _ i] by simp_all
  obtain fname args where p: "parse_command (ptr (mem sample_typed) 0x500000) (fname0 sample_env) (localargbuf0 sample_env) = Ok (Some (fname, args))"
    "is_cstr fname 5" "bytes fname 5 = take 5 (bytes (ptr (mem sample_typed) 0x500000) 8)" "is_cstr args 2"
    using parse_with_args [OF sample_typed_line, of "fname0 sample_env" "localargbuf0 sample_env"] by auto
  have "bytes (ptr (mem sample_typed) 0x500000) 8 = map of_char ''shell -x''"
    by (simp add: bytes_def ptr_def sample_typed_def blit_def lit_def upt_rec)
  then have n: "find (\<lambda>i. entry_name sample_typed i = bytes fname 5) [0..<63] = Some 0"
    "0 = dentry_inode (entry_copy sample_typed 0 (dentry0 sample_env))" "program_file sample_typed 0"
    using ok(2) p(3) by (simp_all add: boot_image_def shell_entry_def entry_copy_def)
  have c: "(0x500000 :: u32) \<noteq> NULL_PTR" "open_slot (running_processes sample_typed) = Some (4, 8)" "image_safe (buf_addr sample_env) sample_typed"
    using sample_slot ok(1) by (simp_all add: NULL_PTR_def sample_typed_def image_ok_def)
  show ?thesis using execute_success [OF c(1) p(1,2,4) _ c(3) n c(2)] by auto
qed

lemma leaves_abs: "leaves s = {p \<in> live (abs_table s). \<not> waits (abs_table s) p}"
  by (auto simp: leaves_def abs_table_def slots_def proc_def)

section \<open>Properties of the whole kernel\<close>

text \<open>
  C4. Booting from an image with an executable \<open>shell\<close> succeeds: user mode is entered at the shell's
  entry point, and the kernel is in the initial state of the process table machine, with shells 1, 2
  and 3 on terminals 0, 1 and 2, their standard streams open, shell 1 current, and the kernel stack,
  task state segment, page directory and saved stack pointers those of the table.
\<close>

theorem bootup_correct:
  assumes "pre_boot s" and "boot_image (buf_addr E) k n s"
  shows "\<exists>t. bootup E s = Ok (To_User (program_entry s n), t) \<and> table_boot (abs_table t) \<and> ctx_ok (lay E) t \<and>
    std_fds (fds (proc t 1)) \<and> std_fds (fds (proc t 2)) \<and> std_fds (fds (proc t 3)) \<and>
    tty_number (proc t 1) = 0 \<and> tty_number (proc t 2) = 1 \<and> tty_number (proc t 3) = 2"
proof -
  obtain t where t: "bootup E s = Ok (To_User (program_entry s n), t)" using bootup_Ok [OF assms(2)] by blast
  show ?thesis using bootup_ok [OF assms(1) t] t by simp
qed

theorem bootup_correct_witness:
  "\<exists>t. bootup sample_env (sample_kernel\<lparr>running_processes := 0x80\<rparr>) = Ok (To_User 0x08048094, t) \<and>
    table_boot (abs_table t) \<and> ctx_ok sample_layout t"
proof -
  let ?s = "sample_kernel\<lparr>running_processes := 0x80\<rparr>"
  have i: "same_image sample_kernel ?s" by (simp add: same_image_def)
  have "boot_image 0x7FDF00 0 0 sample_kernel"
    using sample_image_ok sample_program(5,6) by (simp add: boot_image_def image_ok_def)
  then have b: "boot_image (buf_addr sample_env) 0 0 ?s" using boot_image_same [OF _ i] by simp
  have p: "pre_boot ?s" by (auto simp: pre_boot_def proc_def sample_pcb_def)
  have "program_entry ?s 0 = 0x08048094"
    using sample_mounted small_mounted_facts [OF sample_mounted]
    by (simp add: program_entry_def file_byte_def file_addr_def data_block_def small_mounted_def upt_rec)
      (simp add: small_image_def)
  then show ?thesis using bootup_correct [OF p b] by auto
qed



text \<open>
  C2. \<open>execute\<close> with a free process slot and a command that names an executable starts it: the file's
  bytes are at the load address, user mode is entered at the entry point from the file, and the kernel
  has a new process in a slot that was free, child of the caller, on the caller's terminal, with its
  standard streams open and its registers, stack and page directory set up.
\<close>

theorem execute_starts_program:
  assumes "ctx_ok (lay E) s" and "cmd \<noteq> NULL_PTR"
    and "parse_command (ptr (mem s) cmd) (fname0 E) (localargbuf0 E) = Ok (Some (fname, la))"
    and "is_cstr fname l" and "is_cstr la k" and "k < 100" and "image_safe (buf_addr E) s"
    and "find (\<lambda>i. entry_name s i = bytes fname l) [0..<63] = Some i" and "n = dentry_inode (entry_copy s i (dentry0 E))"
    and "program_file s n" and "open_slot (running_processes s) = Some (p, b)"
  shows "\<exists>t q. execute E cmd s = Ok (To_User (program_entry s n), t) \<and>
    (\<forall>j < file_size s n. mem t (PROGRAM_LOAD_ADDR + of_nat j) = file_byte s n j) \<and>
    q \<in> {1..<8} - live (abs_table s) \<and> abs_table t = spawn q (abs_table s) \<and> ctx_ok (lay E) t \<and>
    std_fds (fds (proc t q)) \<and> tty_number (proc t q) = tty_number (proc s (cur (abs_table s)))"
proof -
  obtain t where t: "execute E cmd s = Ok (To_User (program_entry s n), t)"
    "\<forall>j < file_size s n. mem t (PROGRAM_LOAD_ADDR + of_nat j) = file_byte s n j"
    using execute_success [OF assms(2-11)] by blast
  then show ?thesis using execute_refines [OF assms(1) t(1)] by blast
qed

theorem execute_starts_program_witness:
  "\<exists>t q. execute sample_env 0x410040 sample_kernel = Ok (To_User (program_entry sample_kernel 0), t) \<and>
    mem t PROGRAM_LOAD_ADDR = 0x7F \<and> q \<in> {1..<8} - live (abs_table sample_kernel) \<and>
    abs_table t = spawn q (abs_table sample_kernel) \<and> ctx_ok sample_layout t \<and> std_fds (fds (proc t q))"
proof -
  have la: "is_cstr (\<lambda>_. 0) 0" by (simp add: is_cstr_def)
  have f: "file_size sample_kernel 0 = 28" "file_byte sample_kernel 0 0 = 0x7F"
    using small_mounted_facts(5) [OF sample_mounted] sample_program(3) by (simp_all add: program_file_def)
  have c: "ctx_ok (lay sample_env) sample_kernel" "(0x410040 :: u32) \<noteq> NULL_PTR" "image_safe (buf_addr sample_env) sample_kernel"
    "open_slot (running_processes sample_kernel) = Some (4, 8)"
    using sample_kernel_ok(1) sample_image_ok sample_slot by (simp_all add: image_ok_def NULL_PTR_def)
  obtain t q where t: "execute sample_env 0x410040 sample_kernel = Ok (To_User (program_entry sample_kernel 0), t)"
      "q \<in> {1..<8} - live (abs_table sample_kernel)" "abs_table t = spawn q (abs_table sample_kernel)"
      "ctx_ok (lay sample_env) t" "std_fds (fds (proc t q))"
    and m: "\<forall>j < file_size sample_kernel 0. mem t (PROGRAM_LOAD_ADDR + of_nat j) = file_byte sample_kernel 0 j"
    using execute_starts_program [OF c(1,2) sample_parse sample_program(4) la _ c(3) sample_program(1)
        sample_program(2) [symmetric] sample_program(3) c(4)] by auto
  have "mem t PROGRAM_LOAD_ADDR = 0x7F" using m [rule_format, of 0] f by simp
  then show ?thesis using t by auto
qed

text \<open>
  C16. Every error return of \<open>execute\<close> on a well-formed image gives -1 and leaves the kernel as it
  was: no process slot is taken, no PCB, register or page table changes, and of memory only the four
  bytes of the local buffer.
\<close>

theorem execute_error_harmless:
  assumes "image_ok (buf_addr E) s" and "execute E cmd s = Ok (Ret r, t)"
  shows "r = -1 \<and> (\<exists>c f. c \<le> 4 \<and> t = s\<lparr>mem := blit (mem s) (buf_addr E) c f\<rparr>)"
  by (rule execute_fails [OF assms])

theorem execute_error_harmless_witness:
  "\<exists>t. execute sample_env 0x410040 (sample_kernel\<lparr>running_processes := 0xFF\<rparr>) = Ok (Ret (-1), t) \<and>
     (\<exists>c f. c \<le> 4 \<and> t = (sample_kernel\<lparr>running_processes := 0xFF\<rparr>)
        \<lparr>mem := blit (mem sample_kernel) 0x7FDF00 c f\<rparr>)"
proof -
  let ?s = "sample_kernel\<lparr>running_processes := 0xFF\<rparr>"
  have i: "same_image sample_kernel ?s" by (simp add: same_image_def)
  have ok: "image_ok (buf_addr sample_env) ?s" using image_ok_same [OF sample_image_ok i] by simp
  have full: "open_slot (running_processes ?s) = None" by (simp add: open_slot_def slot_loop.simps)
  have p: "parse_command (ptr (mem ?s) 0x410040) (fname0 sample_env) (localargbuf0 sample_env) =
     Ok (Some (\<lambda>j. if unat j = 5 then 0 else if unat j < 5 then ptr small_image 0x410040 j else 0xCC, \<lambda>_. 0))"
    using sample_parse by simp
  obtain t where t: "execute sample_env 0x410040 ?s = Ok (Ret (-1), t)"
    using execute_no_slot [OF _ p ok full] by (auto simp: NULL_PTR_def)
  have "\<exists>c f. c \<le> 4 \<and> t = ?s\<lparr>mem := blit (mem ?s) (buf_addr sample_env) c f\<rparr>"
    using execute_error_harmless [OF ok t] by blast
  then show ?thesis using t by auto
qed

text \<open>
  C3. A program that ends brings its parent back to where it called \<open>execute\<close>: \<open>execute\<close> there
  returns the low byte of the status, with the parent's stack pointers, kernel stack and page
  directory, and the process table is the one before the call.
\<close>

theorem execute_halt_round_trip:
  assumes "ctx_ok (lay E) s" and "execute E cmd s = Ok (To_User e, t)" and "lay E' = lay E"
  shows "\<exists>n u. n \<in> {1..<8} - live (abs_table s) \<and> halt E' status t = Ok (Execute_Returns (ucast status), u) \<and>
    abs_table u = (abs_table s)\<lparr>par := (par (abs_table s))(n := cur (abs_table s))\<rparr> \<and> ctx_ok (lay E) u \<and>
    esp u = esp s \<and> ebp u = ebp s \<and> kernel_stack_bottom u = kernel_stack_bottom s \<and> cr3 u = cr3 s"
  by (rule execute_halt [OF assms])

theorem execute_halt_round_trip_witness:
  "\<exists>t u. execute sample_env 0x410040 sample_kernel = Ok (To_User (program_entry sample_kernel 0), t) \<and>
    halt sample_env 7 t = Ok (Execute_Returns 7, u) \<and> ctx_ok sample_layout u \<and> esp u = esp sample_kernel \<and> cr3 u = 0x421000"
proof -
  obtain t where t: "execute sample_env 0x410040 sample_kernel = Ok (To_User (program_entry sample_kernel 0), t)"
    using sample_launch by blast
  show ?thesis
    using execute_halt_round_trip [OF _ t, of sample_env 7] sample_kernel_ok(1) t by auto
qed

text \<open>
  C19. The arguments reach the program: after \<open>execute\<close> of a command line with a space has entered a program, the arguments
  have at most 99 bytes, as a longer line overflows the argument buffer of the PCB or of \<open>execute\<close>, and
  \<open>getargs\<close> in the new program copies exactly the bytes after the first space with their terminator and returns 0, or returns -1
  and copies nothing when they are more than \<open>nbytes\<close>. Arguments of exactly \<open>nbytes\<close> characters succeed and \<open>nbytes + 1\<close> bytes are
  written, although the comment of \<open>getargs\<close> has it return -1 when the arguments and their terminator do not fit in the buffer.
\<close>

theorem getargs_after_execute:
  assumes "ctx_ok (lay E) s" and "execute E cmd s = Ok (To_User e, t)"
    and "is_cstr (ptr (mem s) cmd) k" and "name_ends (ptr (mem s) cmd) l" and "l < k"
    and "buf \<noteq> NULL_PTR" and "nbytes \<noteq> 0"
  shows "k - Suc l < 100 \<and> getargs buf nbytes t =
    (if k - Suc l \<le> unat nbytes
     then Ok (0, t\<lparr>mem := blit (mem t) buf (k - l) (\<lambda>i. ptr (mem s) cmd (i + of_nat (Suc l)))\<rparr>)
     else Ok (-1, t))"
  by (rule getargs_of_command [OF assms])

theorem getargs_after_execute_witness:
  "\<exists>e t. execute sample_env 0x500000 sample_typed = Ok (To_User e, t) \<and>
    getargs 0x8300000 100 t = Ok (0, t\<lparr>mem := blit (mem t) 0x8300000 3 (\<lambda>i. ptr (mem sample_typed) 0x500000 (i + 6))\<rparr>) \<and>
    getargs 0x8300000 2 t = Ok (0, t\<lparr>mem := blit (mem t) 0x8300000 3 (\<lambda>i. ptr (mem sample_typed) 0x500000 (i + 6))\<rparr>) \<and>
    getargs 0x8300000 1 t = Ok (-1, t)"
proof -
  obtain e t where t: "execute sample_env 0x500000 sample_typed = Ok (To_User e, t)" using sample_typed_launch by blast
  have c: "ctx_ok (lay sample_env) sample_typed"
    unfolding sample_typed_def using same_ctxD(2) [OF same_ctx_mem, of _ _ sample_kernel] sample_kernel_ok(1) by simp
  show ?thesis
    using getargs_after_execute [OF c t sample_typed_line, of "0x8300000" 100]
      getargs_after_execute [OF c t sample_typed_line, of "0x8300000" 2]
      getargs_after_execute [OF c t sample_typed_line, of "0x8300000" 1] t
    by (auto simp: NULL_PTR_def)
qed

end
