(* ===== verification/Descriptors.thy ===== *)
theory Descriptors
  imports Lifecycle
begin

text \<open>
  File descriptors: \<open>open\<close> takes the lowest free one, the position that \<open>read\<close> keeps in it makes
  consecutive reads deliver a file from start to end, and \<open>close\<close> frees it.
\<close>

section \<open>An open file\<close>

text \<open>
  Descriptor \<open>fd\<close> of the current process is open on the file \<open>n\<close> at position \<open>p\<close>, and a user buffer
  of \<open>cap\<close> bytes is outside the image.
\<close>

definition reading :: "nat \<Rightarrow> u32 \<Rightarrow> nat \<Rightarrow> u32 \<Rightarrow> nat \<Rightarrow> 'a kernel_state_scheme \<Rightarrow> bool" where
  "reading fd buf cap n p s \<longleftrightarrow>
     (let P = pcbs s (this_pcb_addr s); d = fds P fd
      in fs_mounted s \<and> dir_ok s \<and> inode_ok s n \<and> buf \<noteq> NULL_PTR \<and> cap < 2 ^ 31 \<and>
         disjoint_runs buf cap (bb_start s) (fs_len s) \<and> fd \<in> {2..<8} \<and> flags d = IN_USE \<and>
         jumptable d = Some File_Fops \<and> fileposition d = of_nat p \<and> p \<le> file_size s n \<and>
         (\<exists>k i. is_cstr (filenames P fd) k \<and> find (\<lambda>i. entry_name s i = bytes (filenames P fd) k) [0..<63] = Some i \<and>
            n = load32 (mem s) (dentry_addr s i + 36)))"

lemma small_fd: "fd < 8 \<Longrightarrow> unat (of_nat fd :: i32) = fd" "fd < 8 \<Longrightarrow> sint (of_nat fd :: i32) = int fd"
  by (auto simp: unat_of_nat_u32 dest!: less_8_cases)

lemma same_image_this: "same_image s t \<Longrightarrow> fs_mounted s \<Longrightarrow> dir_ok s \<Longrightarrow> i < 63 \<Longrightarrow>
   load32 (mem t) (dentry_addr t i + 36) = load32 (mem s) (dentry_addr s i + 36)"
  using same_entry(3) by (force simp: entry_copy_def)

text \<open>One call of \<open>read\<close>: the next bytes of the file, and the position moves past them.\<close>

lemma sys_read_step:
  fixes s :: "'a kernel_state_scheme"
  assumes r: "reading fd buf cap n p s" and len: "len \<le> cap" and c: "c = min len (file_size s n - p)"
  shows "\<exists>t. sys_read E (of_nat fd) buf (of_nat len) s = Ok (of_nat c, t) \<and>
     bytes (ptr (mem t) buf) c = take len (drop p (file_contents s n)) \<and>
     reading fd buf cap n (p + c) t \<and> file_contents t n = file_contents s n \<and>
     (\<forall>a. c \<le> unat (a - buf) \<longrightarrow> mem t a = mem s a) \<and>
     t = update_pcb (this_pcb_addr s) (set_fd fd (\<lambda>d. d\<lparr>fileposition := fileposition d + of_nat c\<rparr>)) ((sti s)\<lparr>mem := mem t\<rparr>)"
proof -
  let ?a = "this_pcb_addr s"
  let ?P = "pcbs s ?a" and ?u = "sti s"
  have fs: "fs_mounted s" "dir_ok s" "inode_ok s n" "buf \<noteq> NULL_PTR" "cap < 2 ^ 31"
    and dis: "disjoint_runs buf cap (bb_start s) (fs_len s)"
    and fd: "fd < 8" "2 \<le> fd" "flags (fds ?P fd) = IN_USE" "jumptable (fds ?P fd) = Some File_Fops"
      "fileposition (fds ?P fd) = of_nat p" "p \<le> file_size s n"
    using r by (auto simp: reading_def Let_def)
  obtain k i where ki: "is_cstr (filenames ?P fd) k" "find (\<lambda>i. entry_name s i = bytes (filenames ?P fd) k) [0..<63] = Some i"
    "n = load32 (mem s) (dentry_addr s i + 36)"
    using r by (auto simp: reading_def Let_def)
  have i63: "i < 63" using ki(2) by (auto simp: find_Some_iff)
  have i0: "same_image s ?u" by (simp add: same_image_def sti_def)
  note f0 = same_imageD [OF i0] same_file [OF i0 fs(1,3)] same_dir [OF i0 fs(1,2)]
  have sz: "file_size s n < 2 ^ 22" using fs(3) by (simp add: inode_ok_def)
  have ul: "unat (of_nat len :: u32) = len" "unat (of_nat p :: u32) = p"
    using len fs(5) fd(6) sz by (simp_all add: unat_of_nat_u32)
  have dl: "disjoint_runs buf len (bb_start s) (fs_len s)" "disjoint_runs buf c (bb_start s) (fs_len s)"
    using dis len c by (auto simp: disjoint_runs_def)
  define m where "m = blit (mem s) buf c (\<lambda>j. file_byte ?u n (p + unat j))"
  have ms: "mem ?u = mem s" by (simp add: sti_def)
  have rd: "fs_read (dentry0 E) (Some (filenames ?P fd)) (of_nat p) buf (of_nat len) ?u = Ok (of_nat c, ?u\<lparr>mem := m\<rparr>)"
    using fs_read_eq [of ?u "filenames ?P fd" k buf "of_nat len" "dentry0 E" "of_nat p"] f0 fs dl(1) ki ul
      same_image_this [OF i0 fs(1,2) i63]
    by (simp add: Let_def c m_def ms entry_copy_def)
  define t where "t = update_pcb ?a (set_fd fd (\<lambda>d. d\<lparr>fileposition := fileposition d + of_nat c\<rparr>)) (?u\<lparr>mem := m\<rparr>)"
  have u: "this_pcb_addr ?u = ?a" "pcbs ?u = pcbs s" by (simp_all add: this_pcb_addr_def sti_def)
  have "\<not> bad_fd 0 (of_nat fd) ?P" using fd by (simp add: bad_fd_def small_fd IN_USE_def NOT_IN_USE_def)
  then have call: "sys_read E (of_nat fd) buf (of_nat len) s = Ok (of_nat c, t)"
    using fs(4) fd rd by (simp add: sys_read_def u Let_def small_fd fops_read_def file_read_def t_def)
  have it: "same_image s t"
    using same_image_blit [OF dl(2)] by (simp add: same_image_def t_def m_def update_pcb_def sti_def)
  note ft = same_imageD [OF it] same_file [OF it fs(1,3)] same_dir [OF it fs(1,2)]
  have fc: "file_contents t n = file_contents s n" using ft by (simp add: file_contents_def)
  have mt: "mem t = m" by (simp add: t_def)
  have "bytes (ptr (mem t) buf) c = take len (drop p (file_contents s n))"
  proof (rule nth_equalityI)
    fix j assume j: "j < length (bytes (ptr (mem t) buf) c)"
    have "unat (of_nat j :: u32) = j" by (rule unat_of_nat_u32) (use j c sz in \<open>simp, linarith\<close>)
    moreover have "file_byte ?u n (p + j) = file_byte s n (p + j)"
      by (rule same_file(3) [OF i0 fs(1,3)]) (use j c in \<open>simp, linarith\<close>)
    moreover have "p + j < file_size s n" "j < len" "j < c" using j c by (simp_all, linarith)
    moreover have "c \<le> 2 ^ 32" using c sz by simp
    ultimately show "bytes (ptr (mem t) buf) c ! j = take len (drop p (file_contents s n)) ! j"
      using fd(6) blit_at [of j c "mem s" buf] by (simp add: mt m_def ptr_def file_contents_def)
  qed (use c in \<open>simp add: file_contents_def\<close>)
  moreover have "reading fd buf cap n (p + c) t"
    using fs fd dis ft ki same_image_this [OF it fs(1,2) i63] c
    by (auto simp: reading_def Let_def t_def this_pcb_addr_def sti_def)
  moreover have "\<forall>a. c \<le> unat (a - buf) \<longrightarrow> mem t a = mem s a" by (simp add: mt m_def blit_outside)
  moreover have "t = update_pcb ?a (set_fd fd (\<lambda>d. d\<lparr>fileposition := fileposition d + of_nat c\<rparr>)) (?u\<lparr>mem := mem t\<rparr>)"
    by (simp add: mt t_def)
  ultimately show ?thesis using call fc by blast
qed

text \<open>A client that calls \<open>read\<close> repeatedly with the lengths \<open>lens\<close>, collecting what each call delivers.\<close>

fun read_calls ::
  "'a kernel_state_scheme env \<Rightarrow> nat \<Rightarrow> u32 \<Rightarrow> nat list \<Rightarrow> 'a kernel_state_scheme \<Rightarrow> (u8 list \<times> 'a kernel_state_scheme) outcome" where
  "read_calls E fd buf [] s = Ok ([], s)"
| "read_calls E fd buf (len # lens) s =
     obind (sys_read E (of_nat fd) buf (of_nat len) s) (\<lambda>(r, s).
     obind (read_calls E fd buf lens s) (\<lambda>(xs, t). Ok (bytes (ptr (mem s) buf) (unat r) @ xs, t)))"

lemma read_calls_eq:
  fixes s :: "'a kernel_state_scheme"
  assumes "reading fd buf cap n p s" and "\<forall>len\<in>set lens. len \<le> cap"
  shows "\<exists>t. read_calls E fd buf lens s = Ok (take (sum_list lens) (drop p (file_contents s n)), t) \<and>
     reading fd buf cap n (min (p + sum_list lens) (file_size s n)) t"
  using assms
proof (induction lens arbitrary: p s)
  case Nil
  then show ?case by (auto simp: reading_def Let_def min_absorb1)
next
  case (Cons len lens)
  let ?c = "min len (file_size s n - p)"
  obtain t where t: "sys_read E (of_nat fd) buf (of_nat len) s = Ok (of_nat ?c, t)"
    "bytes (ptr (mem t) buf) ?c = take len (drop p (file_contents s n))" "reading fd buf cap n (p + ?c) t"
    "file_contents t n = file_contents s n"
    using sys_read_step [OF Cons.prems(1), of len ?c E] Cons.prems(2) by auto
  obtain u where u: "read_calls E fd buf lens t = Ok (take (sum_list lens) (drop (p + ?c) (file_contents s n)), u)"
    "reading fd buf cap n (min (p + ?c + sum_list lens) (file_size t n)) u"
    using Cons.IH [OF t(3)] Cons.prems(2) t(4) by auto
  have f: "file_size t n = file_size s n" "length (file_contents s n) = file_size s n"
    using arg_cong [OF t(4), of length] by (simp_all add: file_contents_def)
  have p: "p \<le> file_size s n" "file_size s n < 2 ^ 22"
    using Cons.prems(1) by (auto simp: reading_def Let_def inode_ok_def)
  have uc: "unat (of_nat ?c :: i32) = ?c" by (rule unat_of_nat_u32) (use p in simp)
  have "take len (drop p (file_contents s n)) @ take (sum_list lens) (drop (p + ?c) (file_contents s n)) =
      take (len + sum_list lens) (drop p (file_contents s n))"
    using f p by (cases "len \<le> file_size s n - p") (simp_all add: take_add add.commute)
  moreover have "min (p + ?c + sum_list lens) (file_size t n) = min (p + (len + sum_list lens)) (file_size s n)"
    using f p by linarith
  ultimately show ?case using t u uc by auto
qed

section \<open>Opening\<close>

lemma find_upt_Some:
  "find Q [a..<b] = Some i \<longleftrightarrow> a \<le> i \<and> i < b \<and> Q i \<and> (\<forall>q. a \<le> q \<and> q < i \<longrightarrow> \<not> Q q)"
proof -
  have "find Q [a..<b] = Some i \<longleftrightarrow> (\<exists>k<b - a. Q (a + k) \<and> i = a + k \<and> (\<forall>q<k. \<not> Q (a + q)))"
    by (auto simp: find_Some_iff)
  also have "\<dots> \<longleftrightarrow> a \<le> i \<and> i < b \<and> Q i \<and> (\<forall>q. a \<le> q \<and> q < i \<longrightarrow> \<not> Q q)"
    by (auto simp: le_iff_add less_diff_conv add.commute)
  finally show ?thesis .
qed

lemma find_upt_None: "find Q [a..<b] = None \<longleftrightarrow> (\<forall>q. a \<le> q \<and> q < b \<longrightarrow> \<not> Q q)"
  by (auto simp: find_None_iff)

lemma free_fd_None: "free_fd P = None \<longleftrightarrow> (\<forall>q\<in>{2..<8}. flags (fds P q) \<noteq> NOT_IN_USE)"
  unfolding free_fd_def find_upt_None by auto

lemma free_fd_Some:
  "free_fd P = Some i \<longleftrightarrow> i \<in> {2..<8} \<and> flags (fds P i) = NOT_IN_USE \<and> (\<forall>q\<in>{2..<i}. flags (fds P q) \<noteq> NOT_IN_USE)"
  unfolding free_fd_def find_upt_Some by auto

definition not_std :: "cstr \<Rightarrow> bool" where
  "not_std name \<longleftrightarrow> strncmp name (lit ''stdin'') 5 \<noteq> 0 \<and> strncmp name (lit ''stdout'') 5 \<noteq> 0"

lemma open_file_eq:
  assumes "dir_ok s" and "is_cstr name k" and "k < 32" and "not_std name"
    and "find (\<lambda>i. entry_name s i = bytes name k) [0..<63] = Some j" and "free_fd (pcbs s (this_pcb_addr s)) = Some i"
  shows "open_file E name s = Ok (of_nat i,
     update_pcb (this_pcb_addr s) (\<lambda>P. (set_fd i (\<lambda>f. f\<lparr>jumptable := fops_of_type (load32 (mem s) (dentry_addr s j + 32)) (jumptable f),
         flags := IN_USE, fd_inode := load32 (mem s) (dentry_addr s j + 36)\<rparr>) P)
       \<lparr>filenames := (filenames P)(i := \<lambda>q. if unat q < k then name q else if unat q = k then 0
          else filenames (pcbs s (this_pcb_addr s)) i q)\<rparr>) s)"
  using assms read_dentry_by_name_eq [OF assms(1,2), of "dentry0 E"]
  by (simp add: open_file_def not_std_def strcpy_arr_eq [OF assms(2)] rtc_open_def entry_copy_def Let_def)

lemma open_then_reading:
  fixes s :: "'a kernel_state_scheme"
  assumes fs: "fs_mounted s" "dir_ok s" "inode_ok s n" and name: "is_cstr name k" "k < 32" "not_std name"
    and found: "find (\<lambda>i. entry_name s i = bytes name k) [0..<63] = Some j"
      "load32 (mem s) (dentry_addr s j + 32) = 2" "n = load32 (mem s) (dentry_addr s j + 36)"
    and free: "free_fd (pcbs s (this_pcb_addr s)) = Some i" "fileposition (fds (pcbs s (this_pcb_addr s)) i) = 0"
    and buf: "buf \<noteq> NULL_PTR" "cap < 2 ^ 31" "disjoint_runs buf cap (bb_start s) (fs_len s)"
  shows "\<exists>t. open_file E name s = Ok (of_nat i, t) \<and> reading i buf cap n 0 t \<and> file_contents t n = file_contents s n"
proof -
  obtain t where t: "open_file E name s = Ok (of_nat i, t)" "t = update_pcb (this_pcb_addr s)
      (\<lambda>P. (set_fd i (\<lambda>f. f\<lparr>jumptable := Some File_Fops, flags := IN_USE, fd_inode := n\<rparr>) P)
       \<lparr>filenames := (filenames P)(i := \<lambda>q. if unat q < k then name q else if unat q = k then 0
          else filenames (pcbs s (this_pcb_addr s)) i q)\<rparr>) s"
    using open_file_eq [OF fs(2) name found(1) free(1), of E] found(2,3) by (simp add: fops_of_type_def)
  have it: "same_image s t" by (simp add: t(2) same_image_def update_pcb_def)
  let ?nm = "\<lambda>q. if unat q < k then name q else if unat q = k then 0 else filenames (pcbs s (this_pcb_addr s)) i q"
  have nm: "is_cstr ?nm k" "bytes ?nm k = bytes name k"
    using name(1,2) by (auto simp: is_cstr_def unat_of_nat_u32 list_eq_iff_nth_eq)
  have tp: "this_pcb_addr t = this_pcb_addr s" "fds (pcbs t (this_pcb_addr s)) i =
      (fds (pcbs s (this_pcb_addr s)) i)\<lparr>jumptable := Some File_Fops, flags := IN_USE, fd_inode := n\<rparr>"
    "filenames (pcbs t (this_pcb_addr s)) i = ?nm"
    by (simp_all add: t(2) this_pcb_addr_def)
  have i: "i \<in> {2..<8}" "j < 63" using free(1) free_fd_Some found(1) by (auto simp: find_Some_iff)
  note ft = same_imageD [OF it] same_file [OF it fs(1,3)] same_dir [OF it fs(1,2)]
  have "reading i buf cap n 0 t"
    unfolding reading_def Let_def tp
    using ft fs buf nm i free(2) found same_image_this [OF it fs(1,2) i(2)] by auto
  moreover have "file_contents t n = file_contents s n" using ft by (simp add: file_contents_def)
  ultimately show ?thesis using t(1) by blast
qed

section \<open>Closing\<close>

lemma sys_close_eq:
  assumes "fd \<in> {2..<8}" and "flags (fds (pcbs s (this_pcb_addr s)) fd) = IN_USE"
    and "jumptable (fds (pcbs s (this_pcb_addr s)) fd) \<noteq> None"
  shows "sys_close (of_nat fd) s = Ok (0, update_pcb (this_pcb_addr s)
     (set_fd fd (\<lambda>d. d\<lparr>jumptable := None, fd_inode := 0, fileposition := 0, flags := NOT_IN_USE\<rparr>)) s)"
proof -
  have "fops_close (jumptable (fds (pcbs s (this_pcb_addr s)) fd)) = Ok 0"
    using assms(3) by (auto simp: fops_close_def no_function_def rtc_close_def file_close_def dir_close_def split: fops.splits)
  then show ?thesis
    using assms by (simp add: sys_close_def bad_fd_def small_fd IN_USE_def NOT_IN_USE_def Let_def)
qed

lemma sample_shell:
  "fs_mounted sample_kernel" "dir_ok sample_kernel" "inode_ok sample_kernel 0" "is_cstr (ptr small_image 0x410040) 5" "5 < (32 :: nat)"
  "not_std (ptr small_image 0x410040)"
  "find (\<lambda>i. entry_name sample_kernel i = bytes (ptr small_image 0x410040) 5) [0..<63] = Some 0"
  "load32 (mem sample_kernel) (dentry_addr sample_kernel 0 + 32) = 2"
  "0 = load32 (mem sample_kernel) (dentry_addr sample_kernel 0 + 36)"
  "free_fd (pcbs sample_kernel (this_pcb_addr sample_kernel)) = Some 2"
  "fileposition (fds (pcbs sample_kernel (this_pcb_addr sample_kernel)) 2) = 0"
  "0x8300000 \<noteq> NULL_PTR" "20 < (2 :: nat) ^ 31" "disjoint_runs 0x8300000 20 (bb_start sample_kernel) (fs_len sample_kernel)"
proof -
  note f = small_mounted_facts [OF sample_mounted]
  have b: "bb_start sample_kernel = 0x410000" "mem sample_kernel = small_image" "fs_dentries sample_kernel = 0x410040"
    using sample_mounted by (simp_all add: small_mounted_def)
  have n: "is_cstr (ptr small_image 0x410040) 5" "bytes (ptr small_image 0x410040) 5 = map of_char ''shell''"
    using small_names(1,3) by (simp_all add: ptr_def)
  show "fs_mounted sample_kernel" "dir_ok sample_kernel" "inode_ok sample_kernel 0" "is_cstr (ptr small_image 0x410040) 5"
    "5 < (32 :: nat)" "0x8300000 \<noteq> NULL_PTR" "20 < (2 :: nat) ^ 31"
    using f n by (simp_all add: NULL_PTR_def)
  show "not_std (ptr small_image 0x410040)"
    by (simp add: not_std_def strncmp_def strncmp_loop.simps lit_def ptr_def small_image_def)
  show "find (\<lambda>i. entry_name sample_kernel i = bytes (ptr small_image 0x410040) 5) [0..<63] = Some 0"
    "load32 (mem sample_kernel) (dentry_addr sample_kernel 0 + 32) = 2"
    "0 = load32 (mem sample_kernel) (dentry_addr sample_kernel 0 + 36)"
    using sample_program(5) n(2) f(10) by (simp_all add: shell_entry_def dentry_addr_def b load32_def) (simp add: small_image_def)
  have here: "pcbs sample_kernel (this_pcb_addr sample_kernel) = sample_pcb 1"
    using stack_bottom_pcb [of 1] by (simp add: this_pcb_addr_def pcb_addr_def size_defs)
  show "free_fd (pcbs sample_kernel (this_pcb_addr sample_kernel)) = Some 2"
    "fileposition (fds (pcbs sample_kernel (this_pcb_addr sample_kernel)) 2) = 0"
    unfolding here free_fd_Some by (simp_all add: sample_pcb_def sample_fd_def)
  show "disjoint_runs 0x8300000 20 (bb_start sample_kernel) (fs_len sample_kernel)"
    using f(2) by (simp add: b disjoint_runs_def)
qed

section \<open>Properties of the descriptors\<close>

text \<open>
  C17. \<open>open\<close> on a regular file returns the lowest free descriptor, and the \<open>read\<close> calls that follow,
  of any lengths, deliver together the file from its first byte on, each call continuing where the
  last one ended, and nothing past the end.
\<close>

theorem open_read_file:
  assumes "fs_mounted s" and "dir_ok s" and "inode_ok s n" and "is_cstr name k" and "k < 32" and "not_std name"
    and "find (\<lambda>i. entry_name s i = bytes name k) [0..<63] = Some j"
    and "load32 (mem s) (dentry_addr s j + 32) = 2" and "n = load32 (mem s) (dentry_addr s j + 36)"
    and "free_fd (pcbs s (this_pcb_addr s)) = Some i" and "fileposition (fds (pcbs s (this_pcb_addr s)) i) = 0"
    and "buf \<noteq> NULL_PTR" and "cap < 2 ^ 31" and "disjoint_runs buf cap (bb_start s) (fs_len s)"
    and "\<forall>len\<in>set lens. len \<le> cap"
  shows "\<exists>t u. open_file E name s = Ok (of_nat i, t) \<and> i \<in> {2..<8} \<and>
    (\<forall>q\<in>{2..<i}. flags (fds (pcbs s (this_pcb_addr s)) q) \<noteq> NOT_IN_USE) \<and>
    read_calls E i buf lens t = Ok (take (sum_list lens) (file_contents s n), u)"
proof -
  obtain t where t: "open_file E name s = Ok (of_nat i, t)" "reading i buf cap n 0 t" "file_contents t n = file_contents s n"
    using open_then_reading [OF assms(1-14)] by blast
  have "\<exists>u. read_calls E i buf lens t = Ok (take (sum_list lens) (file_contents s n), u)"
    using read_calls_eq [OF t(2) assms(15), of E] t(3) by auto
  then show ?thesis using t(1) assms(10) unfolding free_fd_Some by blast
qed

theorem open_read_file_witness:
  "\<exists>t u. open_file sample_env (ptr small_image 0x410040) sample_kernel = Ok (2, t) \<and>
    read_calls sample_env 2 0x8300000 [3, 20, 9] t = Ok (file_contents sample_kernel 0, u)"
proof -
  have "length (file_contents sample_kernel 0) = 28"
    using small_mounted_facts(5) [OF sample_mounted] by (simp add: file_contents_def)
  then show ?thesis using open_read_file [OF sample_shell, of "[3, 20, 9]" sample_env] by auto
qed

text \<open>
  C18. Closing an open descriptor from 2 up returns 0 and clears exactly that descriptor; \<open>read\<close>,
  \<open>write\<close> and \<open>close\<close> on it then return -1 without effect (up to the interrupt flag that \<open>read\<close> sets), and the next \<open>open\<close> can
  take it again: the lowest free descriptor is now at most it. Descriptors 0 and 1 cannot be closed.
\<close>

theorem close_descriptor:
  assumes "fd \<in> {2..<8}" and "flags (fds (pcbs s (this_pcb_addr s)) fd) = IN_USE"
    and "jumptable (fds (pcbs s (this_pcb_addr s)) fd) \<noteq> None"
  shows "\<exists>t. sys_close (of_nat fd) s = Ok (0, t) \<and>
    (\<forall>i. i \<noteq> fd \<longrightarrow> fds (pcbs t (this_pcb_addr s)) i = fds (pcbs s (this_pcb_addr s)) i) \<and>
    sys_read E (of_nat fd) buf len t = Ok (-1, sti t) \<and> sys_write E (of_nat fd) buf len t = Ok (-1, t) \<and>
    sys_close (of_nat fd) t = Ok (-1, t) \<and> (\<exists>i\<le>fd. free_fd (pcbs t (this_pcb_addr t)) = Some i) \<and>
    sys_close 0 s = Ok (-1, s) \<and> sys_close 1 s = Ok (-1, s)"
proof -
  define t where "t = update_pcb (this_pcb_addr s)
     (set_fd fd (\<lambda>d. d\<lparr>jumptable := None, fd_inode := 0, fileposition := 0, flags := NOT_IN_USE\<rparr>)) s"
  have a: "this_pcb_addr t = this_pcb_addr s" "this_pcb_addr (sti t) = this_pcb_addr s" "pcbs (sti t) = pcbs t"
    by (simp_all add: t_def this_pcb_addr_def sti_def)
  have free: "flags (fds (pcbs t (this_pcb_addr s)) fd) = NOT_IN_USE" by (simp add: t_def)
  then have "bad_fd l (of_nat fd) (pcbs t (this_pcb_addr s))" for l using assms(1) by (simp add: bad_fd_def small_fd)
  then have "sys_read E (of_nat fd) buf len t = Ok (-1, sti t)" "sys_write E (of_nat fd) buf len t = Ok (-1, t)"
    "sys_close (of_nat fd) t = Ok (-1, t)"
    by (simp_all add: sys_read_def sys_write_def sys_close_def Let_def a)
  moreover have "\<exists>i\<le>fd. free_fd (pcbs t (this_pcb_addr t)) = Some i"
  proof -
    have "free_fd (pcbs t (this_pcb_addr t)) \<noteq> None" using assms(1) free by (auto simp: free_fd_None a)
    then obtain i where "free_fd (pcbs t (this_pcb_addr t)) = Some i" by blast
    moreover from this have "i \<le> fd" using assms(1) free by (auto simp: free_fd_Some a not_le)
    ultimately show ?thesis by blast
  qed
  moreover have "sys_close 0 s = Ok (-1, s)" "sys_close 1 s = Ok (-1, s)"
    by (simp_all add: sys_close_def bad_fd_def Let_def)
  ultimately show ?thesis using sys_close_eq [OF assms] unfolding t_def [symmetric] by (auto simp: t_def)
qed

theorem close_descriptor_witness:
  "\<exists>s t. open_file sample_env (ptr small_image 0x410040) sample_kernel = Ok (2, s) \<and> sys_close 2 s = Ok (0, t) \<and>
    sys_read sample_env 2 0x8300000 4 t = Ok (-1, sti t) \<and> sys_close 0 s = Ok (-1, s)"
proof -
  obtain s where s: "open_file sample_env (ptr small_image 0x410040) sample_kernel = Ok (2, s)" "reading 2 0x8300000 20 0 0 s"
    using open_then_reading [OF sample_shell, of sample_env] by auto
  then have "flags (fds (pcbs s (this_pcb_addr s)) 2) = IN_USE" "jumptable (fds (pcbs s (this_pcb_addr s)) 2) \<noteq> None"
    by (auto simp: reading_def Let_def)
  then show ?thesis
    using close_descriptor [of 2 s sample_env "0x8300000" 4] s(1) by auto
qed

end
