(* ===== verification/Idt.thy ===== *)
theory Idt
  imports Printf
begin

text \<open>
  The interrupt descriptor table of \<open>student-distrib/idt.c\<close>: the layout of an entry
  (\<open>idt_desc_t\<close> of \<open>x86_desc.h\<close>), \<open>init_idt\<close>, and the handlers that only print.
\<close>

section \<open>Entries\<close>

record idt_desc =
  offset_15_00 :: u16
  seg_selector :: u16
  idt_reserved4 :: u8
  idt_reserved3 :: "1 word"
  idt_reserved2 :: "1 word"
  idt_reserved1 :: "1 word"
  idt_size :: "1 word"
  idt_reserved0 :: "1 word"
  idt_dpl :: "2 word"
  idt_present :: "1 word"
  offset_31_16 :: u16

definition NUM_VEC :: nat where "NUM_VEC = 256"
definition KERNEL_CS :: u16 where "KERNEL_CS = 0x0010"
definition PIT_INT :: nat where "PIT_INT = 0x20"
definition KEYBOARD_INT :: nat where "KEYBOARD_INT = 0x21"
definition RTC_INT :: nat where "RTC_INT = 0x28"
definition SYSCALL_INT :: nat where "SYSCALL_INT = 0x80"

text \<open>The code addresses that entries are given; where the linker puts each is a parameter \<open>at\<close>.\<close>

datatype handler =
    Exception_DE | Exception_DB | Exception_NMI | Exception_BP | Exception_OF | Exception_BR | Exception_UD
  | Exception_NM | Exception_DF | Exception_CS | Exception_TS | Exception_NP | Exception_SS | Exception_GP
  | Exception_PF | Exception_MF | Exception_AC | Exception_MC | Exception_XF
  | General_Interruption | Pit_Handler | Keyboard_Handler | Clock_Handler | Syscall_Handler

definition SET_IDT_ENTRY :: "u32 \<Rightarrow> idt_desc \<Rightarrow> idt_desc" where
  "SET_IDT_ENTRY handler str =
     str\<lparr>offset_31_16 := ucast (drop_bit 16 (handler AND 0xFFFF0000)), offset_15_00 := ucast (handler AND 0xFFFF)\<rparr>"

definition init_entry :: "(handler \<Rightarrow> u32) \<Rightarrow> nat \<Rightarrow> idt_desc \<Rightarrow> idt_desc" where
  "init_entry at index d =
     (let d = d\<lparr>idt_present := 1\<rparr>;
          d = d\<lparr>idt_dpl := 0\<rparr>;
          d = d\<lparr>idt_reserved0 := 0, idt_size := 1\<rparr>;
          d = d\<lparr>idt_reserved1 := 1, idt_reserved2 := 1, idt_reserved3 := 1, idt_reserved4 := 0\<rparr>;
          d = d\<lparr>seg_selector := KERNEL_CS\<rparr>;
          d = (if index \<ge> 32 then SET_IDT_ENTRY (at General_Interruption) (d\<lparr>idt_reserved3 := 0\<rparr>) else d)
      in if SYSCALL_INT = index then d\<lparr>idt_dpl := 3\<rparr> else d)"

definition vectors :: "(nat \<times> handler) list" where
  "vectors =
     [(0, Exception_DE), (1, Exception_DF), (2, Exception_NMI), (3, Exception_BP), (4, Exception_OF), (5, Exception_BR),
      (6, Exception_UD), (7, Exception_NM), (8, Exception_DF), (9, Exception_CS), (10, Exception_TS), (11, Exception_NP),
      (12, Exception_SS), (13, Exception_GP), (14, Exception_PF), (16, Exception_MF), (17, Exception_AC), (18, Exception_MC),
      (19, Exception_XF), (PIT_INT, Pit_Handler), (KEYBOARD_INT, Keyboard_Handler), (RTC_INT, Clock_Handler),
      (SYSCALL_INT, Syscall_Handler)]"

definition init_idt :: "(handler \<Rightarrow> u32) \<Rightarrow> (nat \<Rightarrow> idt_desc) \<Rightarrow> nat \<Rightarrow> idt_desc" where
  "init_idt at idt =
     (let idt = fold (\<lambda>index idt. idt(index := init_entry at index (idt index))) [0..<NUM_VEC] idt
      in fold (\<lambda>(v, h) idt. idt(v := SET_IDT_ENTRY (at h) (idt v))) vectors idt)"

section \<open>Handlers that print\<close>

text \<open>
  The macro stringises an argument that is already a string literal, so that the text between the
  quotes of the output includes quotation marks; \<open>msg\<close> is the address of that text. An exception
  handler never returns.
\<close>

definition EXCEPTION :: "cstr \<Rightarrow> u32 \<Rightarrow> 'a lib_state_scheme \<Rightarrow> 'a lib_state_scheme outcome" where
  "EXCEPTION conv_buf msg s =
     obind (printf conv_buf (lit ''%s\<newline>'') (\<lambda>_. msg) s) (\<lambda>_. No_Return)"

definition general_interruption :: "cstr \<Rightarrow> 'a lib_state_scheme \<Rightarrow> 'a lib_state_scheme outcome" where
  "general_interruption conv_buf s =
     obind (printf conv_buf (lit ''Undefined interruption!'') (\<lambda>_. 0) (cli s)) (\<lambda>(_, s). Ok (sti s))"

section \<open>What the processor reads from an entry\<close>

definition gate_target :: "idt_desc \<Rightarrow> u32" where
  "gate_target d = push_bit 16 (ucast (offset_31_16 d)) OR ucast (offset_15_00 d)"

text \<open>The five-bit type field: \<open>0xE\<close> is an interrupt gate, \<open>0xF\<close> a trap gate.\<close>

definition gate_type :: "idt_desc \<Rightarrow> nat" where
  "gate_type d = 16 * unat (idt_reserved0 d) + 8 * unat (idt_size d) + 4 * unat (idt_reserved1 d) +
     2 * unat (idt_reserved2 d) + unat (idt_reserved3 d)"

lemma split_halves:
  "(h AND 0xFFFF :: u32) = take_bit 16 h" "drop_bit 16 (h AND 0xFFFF0000 :: u32) = take_bit 16 (drop_bit 16 h)"
  by (simp_all add: take_bit_eq_mask mask_eq_exp_minus_1 drop_bit_and)

lemma gate_target_set [simp]: "gate_target (SET_IDT_ENTRY h d) = h"
proof (rule bit_word_eqI)
  fix n :: nat
  assume "n < LENGTH(32)"
  then show "bit (gate_target (SET_IDT_ENTRY h d)) n \<longleftrightarrow> bit h n"
    by (cases "n < 16") (auto simp: gate_target_def SET_IDT_ENTRY_def split_halves bit_simps)
qed

section \<open>The finished table\<close>

lemma fold_entries:
  "fold (\<lambda>i t. t(i := f i (t i))) [0..<n] t = (\<lambda>i. if i < n then f i (t i) else t i)"
  by (induction n) auto

lemma SET_fields [simp]:
  "idt_present (SET_IDT_ENTRY h d) = idt_present d" "idt_dpl (SET_IDT_ENTRY h d) = idt_dpl d"
  "seg_selector (SET_IDT_ENTRY h d) = seg_selector d" "gate_type (SET_IDT_ENTRY h d) = gate_type d"
  by (simp_all add: SET_IDT_ENTRY_def gate_type_def)

lemma fold_vectors:
  "distinct (map fst vs) \<Longrightarrow> fold (\<lambda>(v, h) t. t(v := SET_IDT_ENTRY (at h) (t v))) vs t =
     (\<lambda>v. case map_of vs v of None \<Rightarrow> t v | Some h \<Rightarrow> SET_IDT_ENTRY (at h) (t v))"
proof (induction vs arbitrary: t)
  case (Cons x vs)
  obtain v h where x: "x = (v, h)" by (cases x)
  have "map_of vs v = None" using Cons.prems x by (simp add: map_of_eq_None_iff)
  then show ?case using Cons by (auto simp: x fun_eq_iff split: option.splits)
qed simp

lemma distinct_vectors: "distinct (map fst vectors)"
  by (simp add: vectors_def PIT_INT_def KEYBOARD_INT_def RTC_INT_def SYSCALL_INT_def)

lemma init_idt_eq:
  assumes "v < 256"
  shows "init_idt at idt v =
    (case map_of vectors v of None \<Rightarrow> init_entry at v (idt v) | Some h \<Rightarrow> SET_IDT_ENTRY (at h) (init_entry at v (idt v)))"
  using assms by (simp add: init_idt_def Let_def fold_entries fold_vectors [OF distinct_vectors] NUM_VEC_def split: option.splits)

lemma init_entry_fields:
  "idt_present (init_entry at v d) = 1" "seg_selector (init_entry at v d) = 0x10"
  "idt_dpl (init_entry at v d) = (if v = 0x80 then 3 else 0)"
  "gate_type (init_entry at v d) = (if v < 32 then 0xF else 0xE)"
  "32 \<le> v \<Longrightarrow> gate_target (init_entry at v d) = at General_Interruption"
  "v < 32 \<Longrightarrow> offset_31_16 (init_entry at v d) = offset_31_16 d"
  "v < 32 \<Longrightarrow> offset_15_00 (init_entry at v d) = offset_15_00 d"
proof -
  have g: "gate_target (d\<lparr>idt_dpl := x\<rparr>) = gate_target d" "gate_type (d\<lparr>idt_dpl := x\<rparr>) = gate_type d" for x d
    by (simp_all add: gate_target_def gate_type_def)
  show "idt_present (init_entry at v d) = 1" "seg_selector (init_entry at v d) = 0x10"
    "idt_dpl (init_entry at v d) = (if v = 0x80 then 3 else 0)"
    by (simp_all add: init_entry_def Let_def KERNEL_CS_def SYSCALL_INT_def)
  show "gate_type (init_entry at v d) = (if v < 32 then 0xF else 0xE)"
    by (simp add: init_entry_def Let_def g SYSCALL_INT_def) (simp add: gate_type_def)
  show "32 \<le> v \<Longrightarrow> gate_target (init_entry at v d) = at General_Interruption"
    by (simp add: init_entry_def Let_def g)
  show "v < 32 \<Longrightarrow> offset_31_16 (init_entry at v d) = offset_31_16 d" "v < 32 \<Longrightarrow> offset_15_00 (init_entry at v d) = offset_15_00 d"
    by (simp_all add: init_entry_def Let_def SYSCALL_INT_def)
qed

section \<open>Properties of the table\<close>

text \<open>
  C28. After \<open>init_idt\<close> all 256 entries are present in the kernel's code segment, and only vector 0x80 can be raised from user mode.
  The vectors below 32 are trap gates and all others, the devices and the system call included, interrupt gates, although a comment
  gives those the type of a trap gate, 01111. Vectors 0 to 14 and 16 to 19 lead to the handlers of their exceptions, except vector 1, the
  debug exception, which leads to the handler of the double fault; 0x20, 0x21, 0x28 and 0x80 lead to the handlers of the
  timer, the keyboard, the clock and the system calls, and every other vector from 32 on to \<open>general_interruption\<close>.
  Vectors 15 and 20 to 31 have no handler: they keep the code address the table held before.
\<close>

theorem idt_gates:
  "(\<forall>v<256. idt_present (init_idt at idt v) = 1 \<and> seg_selector (init_idt at idt v) = 0x10 \<and>
      idt_dpl (init_idt at idt v) = (if v = 0x80 then 3 else 0) \<and> gate_type (init_idt at idt v) = (if v < 32 then 0xF else 0xE)) \<and>
    map (\<lambda>v. gate_target (init_idt at idt v)) [0, 1, 2, 3, 4, 5, 6, 7, 8, 9, 10, 11, 12, 13, 14] =
      map at [Exception_DE, Exception_DF, Exception_NMI, Exception_BP, Exception_OF, Exception_BR, Exception_UD, Exception_NM,
        Exception_DF, Exception_CS, Exception_TS, Exception_NP, Exception_SS, Exception_GP, Exception_PF] \<and>
    map (\<lambda>v. gate_target (init_idt at idt v)) [16, 17, 18, 19] = map at [Exception_MF, Exception_AC, Exception_MC, Exception_XF] \<and>
    map (\<lambda>v. gate_target (init_idt at idt v)) [0x20, 0x21, 0x28, 0x80] = map at [Pit_Handler, Keyboard_Handler, Clock_Handler, Syscall_Handler] \<and>
    (\<forall>v<256. 32 \<le> v \<and> v \<notin> {0x20, 0x21, 0x28, 0x80} \<longrightarrow> gate_target (init_idt at idt v) = at General_Interruption) \<and>
    (\<forall>v<32. v = 15 \<or> 20 \<le> v \<longrightarrow> gate_target (init_idt at idt v) = gate_target (idt v))"
proof -
  define T where "T = (\<lambda>v. gate_target (init_idt at idt v))"
  have keep: "v < 32 \<Longrightarrow> gate_target (init_entry at v (idt v)) = gate_target (idt v)" for v
    by (simp add: gate_target_def init_entry_fields)
  have assigned: "T v = at h" if "(v, h) \<in> set vectors" for v h
  proof -
    have "map_of vectors v = Some h" using that distinct_vectors by (rule map_of_is_SomeI [rotated])
    moreover have "v < 256" using that by (auto simp: vectors_def PIT_INT_def KEYBOARD_INT_def RTC_INT_def SYSCALL_INT_def)
    ultimately show ?thesis by (simp add: T_def init_idt_eq)
  qed
  have other: "T v = gate_target (init_entry at v (idt v))" if "v < 256" "v = 15 \<or> 20 \<le> v" "v \<notin> {0x20, 0x21, 0x28, 0x80}" for v
  proof -
    have "map_of vectors v = None"
      using that(2,3) by (auto simp: vectors_def PIT_INT_def KEYBOARD_INT_def RTC_INT_def SYSCALL_INT_def)
    then show ?thesis using that(1) by (simp add: T_def init_idt_eq)
  qed
  have fields: "\<forall>v<256. idt_present (init_idt at idt v) = 1 \<and> seg_selector (init_idt at idt v) = 0x10 \<and>
      idt_dpl (init_idt at idt v) = (if v = 0x80 then 3 else 0) \<and> gate_type (init_idt at idt v) = (if v < 32 then 0xF else 0xE)"
    by (auto simp: init_idt_eq init_entry_fields split: option.splits)
  have targets: "map T [0, 1, 2, 3, 4, 5, 6, 7, 8, 9, 10, 11, 12, 13, 14] =
      map at [Exception_DE, Exception_DF, Exception_NMI, Exception_BP, Exception_OF, Exception_BR, Exception_UD, Exception_NM,
        Exception_DF, Exception_CS, Exception_TS, Exception_NP, Exception_SS, Exception_GP, Exception_PF]"
    "map T [16, 17, 18, 19] = map at [Exception_MF, Exception_AC, Exception_MC, Exception_XF]"
    "map T [0x20, 0x21, 0x28, 0x80] = map at [Pit_Handler, Keyboard_Handler, Clock_Handler, Syscall_Handler]"
    by (simp_all add: assigned vectors_def PIT_INT_def KEYBOARD_INT_def RTC_INT_def SYSCALL_INT_def)
  have rest: "\<forall>v<256. 32 \<le> v \<and> v \<notin> {0x20, 0x21, 0x28, 0x80} \<longrightarrow> T v = at General_Interruption"
    "\<forall>v<32. v = 15 \<or> 20 \<le> v \<longrightarrow> T v = gate_target (idt v)"
    using other init_entry_fields(5) keep by auto
  show ?thesis using fields targets rest unfolding T_def by (intro conjI)
qed

text \<open>An empty table, and handlers 16 bytes apart from 4MB on.\<close>

definition sample_idt :: "nat \<Rightarrow> idt_desc" where
  "sample_idt = (\<lambda>_. \<lparr>offset_15_00 = 0, seg_selector = 0, idt_reserved4 = 0, idt_reserved3 = 0, idt_reserved2 = 0, idt_reserved1 = 0,
     idt_size = 0, idt_reserved0 = 0, idt_dpl = 0, idt_present = 0, offset_31_16 = 0\<rparr>)"

definition sample_at :: "handler \<Rightarrow> u32" where
  "sample_at h = (case h of Keyboard_Handler \<Rightarrow> 0x00400010 | Clock_Handler \<Rightarrow> 0x00400020 | Syscall_Handler \<Rightarrow> 0x00400030 | _ \<Rightarrow> 0x00400000)"

theorem idt_gates_witness:
  "idt_dpl (init_idt sample_at sample_idt 0x80) = 3 \<and> gate_target (init_idt sample_at sample_idt 0x80) = 0x00400030 \<and>
   gate_target (init_idt sample_at sample_idt 0x21) = 0x00400010 \<and> gate_target (init_idt sample_at sample_idt 0x28) = 0x00400020 \<and>
   gate_target (init_idt sample_at sample_idt 0x30) = 0x00400000 \<and> gate_target (init_idt sample_at sample_idt 15) = 0"
proof -
  note g = idt_gates [of sample_at sample_idt]
  have "idt_dpl (init_idt sample_at sample_idt 0x80) = 3" using g by simp
  moreover have "gate_target (init_idt sample_at sample_idt 0x80) = 0x00400030"
    "gate_target (init_idt sample_at sample_idt 0x21) = 0x00400010" "gate_target (init_idt sample_at sample_idt 0x28) = 0x00400020"
    using g by (simp_all add: sample_at_def)
  moreover have "gate_target (init_idt sample_at sample_idt 0x30) = 0x00400000" using g by (simp add: sample_at_def)
  moreover have "\<forall>v<32. v = 15 \<or> 20 \<le> v \<longrightarrow> gate_target (init_idt sample_at sample_idt v) = gate_target (sample_idt v)" using g by (elim conjE)
  from this [rule_format, of 15] have "gate_target (init_idt sample_at sample_idt 15) = gate_target (sample_idt 15)" by simp
  moreover have "gate_target (sample_idt 15) = 0" by (simp add: sample_idt_def gate_target_def)
  ultimately show ?thesis by simp
qed

end
