(* ===== verification/Kernel_Entry.thy ===== *)
theory Kernel_Entry
  imports Descriptors Idt
begin

text \<open>
  \<open>entry\<close> of \<open>student-distrib/kernel.c\<close>: the report on the boot loader's information, the segment
  descriptors of the LDT and the TSS, the initialisation of the devices, of paging and of the file
  system, and the start of the shells.
\<close>

section \<open>Segment descriptors\<close>

record seg_desc =
  seg_lim_15_00 :: u16
  base_15_00 :: u16
  base_23_16 :: u8
  seg_type :: "4 word"
  seg_sys :: "1 word"
  seg_dpl :: "2 word"
  seg_present :: "1 word"
  seg_lim_19_16 :: "4 word"
  seg_avail :: "1 word"
  seg_reserved :: "1 word"
  seg_opsize :: "1 word"
  seg_granularity :: "1 word"
  base_31_24 :: u8

definition KERNEL_DS :: u16 where "KERNEL_DS = 0x0018"
definition KERNEL_TSS :: u16 where "KERNEL_TSS = 0x0030"
definition KERNEL_LDT :: u16 where "KERNEL_LDT = 0x0038"
definition TSS_SIZE :: u32 where "TSS_SIZE = 104"
definition ldt_size :: u32 where "ldt_size = 31"
definition tss_size :: u32 where "tss_size = 103"

definition SET_LDT_PARAMS :: "u32 \<Rightarrow> u32 \<Rightarrow> seg_desc \<Rightarrow> seg_desc" where
  "SET_LDT_PARAMS addr lim str =
     str\<lparr>base_31_24 := ucast (drop_bit 24 (addr AND 0xFF000000)), base_23_16 := ucast (drop_bit 16 (addr AND 0x00FF0000)),
         base_15_00 := ucast (addr AND 0x0000FFFF), seg_lim_19_16 := ucast (drop_bit 16 (lim AND 0x000F0000)),
         seg_lim_15_00 := ucast (lim AND 0x0000FFFF)\<rparr>"

definition SET_TSS_PARAMS :: "u32 \<Rightarrow> u32 \<Rightarrow> seg_desc \<Rightarrow> seg_desc" where
  "SET_TSS_PARAMS addr lim str =
     str\<lparr>base_31_24 := ucast (drop_bit 24 (addr AND 0xFF000000)), base_23_16 := ucast (drop_bit 16 (addr AND 0x00FF0000)),
         base_15_00 := ucast (addr AND 0x0000FFFF), seg_lim_19_16 := ucast (drop_bit 16 (lim AND 0x000F0000)),
         seg_lim_15_00 := ucast (lim AND 0x0000FFFF)\<rparr>"

section \<open>State\<close>

record boot_state = kernel_state +
  ldt_desc_ptr :: seg_desc
  tss_desc_ptr :: seg_desc
  tss_ldt_selector :: u16
  tss_ss0 :: u16
  ldtr :: u16
  task_register :: u16

text \<open>The addresses of the tables in \<open>x86_desc.S\<close>, and the uninitialised locals of the two blocks.\<close>

record segments =
  ldt_addr :: u32
  tss_addr :: u32
  the_ldt_desc0 :: seg_desc
  the_tss_desc0 :: seg_desc

definition MULTIBOOT_BOOTLOADER_MAGIC :: u32 where "MULTIBOOT_BOOTLOADER_MAGIC = 0x2BADB002"

section \<open>The boot loader's information\<close>

definition CHECK_FLAG :: "u32 \<Rightarrow> nat \<Rightarrow> bool" where
  "CHECK_FLAG w k \<longleftrightarrow> w AND push_bit k 1 \<noteq> 0"

text \<open>Fields of \<open>multiboot_info_t\<close>, \<open>module_t\<close> and \<open>memory_map_t\<close>, by their offsets.\<close>

definition mbi_flags :: "u32 \<Rightarrow> memory \<Rightarrow> u32" where "mbi_flags mbi m = load32 m mbi"
definition mbi_mods_count :: "u32 \<Rightarrow> memory \<Rightarrow> u32" where "mbi_mods_count mbi m = load32 m (mbi + 20)"
definition mbi_mods_addr :: "u32 \<Rightarrow> memory \<Rightarrow> u32" where "mbi_mods_addr mbi m = load32 m (mbi + 24)"
definition mbi_mmap_length :: "u32 \<Rightarrow> memory \<Rightarrow> u32" where "mbi_mmap_length mbi m = load32 m (mbi + 44)"
definition mbi_mmap_addr :: "u32 \<Rightarrow> memory \<Rightarrow> u32" where "mbi_mmap_addr mbi m = load32 m (mbi + 48)"
definition mod_start :: "u32 \<Rightarrow> memory \<Rightarrow> u32" where "mod_start md m = load32 m md"
definition mod_end :: "u32 \<Rightarrow> memory \<Rightarrow> u32" where "mod_end md m = load32 m (md + 4)"

text \<open>A call of \<open>printf\<close> with a literal format and the words it is passed.\<close>

definition pr :: "'s env \<Rightarrow> string \<Rightarrow> u32 list \<Rightarrow> 'a lib_state_scheme \<Rightarrow> 'a lib_state_scheme outcome" where
  "pr E fmt args s =
     obind (printf (conv_buf0 E) (lit fmt) (\<lambda>i. if i < length args then args ! i else 0) s) (\<lambda>(_, s). Ok s)"

fun module_bytes :: "'s env \<Rightarrow> u32 \<Rightarrow> nat list \<Rightarrow> 'a lib_state_scheme \<Rightarrow> 'a lib_state_scheme outcome" where
  "module_bytes E md [] s = Ok s"
| "module_bytes E md (i # is) s =
     obind (pr E ''0x%x '' [scast (mem s (mod_start md (mem s) + of_nat i))] s) (module_bytes E md is)"

text \<open>The loop over the modules; \<open>md\<close> is not advanced.\<close>

partial_function (option) modules_loop ::
  "'s env \<Rightarrow> u32 \<Rightarrow> u32 \<Rightarrow> u32 \<Rightarrow> 'a lib_state_scheme \<Rightarrow> 'a lib_state_scheme outcome option" where
  "modules_loop E mbi md mod_count s =
     (if mod_count < mbi_mods_count mbi (mem s) then
        (case obind (pr E ''Module %d loaded at address: 0x%#x\<newline>'' [mod_count, mod_start md (mem s)] s) (\<lambda>s.
              obind (pr E ''Module %d ends at address: 0x%#x\<newline>'' [mod_count, mod_end md (mem s)] s) (\<lambda>s.
              obind (pr E ''First few bytes of module:\<newline>'' [] s) (\<lambda>s.
              obind (module_bytes E md [0..<16] s) (\<lambda>s. pr E ''\<newline>'' [] s)))) of
           Ok s \<Rightarrow> modules_loop E mbi md (mod_count + 1) s
         | Fault e \<Rightarrow> Some (Fault e) | No_Return \<Rightarrow> Some No_Return)
      else Some (Ok s))"

text \<open>The walk over the memory map, whose entries give their own size.\<close>

partial_function (option) mmap_loop ::
  "'s env \<Rightarrow> u32 \<Rightarrow> u32 \<Rightarrow> 'a lib_state_scheme \<Rightarrow> 'a lib_state_scheme outcome option" where
  "mmap_loop E mbi mmap s =
     (if mmap < mbi_mmap_addr mbi (mem s) + mbi_mmap_length mbi (mem s) then
        (case pr E '' size = 0x%x,     base_addr = 0x%#x%#x\<newline>     type = 0x%x,  length    = 0x%#x%#x\<newline>''
                [load32 (mem s) mmap, load32 (mem s) (mmap + 8), load32 (mem s) (mmap + 4),
                 load32 (mem s) (mmap + 20), load32 (mem s) (mmap + 16), load32 (mem s) (mmap + 12)] s of
           Ok s \<Rightarrow> mmap_loop E mbi (mmap + load32 (mem s) mmap + 4) s
         | Fault e \<Rightarrow> Some (Fault e) | No_Return \<Rightarrow> Some No_Return)
      else Some (Ok s))"

text \<open>The report; \<^const>\<open>False\<close> is the early return when bits 4 and 5 are both set.\<close>

definition print_if :: "bool \<Rightarrow> ('s \<Rightarrow> 's outcome) \<Rightarrow> 's \<Rightarrow> 's outcome" where
  "print_if b f s = (if b then f s else Ok s)"

definition report ::
  "'s env \<Rightarrow> u32 \<Rightarrow> 'a lib_state_scheme \<Rightarrow> (bool \<times> 'a lib_state_scheme) outcome" where
  "report E mbi s =
     obind (pr E ''flags = 0x%#x\<newline>'' [mbi_flags mbi (mem s)] s) (\<lambda>s.
     obind (print_if (CHECK_FLAG (mbi_flags mbi (mem s)) 0)
       (\<lambda>s. pr E ''mem_lower = %uKB, mem_upper = %uKB\<newline>'' [load32 (mem s) (mbi + 4), load32 (mem s) (mbi + 8)] s) s) (\<lambda>s.
     obind (print_if (CHECK_FLAG (mbi_flags mbi (mem s)) 1)
       (\<lambda>s. pr E ''boot_device = 0x%#x\<newline>'' [load32 (mem s) (mbi + 12)] s) s) (\<lambda>s.
     obind (print_if (CHECK_FLAG (mbi_flags mbi (mem s)) 2)
       (\<lambda>s. pr E ''cmdline = %s\<newline>'' [load32 (mem s) (mbi + 16)] s) s) (\<lambda>s.
     obind (print_if (CHECK_FLAG (mbi_flags mbi (mem s)) 3)
       (\<lambda>s. obind (of_loop (modules_loop E mbi (mbi_mods_addr mbi (mem s)) 0 s)) id) s) (\<lambda>s.
       if CHECK_FLAG (mbi_flags mbi (mem s)) 4 \<and> CHECK_FLAG (mbi_flags mbi (mem s)) 5
       then obind (pr E ''Both bits 4 and 5 are set.\<newline>'' [] s) (\<lambda>s. Ok (False, s))
       else
         obind (print_if (CHECK_FLAG (mbi_flags mbi (mem s)) 5)
           (\<lambda>s. pr E ''elf_sec: num = %u, size = 0x%#x, addr = 0x%#x, shndx = 0x%#x\<newline>''
              [load32 (mem s) (mbi + 28), load32 (mem s) (mbi + 32), load32 (mem s) (mbi + 36), load32 (mem s) (mbi + 40)] s) s) (\<lambda>s.
         obind (print_if (CHECK_FLAG (mbi_flags mbi (mem s)) 6)
           (\<lambda>s. obind (pr E ''mmap_addr = 0x%#x, mmap_length = 0x%x\<newline>''
                   [mbi_mmap_addr mbi (mem s), mbi_mmap_length mbi (mem s)] s) (\<lambda>s.
                 obind (of_loop (mmap_loop E mbi (mbi_mmap_addr mbi (mem s)) s)) id)) s) (\<lambda>s. Ok (True, s))))))))"

section \<open>Initialisation\<close>

definition make_ldt :: "segments \<Rightarrow> 'a boot_state_scheme \<Rightarrow> 'a boot_state_scheme" where
  "make_ldt G s =
     (let d = (the_ldt_desc0 G)\<lparr>seg_granularity := 0, seg_opsize := 1, seg_reserved := 0, seg_avail := 0, seg_present := 1,
                seg_dpl := 0, seg_sys := 0, seg_type := 0x2\<rparr>;
          d = SET_LDT_PARAMS (ldt_addr G) ldt_size d;
          s = s\<lparr>ldt_desc_ptr := d\<rparr>
      in s\<lparr>ldtr := KERNEL_LDT\<rparr>)"

definition make_tss :: "segments \<Rightarrow> 'a boot_state_scheme \<Rightarrow> 'a boot_state_scheme" where
  "make_tss G s =
     (let d = (the_tss_desc0 G)\<lparr>seg_granularity := 0, seg_opsize := 0, seg_reserved := 0, seg_avail := 0,
                seg_lim_19_16 := ucast (TSS_SIZE AND 0x000F0000), seg_present := 1, seg_dpl := 0, seg_sys := 0,
                seg_type := 0x9, seg_lim_15_00 := ucast (TSS_SIZE AND 0x0000FFFF)\<rparr>;
          d = SET_TSS_PARAMS (tss_addr G) tss_size d;
          s = s\<lparr>tss_desc_ptr := d\<rparr>;
          s = s\<lparr>tss_ldt_selector := KERNEL_LDT, tss_ss0 := KERNEL_DS, tss_esp0 := 0x800000\<rparr>
      in s\<lparr>task_register := KERNEL_TSS\<rparr>)"

definition init_system ::
  "segments \<Rightarrow> 'a boot_state_scheme env \<Rightarrow> u32 \<Rightarrow> 'a boot_state_scheme \<Rightarrow> 'a boot_state_scheme" where
  "init_system G E mbi s =
     (let s = make_ldt G s;
          s = make_tss G s;
          s = i8259_init s;
          s = snd (init_paging (lay E) s);
          md = mbi_mods_addr mbi (mem s);
          s = snd (fs_open (mod_start md (mem s)) (mod_end md (mem s)) s);
          s = rtc_init (dev E) s;
          s = pit_init s;
          s = keyboard_open s
      in clear s)"

text \<open>
  \<^const>\<open>None\<close> is a return to \<open>boot.S\<close>, \<open>Some e\<close> the entry into user mode at \<open>e\<close>; when \<open>bootup\<close> returns,
  the kernel halts.
\<close>

definition entry ::
  "segments \<Rightarrow> 'a boot_state_scheme env \<Rightarrow> u32 \<Rightarrow> u32 \<Rightarrow> 'a boot_state_scheme \<Rightarrow>
   (u32 option \<times> 'a boot_state_scheme) outcome" where
  "entry G E magic addr s =
     (let s = clear s
      in if magic \<noteq> MULTIBOOT_BOOTLOADER_MAGIC
         then obind (pr E ''Invalid magic number: 0x%#x\<newline>'' [magic] s) (\<lambda>s. Ok (None, s))
         else
           obind (report E addr s) (\<lambda>(go, s).
             if \<not> go then Ok (None, s)
             else obind (bootup E (init_system G E addr s)) (\<lambda>(x, s).
                    case x of To_User e \<Rightarrow> Ok (Some e, s) | _ \<Rightarrow> No_Return)))"

section \<open>What initialisation leaves alone\<close>

text \<open>Memory outside the program page and the file system driver's variables, which no other initialisation touches.\<close>

definition same_fs :: "'a files_state_scheme \<Rightarrow> 'b files_state_scheme \<Rightarrow> bool" where
  "same_fs s t \<longleftrightarrow> (\<forall>a. \<not> in_program_page a \<longrightarrow> mem t a = mem s a) \<and> fs_is_open t = fs_is_open s \<and> bb_start t = bb_start s \<and> fs_dentries t = fs_dentries s \<and>
     inodes t = inodes s \<and> data_start t = data_start s \<and> num_dentries t = num_dentries s \<and>
     num_inodes t = num_inodes s \<and> num_datablocks t = num_datablocks s"

lemma same_fs_refl [simp]: "same_fs s s" by (simp add: same_fs_def)

lemma same_fs_trans [trans]: "same_fs s t \<Longrightarrow> same_fs t u \<Longrightarrow> same_fs s u" by (simp add: same_fs_def)

lemma same_fs_ports:
  "same_fs s t \<Longrightarrow> same_fs s (outb d p t)" "same_fs s t \<Longrightarrow> same_fs s (snd (inb dv p t))"
  "same_fs s t \<Longrightarrow> same_fs s (enable_irq k t)" "same_fs s t \<Longrightarrow> same_fs s (snd (rtc_write_value dv b n t))"
  by (simp_all add: same_fs_def outb_def inb_def enable_irq_def rtc_write_value_def Let_def split: option.splits)

lemma same_fs_pic: "same_fs s (i8259_init s)"
  unfolding i8259_init_def Let_def by (intro same_fs_ports same_fs_refl)

lemma same_fs_pit: "same_fs s (pit_init s)"
  unfolding pit_init_def Let_def by (intro same_fs_ports same_fs_refl)

lemma same_fs_rtc: "same_fs s (rtc_init dv s)"
  unfolding rtc_init_def Let_def case_prod_beta by (intro same_fs_ports same_fs_refl)

lemma same_fs_keyboard: "same_fs s (keyboard_open s)"
proof -
  have tty: "same_fs s (keyboard_open_tty i s)" for i and s :: "'a kbd_state_scheme"
    by (simp add: same_fs_def keyboard_open_tty_def set_command_location_def)
  have "same_fs s (fold keyboard_open_tty [0, 1, 2] s)"
    by simp (meson tty same_fs_trans)
  also have "same_fs \<dots> (update_cursor 7 (set_active_term 0 ((fold keyboard_open_tty [0, 1, 2] s)\<lparr>active_terminal := 0\<rparr>)))"
    by (simp add: same_fs_def set_active_term_def update_cursor_def outb_def Let_def)
  also have "same_fs \<dots> (keyboard_open s)"
    unfolding keyboard_open_def Let_def by (intro same_fs_ports same_fs_refl)
  finally show ?thesis .
qed

lemma same_fs_paging: "same_fs s (snd (init_paging L s))"
  unfolding same_fs_def init_paging_def Let_def snd_conv
  by (auto simp: load_cr3_def enable_paging_def Let_def)

lemma same_fs_segments: "same_fs s (make_tss G (make_ldt G s))"
  by (simp add: same_fs_def make_tss_def make_ldt_def Let_def)

section \<open>The interrupt lines\<close>

lemma irq_enabled_cong: "master_mask t = master_mask s \<Longrightarrow> slave_mask t = slave_mask s \<Longrightarrow> irq_enabled t = irq_enabled s"
  by (simp add: irq_enabled_def)

lemma masks_ports [simp]:
  "master_mask (snd (inb dv p s)) = master_mask s" "slave_mask (snd (inb dv p s)) = slave_mask s"
  "master_mask (snd (rtc_write_value dv b n s)) = master_mask s" "slave_mask (snd (rtc_write_value dv b n s)) = slave_mask s"
  by (simp_all add: inb_def outb_def rtc_write_value_def Let_def split: option.splits)

lemma irqs_pic: "irq_enabled (i8259_init s) = insert 2 (irq_enabled s)"
  by (simp add: i8259_init_def Let_def SLAVE_IRQ_def pic.enabled_enable irq_enabled_def [of "outb _ _ _"] irq_enabled_def [of s])

lemma irqs_rtc: "irq_enabled (rtc_init dv s) = insert 8 (irq_enabled s)"
  unfolding rtc_init_def Let_def case_prod_beta
  by (simp add: pic.enabled_enable RTC_IRQ_def) (rule arg_cong [where f = "insert 8"], rule irq_enabled_cong; simp)

lemma irqs_pit: "irq_enabled (pit_init s) = insert 0 (irq_enabled s)"
  unfolding pit_init_def Let_def
  by (simp add: pic.enabled_enable) (rule arg_cong [where f = "insert 0"], rule irq_enabled_cong; simp)

lemma irqs_keyboard: "irq_enabled (keyboard_open s) = insert 1 (irq_enabled s)"
proof -
  have m: "master_mask (keyboard_open_tty i s) = master_mask s" "slave_mask (keyboard_open_tty i s) = slave_mask s"
    for i and s :: "'a kbd_state_scheme"
    by (simp_all add: keyboard_open_tty_def set_command_location_def)
  show ?thesis
    unfolding keyboard_open_def Let_def
    by (simp add: pic.enabled_enable KEYBOARD_IRQ_def del: One_nat_def)
      (rule arg_cong [where f = "insert 1"], rule irq_enabled_cong; simp add: m update_cursor_def set_active_term_def Let_def)
qed

section \<open>From the boot loader to the first shell\<close>

lemma load32_cong: "(\<And>i. i < 4 \<Longrightarrow> m' (a + of_nat i) = m (a + of_nat i)) \<Longrightarrow> load32 m' a = load32 m a"
proof -
  assume "\<And>i. i < 4 \<Longrightarrow> m' (a + of_nat i) = m (a + of_nat i)"
  from this [of 0] this [of 1] this [of 2] this [of 3] show ?thesis by (simp add: load32_def)
qed

text \<open>A run of addresses outside the program page.\<close>

definition low_run :: "u32 \<Rightarrow> nat \<Rightarrow> bool" where
  "low_run a n \<longleftrightarrow> (\<forall>i<n. \<not> in_program_page (a + of_nat i))"

lemma same_fs_load32: "same_fs s t \<Longrightarrow> low_run a 4 \<Longrightarrow> load32 (mem t) a = load32 (mem s) a"
  by (rule load32_cong) (simp add: same_fs_def low_run_def)

text \<open>
  What the boot loader hands over: one module, whose file system image is well formed, outside the
  program page, the screen and the buffer of the first terminal.
\<close>

definition boot_module :: "u32 \<Rightarrow> u32 \<Rightarrow> nat \<Rightarrow> u32 \<Rightarrow> 'a files_state_scheme \<Rightarrow> 'a files_state_scheme \<Rightarrow> bool" where
  "boot_module buf mbi k n s f \<longleftrightarrow>
     (let md = mbi_mods_addr mbi (mem s)
      in f = fs_init (mod_start md (mem s)) (mod_end md (mem s)) s \<and> low_run (mbi + 24) 4 \<and> low_run md 4 \<and> low_run (md + 4) 4 \<and>
         boot_image buf k n f \<and> disjoint_runs VIDEO 4000 (bb_start f) (fs_len f) \<and>
         disjoint_runs VIDEO_BUF1 4000 (bb_start f) (fs_len f))"

lemma fs_init_fields:
  "bb_start (fs_init a e s) = a" "fs_dentries (fs_init a e s) = a + 64" "inodes (fs_init a e s) = a + 4096"
  "num_dentries (fs_init a e s) = load32 (mem s) a" "num_inodes (fs_init a e s) = load32 (mem s) (a + 4)"
  "num_datablocks (fs_init a e s) = load32 (mem s) (a + 8)" "mem (fs_init a e s) = mem s"
  "data_start (fs_init a e s) = a + (load32 (mem s) (a + 4) + 1) * 4096"
  by (simp_all add: fs_init_def Let_def FS_STATS_SIZE_def FS_PAGE_SIZE_def)

lemma fs_init_same_image:
  assumes "same_fs s t" and "\<forall>i < fs_len (fs_init a e s). \<not> in_program_page (a + of_nat i)"
  shows "same_image (fs_init a e s) (fs_init a e t)"
proof -
  have "12 \<le> fs_len (fs_init a e s)" by (simp add: fs_len_def)
  then have l: "low_run (a + of_nat j) 4" if "j + 4 \<le> 12" for j
    using assms(2) that by (auto simp: low_run_def add.assoc of_nat_add [symmetric] simp del: of_nat_add)
  have "load32 (mem t) (a + of_nat j) = load32 (mem s) (a + of_nat j)" if "j + 4 \<le> 12" for j
    by (rule same_fs_load32 [OF assms(1) l [OF that]])
  from this [of 0] this [of 4] this [of 8] show ?thesis
    using assms by (simp add: same_image_def fs_init_fields same_fs_def)
qed

lemma same_fs_image:
  assumes "same_fs s t" and "\<forall>i < fs_len s. \<not> in_program_page (bb_start s + of_nat i)"
  shows "same_image s t"
  using assms by (simp add: same_image_def same_fs_def)

lemma clear_same_image:
  assumes "disjoint_runs VIDEO 4000 (bb_start s) (fs_len s)" and "active_term s = 0"
    and "disjoint_runs VIDEO_BUF1 4000 (bb_start s) (fs_len s)"
  shows "same_image s (clear s)"
proof -
  have "same_image s (s\<lparr>mem := blit (mem s) VIDEO 4000 blank_byte\<rparr>)" by (rule same_image_blit [OF assms(1)])
  moreover have "same_image (s\<lparr>mem := blit (mem s) VIDEO 4000 blank_byte\<rparr>) (clear s)"
    using same_image_blit [of VIDEO_BUF1 4000 "s\<lparr>mem := blit (mem s) VIDEO 4000 blank_byte\<rparr>"] assms
    by (simp add: clear_def clear_buffer_eq video_buff_def fs_len_def)
  ultimately show ?thesis by (rule same_image_trans)
qed

lemma init_paging_masks:
  "master_mask (snd (init_paging L s)) = master_mask s" "slave_mask (snd (init_paging L s)) = slave_mask s"
  by (simp_all add: init_paging_def load_cr3_def enable_paging_def Let_def)

lemma upper_init:
  "upper (enable_irq i s) = upper s" "upper (i8259_init s) = upper s" "upper (pit_init s) = upper s"
  "upper (rtc_init dv s) = upper s" "upper (keyboard_open s) = upper s"
proof -
  have e: "upper (enable_irq i s) = upper s" for i and s :: "'a kbd_state_scheme"
    by (simp add: enable_irq_def Let_def)
  have w: "upper (snd (rtc_write_value dv b n s)) = upper s" for b n and s :: "'a kbd_state_scheme"
    by (simp add: rtc_write_value_def inb_def Let_def split: option.splits)
  have t: "upper (keyboard_open_tty j s) = upper s" for j and s :: "'a kbd_state_scheme"
    by (simp add: keyboard_open_tty_def)
  show "upper (enable_irq i s) = upper s" "upper (i8259_init s) = upper s" "upper (pit_init s) = upper s"
    "upper (rtc_init dv s) = upper s" "upper (keyboard_open s) = upper s"
    by (simp_all add: e w t i8259_init_def pit_init_def rtc_init_def keyboard_open_def Let_def case_prod_beta)
qed

lemma pre_boot_upper: "upper t = upper s \<Longrightarrow> pre_boot t = pre_boot s"
  using same_ctx_upper [of t s] by (auto simp: pre_boot_def same_ctx_def pcb_core_def proc_def)

lemma pre_boot_paging: "pre_boot (snd (init_paging L s)) = pre_boot s"
  by (simp add: pre_boot_def proc_def init_paging_def Let_def)

lemma init_system_image:
  fixes s :: "'a boot_state_scheme" and f :: "'a boot_state_scheme"
  assumes md: "boot_module buf mbi k n s f" and op: "fs_is_open s = 0"
  shows "same_image f (init_system G E mbi s)" and "kbd_ok (init_system G E mbi s)"
    and "irq_enabled (init_system G E mbi s) = {0, 1, 2, 8} \<union> irq_enabled s"
    and "pre_boot (init_system G E mbi s) = pre_boot s"
proof -
  let ?md = "mbi_mods_addr mbi (mem s)"
  let ?a = "mod_start ?md (mem s)" and ?e = "mod_end ?md (mem s)"
  have f: "f = fs_init ?a ?e s" using md by (simp add: boot_module_def Let_def)
  then have bb: "bb_start f = ?a" by (simp add: fs_init_fields)
  have low: "low_run (mbi + 24) 4" "low_run ?md 4" "low_run (?md + 4) 4"
    and img: "boot_image buf k n f" and dis: "disjoint_runs VIDEO 4000 ?a (fs_len f)" "disjoint_runs VIDEO_BUF1 4000 ?a (fs_len f)"
    using md unfolding boot_module_def Let_def bb by blast+
  have pg: "\<forall>i < fs_len f. \<not> in_program_page (?a + of_nat i)"
    using img unfolding boot_image_def image_safe_def bb by simp
  define s3 where "s3 = snd (init_paging (lay E) (i8259_init (make_tss G (make_ldt G s))))"
  have "same_fs s (make_tss G (make_ldt G s))" by (rule same_fs_segments)
  also have "same_fs \<dots> (i8259_init (make_tss G (make_ldt G s)))" by (rule same_fs_pic)
  also have "same_fs \<dots> s3" unfolding s3_def by (rule same_fs_paging)
  finally have c3: "same_fs s s3" .
  have md3: "mbi_mods_addr mbi (mem s3) = ?md" "mod_start ?md (mem s3) = ?a" "mod_end ?md (mem s3) = ?e"
    using same_fs_load32 [OF c3] low by (simp_all add: mbi_mods_addr_def mod_start_def mod_end_def)
  define s4 where "s4 = (fs_init ?a ?e s3)\<lparr>fs_is_open := 1\<rparr>"
  have o4: "snd (fs_open ?a ?e s3) = s4" using c3 op by (simp add: fs_open_def s4_def same_fs_def)
  have i4: "same_image f s4"
    using fs_init_same_image [OF c3, of ?a ?e] pg unfolding f by (simp add: s4_def same_image_def fs_len_def)
  define s5 where "s5 = pit_init (rtc_init (dev E) s4)"
  define s6 where "s6 = keyboard_open s5"
  have "same_fs s4 (rtc_init (dev E) s4)" by (rule same_fs_rtc)
  also have "same_fs \<dots> s5" unfolding s5_def by (rule same_fs_pit)
  also have "same_fs s5 s6" unfolding s6_def by (rule same_fs_keyboard)
  finally have c6: "same_fs s4 s6" .
  have "same_image s4 s6"
    using same_imageD [OF i4] pg bb by (intro same_fs_image [OF c6]) simp
  then have i6: "same_image f s6" by (rule same_image_trans [OF i4])
  have act: "active_term s6 = 0" and k6: "kbd_ok s6"
    using keyboard_open_ok(1) [of s5] by (simp_all add: s6_def kbd_ok_def keyboard_open_def Let_def enable_irq_def)
  have eq: "init_system G E mbi s = clear s6"
    by (simp add: init_system_def Let_def s3_def [symmetric] md3 o4 s5_def [symmetric] s6_def [symmetric])
  have "same_image s6 (clear s6)"
    using same_imageD [OF i6] dis act bb by (intro clear_same_image) simp_all
  then show "same_image f (init_system G E mbi s)" unfolding eq by (rule same_image_trans [OF i6])
  show "kbd_ok (init_system G E mbi s)" using k6 unfolding eq by (simp add: kbd_ok_def line_ok_def clear_def)
  have "irq_enabled (clear s6) = irq_enabled s6" "irq_enabled s4 = irq_enabled s3"
    "irq_enabled s3 = irq_enabled (i8259_init (make_tss G (make_ldt G s)))" "irq_enabled (make_tss G (make_ldt G s)) = irq_enabled s"
    by (rule irq_enabled_cong; simp add: clear_def s4_def fs_init_def s3_def init_paging_masks make_tss_def make_ldt_def Let_def)+
  then show "irq_enabled (init_system G E mbi s) = {0, 1, 2, 8} \<union> irq_enabled s"
    unfolding eq s6_def s5_def irqs_keyboard irqs_pit irqs_rtc by (auto simp: s6_def s5_def irqs_keyboard irqs_pit irqs_rtc irqs_pic)
  have "pre_boot (clear s6) = pre_boot s4"
    by (rule pre_boot_upper) (simp add: clear_def s6_def s5_def upper_init)
  also have "\<dots> = pre_boot s3" by (rule pre_boot_upper) (simp add: s4_def fs_init_def Let_def)
  also have "\<dots> = pre_boot (i8259_init (make_tss G (make_ldt G s)))" by (simp add: s3_def pre_boot_paging)
  also have "\<dots> = pre_boot (make_tss G (make_ldt G s))" by (rule pre_boot_upper) (simp add: upper_init)
  also have "\<dots> = pre_boot s" by (simp add: pre_boot_def proc_def make_tss_def make_ldt_def Let_def)
  finally show "pre_boot (init_system G E mbi s) = pre_boot s" unfolding eq .
qed

lemma program_entry_same:
  assumes "same_image s t" and "fs_mounted s" and "program_file s n"
  shows "program_entry t n = program_entry s n"
proof -
  have "file_byte t n (24 + i) = file_byte s n (24 + i)" if "i < 4" for i
    using same_file(3) [OF assms(1,2)] assms(3) that by (auto simp: program_file_def)
  then show ?thesis unfolding program_entry_def by (intro fold_cong) auto
qed

lemma boot_shell_program: "boot_image v k n s \<Longrightarrow> fs_mounted s \<and> program_file s n"
  unfolding boot_image_def image_safe_def shell_entry_def by blast

section \<open>Properties of the kernel entry\<close>

text \<open>
  C7. Given a module with a well-formed file system image that holds an executable \<open>shell\<close>, the
  initialisation of \<open>entry\<close> mounts that image, opens the timer, keyboard, cascade and clock interrupt
  lines and no other, empties the terminals' lines, and \<open>bootup\<close> then enters the shell with the
  kernel context consistent. \<open>entry\<close> does so whenever its report on the boot information goes
  through, and never reaches user mode when the magic number is wrong.
\<close>

theorem kernel_boots:
  fixes s f :: "'a boot_state_scheme"
  assumes "pre_boot s" and "fs_is_open s = 0" and "boot_module (buf_addr E) mbi k n s f"
  shows "\<exists>t. bootup E (init_system G E mbi s) = Ok (To_User (program_entry f n), t) \<and>
    table_boot (abs_table t) \<and> ctx_ok (lay E) t \<and> kbd_ok (init_system G E mbi s) \<and>
    irq_enabled (init_system G E mbi s) = {0, 1, 2, 8} \<union> irq_enabled s \<and>
    (\<forall>s0. report E mbi (clear s0) = Ok (True, s) \<longrightarrow>
       entry G E MULTIBOOT_BOOTLOADER_MAGIC mbi s0 = Ok (Some (program_entry f n), t)) \<and>
    (\<forall>magic s0 x t'. magic \<noteq> MULTIBOOT_BOOTLOADER_MAGIC \<and> entry G E magic mbi s0 = Ok (x, t') \<longrightarrow> x = None)"
proof -
  let ?i = "init_system G E mbi s"
  note init = init_system_image [OF assms(3,2), of G E]
  have img: "boot_image (buf_addr E) k n f" using assms(3) unfolding boot_module_def Let_def by blast
  then have e: "program_entry ?i n = program_entry f n"
    using boot_shell_program [OF img] by (intro program_entry_same [OF init(1)]) blast+
  obtain t where t: "bootup E ?i = Ok (To_User (program_entry f n), t)"
    using bootup_Ok [OF boot_image_same [OF img init(1)]] e by auto
  have "table_boot (abs_table t)" "ctx_ok (lay E) t" using bootup_ok(1,2) [OF _ t] init(4) assms(1) by simp_all
  moreover have "\<forall>s0. report E mbi (clear s0) = Ok (True, s) \<longrightarrow>
      entry G E MULTIBOOT_BOOTLOADER_MAGIC mbi s0 = Ok (Some (program_entry f n), t)"
    using t by (simp add: entry_def)
  moreover have "\<forall>magic s0 x t'. magic \<noteq> MULTIBOOT_BOOTLOADER_MAGIC \<and> entry G E magic mbi s0 = Ok (x, t') \<longrightarrow> x = None"
    by (auto simp: entry_def Let_def obind_eq_Ok)
  ultimately show ?thesis using t init(2,3) by blast
qed

text \<open>The sample kernel before booting, with the information of a boot loader at 5MB.\<close>

definition sample_boot :: boot_state where
  "sample_boot = kernel_state.extend
     (sample_kernel\<lparr>running_processes := 0x80, fs_is_open := 0,
        mem := store32 (store32 (store32 small_image 0x500018 0x500100) 0x500100 0x410000) 0x500104 0x413000\<rparr>)
     (boot_state.fields (seg_desc.make 0 0 0 0 0 0 0 0 0 0 0 0 0) (seg_desc.make 0 0 0 0 0 0 0 0 0 0 0 0 0) 0 0 0 0)"

definition sample_boot_env :: "boot_state env" where
  "sample_boot_env =
     \<lparr>lay = sample_layout, dev = (\<lambda>_ _. 0), irqs = [], buf_addr = 0x7FDF00,
      dentry0 = \<lparr>filename = (\<lambda>_. 0xCC), filetype = 0xCC, dentry_inode = 0xCC\<rparr>,
      conv_buf0 = (\<lambda>_. 0xCC), fname0 = (\<lambda>_. 0xCC), localargbuf0 = (\<lambda>_. 0), entry_point0 = 0xCC\<rparr>"

lemma sample_boot_simps:
  "mem sample_boot = store32 (store32 (store32 small_image 0x500018 0x500100) 0x500100 0x410000) 0x500104 0x413000"
  "running_processes sample_boot = 0x80" "fs_is_open sample_boot = 0" "pcbs sample_boot = pcbs sample_kernel"
  by (simp_all only: sample_boot_def kernel_state.defs boot_state.defs) simp_all

lemma sample_boot_mem: "i < 12288 \<Longrightarrow> mem sample_boot (0x410000 + of_nat i) = small_image (0x410000 + of_nat i)"
proof -
  assume i: "i < 12288"
  have "4 \<le> unat (0x410000 + of_nat i - 0x500018 :: u32)" "4 \<le> unat (0x410000 + of_nat i - 0x500100 :: u32)"
    "4 \<le> unat (0x410000 + of_nat i - 0x500104 :: u32)"
    using i by (simp_all add: unat_sub_if_size word_size unat_word_ariths unat_of_nat_u32)
  then show ?thesis by (simp add: sample_boot_simps store32_outside)
qed

lemma sample_boot_module:
  "boot_module 0x7FDF00 0x500000 0 0 sample_boot (fs_init 0x410000 0x413000 sample_boot)"
proof -
  let ?f = "fs_init 0x410000 0x413000 sample_boot"
  have k: "bb_start sample_kernel = 0x410000" "fs_dentries sample_kernel = 0x410040" "inodes sample_kernel = 0x411000"
    "data_start sample_kernel = 0x412000" "num_dentries sample_kernel = 2" "num_inodes sample_kernel = 1"
    "num_datablocks sample_kernel = 1" "mem sample_kernel = small_image" "fs_len sample_kernel = 12288"
    using sample_mounted small_mounted_facts(2) [OF sample_mounted] by (simp_all add: small_mounted_def)
  have l: "load32 (mem sample_boot) (0x410000 + of_nat j) = load32 small_image (0x410000 + of_nat j)" if "j < 12284" for j
    by (rule load32_cong) (use that sample_boot_mem in \<open>simp add: add.assoc of_nat_add [symmetric] del: of_nat_add\<close>)
  have v: "load32 small_image 0x410000 = 2" "load32 small_image 0x410004 = 1" "load32 small_image 0x410008 = 1"
    by (simp_all add: load32_def small_image_def)
  have i: "same_image sample_kernel ?f"
    using l [of 0] l [of 4] l [of 8] v sample_boot_mem by (simp add: same_image_def fs_init_fields k)
  have "boot_image 0x7FDF00 0 0 sample_kernel"
    using sample_program(5,6) sample_image_ok by (simp add: boot_image_def image_ok_def)
  then have "boot_image 0x7FDF00 0 0 ?f" by (rule boot_image_same [OF _ i])
  moreover have "mbi_mods_addr 0x500000 (mem sample_boot) = 0x500100" "mod_start 0x500100 (mem sample_boot) = 0x410000"
    "mod_end 0x500100 (mem sample_boot) = 0x413000"
    by (simp_all add: mbi_mods_addr_def mod_start_def mod_end_def sample_boot_simps store32_def load32_def) 
  moreover have "low_run 0x500018 4" "low_run 0x500100 4" "low_run 0x500104 4"
    by (auto simp: low_run_def in_program_page_def size_defs word_le_nat_alt unat_word_ariths unat_of_nat_u32)
  ultimately show ?thesis
    using same_imageD(8) [OF i] by (simp add: boot_module_def Let_def fs_init_fields k disjoint_runs_def VIDEO_def VIDEO_BUF1_def)
qed

theorem kernel_boots_witness:
  "\<exists>t. bootup sample_boot_env (init_system (segments.make 0x402000 0x403000 (seg_desc.make 0 0 0 0 0 0 0 0 0 0 0 0 0) (seg_desc.make 0 0 0 0 0 0 0 0 0 0 0 0 0))
      sample_boot_env 0x500000 sample_boot) =
     Ok (To_User (program_entry (fs_init 0x410000 0x413000 sample_boot) 0), t) \<and> table_boot (abs_table t) \<and> ctx_ok sample_layout t"
proof -
  have p: "pre_boot sample_boot" by (auto simp: pre_boot_def proc_def sample_boot_simps sample_pcb_def)
  have e: "buf_addr sample_boot_env = 0x7FDF00" "lay sample_boot_env = sample_layout" by (simp_all add: sample_boot_env_def)
  have m: "boot_module (buf_addr sample_boot_env) 0x500000 0 0 sample_boot (fs_init 0x410000 0x413000 sample_boot)"
    unfolding e by (rule sample_boot_module)
  show ?thesis using kernel_boots [OF p sample_boot_simps(3) m] unfolding e by blast
qed

end
