(* ===== verification/User_Grep.thy ===== *)
theory User_Grep
  imports User_Interface
begin

text \<open>
  \<open>do_one_file\<close> of \<open>syscalls/ece391grep.c\<close>: although it reads the file through a 1024-byte window that
  cuts lines in two, it prints exactly the lines that contain the pattern.
\<close>

section \<open>What grep prints\<close>

fun lines :: "u8 list \<Rightarrow> u8 list list" where
  "lines [] = [[]]"
| "lines (x # xs) = (if x = 10 then [] # lines xs else (x # hd (lines xs)) # tl (lines xs))"

definition matches :: "u8 list \<Rightarrow> u8 list \<Rightarrow> bool" where
  "matches pat l \<longleftrightarrow> (\<exists>i<length l. take (length pat) (drop i l) = pat)"

definition match_text :: "u8 list \<Rightarrow> u8 list \<Rightarrow> u8 list \<Rightarrow> u8 list" where
  "match_text pat name l = (if matches pat l then name @ [58] @ l @ [10] else [])"

definition grep_text :: "u8 list \<Rightarrow> u8 list \<Rightarrow> u8 list \<Rightarrow> u8 list" where
  "grep_text pat name xs = concat (map (match_text pat name) (lines xs))"

lemma lines_neq_Nil [simp]: "lines xs \<noteq> []"
  by (induction xs) auto

lemma lines_append: "10 \<notin> set l \<Longrightarrow> lines (l @ xs) = (l @ hd (lines xs)) # tl (lines xs)"
  by (induction l) auto

lemma lines_single: "10 \<notin> set l \<Longrightarrow> lines l = [l]"
  using lines_append [of l "[]"] by simp

lemma lines_newline: "10 \<notin> set l \<Longrightarrow> lines (l @ 10 # xs) = l # lines xs"
  by (simp add: lines_append)

lemma match_text_Nil [simp]: "match_text pat name [] = []"
  by (simp add: match_text_def matches_def)

lemma grep_text_newline: "10 \<notin> set l \<Longrightarrow> grep_text pat name (l @ 10 # xs) = match_text pat name l @ grep_text pat name xs"
  by (simp add: grep_text_def lines_newline)

lemma grep_text_single: "10 \<notin> set l \<Longrightarrow> grep_text pat name l = match_text pat name l"
  by (simp add: grep_text_def lines_single)

section \<open>The program's memory\<close>

text \<open>The window, and the strings the search uses, which lie outside it.\<close>

definition string_ready :: "u32 \<Rightarrow> memory \<Rightarrow> u32 \<Rightarrow> u8 list \<Rightarrow> bool" where
  "string_ready data m a xs \<longleftrightarrow> str_at m a xs \<and> user_run a (Suc (length xs)) \<and> disjoint_runs data 1025 a (Suc (length xs))"

definition grep_ready ::
  "(string \<Rightarrow> u32) \<Rightarrow> u32 \<Rightarrow> u32 \<Rightarrow> u8 list \<Rightarrow> u32 \<Rightarrow> u8 list \<Rightarrow> memory \<Rightarrow> bool" where
  "grep_ready L data str pat fname name m \<longleftrightarrow> user_run data 1025 \<and> pat \<noteq> [] \<and> hd pat < 128 \<and>
     string_ready data m str pat \<and> string_ready data m fname name \<and>
     string_ready data m (L '':'') [58] \<and> string_ready data m (L ''\<newline>'') [10]"

lemma string_ready_carried: "same_user_but data 1025 s t \<Longrightarrow> string_ready data (mem s) a xs \<Longrightarrow> string_ready data (mem t) a xs"
  using same_user_but_str_at by (auto simp: string_ready_def)

lemma grep_ready_carried:
  "same_user_but data 1025 s t \<Longrightarrow> grep_ready L data str pat fname name (mem s) \<Longrightarrow> grep_ready L data str pat fname name (mem t)"
  using string_ready_carried unfolding grep_ready_def by blast

lemma data_index:
  assumes "i \<le> 1025"
  shows "unat (of_nat i :: i32) = i" "sint (of_nat i :: i32) = int i" "(of_nat i :: i32) + 1 = of_nat (Suc i)"
  using small_count(3,4) [of i] assms by auto

lemma signed_char: "(h :: u8) < 128 \<Longrightarrow> (scast h :: i32) = ucast c \<longleftrightarrow> h = c"
proof -
  assume "h < 128"
  then have "uint h < 128" by (simp add: word_less_def)
  then have "signed_take_bit 7 (uint h) = uint h" by (intro signed_take_bit_int_eq_self) (simp_all add: order_trans [OF _ uint_ge_0])
  then have "sint h = uint h" by (simp add: sint_uint)
  then have "(scast h :: i32) = ucast h" by (metis of_int_sint of_int_uint)
  then show ?thesis by simp
qed

lemma find_line_end_eq:
  assumes "ls + n \<le> filled" and "filled \<le> 1024" and "\<And>i. i < n \<Longrightarrow> mem s (data + of_nat (ls + i)) \<noteq> 10"
    and "ls + n = filled \<or> mem s (data + of_nat (ls + n)) = 10"
  shows "find_line_end data (of_nat filled) (of_nat ls) s = Some (Ok (of_nat (ls + n)))"
proof -
  have "find_line_end data (of_nat filled) (of_nat (ls + k)) s = Some (Ok (of_nat (ls + n)))" if "k \<le> n" for k
    using that
  proof (induction k rule: inc_induct)
    case base
    then show ?case
      using assms(1,2,4) data_index [of "ls + n"] data_index [of filled]
      by (subst find_line_end.simps) (auto simp: get_at_def)
  next
    case (step k)
    then show ?case
      using assms(1-3) data_index [of "ls + k"] data_index [of filled] by (subst find_line_end.simps) (simp add: get_at_def ac_simps)
  qed
  from this [of 0] show ?thesis by simp
qed

lemma str_at_drop: "str_at m a l \<Longrightarrow> i \<le> length l \<Longrightarrow> str_at m (a + of_nat i) (drop i l)"
proof (induction i arbitrary: a l)
  case (Suc i)
  then obtain x l' where "l = x # l'" by (cases l) auto
  then show ?case using Suc.IH [of "a + 1" l'] Suc.prems by (simp add: add.assoc)
qed simp

lemma bytes_at: "bytes (ptr m a) (length ys) = ys \<Longrightarrow> i < length ys \<Longrightarrow> m (a + of_nat i) = ys ! i"
  by (metis nth_bytes ptr_def)

lemma str_at_of_bytes:
  assumes "bytes (ptr m a) n = xs" and "0 \<notin> set xs" and "n < 2 ^ 32"
  shows "str_at (m(a + of_nat n := 0)) a xs"
proof -
  let ?m = "m(a + of_nat n := 0)"
  have at: "ptr ?m a (of_nat i) = ptr m a (of_nat i)" if "i < n" for i
    using that assms(3) of_nat_u32_eq_iff [of i n] by (simp add: ptr_def)
  have "is_cstr (ptr ?m a) n" unfolding is_cstr_def
  proof (intro conjI allI impI)
    fix i assume "i < n"
    then have "xs ! i \<in> set xs" "xs ! i = ptr ?m a (of_nat i)" using at [of i] nth_mem [of i xs] unfolding assms(1) [symmetric] by simp_all
    then show "ptr ?m a (of_nat i) \<noteq> 0" using assms(2) by metis
  qed (use assms(3) in \<open>simp_all add: ptr_def\<close>)
  moreover have "bytes (ptr ?m a) n = xs" unfolding assms(1) [symmetric] using at by (simp add: bytes_eq_iff)
  ultimately show ?thesis using is_cstr_str_at [of ?m a n] by simp
qed

lemma takeWhile_split:
  "(\<exists>zs. ys = takeWhile (\<lambda>c. c \<noteq> 10) ys @ 10 # zs \<and> zs \<noteq> []) \<or>
   ys = takeWhile (\<lambda>c. c \<noteq> 10) ys @ [10] \<or> ys = takeWhile (\<lambda>c. c \<noteq> (10 :: u8)) ys"
  by (induction ys) auto

lemma match_head: "pat \<noteq> [] \<Longrightarrow> take (length pat) (drop i l) = pat \<Longrightarrow> i < length l \<Longrightarrow> l ! i = hd pat"
  by (metis Cons_nth_drop_Suc hd_take length_greater_0_conv list.sel(1))

section \<open>Searching one line\<close>

context file_kernel
begin

lemma print_match_prints:
  assumes "ok s" and "remaining fd rs s" and "grep_ready L data str pat fname name (mem s)"
    and "str_at (mem s) a l" and "user_run a (Suc (length l))"
  shows "\<exists>t. print_match K L fname a s = Ok t \<and> ok t \<and> remaining fd rs t \<and> same_user s t \<and>
    shown t = fold term_putc (name @ [58] @ l @ [10]) (shown s)"
proof -
  have r: "str_at (mem s) fname name" "user_run fname (Suc (length name))" "str_at (mem s) (L '':'') [58]"
      "user_run (L '':'') (Suc (length [58 :: u8]))" "str_at (mem s) (L ''\<newline>'') [10]" "user_run (L ''\<newline>'') (Suc (length [10 :: u8]))"
    using assms(3) by (auto simp: grep_ready_def string_ready_def)
  obtain s1 where s1: "ece391_fdputs K 1 fname s = Ok s1" "ok s1" "same_user s s1" "shown s1 = fold term_putc name (shown s)" "remaining fd rs s1"
    using fdputs_keeps [OF assms(1) r(1,2) assms(2)] by blast
  obtain s2 where s2: "ece391_fdputs K 1 (L '':'') s1 = Ok s2" "ok s2" "same_user s1 s2" "shown s2 = fold term_putc [58] (shown s1)" "remaining fd rs s2"
    using fdputs_keeps [OF s1(2) same_user_str_at [OF s1(3) r(4,3)] r(4) s1(5)] by blast
  have u2: "same_user s s2" using s1(3) s2(3) by (rule same_user_trans)
  obtain s3 where s3: "ece391_fdputs K 1 a s2 = Ok s3" "ok s3" "same_user s2 s3" "shown s3 = fold term_putc l (shown s2)" "remaining fd rs s3"
    using fdputs_keeps [OF s2(2) same_user_str_at [OF u2 assms(5,4)] assms(5) s2(5)] by blast
  have u3: "same_user s s3" using u2 s3(3) by (rule same_user_trans)
  obtain s4 where s4: "ece391_fdputs K 1 (L ''\<newline>'') s3 = Ok s4" "ok s4" "same_user s3 s4" "shown s4 = fold term_putc [10] (shown s3)" "remaining fd rs s4"
    using fdputs_keeps [OF s3(2) same_user_str_at [OF u3 r(6,5)] r(6) s3(5)] by blast
  have "same_user s s4" using u3 s4(3) by (rule same_user_trans)
  then show ?thesis using s1 s2 s3 s4 by (simp add: print_match_def)
qed

lemma search_line_prints:
  assumes "ok s" and "remaining fd rs s" and ready: "grep_ready L data str pat fname name (mem s)"
    and l: "str_at (mem s) (data + of_nat ls) l" and len: "ls + length l \<le> 1024"
  shows "\<exists>t. search_line K L str fname data (of_nat (length pat)) (of_nat ls) (of_nat (ls + length l)) (of_nat ls) s = Some (Ok t) \<and>
    ok t \<and> remaining fd rs t \<and> same_user s t \<and> shown t = fold term_putc (match_text pat name l) (shown s)"
proof -
  have run: "user_run data 1025" and pat: "pat \<noteq> []" "hd pat < 128" "str_at (mem s) str pat" "user_run str (Suc (length pat))"
    using ready by (auto simp: grep_ready_def string_ready_def)
  have urun: "user_run (data + of_nat ls) (Suc (length l))" using user_run_sub [OF run] len by simp
  have hd: "mem s str = hd pat" using pat(1,3) by (cases pat) auto
  have plen: "unat (of_nat (length pat) :: i32) = length pat" using small_count(4) [of "length pat"] user_run_small [OF pat(4)] by simp
  have "i \<le> length l \<Longrightarrow> \<exists>t. search_line K L str fname data (of_nat (length pat)) (of_nat ls) (of_nat (ls + length l)) (of_nat (ls + i)) s = Some (Ok t) \<and>
      ok t \<and> remaining fd rs t \<and> same_user s t \<and>
      shown t = fold term_putc (if \<exists>j\<ge>i. j < length l \<and> take (length pat) (drop j l) = pat then name @ [58] @ l @ [10] else []) (shown s)" for i
  proof (induction i rule: inc_induct)
    case base
    then show ?case using assms(1,2) by (subst search_line.simps) auto
  next
    case (step i)
    have idx: "sint (of_nat (ls + i) :: i32) < sint (of_nat (ls + length l) :: i32)" "unat (of_nat (ls + i) :: i32) < 1025"
      "(of_nat (ls + i) :: i32) + 1 = of_nat (ls + Suc i)"
      using data_index [of "ls + i"] data_index [of "ls + length l"] len step.hyps by (simp_all del: of_nat_add)
    have c: "mem s (data + of_nat (ls + i)) = l ! i" using str_at_nth [OF l step.hyps(2)] by (simp add: add.assoc)
    have d: "str_at (mem s) (data + of_nat (ls + i)) (drop i l)" using str_at_drop [OF l, of i] step.hyps by (simp add: add.assoc)
    obtain r where r: "ece391_strncmp (mem s) (data + of_nat (ls + i)) str (of_nat (length pat)) = Ok r"
        "r = 0 \<longleftrightarrow> take (length pat) (drop i l) = pat"
      using strncmp_user [OF d pat(3), of "of_nat (length pat)"] plen by auto
    define r' where "r' = (if hd pat = l ! i then r else 1)"
    have r': "0 = r' \<longleftrightarrow> take (length pat) (drop i l) = pat"
      using r(2) match_head [OF pat(1) _ step.hyps(2)] by (auto simp: r'_def)
    have unfold: "search_line K L str fname data (of_nat (length pat)) (of_nat ls) (of_nat (ls + length l)) (of_nat (ls + i)) s =
        (if 0 = r' then Some (print_match K L fname (data + of_nat ls) s)
         else search_line K L str fname data (of_nat (length pat)) (of_nat ls) (of_nat (ls + length l)) (of_nat (ls + Suc i)) s)"
      using idx c r(1) hd signed_char [OF pat(2), of "l ! i"]
      by (subst search_line.simps) (simp add: get_at_def r'_def del: of_nat_add of_nat_Suc)
    show ?case
    proof (cases "0 = r'")
      case True
      then have "\<exists>j\<ge>i. j < length l \<and> take (length pat) (drop j l) = pat" using r' step.hyps by blast
      then show ?thesis
        using True unfold print_match_prints [OF assms(1-3) l urun] by auto
    next
      case False
      then have "(\<exists>j\<ge>i. j < length l \<and> take (length pat) (drop j l) = pat) \<longleftrightarrow>
          (\<exists>j\<ge>Suc i. j < length l \<and> take (length pat) (drop j l) = pat)"
        using r' by (metis Suc_leD Suc_le_eq le_eq_less_or_eq)
      then show ?thesis using False unfold step.IH by simp
    qed
  qed
  from this [of 0] show ?thesis by (simp add: match_text_def matches_def)
qed

section \<open>Scanning the window\<close>

text \<open>
  The window from \<open>ls\<close> on holds \<open>ys\<close>; \<open>rs\<close> is still to be read. The scan prints what the complete lines
  give and keeps a cut line \<open>p\<close> at the start of the window.
\<close>

lemma scan_lines_unfold:
  assumes "find_line_end data (of_nat filled) (of_nat ls) s = Some (Ok (of_nat e))" and "ls \<le> e" and "e \<le> filled" and "filled \<le> 1024"
    and "s1 = s\<lparr>mem := (mem s)(data + of_nat e := 0)\<rparr>"
  shows "scan_lines K L str fname data k cnt (of_nat filled) (of_nat ls) s =
    (if mem s (data + of_nat e) \<noteq> 10 \<and> cnt \<noteq> 0 \<and> ls \<noteq> 0
     then lbind (ece391_strcpy data (data + of_nat ls) (mem s1)) (\<lambda>m. Some (Ok (of_nat (filled - ls), s1\<lparr>mem := m\<rparr>)))
     else lbind (loop_value (search_line K L str fname data k (of_nat ls) (of_nat e) (of_nat ls) s1)) (\<lambda>s.
       if filled \<le> Suc e then Some (Ok (0, s)) else scan_lines K L str fname data k cnt (of_nat filled) (of_nat (Suc e)) s))"
proof -
  have w: "unat (of_nat e :: i32) < 1025" "(of_nat ls :: i32) = 0 \<longleftrightarrow> ls = 0" "(of_nat e :: i32) + 1 = of_nat (Suc e)"
    "sint (of_nat (Suc e) :: i32) \<ge> sint (of_nat filled :: i32) \<longleftrightarrow> filled \<le> Suc e" "(of_nat filled - of_nat ls :: i32) = of_nat (filled - ls)"
    using assms(2-4) data_index [of e] data_index [of "Suc e"] data_index [of filled] small_count(1) [of ls]
    by (simp_all add: of_nat_diff del: of_nat_Suc)
  show ?thesis
    using w assms(1) by (subst scan_lines.simps) (auto simp: get_at_def put_at_def assms(5) simp del: of_nat_Suc)
qed

text \<open>Stores into the window.\<close>

lemma window_store:
  assumes "ok s" and "remaining fd rs s" and "user_run data 1025" and "\<And>a. 1025 \<le> unat (a - data) \<Longrightarrow> m a = mem s a"
  shows "ok (s\<lparr>mem := m\<rparr>)" "remaining fd rs (s\<lparr>mem := m\<rparr>)" "shown (s\<lparr>mem := m\<rparr>) = shown s" "same_user_but data 1025 s (s\<lparr>mem := m\<rparr>)"
proof -
  have out: "m a = mem s a" if "\<not> in_user a" for a
  proof (rule assms(4), rule ccontr)
    assume "\<not> 1025 \<le> unat (a - data)"
    then have "in_user (data + of_nat (unat (a - data)))" by (intro user_run_at [OF assms(3)]) simp
    then show False using that by (simp add: u32_of_unat)
  qed
  show "ok (s\<lparr>mem := m\<rparr>)" using assms(1) out by (rule user_ok)
  show "remaining fd rs (s\<lparr>mem := m\<rparr>)" using assms(1,2) out by (rule user_keeps)
  show "shown (s\<lparr>mem := m\<rparr>) = shown s" using assms(1) out by (rule user_shown)
  show "same_user_but data 1025 s (s\<lparr>mem := m\<rparr>)" using assms(4) by (simp add: same_user_but_def)
qed

lemma window_index: "i \<le> 1024 \<Longrightarrow> unat (data + of_nat i - data :: u32) = i"
  using data_index(1) [of i] by simp

text \<open>A cut line moves to the start of the window.\<close>

lemma carry_line:
  assumes "ok s" and "remaining fd rs s" and "user_run data 1025" and "ls + length ys \<le> 1024" and "0 < ls"
    and "bytes (ptr (mem s) (data + of_nat ls)) (length ys) = ys" and "0 \<notin> set ys"
    and s1: "s1 = s\<lparr>mem := (mem s)(data + of_nat (ls + length ys) := 0)\<rparr>"
  shows "\<exists>m. ece391_strcpy data (data + of_nat ls) (mem s1) = Ok m \<and> ok (s\<lparr>mem := m\<rparr>) \<and> remaining fd rs (s\<lparr>mem := m\<rparr>) \<and>
    shown (s\<lparr>mem := m\<rparr>) = shown s \<and> same_user_but data 1025 s (s\<lparr>mem := m\<rparr>) \<and> bytes (ptr m data) (length ys) = ys \<and>
    (mem s (data + 1024) \<noteq> 10 \<longrightarrow> m (data + 1024) \<noteq> 10)"
proof -
  let ?n = "length ys"
  have str: "str_at (mem s1) (data + of_nat ls) ys"
    using str_at_of_bytes [OF assms(6,7)] assms(4) by (simp add: s1 add.assoc)
  define m where "m = blit (mem s1) data (Suc ?n) (ptr (mem s1) (data + of_nat ls))"
  have "unat (data - (data + of_nat ls) :: u32) = 2 ^ 32 - ls"
    using assms(4,5) data_index(1) [of ls] unat_sub_if_size [of 0 "of_nat ls :: u32"] by (simp add: word_size)
  then have "ece391_strcpy data (data + of_nat ls) (mem s1) = Ok m"
    unfolding m_def using assms(4,5) by (intro strcpy_user [OF str]) auto
  moreover have out: "m a = mem s a" if "1025 \<le> unat (a - data)" for a
  proof -
    have "a \<noteq> data + of_nat (ls + ?n)" using that assms(4) window_index [of "ls + ?n" data] by auto
    then show ?thesis using that assms(4) by (simp add: m_def blit_outside s1)
  qed
  moreover have "bytes (ptr m data) ?n = ys"
  proof (rule nth_equalityI)
    fix i assume "i < length (bytes (ptr m data) ?n)"
    then have i: "i < ?n" by simp
    then have "m (data + of_nat i) = mem s1 (data + of_nat ls + of_nat i)"
      using blit_at [of i "Suc ?n" "mem s1" data] assms(4) by (simp add: m_def ptr_def)
    then show "bytes (ptr m data) ?n ! i = ys ! i" using i str_at_nth [OF str i] by (simp add: ptr_def)
  qed simp
  moreover have "mem s (data + 1024) \<noteq> 10 \<longrightarrow> m (data + 1024) \<noteq> 10"
    using window_index [of 1024 data] assms(4,5) by (simp add: m_def blit_outside s1)
  ultimately show ?thesis using window_store [OF assms(1-3) out] by blast
qed

text \<open>A line that ends in the window, or the last one, is searched in place.\<close>

lemma search_here:
  assumes "ok s" and "remaining fd rs s" and ready: "grep_ready L data str pat fname name (mem s)" and "ls + length l \<le> 1024"
    and "bytes (ptr (mem s) (data + of_nat ls)) (length l) = l" and "0 \<notin> set l"
    and s1: "s1 = s\<lparr>mem := (mem s)(data + of_nat (ls + length l) := 0)\<rparr>"
  shows "\<exists>t. loop_value (search_line K L str fname data (of_nat (length pat)) (of_nat ls) (of_nat (ls + length l)) (of_nat ls) s1) = Ok t \<and>
    ok t \<and> remaining fd rs t \<and> same_user_but data 1025 s t \<and> shown t = fold term_putc (match_text pat name l) (shown s) \<and>
    (\<forall>i\<le>1024. i \<noteq> ls + length l \<longrightarrow> mem t (data + of_nat i) = mem s (data + of_nat i)) \<and>
    (mem s (data + 1024) \<noteq> 10 \<longrightarrow> mem t (data + 1024) \<noteq> 10)"
proof -
  have run: "user_run data 1025" using ready by (simp add: grep_ready_def)
  have w: "ok s1" "remaining fd rs s1" "shown s1 = shown s" "same_user_but data 1025 s s1"
    unfolding s1 using window_index [OF assms(4), of data] assms(4)
    by (auto intro!: window_store [OF assms(1,2) run])
  have str: "str_at (mem s1) (data + of_nat ls) l"
    using str_at_of_bytes [OF assms(5,6)] assms(4) by (simp add: s1 add.assoc)
  obtain t where t: "search_line K L str fname data (of_nat (length pat)) (of_nat ls) (of_nat (ls + length l)) (of_nat ls) s1 = Some (Ok t)"
      "ok t" "remaining fd rs t" "same_user s1 t" "shown t = fold term_putc (match_text pat name l) (shown s1)"
    using search_line_prints [OF w(1,2) grep_ready_carried [OF w(4) ready] str assms(4)] by blast
  have tm: "mem t (data + of_nat i) = mem s1 (data + of_nat i)" if "i \<le> 1024" for i
    using t(4) user_run_at [OF run, of i] that by (simp add: same_user_def)
  have "mem t (data + of_nat i) = mem s (data + of_nat i)" if "i \<le> 1024" "i \<noteq> ls + length l" for i
    using tm [OF that(1)] that assms(4) of_nat_u32_eq_iff [of i "ls + length l"] by (simp add: s1 del: of_nat_add)
  moreover have "mem s (data + 1024) \<noteq> 10 \<longrightarrow> mem t (data + 1024) \<noteq> 10" using tm [of 1024] by (simp add: s1)
  ultimately show ?thesis using t w(3) same_user_but_trans(2) [OF w(4) t(4)] by auto
qed

text \<open>What a scan of \<open>ys\<close> from \<open>s\<close> has achieved in \<open>t\<close> when it keeps \<open>p\<close> in the window and \<open>rs\<close> is unread.\<close>

definition scanned ::
  "nat \<Rightarrow> u8 list \<Rightarrow> u32 \<Rightarrow> u8 list \<Rightarrow> u8 list \<Rightarrow> 'a machine_scheme \<Rightarrow> u8 list \<Rightarrow> 'a machine_scheme \<Rightarrow> u8 list \<Rightarrow> bool" where
  "scanned fd rs data pat name s ys t p \<longleftrightarrow> ok t \<and> remaining fd rs t \<and> same_user_but data 1025 s t \<and>
     (mem s (data + 1024) \<noteq> 10 \<longrightarrow> mem t (data + 1024) \<noteq> 10) \<and>
     bytes (ptr (mem t) data) (length p) = p \<and> length p \<le> length ys \<and> 10 \<notin> set p \<and> 0 \<notin> set p \<and>
     (\<exists>outp. shown t = fold term_putc outp (shown s) \<and> outp @ grep_text pat name (p @ rs) = grep_text pat name (ys @ rs)) \<and>
     set (lines (p @ rs)) \<subseteq> insert [] (set (lines (ys @ rs)))"

lemma scanned_step:
  assumes "scanned fd rs data pat name t ys v p" and "same_user_but data 1025 s t" and "10 \<notin> set l"
    and "mem s (data + 1024) \<noteq> 10 \<longrightarrow> mem t (data + 1024) \<noteq> 10" and "shown t = fold term_putc (match_text pat name l) (shown s)"
  shows "scanned fd rs data pat name s (l @ 10 # ys) v p"
proof -
  obtain outp where o: "shown v = fold term_putc outp (shown t)" "outp @ grep_text pat name (p @ rs) = grep_text pat name (ys @ rs)"
    using assms(1) by (auto simp: scanned_def)
  have "shown v = fold term_putc (match_text pat name l @ outp) (shown s)" using o(1) assms(5) by simp
  moreover have "(match_text pat name l @ outp) @ grep_text pat name (p @ rs) = grep_text pat name ((l @ 10 # ys) @ rs)"
    using o(2) grep_text_newline [OF assms(3)] by simp
  moreover have "set (lines (p @ rs)) \<subseteq> insert [] (set (lines ((l @ 10 # ys) @ rs)))"
    using assms(1) lines_newline [OF assms(3)] by (auto simp: scanned_def)
  moreover have "same_user_but data 1025 s v" using assms(1) same_user_but_trans(1) [OF assms(2)] unfolding scanned_def by blast
  moreover have "length p \<le> length (l @ 10 # ys)" using assms(1) by (simp add: scanned_def)
  ultimately show ?thesis using assms(1,4) unfolding scanned_def by blast
qed

lemma scanned_flush:
  assumes "ok t" and "remaining fd rs t" and "same_user_but data 1025 s t" and "10 \<notin> set l"
    and "mem s (data + 1024) \<noteq> 10 \<longrightarrow> mem t (data + 1024) \<noteq> 10" and "shown t = fold term_putc (match_text pat name l) (shown s)"
    and "ys = l @ [10] \<or> ys = l \<and> rs = []"
  shows "scanned fd rs data pat name s ys t []"
proof -
  have "match_text pat name l @ grep_text pat name ([] @ rs) = grep_text pat name (ys @ rs)"
    using assms(4,7) grep_text_single [of "[]" pat name] by (auto simp: grep_text_newline grep_text_single)
  moreover have "set (lines ([] @ rs)) \<subseteq> insert [] (set (lines (ys @ rs)))"
    using assms(7) lines_newline [OF assms(4)] by auto
  ultimately show ?thesis using assms unfolding scanned_def by (auto simp: bytes_def)
qed

lemma window_tail:
  assumes "\<And>i. i < length ys \<Longrightarrow> mem s (data + of_nat (ls + i)) = ys ! i" and "k + length zs = length ys" and "zs = drop k ys"
    and "\<And>i. k \<le> i \<Longrightarrow> i < length ys \<Longrightarrow> mem t (data + of_nat (ls + i)) = mem s (data + of_nat (ls + i))"
  shows "bytes (ptr (mem t) (data + of_nat (ls + k))) (length zs) = zs"
proof (rule nth_equalityI)
  fix i assume "i < length (bytes (ptr (mem t) (data + of_nat (ls + k))) (length zs))"
  then have i: "i < length zs" by simp
  then have "mem t (data + of_nat (ls + (k + i))) = ys ! (k + i)" using assms(1) [of "k + i"] assms(2) assms(4) [of "k + i"] by simp
  then show "bytes (ptr (mem t) (data + of_nat (ls + k))) (length zs) ! i = zs ! i"
    using i assms(2,3) by (simp add: ptr_def add.assoc)
qed simp

text \<open>One turn of the scan: the first line \<open>l\<close> of \<open>ys\<close> is found; it is kept, or searched and left behind.\<close>

lemma scan_line:
  assumes s: "ok s" "remaining fd rs s" and ready: "grep_ready L data str pat fname name (mem s)"
    and len: "ls + length ys \<le> 1024" and ys: "bytes (ptr (mem s) (data + of_nat ls)) (length ys) = ys" "0 \<notin> set ys"
    and l: "l = takeWhile (\<lambda>c. c \<noteq> 10) ys" and e: "e = ls + length l" and c: "c = mem s (data + of_nat e)"
  shows "if c \<noteq> 10 \<and> cnt \<noteq> 0 \<and> ls \<noteq> 0
    then l = ys \<and> (\<exists>t. scan_lines K L str fname data (of_nat (length pat)) cnt (of_nat (ls + length ys)) (of_nat ls) s = Some (Ok (of_nat (length ys), t)) \<and>
       scanned fd rs data pat name s ys t ys)
    else \<exists>t. scan_lines K L str fname data (of_nat (length pat)) cnt (of_nat (ls + length ys)) (of_nat ls) s =
       (if ls + length ys \<le> Suc e then Some (Ok (0, t))
        else scan_lines K L str fname data (of_nat (length pat)) cnt (of_nat (ls + length ys)) (of_nat (Suc e)) t) \<and>
       ok t \<and> remaining fd rs t \<and> same_user_but data 1025 s t \<and> shown t = fold term_putc (match_text pat name l) (shown s) \<and>
       (\<forall>i\<le>1024. i \<noteq> e \<longrightarrow> mem t (data + of_nat i) = mem s (data + of_nat i)) \<and>
       (mem s (data + 1024) \<noteq> 10 \<longrightarrow> mem t (data + 1024) \<noteq> 10)"
proof -
  have at: "mem s (data + of_nat (ls + i)) = ys ! i" if "i < length ys" for i
    using bytes_at [OF ys(1) that] by (simp add: add.assoc)
  have n: "length l \<le> length ys" unfolding l by (rule length_takeWhile_le)
  have tl: "l = take (length l) ys" unfolding l by (rule takeWhile_eq_take)
  have l10: "10 \<notin> set l" "0 \<notin> set l" using ys(2) by (auto simp: l dest: set_takeWhileD)
  have hit: "length l < length ys \<Longrightarrow> ys ! length l = 10" unfolding l using nth_length_takeWhile by blast
  have nohit: "i < length l \<Longrightarrow> ys ! i \<noteq> 10" for i using l10(1) tl by (metis nth_mem nth_take)
  have e1: "ls + length l \<le> 1024" using n len by simp
  have fle: "find_line_end data (of_nat (ls + length ys)) (of_nat ls) s = Some (Ok (of_nat e))" unfolding e
  proof (rule find_line_end_eq)
    show "mem s (data + of_nat (ls + i)) \<noteq> 10" if "i < length l" for i using at [of i] nohit [OF that] that n by simp
    show "ls + length l = ls + length ys \<or> mem s (data + of_nat (ls + length l)) = 10"
      using at [of "length l"] hit n by (cases "length l < length ys") simp_all
  qed (use n len in simp_all)
  define s1 where "s1 = s\<lparr>mem := (mem s)(data + of_nat e := 0)\<rparr>"
  note unf = scan_lines_unfold [OF fle _ _ len s1_def, where L = L and str = str and fname = fname and k = "of_nat (length pat)" and cnt = cnt]
  show ?thesis
  proof (cases "c \<noteq> 10 \<and> cnt \<noteq> 0 \<and> ls \<noteq> 0")
    case True
    then have all: "length l = length ys" "l = ys" using n at [of "length l"] hit tl c e by (cases "length l < length ys"; simp)+
    have run: "user_run data 1025" using ready by (simp add: grep_ready_def)
    obtain m where m: "ece391_strcpy data (data + of_nat ls) (mem s1) = Ok m" "ok (s\<lparr>mem := m\<rparr>)" "remaining fd rs (s\<lparr>mem := m\<rparr>)"
        "shown (s\<lparr>mem := m\<rparr>) = shown s" "same_user_but data 1025 s (s\<lparr>mem := m\<rparr>)" "bytes (ptr m data) (length ys) = ys"
        "mem s (data + 1024) \<noteq> 10 \<longrightarrow> m (data + 1024) \<noteq> 10"
      using carry_line [OF s run len _ ys] True all(1) s1_def e by auto
    have "scanned fd rs data pat name s ys (s\<lparr>mem := m\<rparr>) ys"
      using m l10 all(2) by (auto simp: scanned_def intro: exI [of _ "[]"])
    then show ?thesis using unf True m(1) n all(2) c e by (auto simp: s1_def)
  next
    case False
    have lb: "bytes (ptr (mem s) (data + of_nat ls)) (length l) = l"
      using at n nth_take [of _ "length l" ys] tl by (intro nth_equalityI) (auto simp: ptr_def add.assoc)
    show ?thesis
      using unf False n c e search_here [OF s ready e1 lb l10(2)] s1_def by auto
  qed
qed

lemma scan_lines_prints:
  assumes "ok s" and "remaining fd rs s" and "grep_ready L data str pat fname name (mem s)"
    and "ls + length ys \<le> 1024" and "bytes (ptr (mem s) (data + of_nat ls)) (length ys) = ys" and "0 \<notin> set ys"
    and "rs \<noteq> [] \<longrightarrow> cnt \<noteq> 0 \<and> mem s (data + of_nat (ls + length ys)) \<noteq> 10 \<and> (ls \<noteq> 0 \<or> 10 \<in> set ys)"
  shows "\<exists>t p. scan_lines K L str fname data (of_nat (length pat)) cnt (of_nat (ls + length ys)) (of_nat ls) s = Some (Ok (of_nat (length p), t)) \<and>
    scanned fd rs data pat name s ys t p \<and> (cnt = 0 \<longrightarrow> p = [])"
  using assms
proof (induction "length ys" arbitrary: ys ls s rule: less_induct)
  case less
  note prems = less.prems
  define l where "l = takeWhile (\<lambda>c. c \<noteq> 10) ys"
  define e where "e = ls + length l"
  let ?scan = "\<lambda>ls s. scan_lines K L str fname data (of_nat (length pat)) cnt (of_nat (ls + length ys)) (of_nat ls) s"
  have n: "length l \<le> length ys" unfolding l_def by (rule length_takeWhile_le)
  have l10: "10 \<notin> set l" by (auto simp: l_def dest: set_takeWhileD)
  note turn = scan_line [OF prems(1-6) l_def e_def refl, of cnt]
  show ?case
  proof (cases "mem s (data + of_nat e) \<noteq> 10 \<and> cnt \<noteq> 0 \<and> ls \<noteq> 0")
    case True
    then show ?thesis using turn by auto
  next
    case False
    then obtain t where t: "?scan ls s = (if ls + length ys \<le> Suc e then Some (Ok (0, t))
          else scan_lines K L str fname data (of_nat (length pat)) cnt (of_nat (ls + length ys)) (of_nat (Suc e)) t)"
        "ok t" "remaining fd rs t" "same_user_but data 1025 s t" "shown t = fold term_putc (match_text pat name l) (shown s)"
        "\<And>i. i \<le> 1024 \<Longrightarrow> i \<noteq> e \<Longrightarrow> mem t (data + of_nat i) = mem s (data + of_nat i)"
        "mem s (data + 1024) \<noteq> 10 \<longrightarrow> mem t (data + 1024) \<noteq> 10"
      using turn unfolding if_not_P [OF False] by blast
    consider (more) zs where "ys = l @ 10 # zs" "zs \<noteq> []" | (last) "ys = l @ [10] \<or> ys = l"
      using takeWhile_split [of ys] unfolding l_def by blast
    then show ?thesis
    proof cases
      case more
      have k: "Suc (length l) + length zs = length ys" "zs = drop (Suc (length l)) ys" "ls + Suc (length l) = Suc e"
        using more by (simp_all add: e_def)
      have at: "mem s (data + of_nat (ls + i)) = ys ! i" if "i < length ys" for i
        using bytes_at [OF prems(5) that] by (simp add: add.assoc)
      have b: "bytes (ptr (mem t) (data + of_nat (Suc e))) (length zs) = zs"
        unfolding k(3) [symmetric] by (rule window_tail [OF at k(1,2)]) (use t(6) prems(4) in \<open>simp_all add: e_def del: of_nat_add\<close>)
      have f: "ls + length ys = Suc e + length zs" using k by simp
      have "rs \<noteq> [] \<longrightarrow> cnt \<noteq> 0 \<and> mem t (data + of_nat (Suc e + length zs)) \<noteq> 10 \<and> (Suc e \<noteq> 0 \<or> 10 \<in> set zs)"
        using prems(4,7) t(6) [of "ls + length ys"] unfolding f by (simp del: of_nat_add of_nat_Suc)
      moreover have "length zs < length ys" "Suc e + length zs \<le> 1024" "0 \<notin> set zs" using more prems(4,6) f by auto
      ultimately obtain v p where "scan_lines K L str fname data (of_nat (length pat)) cnt (of_nat (ls + length ys)) (of_nat (Suc e)) t =
          Some (Ok (of_nat (length p), v))" "scanned fd rs data pat name t zs v p" "cnt = 0 \<longrightarrow> p = []"
        using less.hyps [of zs t "Suc e", OF _ t(2,3) grep_ready_carried [OF t(4) prems(3)] _ b] unfolding f by blast
      moreover have "\<not> ls + length ys \<le> Suc e" using f more(2) by simp
      ultimately show ?thesis using t(1) scanned_step [OF _ t(4) l10 t(7,5)] more(1) by (metis (no_types, lifting))
    next
      case last
      have "scanned fd rs data pat name s ys t []"
        using last prems(7) False l10 by (intro scanned_flush [OF t(2,3,4) l10 t(7,5)]) (auto simp: e_def)
      moreover have "ls + length ys \<le> Suc e" using last by (auto simp: e_def)
      ultimately show ?thesis using t(1) by (intro exI [of _ t] exI [of _ "[]"]) simp
    qed
  qed
qed

section \<open>The whole file\<close>

text \<open>Filling the window behind the line kept in it.\<close>

lemma fill_window:
  assumes "ok s" and "remaining fd rs s" and "user_run data 1025" and "length p \<le> 1023" and "bytes (ptr (mem s) data) (length p) = p"
    and "k = 1024 - length p"
  shows "\<exists>t. ece391_read K (of_nat fd) (data + of_nat (length p)) (1024 - of_nat (length p)) s = Ok (of_nat (min k (length rs)), t) \<and>
    ok t \<and> remaining fd (drop k rs) t \<and> shown t = shown s \<and> same_user_but data 1025 s t \<and>
    bytes (ptr (mem t) data) (length (p @ take k rs)) = p @ take k rs \<and> mem t (data + 1024) = mem s (data + 1024)"
proof -
  let ?a = "data + of_nat (length p)" and ?c = "min k (length rs)"
  have "user_run ?a k" using user_run_sub [OF assms(3), of "length p" k] assms(4,6) by simp
  then obtain t where t: "K SYS_READ (of_nat fd) ?a (of_nat k) s = Ok (of_nat ?c, t)" "ok t" "shown t = shown s"
      "same_user_but ?a ?c s t" "bytes (ptr (mem t) ?a) ?c = take k rs" "remaining fd (drop k rs) t"
    using read_next [OF assms(1,2)] by blast
  have w: "(1024 - of_nat (length p) :: i32) = of_nat k" using assms(4,6) by (simp add: of_nat_diff)
  have off: "unat (data + of_nat i - ?a) = i - length p" if "length p \<le> i" "i \<le> 1024" for i
    using that data_index(1) [of "i - length p"] by (simp add: of_nat_diff)
  have low: "mem t (data + of_nat i) = mem s (data + of_nat i)" if "i < length p" for i
  proof -
    have "unat (data + of_nat i - ?a) = 2 ^ 32 - (length p - i)"
      using that assms(4) data_index(1) [of i] data_index(1) [of "length p"] by (simp add: unat_sub_if_size word_size)
    then show ?thesis using t(4) user_run_at [OF assms(3), of i] that assms(4,6) by (auto simp: same_user_but_def)
  qed
  have "mem t (data + 1024) = mem s (data + 1024)"
    using t(4) off [of 1024] user_run_at [OF assms(3), of 1024] assms(4,6) by (simp add: same_user_but_def)
  moreover have "same_user_but data 1025 s t"
  proof (unfold same_user_but_def, intro allI impI)
    fix a assume a: "in_user a \<and> 1025 \<le> unat (a - data)"
    have "unat (x - of_nat (length p)) = unat x - length p" if "1025 \<le> unat x" for x :: u32
      using that assms(4) data_index(1) [of "length p"] by (simp add: unat_sub_if_size word_size)
    then have "unat (a - ?a) = unat (a - data) - length p" using a by (simp add: diff_diff_eq [symmetric])
    then show "mem t a = mem s a" using t(4) a assms(4,6) by (auto simp: same_user_but_def)
  qed
  moreover have "bytes (ptr (mem t) data) (length (p @ take k rs)) = p @ take k rs"
  proof (rule nth_equalityI)
    fix i assume "i < length (bytes (ptr (mem t) data) (length (p @ take k rs)))"
    then have i: "i < length p + ?c" by simp
    show "bytes (ptr (mem t) data) (length (p @ take k rs)) ! i = (p @ take k rs) ! i"
    proof (cases "i < length p")
      case True
      then show ?thesis using low bytes_at [OF assms(5)] by (simp add: ptr_def nth_append)
    next
      case False
      then have "(i - length p) < length (take k rs)" using i by (simp, linarith)
      moreover have "bytes (ptr (mem t) ?a) (length (take k rs)) = take k rs" using t(5) by (simp add: min.commute)
      ultimately have "mem t (?a + of_nat (i - length p)) = take k rs ! (i - length p)" by (intro bytes_at)
      then show ?thesis using False i by (simp add: ptr_def nth_append of_nat_diff)
    qed
  qed simp
  ultimately show ?thesis using t w by (auto simp: ece391_read_def)
qed

lemma grep_loop_prints:
  assumes "ok s" and "remaining fd rs s" and "grep_ready L data str pat fname name (mem s)"
    and "length p \<le> 1023" and "bytes (ptr (mem s) data) (length p) = p" and "0 \<notin> set p" and "0 \<notin> set rs"
    and "mem s (data + 1024) \<noteq> 10" and "\<forall>l\<in>set (lines (p @ rs)). length l < 1024"
  shows "\<exists>t. grep_loop K L str fname (of_nat fd) data (of_nat (length pat)) (of_nat (length p)) s = Some (Ok (0, t)) \<and> ok t \<and>
    same_user_but data 1025 s t \<and> shown t = fold term_putc (grep_text pat name (p @ rs)) (shown s)"
  using assms
proof (induction "length rs" arbitrary: rs p s rule: less_induct)
  case less
  note prems = less.prems
  define k ys rs' where "k = 1024 - length p" and "ys = p @ take k rs" and "rs' = drop k rs"
  let ?c = "of_nat (min k (length rs)) :: i32"
  have run: "user_run data 1025" using prems(3) by (simp add: grep_ready_def)
  obtain t where t: "ece391_read K (of_nat fd) (data + of_nat (length p)) (1024 - of_nat (length p)) s = Ok (?c, t)" "ok t" "remaining fd rs' t"
      "shown t = shown s" "same_user_but data 1025 s t" "bytes (ptr (mem t) data) (length ys) = ys" "mem t (data + 1024) = mem s (data + 1024)"
    using fill_window [OF prems(1,2) run prems(4,5) k_def] unfolding ys_def rs'_def by blast
  have k: "0 < k" "k \<le> 1024" using prems(4) by (simp_all add: k_def)
  have all: "ys @ rs' = p @ rs" "length ys \<le> 1024" "0 \<notin> set ys"
    using prems(4,6,7) by (auto simp: ys_def rs'_def k_def dest: in_set_takeD)
  have c: "?c = 0 \<longleftrightarrow> rs = []" "?c \<noteq> -1" "of_nat (length p) + ?c = of_nat (length ys)"
    using small_count(1,2) [of "min k (length rs)"] k by (auto simp: ys_def min_def)
  have cut: "rs' \<noteq> [] \<longrightarrow> ?c \<noteq> 0 \<and> mem t (data + of_nat (0 + length ys)) \<noteq> 10 \<and> (0 \<noteq> 0 \<or> 10 \<in> set ys)"
  proof
    assume r: "rs' \<noteq> []"
    then have len: "length ys = 1024" using prems(4) by (simp add: ys_def rs'_def k_def)
    have "10 \<in> set ys"
    proof (rule ccontr)
      assume "10 \<notin> set ys"
      then have "ys @ hd (lines rs') \<in> set (lines (p @ rs))" using lines_append [of ys rs'] all(1) by simp
      then show False using prems(9) len by auto
    qed
    then show "?c \<noteq> 0 \<and> mem t (data + of_nat (0 + length ys)) \<noteq> 10 \<and> (0 \<noteq> 0 \<or> 10 \<in> set ys)"
      using r c(1) t(7) prems(8) len by (auto simp: rs'_def)
  qed
  obtain u q where u: "scan_lines K L str fname data (of_nat (length pat)) ?c (of_nat (length ys)) 0 t = Some (Ok (of_nat (length q), u))"
      "scanned fd rs' data pat name t ys u q" "?c = 0 \<longrightarrow> q = []"
    using scan_lines_prints [OF t(2,3) grep_ready_carried [OF t(5) prems(3)], of 0 ys ?c] t(6) all cut by auto
  obtain outp where o: "shown u = fold term_putc outp (shown t)" "outp @ grep_text pat name (q @ rs') = grep_text pat name (p @ rs)"
    using u(2) all(1) by (auto simp: scanned_def)
  have q: "ok u" "remaining fd rs' u" "same_user_but data 1025 t u" "mem u (data + 1024) \<noteq> 10" "bytes (ptr (mem u) data) (length q) = q"
      "10 \<notin> set q" "0 \<notin> set q" "set (lines (q @ rs')) \<subseteq> insert [] (set (lines (p @ rs)))"
    using u(2) t(7) prems(8) all(1) by (auto simp: scanned_def)
  have su: "same_user_but data 1025 s u" using same_user_but_trans(1) [OF t(5) q(3)] .
  show ?case
  proof (cases "rs = []")
    case True
    then have "grep_text pat name (q @ rs') = []" using u(3) c(1) by (simp add: rs'_def grep_text_single)
    then have sh: "shown u = fold term_putc (grep_text pat name (p @ rs)) (shown s)" using o t(4) by simp
    obtain v where "K SYS_CLOSE (of_nat fd) 0 0 u = Ok (0, v)" "ok v" "shown v = shown u" "same_user u v"
      using close_done [OF q(1,2)] by blast
    then show ?thesis
      using t(1) c True u(1) sh same_user_but_trans(2) [OF su] by (subst grep_loop.simps) (simp add: ece391_close_def)
  next
    case False
    have lb: "\<forall>l\<in>set (lines (q @ rs')). length l < 1024" using q(8) prems(9) by auto
    have "q @ hd (lines rs') \<in> set (lines (q @ rs'))" using lines_append [OF q(6)] by simp
    then have "length q \<le> 1023" using lb by fastforce
    moreover have "length rs' < length rs" using False k by (simp add: rs'_def)
    moreover have "0 \<notin> set rs'" using prems(7) by (auto simp: rs'_def dest: in_set_dropD)
    ultimately obtain v where v: "grep_loop K L str fname (of_nat fd) data (of_nat (length pat)) (of_nat (length q)) u = Some (Ok (0, v))" "ok v"
        "same_user_but data 1025 u v" "shown v = fold term_putc (grep_text pat name (q @ rs')) (shown u)"
      using less.hyps [of rs' u q, OF _ q(1,2) grep_ready_carried [OF su prems(3)] _ q(5,7) _ q(4) lb] by blast
    have "shown v = fold term_putc (grep_text pat name (p @ rs)) (shown s)" using v(4) o t(4) by (metis comp_apply fold_append)
    then show ?thesis
      using t(1) c False u(1) v same_user_but_trans(1) [OF su v(3)] by (subst grep_loop.simps) simp
  qed
qed

lemma do_one_file_prints:
  assumes "ok s" and "can_open s" and "has_file s name xs" and ready: "grep_ready L data str pat fname name (mem s)"
    and "0 \<notin> set xs" and "\<forall>l\<in>set (lines xs). length l < 1024" and "mem s (data + 1024) \<noteq> 10"
  shows "\<exists>t. do_one_file K L data str fname s = Ok (0, t) \<and> ok t \<and> same_user_but data 1025 s t \<and>
    shown t = fold term_putc (grep_text pat name xs) (shown s)"
proof -
  have r: "str_at (mem s) fname name" "user_run fname (Suc (length name))" "str_at (mem s) str pat" "user_run data 1025"
    using ready by (auto simp: grep_ready_def string_ready_def)
  obtain fd t where t: "K SYS_OPEN fname 0 0 s = Ok (of_nat fd, t)" "of_nat fd \<noteq> (-1 :: i32)" "ok t" "shown t = shown s"
      "same_user s t" "remaining fd xs t"
    using open_found [OF assms(1-3) r(1,2)] by blast
  have "mem t (data + 1024) = mem s (data + 1024)" using t(5) user_run_at [OF r(4), of 1024] by (simp add: same_user_def)
  then obtain u where "grep_loop K L str fname (of_nat fd) data (of_nat (length pat)) (of_nat (length ([] :: u8 list))) t = Some (Ok (0, u))" "ok u"
      "same_user_but data 1025 t u" "shown u = fold term_putc (grep_text pat name ([] @ xs)) (shown t)"
    using grep_loop_prints [OF t(3,6) grep_ready_carried [OF same_user_but_same [OF t(5)] ready], of "[]"] assms(5-7) by (auto simp: bytes_def)
  then show ?thesis
    using t r(3) same_user_but_trans(3) [OF t(5)] by (simp add: do_one_file_def ece391_open_def)
qed

end

end
