(* ===== verification/User_Kernel.thy ===== *)
theory User_Kernel
  imports Kernel_Entry User_Grep
begin

text \<open>
  The kernel's own system calls behind the user programs: they satisfy the interfaces of
  \<open>User_Interface\<close>, so that what is proved there of a program holds of it on this kernel.
\<close>

section \<open>System calls of a running program\<close>

text \<open>
  An \<open>int 0x80\<close> of the current program. What the call meets (devices, interrupts while it waits) may
  depend on the state in which it is made. When \<open>execute\<close> enters a program, \<open>run\<close> says what happens
  until that program has ended; a call that ends the calling program does not return.
\<close>

definition int80 ::
  "('a kernel_state_scheme \<Rightarrow> 'a kernel_state_scheme env) \<Rightarrow> (u32 \<Rightarrow> 'a kernel_state_scheme \<Rightarrow> (i32 \<times> 'a kernel_state_scheme) outcome) \<Rightarrow>
   'a kernel_state_scheme kernel_call" where
  "int80 W run eax ebx ecx edx s =
     obind (syscall_handler (W s) eax ebx ecx edx s) (\<lambda>(x, s).
       case x of Ret v \<Rightarrow> Ok (v, s) | To_User e \<Rightarrow> run e s | Execute_Returns v \<Rightarrow> No_Return)"

lemma obind_Ok: "obind r Ok = r"
  by (cases r) simp_all

lemma int80_simps [simp]:
  "int80 W run SYS_READ fd a n s = sys_read (W s) fd a n s"
  "int80 W run SYS_WRITE fd a n s = sys_write (W s) fd a n s"
  "int80 W run SYS_OPEN a x y s = open_file (W s) (ptr (mem s) a) s"
  "int80 W run SYS_CLOSE fd x y s = sys_close fd s"
  "int80 W run SYS_GETARGS a n y s = getargs a n s"
  by (simp_all add: int80_def syscall_handler_def sysnum_defs returns_def obind_assoc case_prod_beta obind_Ok)

section \<open>A process with its terminal and the file system\<close>

abbreviation this_pcb :: "'a kernel_state_scheme \<Rightarrow> pcb" where
  "this_pcb s \<equiv> pcbs s (this_pcb_addr s)"

definition user_ok :: "'a kernel_state_scheme \<Rightarrow> bool" where
  "user_ok s \<longleftrightarrow> get_tty_number s < 3 \<and> on_screen (get_tty_number s) s \<and>
     flags (fds (this_pcb s) 1) = IN_USE \<and> jumptable (fds (this_pcb s) 1) = Some Stdout_Fops \<and>
     (\<exists>k<100. is_cstr (argbuf (this_pcb s)) k) \<and> fs_mounted s \<and> dir_ok s \<and>
     disjoint_runs 0x08000000 0x400000 (bb_start s) (fs_len s) \<and>
     disjoint_runs (video_buff (get_tty_number s)) 4000 (bb_start s) (fs_len s)"

definition user_screen :: "'a kernel_state_scheme \<Rightarrow> text_term" where
  "user_screen s = abs_term (get_tty_number s) s"

definition user_remaining :: "nat \<Rightarrow> u8 list \<Rightarrow> 'a kernel_state_scheme \<Rightarrow> bool" where
  "user_remaining fd xs s \<longleftrightarrow> (\<exists>n p. reading fd 0x08000000 0x400000 n p s \<and> xs = drop p (file_contents s n))"

definition user_args :: "'a kernel_state_scheme \<Rightarrow> u8 list" where
  "user_args s = bytes (argbuf (this_pcb s)) (unat (the (strlen (argbuf (this_pcb s)))))"

definition user_can_open :: "'a kernel_state_scheme \<Rightarrow> bool" where
  "user_can_open s \<longleftrightarrow> (\<exists>i. free_fd (this_pcb s) = Some i \<and> fileposition (fds (this_pcb s) i) = 0)"

definition ordinary_name :: "u8 list \<Rightarrow> bool" where
  "ordinary_name nm \<longleftrightarrow> take 5 nm \<noteq> map of_char ''stdin'' \<and> take 5 nm \<noteq> map of_char ''stdou''"

definition user_file :: "'a kernel_state_scheme \<Rightarrow> u8 list \<Rightarrow> u8 list \<Rightarrow> bool" where
  "user_file s nm xs \<longleftrightarrow> length nm < 32 \<and> ordinary_name nm \<and>
     (\<exists>j n. find (\<lambda>i. entry_name s i = nm) [0..<63] = Some j \<and> load32 (mem s) (dentry_addr s j + 32) = 2 \<and>
        n = load32 (mem s) (dentry_addr s j + 36) \<and> inode_ok s n \<and> xs = file_contents s n)"

definition user_no_file :: "'a kernel_state_scheme \<Rightarrow> u8 list \<Rightarrow> bool" where
  "user_no_file s nm \<longleftrightarrow> length nm < 2 ^ 22 \<and> ordinary_name nm \<and> find (\<lambda>i. entry_name s i = nm) [0..<63] = None"

section \<open>What is carried from state to state\<close>

definition same_process :: "'a kernel_state_scheme \<Rightarrow> 'a kernel_state_scheme \<Rightarrow> bool" where
  "same_process s t \<longleftrightarrow> this_pcb_addr t = this_pcb_addr s \<and> this_pcb t = this_pcb s"

lemma same_file_contents:
  assumes "same_image s t" and "fs_mounted s" and "inode_ok s n"
  shows "file_contents t n = file_contents s n"
  using same_file [OF assms] by (simp add: file_contents_def)

lemma reading_carried:
  assumes "same_image s t" and "same_process s t" and "reading fd buf cap n p s"
  shows "reading fd buf cap n p t"
proof -
  let ?P = "this_pcb s"
  have fs: "fs_mounted s" "dir_ok s" "inode_ok s n" using assms(3) by (auto simp: reading_def Let_def)
  obtain k i where ki: "is_cstr (filenames ?P fd) k" "find (\<lambda>i. entry_name s i = bytes (filenames ?P fd) k) [0..<63] = Some i"
    "n = load32 (mem s) (dentry_addr s i + 36)"
    using assms(3) by (auto simp: reading_def Let_def)
  have "i < 63" using ki(2) by (auto simp: find_Some_iff)
  then have "n = load32 (mem t) (dentry_addr t i + 36)" using same_image_this [OF assms(1) fs(1,2)] ki(3) by simp
  then show ?thesis
    using assms(2,3) ki same_imageD [OF assms(1)] same_file [OF assms(1) fs(1,3)] same_dir [OF assms(1) fs(1,2)]
    by (auto simp: reading_def Let_def same_process_def)
qed

lemma remaining_carried:
  assumes "same_image s t" and "same_process s t" and "user_remaining fd xs s"
  shows "user_remaining fd xs t"
proof -
  obtain n p where np: "reading fd 0x08000000 0x400000 n p s" "xs = drop p (file_contents s n)"
    using assms(3) by (auto simp: user_remaining_def)
  then have "file_contents t n = file_contents s n"
    by (intro same_file_contents [OF assms(1)]) (auto simp: reading_def Let_def)
  then show ?thesis
    using reading_carried [OF assms(1,2) np(1)] np(2) unfolding user_remaining_def by metis
qed

lemma ok_carried:
  assumes "same_image s t" and "same_process s t" and "user_ok s" and "on_screen (get_tty_number s) t"
  shows "user_ok t"
  using assms(2-4) same_imageD [OF assms(1)] same_dir [OF assms(1)]
  by (auto simp: user_ok_def same_process_def get_tty_number_def)

lemma file_carried:
  assumes "same_image s t" and "user_ok s"
  shows "user_file s nm xs \<Longrightarrow> user_file t nm xs" and "user_no_file s nm \<Longrightarrow> user_no_file t nm"
proof -
  have fs: "fs_mounted s" "dir_ok s" using assms(2) by (auto simp: user_ok_def)
  note d = same_dir [OF assms(1) fs]
  show "user_no_file s nm \<Longrightarrow> user_no_file t nm" using d by (simp add: user_no_file_def)
  assume f: "user_file s nm xs"
  then obtain j n where jn: "find (\<lambda>i. entry_name s i = nm) [0..<63] = Some j" "load32 (mem s) (dentry_addr s j + 32) = 2"
    "n = load32 (mem s) (dentry_addr s j + 36)" "inode_ok s n" "xs = file_contents s n"
    by (auto simp: user_file_def)
  have "j < 63" using jn(1) by (auto simp: find_Some_iff)
  then have "load32 (mem t) (dentry_addr t j + 32) = load32 (mem s) (dentry_addr s j + 32)"
    "load32 (mem t) (dentry_addr t j + 36) = load32 (mem s) (dentry_addr s j + 36)"
    using same_entry(3) [OF assms(1) fs] by (force simp: entry_copy_def)+
  then show "user_file t nm xs"
    using f jn d same_file [OF assms(1) fs(1) jn(4)] same_file_contents [OF assms(1) fs(1) jn(4)]
    by (auto simp: user_file_def)
qed

text \<open>A program's own stores do not reach the image.\<close>

lemma same_image_user:
  assumes "disjoint_runs 0x08000000 0x400000 (bb_start s) (fs_len s)" and "\<And>a. \<not> in_user a \<Longrightarrow> m a = mem s a"
  shows "same_image s (s\<lparr>mem := m\<rparr>)"
proof -
  have "m (bb_start s + of_nat i) = mem s (bb_start s + of_nat i)" if "i < fs_len s" for i
  proof -
    have "0x400000 \<le> unat (bb_start s + of_nat i - 0x08000000)" using disjoint_runs_outside [OF assms(1) that] .
    then have "\<not> in_user (bb_start s + of_nat i)"
      by (auto simp: in_user_def word_le_nat_alt word_less_nat_alt unat_sub_if_size word_size split: if_splits)
    then show ?thesis by (rule assms(2))
  qed
  then show ?thesis by (simp add: same_image_def)
qed

section \<open>The laws, one by one\<close>

lemma run_disjoint_video:
  assumes "user_run a n" and "tty < 3"
  shows "disjoint_runs (video_buff tty) 4000 a n"
proof -
  have "unat (a - b) = unat a - unat b" "unat (b - a) = 2 ^ 32 + unat b - unat a" if "unat b < 0x10000" for b :: u32
    using assms(1) that by (simp_all add: user_run_def unat_sub_if_size word_size)
  then show ?thesis
    using assms by (auto simp: disjoint_runs_def user_run_def u32_less_3 video_buff_def video_defs)
qed

lemma above_screen:
  fixes s t :: "'a kernel_state_scheme"
  assumes "lib_state.more t = lib_state.more s"
  shows "pcbs t = pcbs s" "kernel_stack_bottom t = kernel_stack_bottom s" "bb_start t = bb_start s"
    "fs_dentries t = fs_dentries s" "inodes t = inodes s" "data_start t = data_start s" "num_dentries t = num_dentries s"
    "num_inodes t = num_inodes s" "num_datablocks t = num_datablocks s"
  using assms
  by (cases s; cases t; simp add: lib_state.defs files_state.defs pic_state.defs rtc_state.defs kbd_state.defs paging_state.defs kernel_state.defs)+

lemma above_screen_dir:
  fixes s t :: "'a kernel_state_scheme"
  shows "lib_state.more t = lib_state.more s \<Longrightarrow> dir_reads t = dir_reads s"
  by (cases s; cases t; simp add: lib_state.defs files_state.defs)

lemma more_fold_putc: "lib_state.more (fold (\<lambda>c. putc c tty) cs s) = lib_state.more s"
  by (induction cs arbitrary: s) (simp_all add: screen_op_defs)

lemma terminal_write_carried:
  fixes s t :: "'a kernel_state_scheme"
  assumes "user_ok s" and "t = fold (\<lambda>c. putc c (get_tty_number s)) cs s"
  shows "same_image s t" "same_process s t" "user_ok t" "same_user s t"
    "user_screen t = fold term_putc cs (user_screen s)"
proof -
  let ?tty = "get_tty_number s"
  have s: "?tty < 3" "on_screen ?tty s" "disjoint_runs (video_buff ?tty) 4000 (bb_start s) (fs_len s)"
    using assms(1) by (auto simp: user_ok_def)
  have out: "4000 \<le> unat (a - video_buff ?tty) \<Longrightarrow> mem t a = mem s a" for a
    using fold_putc_outside [OF s(2)] assms(2) by blast
  have "lib_state.more t = lib_state.more s" using more_fold_putc assms(2) by simp
  note f = above_screen [OF this]
  show i: "same_image s t" using out disjoint_runs_outside [OF s(3)] by (simp add: same_image_def f)
  show p: "same_process s t" by (simp add: same_process_def this_pcb_addr_def f)
  have tt: "get_tty_number t = ?tty" by (simp add: get_tty_number_def this_pcb_addr_def f)
  show "user_ok t"
    using ok_carried [OF i p assms(1)] screen_text.fold_inv [OF s(2)] assms(2) by simp
  show "user_screen t = fold term_putc cs (user_screen s)"
    using screen_text.fold_abs [OF s(2)] assms(2) tt by (simp add: user_screen_def)
  show "same_user s t"
  proof (unfold same_user_def, intro allI impI)
    fix a assume "in_user a"
    then have "user_run a 1" by (simp add: in_user_def user_run_def word_le_nat_alt word_less_nat_alt)
    then have "disjoint_runs (video_buff ?tty) 4000 a 1" by (rule run_disjoint_video [OF _ s(1)])
    then show "mem t a = mem s a" using out disjoint_runs_outside [of _ 4000 a 1 0] by simp
  qed
qed

lemma user_write:
  fixes s :: "'a kernel_state_scheme"
  assumes "user_ok s" and "user_run a n"
  shows "sys_write E 1 a (of_nat n) s = Ok (of_nat n, fold (\<lambda>c. putc c (get_tty_number s)) (bytes (ptr (mem s) a) n) s)"
proof -
  have s: "get_tty_number s < 3" "on_screen (get_tty_number s) s" "flags (fds (this_pcb s) 1) = IN_USE"
    "jumptable (fds (this_pcb s) 1) = Some Stdout_Fops"
    using assms(1) by (auto simp: user_ok_def)
  have n: "n = nat (sint (of_nat n :: i32))" using small_count(3) [OF user_run_small [OF assms(2)]] by simp
  have "a \<noteq> NULL_PTR" using assms(2) by (auto simp: user_run_def NULL_PTR_def)
  then show ?thesis
    using s terminal_write_eq [OF s(2) n run_disjoint_video [OF assms(2) s(1)]]
    by (simp add: sys_write_def bad_fd_def fops_write_def IN_USE_def NOT_IN_USE_def)
qed

text \<open>Memory outside the program page, and the rest of the process as it was, but for one descriptor.\<close>

lemma outside_user:
  assumes "user_run a n" and "n \<le> k" and "\<not> in_user b"
  shows "n \<le> unat (b - a)"
proof (rule ccontr)
  assume "\<not> n \<le> unat (b - a)"
  then have "in_user (a + of_nat (unat (b - a)))" by (intro user_run_at [OF assms(1)]) simp
  then show False using assms(3) by (simp add: u32_of_unat)
qed

lemma not_in_user_video:
  assumes "tty < 3" and "j < 4000"
  shows "\<not> in_user (video_buff tty + of_nat j)"
  using assms by (auto simp: u32_less_3 in_user_def video_buff_def video_defs word_le_nat_alt unat_word_ariths unat_of_nat_u32)

lemma screen_user:
  assumes "\<And>a. \<not> in_user a \<Longrightarrow> mem t a = mem s a" and "tty < 3" and "screen_x t = screen_x s" and "screen_y t = screen_y s"
  shows "abs_term tty t = abs_term tty s"
  using assms(3,4) grid_cong [of "mem t" "video_buff tty" "mem s"] assms(1) not_in_user_video [OF assms(2)]
  by (simp add: abs_term_def)

lemma run_disjoint_image:
  assumes "user_run a n" and "disjoint_runs 0x08000000 0x400000 b k"
  shows "disjoint_runs a n b k"
proof -
  have d: "0x400000 \<le> unat (b - 0x08000000)" "k \<le> unat (0x08000000 - b)" using assms(2) by (auto simp: disjoint_runs_def)
  have "unat a < 2 ^ 32" "unat b < 2 ^ 32" using unat_u32_lt by auto
  then show ?thesis
    using d assms(1) by (auto simp: disjoint_runs_def user_run_def unat_sub_if_size word_size split: if_splits)
qed

lemma reading_buf:
  "reading fd a n k p t \<Longrightarrow> b \<noteq> NULL_PTR \<Longrightarrow> cap < 2 ^ 31 \<Longrightarrow> disjoint_runs b cap (bb_start t) (fs_len t) \<Longrightarrow>
   reading fd b cap k p t"
  by (auto simp: reading_def Let_def)

text \<open>Changes to a descriptor from 2 on, to the program's memory and to nothing else that matters to it.\<close>

lemma descriptor_carried:
  fixes s t :: "'a kernel_state_scheme"
  assumes ok: "user_ok s" and im: "same_image s t" and out: "\<And>a. \<not> in_user a \<Longrightarrow> mem t a = mem s a"
    and flds: "screen_x t = screen_x s" "screen_y t = screen_y s" "kernel_stack_bottom t = kernel_stack_bottom s"
      "tty_number (pcbs t (this_pcb_addr s)) = tty_number (this_pcb s)" "fds (pcbs t (this_pcb_addr s)) 1 = fds (this_pcb s) 1"
      "argbuf (pcbs t (this_pcb_addr s)) = argbuf (this_pcb s)"
  shows "user_ok t" "user_screen t = user_screen s"
proof -
  have addr: "this_pcb_addr t = this_pcb_addr s" by (simp add: this_pcb_addr_def flds)
  have tt: "get_tty_number t = get_tty_number s" by (simp add: get_tty_number_def addr flds)
  have "on_screen (get_tty_number s) t" using ok by (simp add: user_ok_def on_screen_def flds)
  then show "user_ok t"
    using ok same_imageD [OF im] same_dir [OF im] flds(5) by (auto simp: user_ok_def tt addr flds(4,6))
  show "user_screen t = user_screen s"
    using screen_user [OF out _ flds(1,2)] ok by (simp add: user_screen_def tt user_ok_def)
qed

lemma user_read:
  fixes s :: "'a kernel_state_scheme"
  assumes ok: "user_ok s" and r: "user_remaining fd xs s" and a: "user_run a n" and c: "c = min n (length xs)"
  shows "\<exists>t. sys_read E (of_nat fd) a (of_nat n) s = Ok (of_nat c, t) \<and> user_ok t \<and> user_screen t = user_screen s \<and>
    same_user_but a c s t \<and> bytes (ptr (mem t) a) c = take n xs \<and> user_remaining fd (drop n xs) t"
proof -
  obtain k p where kp: "reading fd 0x08000000 0x400000 k p s" "xs = drop p (file_contents s k)"
    using r by (auto simp: user_remaining_def)
  have dis: "disjoint_runs 0x08000000 0x400000 (bb_start s) (fs_len s)" using ok by (simp add: user_ok_def)
  have a0: "a \<noteq> NULL_PTR" "n < 2 ^ 31" using a by (auto simp: user_run_def NULL_PTR_def)
  have da: "disjoint_runs a n (bb_start s) (fs_len s)" by (rule run_disjoint_image [OF a dis])
  have len: "length xs = file_size s k - p" using kp(2) by (simp add: file_contents_def)
  obtain t where t: "sys_read E (of_nat fd) a (of_nat n) s = Ok (of_nat c, t)"
      "bytes (ptr (mem t) a) c = take n (drop p (file_contents s k))" "reading fd a n k (p + c) t"
      "file_contents t k = file_contents s k" "\<And>b. c \<le> unat (b - a) \<Longrightarrow> mem t b = mem s b"
      "t = update_pcb (this_pcb_addr s) (set_fd fd (\<lambda>d. d\<lparr>fileposition := fileposition d + of_nat c\<rparr>)) ((sti s)\<lparr>mem := mem t\<rparr>)"
    using sys_read_step [OF reading_buf [OF kp(1) a0 da] order_refl, of c E] c len by (metis (no_types, lifting))
  have fd: "fd \<noteq> 1" using kp(1) by (auto simp: reading_def Let_def)
  have cn: "c \<le> n" using c by simp
  have out: "mem t b = mem s b" if "\<not> in_user b" for b
    using t(5) outside_user [OF user_run_le [OF a cn] order_refl that] by blast
  have flds: "screen_x t = screen_x s" "screen_y t = screen_y s" "kernel_stack_bottom t = kernel_stack_bottom s"
    "tty_number (pcbs t (this_pcb_addr s)) = tty_number (this_pcb s)" "fds (pcbs t (this_pcb_addr s)) 1 = fds (this_pcb s) 1"
    "argbuf (pcbs t (this_pcb_addr s)) = argbuf (this_pcb s)"
    using fd by (subst t(6), simp add: update_pcb_def set_fd_def sti_def)+
  have "same_image s ((sti s)\<lparr>mem := mem t\<rparr>)"
    using same_image_user [OF dis, of "mem t"] out by (simp add: same_image_def sti_def)
  then have im: "same_image s t" by (subst t(6)) (rule same_image_writes(1))
  note carried = descriptor_carried [OF ok im out flds]
  have "user_remaining fd (drop n xs) t"
  proof -
    have "reading fd 0x08000000 0x400000 k (p + c) t"
      using reading_buf [OF t(3)] dis same_imageD [OF im] by (simp add: NULL_PTR_def)
    moreover have "drop n xs = drop (p + c) (file_contents t k)"
      using kp(2) c t(4) by (auto simp: min_def add.commute)
    ultimately show ?thesis unfolding user_remaining_def by blast
  qed
  moreover have "same_user_but a c s t" using t(5) by (simp add: same_user_but_def)
  ultimately show ?thesis using t(1,2) kp(2) carried by blast
qed

lemma user_getargs:
  fixes s :: "'a kernel_state_scheme"
  assumes ok: "user_ok s" and a: "user_run a n" and len: "length (user_args s) < n"
  shows "\<exists>m. getargs a (of_nat n) s = Ok (0, s\<lparr>mem := m\<rparr>) \<and> (\<forall>b. \<not> in_user b \<longrightarrow> m b = mem s b) \<and>
    (\<forall>b. n \<le> unat (b - a) \<longrightarrow> m b = mem s b) \<and> str_at m a (user_args s)"
proof -
  let ?P = "this_pcb s"
  obtain k where k: "k < 100" "is_cstr (argbuf ?P) k" using ok by (auto simp: user_ok_def)
  have args: "user_args s = bytes (argbuf ?P) k"
    using strlen_is_cstr [OF k(2)] k(1) by (simp add: user_args_def unat_of_nat_u32)
  then have kn: "Suc k \<le> n" using len by simp
  define m where "m = blit (mem s) a (Suc k) (argbuf ?P)"
  have n: "unat (of_nat n :: i32) = n" "n \<noteq> 0" using small_count(4) [OF user_run_small [OF a]] kn by auto
  have "a \<noteq> NULL_PTR" using a by (auto simp: user_run_def NULL_PTR_def)
  moreover have "(of_nat n :: i32) \<noteq> 0" using n by (metis unat_0)
  moreover have "\<not> (of_nat k :: i32) > of_nat n" using n kn k(1) by (simp add: word_less_nat_alt unat_of_nat_u32)
  ultimately have "getargs a (of_nat n) s = Ok (0, s\<lparr>mem := m\<rparr>)"
    using strlen_arr_eq [OF k(2,1)] copy_out_eq [of k a "argbuf ?P" "mem s"] k(1) by (simp add: getargs_def m_def)
  moreover have "\<forall>b. \<not> in_user b \<longrightarrow> m b = mem s b"
    using outside_user [OF user_run_le [OF a kn] order_refl] by (auto simp: m_def blit_outside)
  moreover have "\<forall>b. n \<le> unat (b - a) \<longrightarrow> m b = mem s b" using kn by (simp add: m_def blit_outside)
  moreover have "str_at m a (user_args s)"
  proof -
    have at: "ptr m a (of_nat i) = argbuf ?P (of_nat i)" if "i \<le> k" for i
      using blit_at [of i "Suc k" "mem s" a "argbuf ?P"] that k(1) by (simp add: ptr_def m_def)
    have "is_cstr (ptr m a) k" using k at by (simp add: is_cstr_def)
    moreover have "bytes (ptr m a) k = user_args s" using at by (simp add: args bytes_eq_iff)
    ultimately show ?thesis using is_cstr_str_at by metis
  qed
  ultimately show ?thesis by blast
qed

text \<open>Comparing a name with a literal.\<close>

lemma strncmp_prefix:
  assumes "strncmp s1 s2 n = 0" and nz: "\<And>i. i < unat n \<Longrightarrow> s2 (of_nat i) \<noteq> 0" and str: "is_cstr s1 k"
  shows "take (unat n) (bytes s1 k) = bytes s2 (unat n)"
proof -
  have same: "same_upto s1 s2 0 (unat n)" using assms(1) by (simp add: strncmp_zero)
  have eq: "i < unat n \<Longrightarrow> s1 (of_nat i) = s2 (of_nat i)" for i
  proof (induction i rule: less_induct)
    case (less i)
    then have "\<forall>j<i. s1 (of_nat j) \<noteq> 0" using nz by auto
    then show ?case using same less.prems by (simp add: same_upto_def)
  qed
  have "unat n \<le> k" using eq [of k] nz [of k] str by (fastforce simp: is_cstr_def)
  then show ?thesis using eq by (intro nth_equalityI) auto
qed

lemma ordinary_not_std:
  assumes "is_cstr name k" and "ordinary_name (bytes name k)"
  shows "not_std name"
proof -
  have i: "i < 5 \<Longrightarrow> i = 0 \<or> i = 1 \<or> i = 2 \<or> i = 3 \<or> i = (4 :: nat)" for i by linarith
  have l: "bytes (lit ''stdin'') 5 = map of_char ''stdin''" "bytes (lit ''stdout'') 5 = map of_char ''stdou''"
    "\<And>i. i < 5 \<Longrightarrow> lit ''stdin'' (of_nat i) \<noteq> 0" "\<And>i. i < 5 \<Longrightarrow> lit ''stdout'' (of_nat i) \<noteq> 0"
    by (auto simp: lit_def bytes_def upt_rec dest!: i)
  show ?thesis
    using assms strncmp_prefix [of name "lit ''stdin''" 5, OF _ _ assms(1)]
      strncmp_prefix [of name "lit ''stdout''" 5, OF _ _ assms(1)] l
    by (auto simp: not_std_def ordinary_name_def)
qed

lemma user_open:
  fixes s :: "'a kernel_state_scheme"
  assumes ok: "user_ok s" and "user_can_open s" and f: "user_file s nm xs" and nm: "str_at (mem s) a nm"
  shows "\<exists>fd t. open_file E (ptr (mem s) a) s = Ok (of_nat fd, t) \<and> of_nat fd \<noteq> (-1 :: i32) \<and> user_ok t \<and>
    user_screen t = user_screen s \<and> same_user s t \<and> user_remaining fd xs t"
proof -
  let ?P = "this_pcb s" and ?nm = "ptr (mem s) a"
  obtain i where i: "free_fd ?P = Some i" "fileposition (fds ?P i) = 0" using assms(2) by (auto simp: user_can_open_def)
  obtain j n where jn: "find (\<lambda>i. entry_name s i = nm) [0..<63] = Some j" "load32 (mem s) (dentry_addr s j + 32) = 2"
    "n = load32 (mem s) (dentry_addr s j + 36)" "inode_ok s n" "xs = file_contents s n"
    using f by (auto simp: user_file_def)
  have k: "is_cstr ?nm (length nm)" "length nm < 32" "bytes ?nm (length nm) = nm" "ordinary_name nm"
    using f str_at_is_cstr [OF nm] str_at_bytes [OF nm] by (auto simp: user_file_def)
  have std: "not_std ?nm" using ordinary_not_std [OF k(1)] k(3,4) by simp
  have fs: "fs_mounted s" "dir_ok s" and dis: "disjoint_runs 0x08000000 0x400000 (bb_start s) (fs_len s)"
    using ok by (auto simp: user_ok_def)
  have find: "find (\<lambda>i. entry_name s i = bytes ?nm (length nm)) [0..<63] = Some j" using jn(1) k(3) by simp
  obtain t where t: "open_file E ?nm s = Ok (of_nat i, t)" "reading i 0x08000000 0x400000 n 0 t"
    "file_contents t n = file_contents s n"
    using open_then_reading [OF fs jn(4) k(1,2) std find jn(2,3) i _ _ dis, of E] by (auto simp: NULL_PTR_def)
  have te: "t = update_pcb (this_pcb_addr s) (\<lambda>P. (set_fd i (\<lambda>f. f\<lparr>jumptable := fops_of_type 2 (jumptable f),
         flags := IN_USE, fd_inode := n\<rparr>) P)
       \<lparr>filenames := (filenames P)(i := \<lambda>q. if unat q < length nm then ?nm q else if unat q = length nm then 0
          else filenames ?P i q)\<rparr>) s"
    using open_file_eq [OF fs(2) k(1,2) std find i(1), of E] t(1) jn(2,3) by simp
  have i8: "2 \<le> i" "i < 8" using i(1) by (auto simp: free_fd_Some)
  have mt: "mem t = mem s" "screen_x t = screen_x s" "screen_y t = screen_y s" "kernel_stack_bottom t = kernel_stack_bottom s"
    "tty_number (pcbs t (this_pcb_addr s)) = tty_number ?P" "fds (pcbs t (this_pcb_addr s)) 1 = fds ?P 1"
    "argbuf (pcbs t (this_pcb_addr s)) = argbuf ?P"
    using i8 by (simp_all add: te update_pcb_def set_fd_def this_pcb_addr_def)
  have im: "same_image s t" unfolding te by (rule same_image_writes(1)) (simp add: same_image_def)
  have "user_ok t" "user_screen t = user_screen s" using descriptor_carried [OF ok im _ mt(2-)] mt(1) by auto
  moreover have "same_user s t" by (simp add: same_user_def mt)
  moreover have "user_remaining i xs t" unfolding user_remaining_def using t(2,3) jn(5) by (metis drop0)
  moreover have "of_nat i \<noteq> (-1 :: i32)" using small_count(2) [of i] i8 by simp
  ultimately show ?thesis using t(1) by blast
qed

lemma user_close:
  fixes s :: "'a kernel_state_scheme"
  assumes ok: "user_ok s" and r: "user_remaining fd xs s"
  shows "\<exists>t. sys_close (of_nat fd) s = Ok (0, t) \<and> user_ok t \<and> user_screen t = user_screen s \<and> same_user s t"
proof -
  let ?P = "this_pcb s"
  define t where "t = update_pcb (this_pcb_addr s)
     (set_fd fd (\<lambda>d. d\<lparr>jumptable := None, fd_inode := 0, fileposition := 0, flags := NOT_IN_USE\<rparr>)) s"
  have fd: "fd \<in> {2..<8}" "flags (fds ?P fd) = IN_USE" "jumptable (fds ?P fd) \<noteq> None"
    using r by (auto simp: user_remaining_def reading_def Let_def)
  have call: "sys_close (of_nat fd) s = Ok (0, t)" using sys_close_eq [OF fd] by (simp add: t_def)
  have im: "same_image s t" unfolding t_def by (rule same_image_writes(1)) (simp add: same_image_def)
  have mt: "mem t = mem s" "screen_x t = screen_x s" "screen_y t = screen_y s" "kernel_stack_bottom t = kernel_stack_bottom s"
    "tty_number (pcbs t (this_pcb_addr s)) = tty_number ?P" "fds (pcbs t (this_pcb_addr s)) 1 = fds ?P 1"
    "argbuf (pcbs t (this_pcb_addr s)) = argbuf ?P"
    using fd(1) by (simp_all add: t_def update_pcb_def set_fd_def)
  have "user_ok t" "user_screen t = user_screen s"
    using descriptor_carried [OF ok im _ mt(2-)] mt(1) by auto
  then show ?thesis using call by (auto simp: mt same_user_def)
qed

lemma user_open_absent:
  assumes "user_ok s" and "user_no_file s nm" and "str_at (mem s) a nm"
  shows "open_file E (ptr (mem s) a) s = Ok (-1, s)"
proof -
  have k: "is_cstr (ptr (mem s) a) (length nm)" "bytes (ptr (mem s) a) (length nm) = nm" "ordinary_name nm"
    using assms(2) str_at_is_cstr [OF assms(3)] str_at_bytes [OF assms(3)] by (auto simp: user_no_file_def)
  have "not_std (ptr (mem s) a)" using ordinary_not_std [OF k(1)] k(2,3) by simp
  then show ?thesis
    using assms(1,2) read_dentry_by_name_eq [OF _ k(1), of s "dentry0 E"] k(2)
    by (simp add: open_file_def not_std_def user_ok_def user_no_file_def)
qed

lemma user_store:
  assumes "user_ok s" and "\<And>a. \<not> in_user a \<Longrightarrow> m a = mem s a"
  shows "same_image s (s\<lparr>mem := m\<rparr>)" "same_process s (s\<lparr>mem := m\<rparr>)" "user_ok (s\<lparr>mem := m\<rparr>)"
    "user_screen (s\<lparr>mem := m\<rparr>) = user_screen s"
proof -
  show i: "same_image s (s\<lparr>mem := m\<rparr>)" using assms by (intro same_image_user) (auto simp: user_ok_def)
  show p: "same_process s (s\<lparr>mem := m\<rparr>)" by (simp add: same_process_def this_pcb_addr_def)
  show "user_ok (s\<lparr>mem := m\<rparr>)" using assms(1) by (intro ok_carried [OF i p]) (auto simp: user_ok_def on_screen_def)
  show "user_screen (s\<lparr>mem := m\<rparr>) = user_screen s"
    using screen_user [of "s\<lparr>mem := m\<rparr>" s] assms
    by (simp add: user_screen_def get_tty_number_def this_pcb_addr_def user_ok_def)
qed

section \<open>The kernel satisfies the interfaces\<close>

interpretation kernel_terminal: terminal_kernel "int80 W run" user_ok user_screen
  for W :: "'a kernel_state_scheme \<Rightarrow> 'a kernel_state_scheme env" and run
proof
  fix s :: "'a kernel_state_scheme" and a n
  assume s: "user_ok s" "user_run a n"
  show "\<exists>t. int80 W run SYS_WRITE 1 a (of_nat n) s = Ok (of_nat n, t) \<and> user_ok t \<and> same_user s t \<and>
      user_screen t = fold term_putc (bytes (ptr (mem s) a) n) (user_screen s)"
    using user_write [OF s] terminal_write_carried(3-5) [OF s(1) refl] by simp
qed (rule user_store; assumption)+

interpretation kernel_files: file_kernel "int80 W run" user_ok user_screen user_remaining user_args user_can_open user_file user_no_file
  for W :: "'a kernel_state_scheme \<Rightarrow> 'a kernel_state_scheme env" and run
proof
  fix s t :: "'a kernel_state_scheme" and fd xs a n r
  assume s: "user_ok s" "user_remaining fd xs s" "user_run a n"
  show "\<exists>t. int80 W run SYS_READ (of_nat fd) a (of_nat n) s = Ok (of_nat (min n (length xs)), t) \<and> user_ok t \<and>
      user_screen t = user_screen s \<and> same_user_but a (min n (length xs)) s t \<and>
      bytes (ptr (mem t) a) (min n (length xs)) = take n xs \<and> user_remaining fd (drop n xs) t"
    using user_read [OF s refl] by simp
  assume "int80 W run SYS_WRITE 1 a (of_nat n) s = Ok (r, t)"
  then have t: "t = fold (\<lambda>c. putc c (get_tty_number s)) (bytes (ptr (mem s) a) n) s" using user_write [OF s(1,3)] by simp
  show "user_remaining fd xs t" by (rule remaining_carried [OF terminal_write_carried(1,2) [OF s(1) t] s(2)])
next
  fix s :: "'a kernel_state_scheme" and fd xs m
  assume s: "user_ok s" "user_remaining fd xs s" and m: "\<And>a. \<not> in_user a \<Longrightarrow> m a = mem s a"
  show "user_remaining fd xs (s\<lparr>mem := m\<rparr>)" by (rule remaining_carried [OF user_store(1,2) [OF s(1) m] s(2)])
next
  fix s :: "'a kernel_state_scheme" and a n
  assume s: "user_ok s" "user_can_open s" "user_run a n" "length (user_args s) < n"
  obtain m where m: "getargs a (of_nat n) s = Ok (0, s\<lparr>mem := m\<rparr>)" "\<And>b. \<not> in_user b \<Longrightarrow> m b = mem s b"
    "\<And>b. n \<le> unat (b - a) \<Longrightarrow> m b = mem s b" "str_at m a (user_args s)"
    using user_getargs [OF s(1,3,4)] by blast
  note u = user_store [OF s(1) m(2)]
  have "user_can_open (s\<lparr>mem := m\<rparr>)" using s(2) by (simp add: user_can_open_def this_pcb_addr_def)
  then show "\<exists>t. int80 W run SYS_GETARGS a (of_nat n) 0 s = Ok (0, t) \<and> user_ok t \<and> user_screen t = user_screen s \<and>
      same_user_but a n s t \<and> str_at (mem t) a (user_args s) \<and> user_can_open t \<and>
      (\<forall>nm xs. user_file s nm xs \<longrightarrow> user_file t nm xs) \<and> (\<forall>nm. user_no_file s nm \<longrightarrow> user_no_file t nm)"
    using m u(3,4) file_carried [OF u(1) s(1)] by (auto simp: same_user_but_def)
next
  fix s :: "'a kernel_state_scheme" and nm xs a
  assume "user_ok s" "user_can_open s" "user_file s nm xs" "str_at (mem s) a nm"
  then show "\<exists>fd t. int80 W run SYS_OPEN a 0 0 s = Ok (of_nat fd, t) \<and> of_nat fd \<noteq> (-1 :: i32) \<and> user_ok t \<and>
      user_screen t = user_screen s \<and> same_user s t \<and> user_remaining fd xs t"
    using user_open by simp
next
  fix s :: "'a kernel_state_scheme" and nm a
  assume "user_ok s" "user_no_file s nm" "str_at (mem s) a nm"
  then show "int80 W run SYS_OPEN a 0 0 s = Ok (-1, s)" using user_open_absent by simp
next
  fix s :: "'a kernel_state_scheme" and fd xs
  assume "user_ok s" "user_remaining fd xs s"
  then show "\<exists>t. int80 W run SYS_CLOSE (of_nat fd) 0 0 s = Ok (0, t) \<and> user_ok t \<and> user_screen t = user_screen s \<and> same_user s t"
    using user_close by simp
qed

end
