(* ===== verification/User_Properties.thy ===== *)
theory User_Properties
  imports User_Kernel
begin

text \<open>
  What the user programs do on this kernel: the lemmas of \<open>User_Interface\<close> and \<open>User_Grep\<close> at the
  kernel's system calls.
\<close>

section \<open>A process for evaluations\<close>

text \<open>Shell 1 of the sample kernel with the argument \<open>shell\<close>, and with the strings of \<open>grep\<close> in its page.\<close>

definition sample_user :: kernel_state where
  "sample_user = sample_kernel\<lparr>pcbs := (\<lambda>_. (sample_pcb 1)\<lparr>argbuf := lit ''shell''\<rparr>)\<rparr>"

lemma sample_user_pcb:
  "pcbs sample_user = (\<lambda>_. (sample_pcb 1)\<lparr>argbuf := lit ''shell''\<rparr>)" "this_pcb_addr sample_user = this_pcb_addr sample_kernel"
  "mem sample_user = small_image" "get_tty_number sample_user = 0"
  using sample_mounted by (simp_all add: sample_user_def this_pcb_addr_def small_mounted_def get_tty_number_def sample_pcb_def)

lemma sample_user_image: "small_mounted sample_user"
  using sample_mounted by (simp add: sample_user_def small_mounted_def)

lemma arg_shell: "is_cstr (lit ''shell'') 5" "bytes (lit ''shell'') 5 = map of_char ''shell''"
  by (auto simp: is_cstr_def lit_def bytes_def upt_rec less_5_iff)

lemma keyboard_open_screen: "screen_x (keyboard_open s) = screen_x s" "screen_y (keyboard_open s) = screen_y s"
  by (simp_all add: keyboard_open_def keyboard_open_tty_def Let_def enable_irq_def outb_def set_command_location_def set_active_term_def)

lemma sample_screen: "screen_x sample_kernel = (\<lambda>_. 0)" "screen_y sample_kernel = (\<lambda>_. 0)"
  by (simp_all add: sample_kernel_def paging_state.defs kernel_state.defs blank_paging_def kbd_state.defs blank_kbd_def
      keyboard_open_screen rtc_state.defs blank_rtc_def pic_state.defs files_state.defs blank_pic_def small_fs_def fs_init_def Let_def)

lemma sample_user_facts:
  "user_ok sample_user" "user_can_open sample_user" "user_args sample_user = map of_char ''shell''"
  "user_file sample_user (map of_char ''shell'') (file_contents sample_user 0)"
proof -
  note f = small_mounted_facts [OF sample_user_image]
  have b: "bb_start sample_user = 0x410000" "fs_dentries sample_user = 0x410040"
    using sample_user_image by (simp_all add: small_mounted_def)
  have "on_screen 0 sample_user" by (simp add: on_screen_def sample_user_def sample_screen)
  then show "user_ok sample_user"
    using f arg_shell(1)
    by (auto simp: user_ok_def sample_user_pcb sample_pcb_def sample_fd_def disjoint_runs_def b video_buff_def video_defs
        intro: exI [of _ 5])
  have "free_fd (this_pcb sample_user) = Some 2"
    unfolding sample_user_pcb(1) free_fd_Some by (auto simp: sample_pcb_def sample_fd_def)
  then show "user_can_open sample_user" by (simp add: user_can_open_def sample_user_pcb sample_pcb_def sample_fd_def)
  show "user_args sample_user = map of_char ''shell''"
    using strlen_is_cstr [OF arg_shell(1)] arg_shell(2) by (simp add: user_args_def sample_user_pcb)
  have "load32 (mem sample_user) (dentry_addr sample_user 0 + 32) = 2"
    by (simp add: dentry_addr_def b sample_user_pcb load32_def small_image_def)
  then show "user_file sample_user (map of_char ''shell'') (file_contents sample_user 0)"
    using f by (auto simp: user_file_def ordinary_name_def find_upt_Some intro!: exI [of _ 0])
qed

section \<open>Properties of the user programs\<close>

text \<open>
  C8. \<open>cat\<close> on this kernel prints exactly the bytes of the file its argument names, in order, whatever
  the file's length, and returns 0; when there is no such file it prints \<open>file not found\<close> and returns 2.
\<close>

theorem cat_prints_file:
  assumes "user_ok s" and "user_can_open s" and "user_run buf 1024"
  shows "(\<forall>xs. user_file s (user_args s) xs \<longrightarrow>
      (\<exists>t. cat_main (int80 W run) L buf s = Ok (0, t) \<and> user_ok t \<and> user_screen t = fold term_putc xs (user_screen s))) \<and>
    (\<forall>a msg. user_no_file s (user_args s) \<and> a = L ''file not found\<newline>'' \<and> msg = map of_char ''file not found\<newline>'' \<and> str_at (mem s) a msg \<and>
        user_run a (Suc (length msg)) \<and> disjoint_runs buf 1024 a (Suc (length msg)) \<longrightarrow>
      (\<exists>t. cat_main (int80 W run) L buf s = Ok (2, t) \<and> user_ok t \<and> user_screen t = fold term_putc msg (user_screen s)))"
proof -
  obtain k where k: "k < 100" "is_cstr (argbuf (this_pcb s)) k" using assms(1) by (auto simp: user_ok_def)
  then have "length (user_args s) < 1024" using strlen_is_cstr [OF k(2)] by (simp add: user_args_def unat_of_nat_u32)
  then show ?thesis
    using kernel_files.cat_prints [OF assms(1,2) _ assms(3)] kernel_files.cat_complains [OF assms(1,2) _ assms(3)] by blast
qed

theorem cat_prints_file_witness:
  "\<exists>t. cat_main (int80 (\<lambda>_. sample_env) (\<lambda>_ _. No_Return)) (\<lambda>_. 0x8100000) 0x8300000 sample_user = Ok (0, t) \<and>
    user_screen t = fold term_putc (file_contents sample_user 0) (user_screen sample_user)"
  using cat_prints_file [OF sample_user_facts(1,2), of "0x8300000" "\<lambda>_. sample_env" "\<lambda>_ _. No_Return" "\<lambda>_. 0x8100000"] sample_user_facts(3,4)
  by (auto simp: user_run_def)

lemma lines_length: "l \<in> set (lines xs) \<Longrightarrow> length l \<le> length xs"
proof (induction xs arbitrary: l)
  case (Cons x xs)
  have "hd (lines xs) \<in> set (lines xs)" "set (tl (lines xs)) \<subseteq> set (lines xs)" by (auto dest: list.set_sel(2) [OF lines_neq_Nil])
  then show ?case using Cons by (fastforce split: if_splits)
qed simp

text \<open>The same process with a text in the file's data block.\<close>

definition sample_text :: "u32 \<Rightarrow> u8" where
  "sample_text i = (if unat i = 13 \<or> unat i = 27 then 10 else 97 + of_nat (unat i mod 3))"

definition sample_grep :: kernel_state where
  "sample_grep = sample_user\<lparr>mem := (blit small_image 0x412000 28 sample_text)(0x8100000 := 98, 0x8100010 := 115, 0x8100011 := 104,
     0x8100012 := 101, 0x8100013 := 108, 0x8100014 := 108, 0x8100020 := 58, 0x8100030 := 10)\<rparr>"

lemma sample_grep_low:
  assumes "i < 8192"
  shows "mem sample_grep (0x410000 + of_nat i) = small_image (0x410000 + of_nat i)"
proof -
  have u: "unat (0x410000 + of_nat i :: u32) = 0x410000 + i" using assms by (simp add: unat_word_ariths unat_of_nat_u32)
  have ne: "of_nat i \<noteq> w" if "8192 \<le> unat w" for w :: u32 using that assms unat_of_nat_u32 [of i] by auto
  have "28 \<le> unat (0x410000 + of_nat i - 0x412000 :: u32)"
    using u assms unat_of_nat_u32 [of i] by (simp add: unat_sub_if_size word_size)
  then show ?thesis by (auto simp: sample_grep_def blit_outside ne)
qed

lemma sample_grep_facts:
  "user_ok sample_grep" "user_can_open sample_grep" "user_file sample_grep (map of_char ''shell'') (map (\<lambda>i. sample_text (of_nat i)) [0..<28])"
proof -
  let ?s = "sample_user\<lparr>num_datablocks := 0\<rparr>" and ?t = "sample_grep\<lparr>num_datablocks := 0\<rparr>"
  note f = small_mounted_facts [OF sample_user_image]
  have b: "bb_start sample_user = 0x410000" "fs_dentries sample_user = 0x410040" "inodes sample_user = 0x411000"
    "data_start sample_user = 0x412000" "num_inodes sample_user = 1" "num_datablocks sample_user = 1"
    using sample_user_image by (simp_all add: small_mounted_def)
  have g: "bb_start sample_grep = 0x410000" "fs_dentries sample_grep = 0x410040" "inodes sample_grep = 0x411000"
    "data_start sample_grep = 0x412000" "num_inodes sample_grep = 1" "num_datablocks sample_grep = 1"
    "pcbs sample_grep = pcbs sample_user" "this_pcb_addr sample_grep = this_pcb_addr sample_user"
    "screen_x sample_grep = screen_x sample_user" "screen_y sample_grep = screen_y sample_user"
    by (simp_all add: sample_grep_def b this_pcb_addr_def)
  have im: "same_image ?s ?t"
    using sample_grep_low by (simp add: same_image_def fs_len_def b g sample_user_pcb) (simp add: sample_grep_def)
  have fm: "fs_mounted ?s" "dir_ok ?s" "entry_name ?s 0 = entry_name sample_user 0"
    using f by (simp_all add: fs_mounted_def fs_len_def b dir_ok_def entry_len_def entry_name_def dentry_name_def dentry_addr_def)
  have d: "dir_ok sample_grep" "entry_name sample_grep 0 = map of_char ''shell''"
    using same_dir(1) [OF im fm(1,2)] same_entry(2) [OF im fm(1,2), of 0] fm(3) f(8)
    by (simp_all add: dir_ok_def entry_len_def entry_name_def dentry_name_def dentry_addr_def)
  have w: "load32 (mem sample_grep) (0x410000 + of_nat i) = load32 small_image (0x410000 + of_nat i)" if "i < 8189" for i
    by (rule load32_cong) (use that sample_grep_low in \<open>simp add: add.assoc of_nat_add [symmetric] del: of_nat_add\<close>)
  have m: "fs_mounted sample_grep" "fs_len sample_grep = 12288" by (simp_all add: fs_mounted_def fs_len_def g)
  show "user_ok sample_grep"
    using sample_user_facts(1) d m by (auto simp: user_ok_def g get_tty_number_def on_screen_def f(2) b)
  show "user_can_open sample_grep" using sample_user_facts(2) by (simp add: user_can_open_def g)
  have sz: "inode_size sample_grep 0 = 28" "data_block sample_grep 0 0 = 0" "load32 (mem sample_grep) (dentry_addr sample_grep 0 + 32) = 2"
    "load32 (mem sample_grep) (dentry_addr sample_grep 0 + 36) = 0"
    using w [of 4096] w [of 4100] w [of 96] w [of 100]
    by (simp_all add: inode_size_def data_block_def dentry_addr_def g load32_def) (simp_all add: small_image_def)
  have "mem sample_grep (0x412000 + of_nat i) = sample_text (of_nat i)" if "i < 28" for i
    using that blit_at [of i 28 small_image "0x412000" sample_text]
    by (auto simp: sample_grep_def unat_word_ariths unat_of_nat_u32 dest!: arg_cong [where f = unat])
  then have "file_contents sample_grep 0 = map (\<lambda>i. sample_text (of_nat i)) [0..<28]"
    using sz by (simp add: file_contents_def file_size_def file_byte_def file_addr_def g)
  moreover have "inode_ok sample_grep 0" using sz by (simp add: inode_ok_def file_size_def g)
  ultimately show "user_file sample_grep (map of_char ''shell'') (map (\<lambda>i. sample_text (of_nat i)) [0..<28])"
    using sz d by (auto simp: user_file_def ordinary_name_def find_upt_Some intro!: exI [of _ 0])
qed

text \<open>
  C9. \<open>grep\<close> on one file of this kernel prints exactly the lines that contain the pattern, each once and
  in order, after the file's name and a colon, although it sees the file through a window of 1024 bytes that cuts
  lines in two. The file is a text (no zero byte, lines shorter than the window), the pattern starts with
  an ASCII character, and the byte behind the window, which the program reads without writing it first, is not a newline.
\<close>

theorem grep_prints_matches:
  assumes "user_ok s" and "user_can_open s" and "user_file s name xs" and "grep_ready L data str pat fname name (mem s)"
    and "0 \<notin> set xs" and "\<forall>l\<in>set (lines xs). length l < 1024" and "mem s (data + 1024) \<noteq> 10"
  shows "\<exists>t. do_one_file (int80 W run) L data str fname s = Ok (0, t) \<and> user_ok t \<and>
    user_screen t = fold term_putc (grep_text pat name xs) (user_screen s)"
  using kernel_files.do_one_file_prints [OF assms] by blast

theorem grep_prints_matches_witness:
  "\<exists>t. do_one_file (int80 (\<lambda>_. sample_env) (\<lambda>_ _. No_Return)) (\<lambda>c. if c = '':'' then 0x8100020 else 0x8100030) 0x8300000 0x8100000 0x8100010 sample_grep = Ok (0, t) \<and>
    user_screen t = fold term_putc (grep_text [98] (map of_char ''shell'') (map (\<lambda>i. sample_text (of_nat i)) [0..<28])) (user_screen sample_grep)"
proof -
  let ?xs = "map (\<lambda>i. sample_text (of_nat i)) [0..<28]"
  have z: "small_image a = 0" if "0x8100000 \<le> unat a" for a using that by (intro small_image_zero) auto
  have "0 \<notin> set ?xs"
  proof
    assume "0 \<in> set ?xs"
    then obtain i :: nat where "i < 28" "97 + of_nat (i mod 3) = (0 :: u8)" by (auto simp: sample_text_def unat_of_nat_u32 split: if_splits)
    moreover have "i mod 3 = 0 \<or> i mod 3 = 1 \<or> i mod 3 = 2" by linarith
    ultimately show False by auto
  qed
  moreover have "\<forall>l\<in>set (lines ?xs). length l < 1024" using lines_length [of _ ?xs] by fastforce
  moreover have "grep_ready (\<lambda>c. if c = '':'' then 0x8100020 else 0x8100030) 0x8300000 0x8100000 [98] 0x8100010 (map of_char ''shell'') (mem sample_grep)"
    by (simp add: grep_ready_def string_ready_def user_run_def disjoint_runs_def sample_grep_def blit_outside z)
  moreover have "mem sample_grep (0x8300000 + 1024) \<noteq> 10" by (simp add: sample_grep_def blit_outside z)
  ultimately show ?thesis using grep_prints_matches [OF sample_grep_facts] by blast
qed

end
