(* ===== verification/User_Dir.thy ===== *)
theory User_Dir
  imports User_Properties
begin

text \<open>
  Reading the directory: the interface that \<open>ls\<close> relies on, the program, and the kernel's system calls
  behind it.
\<close>

section \<open>The interface\<close>

text \<open>\<open>listing fd ns s\<close>: the descriptor is open on the directory and has the names \<open>ns\<close> still to deliver.\<close>

locale dir_kernel = terminal_kernel K ok shown
  for K :: "'a machine_scheme kernel_call" and ok :: "'a machine_scheme \<Rightarrow> bool"
    and shown :: "'a machine_scheme \<Rightarrow> text_term" +
  fixes listing :: "nat \<Rightarrow> u8 list list \<Rightarrow> 'a machine_scheme \<Rightarrow> bool" and names :: "'a machine_scheme \<Rightarrow> u8 list list"
    and can_list :: "'a machine_scheme \<Rightarrow> bool"
  assumes open_dir: "ok s \<Longrightarrow> can_list s \<Longrightarrow> str_at (mem s) a [46] \<Longrightarrow> user_run a 2 \<Longrightarrow>
      \<exists>fd t. K SYS_OPEN a 0 0 s = Ok (of_nat fd, t) \<and> of_nat fd \<noteq> (-1 :: i32) \<and> ok t \<and> shown t = shown s \<and> same_user s t \<and>
        listing fd (names s) t"
    and read_dir: "ok s \<Longrightarrow> listing fd (nm # ns) s \<Longrightarrow> user_run a 32 \<Longrightarrow>
      \<exists>t. K SYS_READ (of_nat fd) a 32 s = Ok (of_nat (length nm), t) \<and> ok t \<and> shown t = shown s \<and>
        same_user_but a 32 s t \<and> bytes (ptr (mem t) a) (length nm) = nm \<and> 0 < length nm \<and> length nm < 32 \<and> listing fd ns t"
    and read_end: "ok s \<Longrightarrow> listing fd [] s \<Longrightarrow> user_run a 32 \<Longrightarrow>
      \<exists>t. K SYS_READ (of_nat fd) a 32 s = Ok (0, t) \<and> ok t \<and> shown t = shown s \<and> same_user s t"
    and write_listing: "ok s \<Longrightarrow> listing fd ns s \<Longrightarrow> user_run a n \<Longrightarrow> K SYS_WRITE 1 a (of_nat n) s = Ok (r, t) \<Longrightarrow> listing fd ns t"
    and user_listing: "ok s \<Longrightarrow> listing fd ns s \<Longrightarrow> (\<And>a. \<not> in_user a \<Longrightarrow> m a = mem s a) \<Longrightarrow> listing fd ns (s\<lparr>mem := m\<rparr>)"
begin

lemma ls_loop_prints:
  assumes "ok s" and "listing fd ns s" and buf: "user_run buf 33"
  shows "\<exists>t. ls_loop K L (of_nat fd) buf s = Some (Ok (0, t)) \<and> ok t \<and> same_user_but buf 33 s t \<and>
    shown t = fold term_putc (concat (map (\<lambda>nm. nm @ [10]) ns)) (shown s)"
  using assms(1,2)
proof (induction ns arbitrary: s)
  case Nil
  obtain t where "K SYS_READ (of_nat fd) buf 32 s = Ok (0, t)" "ok t" "shown t = shown s" "same_user s t"
    using read_end [OF Nil user_run_le [OF buf]] by auto
  then show ?case by (subst ls_loop.simps) (auto simp: ece391_read_def intro: same_user_but_same)
next
  case (Cons nm ns)
  obtain t where t: "K SYS_READ (of_nat fd) buf 32 s = Ok (of_nat (length nm), t)" "ok t" "shown t = shown s" "same_user_but buf 32 s t"
      "bytes (ptr (mem t) buf) (length nm) = nm" "0 < length nm" "length nm < 32" "listing fd ns t"
    using read_dir [OF Cons.prems user_run_le [OF buf]] by auto
  let ?a = "buf + of_nat (length nm)"
  define u where "u = t\<lparr>mem := (mem t)(?a := 10)\<rparr>"
  have w: "unat (of_nat (length nm) :: i32) = length nm" "(of_nat (length nm) :: i32) \<noteq> 0" "(of_nat (length nm) :: i32) \<noteq> -1"
      "(of_nat (length nm) :: i32) + 1 = of_nat (Suc (length nm))" "of_nat (Suc (length nm)) \<noteq> (-1 :: i32)"
    using small_count [of "length nm"] small_count(2) [of "Suc (length nm)"] data_index(3) [of "length nm"] t(6,7) by (auto simp del: of_nat_Suc)
  have a: "in_user ?a" using user_run_at [OF buf, of "length nm"] t(7) by simp
  have u: "ok u" "shown u = shown t" using store_ok [OF t(2) a] store_shown [OF t(2) a] by (simp_all add: u_def)
  have lu: "listing fd ns u" unfolding u_def by (rule user_listing [OF t(2,8)]) (use a in auto)
  have ub: "bytes (ptr (mem u) buf) (Suc (length nm)) = nm @ [10]"
  proof (rule nth_equalityI)
    fix i assume "i < length (bytes (ptr (mem u) buf) (Suc (length nm)))"
    then have i: "i < Suc (length nm)" by simp
    show "bytes (ptr (mem u) buf) (Suc (length nm)) ! i = (nm @ [10]) ! i"
      using i bytes_at [OF t(5), of i] of_nat_u32_eq_iff [of i "length nm"] t(7)
      by (cases "i = length nm") (auto simp: u_def ptr_def nth_append)
  qed simp
  have rn: "user_run buf (Suc (length nm))" using user_run_le [OF buf] t(7) by simp
  obtain v where v: "K SYS_WRITE 1 buf (of_nat (Suc (length nm))) u = Ok (of_nat (Suc (length nm)), v)" "ok v" "same_user u v"
      "shown v = fold term_putc (nm @ [10]) (shown u)"
    using write_out [OF u(1) rn] ub by auto
  obtain z where z: "ls_loop K L (of_nat fd) buf v = Some (Ok (0, z))" "ok z" "same_user_but buf 33 v z"
      "shown z = fold term_putc (concat (map (\<lambda>nm. nm @ [10]) ns)) (shown v)"
    using Cons.IH [OF v(2) write_listing [OF u(1) lu rn v(1)]] by blast
  have "same_user_but buf 33 s u"
    using t(4,7) w(1) by (auto simp: same_user_but_def u_def)
  then have "same_user_but buf 33 s z" using v(3) z(3) by (meson same_user_but_trans)
  moreover have "shown z = fold term_putc (concat (map (\<lambda>nm. nm @ [10]) (nm # ns))) (shown s)" using z(4) v(4) u(2) t(3) by simp
  ultimately show ?case
    using t(1,7) w v(1) z(1,2)
    by (subst ls_loop.simps) (simp add: ece391_read_def ece391_write_def put_at_def u_def [symmetric] del: of_nat_Suc)
qed

lemma ls_prints:
  assumes "ok s" and "can_list s" and "user_run buf 33" and "str_at (mem s) (L ''.'') [46]" and "user_run (L ''.'') 2"
  shows "\<exists>t. ls_main K L buf s = Ok (0, t) \<and> ok t \<and> shown t = fold term_putc (concat (map (\<lambda>nm. nm @ [10]) (names s))) (shown s)"
proof -
  obtain fd t where t: "K SYS_OPEN (L ''.'') 0 0 s = Ok (of_nat fd, t)" "of_nat fd \<noteq> (-1 :: i32)" "ok t" "shown t = shown s"
      "listing fd (names s) t"
    using open_dir [OF assms(1,2,4,5)] by blast
  then show ?thesis using ls_loop_prints [OF t(3,5) assms(3), of L] by (auto simp: ls_main_def ece391_open_def)
qed

end

section \<open>The kernel's directory\<close>

definition user_names :: "'a kernel_state_scheme \<Rightarrow> u8 list list" where
  "user_names s = map (entry_name s) [0..<unat (num_dentries s)]"

definition names_ok :: "'a kernel_state_scheme \<Rightarrow> bool" where
  "names_ok s \<longleftrightarrow> unat (num_dentries s) \<le> 63 \<and> (\<forall>i<unat (num_dentries s). entry_name s i \<noteq> [])"

definition user_dir :: "nat \<Rightarrow> u8 list list \<Rightarrow> 'a kernel_state_scheme \<Rightarrow> bool" where
  "user_dir fd ns s \<longleftrightarrow> fd \<in> {2..<8} \<and> flags (fds (this_pcb s) fd) = IN_USE \<and> jumptable (fds (this_pcb s) fd) = Some Dir_Fops \<and>
     names_ok s \<and> dir_reads s \<le> num_dentries s \<and> ns = map (entry_name s) [unat (dir_reads s)..<unat (num_dentries s)]"

definition user_can_list :: "'a kernel_state_scheme \<Rightarrow> bool" where
  "user_can_list s \<longleftrightarrow> free_fd (this_pcb s) \<noteq> None \<and> names_ok s \<and> dir_reads s = 0 \<and>
     (\<exists>j. find (\<lambda>i. entry_name s i = [46]) [0..<63] = Some j \<and> load32 (mem s) (dentry_addr s j + 32) = 1)"

lemma names_carried:
  assumes "same_image s t" and "user_ok s" and "names_ok s"
  shows "i < unat (num_dentries s) \<Longrightarrow> entry_name t i = entry_name s i" and "names_ok t"
proof -
  have fs: "fs_mounted s" "dir_ok s" using assms(2) by (auto simp: user_ok_def)
  show e: "entry_name t i = entry_name s i" if "i < unat (num_dentries s)" for i
    using same_entry(2) [OF assms(1) fs] that assms(3) by (simp add: names_ok_def)
  show "names_ok t" using assms(3) same_imageD(5) [OF assms(1)] e by (simp add: names_ok_def)
qed

lemma dir_carried:
  assumes "same_image s t" and "same_process s t" and "user_ok s" and "user_dir fd ns s" and "dir_reads t = dir_reads s"
  shows "user_dir fd ns t"
proof -
  have n: "names_ok s" using assms(4) by (simp add: user_dir_def)
  show ?thesis
    using assms(2,4,5) names_carried [OF assms(1,3) n] same_imageD(5) [OF assms(1)] by (auto simp: user_dir_def same_process_def)
qed

lemma user_open_dir:
  fixes s :: "'a kernel_state_scheme"
  assumes ok: "user_ok s" and l: "user_can_list s" and dot: "str_at (mem s) a [46]"
  shows "\<exists>fd t. open_file E (ptr (mem s) a) s = Ok (of_nat fd, t) \<and> of_nat fd \<noteq> (-1 :: i32) \<and> user_ok t \<and>
    user_screen t = user_screen s \<and> same_user s t \<and> user_dir fd (user_names s) t"
proof -
  let ?P = "this_pcb s" and ?nm = "ptr (mem s) a"
  obtain i where i: "free_fd ?P = Some i" using l by (auto simp: user_can_list_def)
  obtain j where j: "find (\<lambda>i. entry_name s i = [46]) [0..<63] = Some j" "load32 (mem s) (dentry_addr s j + 32) = 1"
    using l by (auto simp: user_can_list_def)
  have k: "is_cstr ?nm 1" "bytes ?nm 1 = [46]" using str_at_is_cstr [OF dot] str_at_bytes [OF dot] by auto
  have std: "not_std ?nm" by (rule ordinary_not_std [OF k(1)]) (unfold k(2), simp add: ordinary_name_def)
  have fs: "fs_mounted s" "dir_ok s" and n: "names_ok s" "dir_reads s = 0" using ok l by (auto simp: user_ok_def user_can_list_def)
  have find: "find (\<lambda>i. entry_name s i = bytes ?nm 1) [0..<63] = Some j" using j(1) k(2) by simp
  define t where "t = update_pcb (this_pcb_addr s) (\<lambda>P. (set_fd i (\<lambda>f. f\<lparr>jumptable := fops_of_type (load32 (mem s) (dentry_addr s j + 32)) (jumptable f),
         flags := IN_USE, fd_inode := load32 (mem s) (dentry_addr s j + 36)\<rparr>) P)
       \<lparr>filenames := (filenames P)(i := \<lambda>q. if unat q < 1 then ?nm q else if unat q = 1 then 0 else filenames ?P i q)\<rparr>) s"
  have call: "open_file E ?nm s = Ok (of_nat i, t)" unfolding t_def by (rule open_file_eq [OF fs(2) k(1) _ std find i]) simp
  have i8: "2 \<le> i" "i < 8" using i by (auto simp: free_fd_Some)
  have mt: "mem t = mem s" "screen_x t = screen_x s" "screen_y t = screen_y s" "kernel_stack_bottom t = kernel_stack_bottom s"
    "tty_number (pcbs t (this_pcb_addr s)) = tty_number ?P" "fds (pcbs t (this_pcb_addr s)) 1 = fds ?P 1"
    "argbuf (pcbs t (this_pcb_addr s)) = argbuf ?P"
    using i8 by (simp_all add: t_def update_pcb_def set_fd_def)
  have im: "same_image s t" unfolding t_def by (rule same_image_writes(1)) (simp add: same_image_def)
  have "user_ok t" "user_screen t = user_screen s" using descriptor_carried [OF ok im _ mt(2-)] mt(1) by auto
  moreover have "user_dir i (user_names s) t"
    using names_carried [OF im ok n(1)] n(2) i8 j(2) same_imageD(5) [OF im]
    by (auto simp: user_dir_def user_names_def t_def update_pcb_def set_fd_def this_pcb_addr_def fops_of_type_def)
  moreover have "of_nat i \<noteq> (-1 :: i32)" using small_count(2) [of i] i8 by simp
  ultimately show ?thesis using call mt(1) by (auto simp: same_user_def)
qed

text \<open>\<open>read\<close> on the directory: the state after it, with the driver's counter moved.\<close>

lemma user_dir_call:
  fixes s :: "'a kernel_state_scheme"
  assumes ok: "user_ok s" and l: "user_dir fd ns s" and a: "user_run a 32"
    and dr: "dir_read a (sti s) = Ok (of_nat c, (sti s)\<lparr>mem := m, dir_reads := r\<rparr>)" and c: "c \<le> 32"
    and m: "\<And>b. \<not> in_user b \<Longrightarrow> m b = mem s b" and r: "r \<le> num_dentries s"
  shows "\<exists>t. sys_read E (of_nat fd) a 32 s = Ok (of_nat c, t) \<and> user_ok t \<and> user_screen t = user_screen s \<and> mem t = m \<and>
    user_dir fd (map (entry_name s) [unat r..<unat (num_dentries s)]) t"
proof -
  let ?P = "this_pcb s"
  define t where "t = update_pcb (this_pcb_addr s) (set_fd fd (\<lambda>d. d\<lparr>fileposition := fileposition d + of_nat c\<rparr>)) ((sti s)\<lparr>mem := m, dir_reads := r\<rparr>)"
  have fd: "fd \<in> {2..<8}" "flags (fds ?P fd) = IN_USE" "jumptable (fds ?P fd) = Some Dir_Fops" "names_ok s" using l by (auto simp: user_dir_def)
  have st: "this_pcb_addr (sti s) = this_pcb_addr s" "pcbs (sti s) = pcbs s" by (simp_all add: this_pcb_addr_def sti_def)
  have "a \<noteq> NULL_PTR" using a by (auto simp: user_run_def NULL_PTR_def)
  moreover have "\<not> bad_fd 0 (of_nat fd) ?P" using fd(1,2) by (simp add: bad_fd_def small_fd IN_USE_def NOT_IN_USE_def)
  ultimately have call: "sys_read E (of_nat fd) a 32 s = Ok (of_nat c, t)"
    using fd dr by (simp add: sys_read_def Let_def st small_fd fops_read_def t_def)
  have mt: "screen_x t = screen_x s" "screen_y t = screen_y s" "kernel_stack_bottom t = kernel_stack_bottom s"
    "tty_number (pcbs t (this_pcb_addr s)) = tty_number ?P" "fds (pcbs t (this_pcb_addr s)) 1 = fds ?P 1"
    "argbuf (pcbs t (this_pcb_addr s)) = argbuf ?P"
    using fd(1) by (simp_all add: t_def update_pcb_def set_fd_def sti_def)
  have "same_image s (s\<lparr>mem := m\<rparr>)" using ok m by (intro same_image_user) (auto simp: user_ok_def)
  then have im: "same_image s t" by (simp add: same_image_def t_def update_pcb_def sti_def)
  have tm: "mem t = m" by (simp add: t_def)
  have "user_ok t" "user_screen t = user_screen s" using descriptor_carried [OF ok im _ mt] m tm by auto
  moreover have "user_dir fd (map (entry_name s) [unat r..<unat (num_dentries s)]) t"
    using names_carried [OF im ok fd(4)] fd r same_imageD(5) [OF im]
    by (auto simp: user_dir_def t_def update_pcb_def set_fd_def this_pcb_addr_def sti_def)
  ultimately show ?thesis using call tm by blast
qed

lemma user_read_dir:
  fixes s :: "'a kernel_state_scheme"
  assumes ok: "user_ok s" and l: "user_dir fd (nm # ns) s" and a: "user_run a 32"
  shows "\<exists>t. sys_read E (of_nat fd) a 32 s = Ok (of_nat (length nm), t) \<and> user_ok t \<and> user_screen t = user_screen s \<and>
    same_user_but a 32 s t \<and> bytes (ptr (mem t) a) (length nm) = nm \<and> 0 < length nm \<and> length nm < 32 \<and> user_dir fd ns t"
proof -
  let ?i = "unat (dir_reads s)" and ?u = "sti s"
  have n: "names_ok s" "nm # ns = map (entry_name s) [?i..<unat (num_dentries s)]" using l by (auto simp: user_dir_def)
  have lt: "?i < unat (num_dentries s)" using n(2) by (cases "?i < unat (num_dentries s)") simp_all
  then have nm: "nm = entry_name s ?i" "ns = map (entry_name s) [Suc ?i..<unat (num_dentries s)]" using n(2) by (simp_all add: upt_conv_Cons)
  have i63: "?i < 63" using lt n(1) by (simp add: names_ok_def)
  have fs: "fs_mounted s" "dir_ok s" "disjoint_runs 0x08000000 0x400000 (bb_start s) (fs_len s)" using ok by (auto simp: user_ok_def)
  have len: "entry_len s ?i < 32" "length nm = entry_len s ?i" "is_cstr (dentry_name s ?i) (entry_len s ?i)" "0 < length nm"
    using fs(2) i63 n(1) lt by (auto simp: dir_ok_def nm(1) entry_name_def names_ok_def bytes_def)
  define m where "m = blit (mem s) a (Suc (length nm)) (dentry_name s ?i)"
  have u: "fs_mounted ?u" "dir_ok ?u" "entry_len ?u ?i = entry_len s ?i" "dentry_name ?u ?i = dentry_name s ?i"
    using fs by (simp_all add: sti_def fs_mounted_def fs_len_def dir_ok_def entry_len_def dentry_name_def dentry_addr_def)
  have "dir_read a ?u = Ok (of_nat (entry_len ?u ?i), ?u\<lparr>mem := blit (mem ?u) a (Suc (entry_len ?u ?i)) (dentry_name ?u ?i), dir_reads := dir_reads ?u + 1\<rparr>)"
    by (rule dir_read_eq [OF u(1,2)])
      (use run_disjoint_image [OF a fs(3)] lt n(1) in \<open>simp_all add: sti_def fs_len_def word_less_nat_alt names_ok_def\<close>)
  then have dr: "dir_read a ?u = Ok (of_nat (length nm), ?u\<lparr>mem := m, dir_reads := dir_reads s + 1\<rparr>)"
    using u len(2) by (simp add: m_def sti_def)
  have rs: "unat (dir_reads s + 1) = Suc ?i" using unat_Suc_less [of "dir_reads s" "num_dentries s"] lt by (simp add: word_less_nat_alt)
  have out: "m b = mem s b" if "\<not> in_user b" for b
    using outside_user [OF user_run_le [OF a, of "Suc (length nm)"] order_refl that] len(1,2) by (simp add: m_def blit_outside)
  obtain t where t: "sys_read E (of_nat fd) a 32 s = Ok (of_nat (length nm), t)" "user_ok t" "user_screen t = user_screen s" "mem t = m"
      "user_dir fd (map (entry_name s) [unat (dir_reads s + 1)..<unat (num_dentries s)]) t"
    using user_dir_call [OF ok l a dr _ out] rs lt len(1,2) by (auto simp: word_le_nat_alt)
  have "same_user_but a 32 s t" using len(1,2) by (simp add: same_user_but_def t(4) m_def blit_outside)
  moreover have "bytes (ptr (mem t) a) (length nm) = nm"
  proof (rule nth_equalityI)
    fix i assume "i < length (bytes (ptr (mem t) a) (length nm))"
    then have i: "i < entry_len s ?i" using len(2) by simp
    then have "mem t (a + of_nat i) = dentry_name s ?i (of_nat i)"
      using blit_at [of i "Suc (length nm)" "mem s" a] len(1,2) by (simp add: t(4) m_def)
    moreover have "nm ! i = dentry_name s ?i (of_nat i)" unfolding nm(1) entry_name_def using i by simp
    ultimately show "bytes (ptr (mem t) a) (length nm) ! i = nm ! i" using i len(2) by (simp add: ptr_def)
  qed simp
  moreover have "user_dir fd ns t" using t(5) unfolding rs nm(2) .
  moreover have "length nm < 32" using len(1,2) by simp
  ultimately show ?thesis using t(1-3) len(4) by (intro exI [of _ t]) simp
qed

lemma user_read_end:
  fixes s :: "'a kernel_state_scheme"
  assumes ok: "user_ok s" and l: "user_dir fd [] s" and a: "user_run a 32"
  shows "\<exists>t. sys_read E (of_nat fd) a 32 s = Ok (0, t) \<and> user_ok t \<and> user_screen t = user_screen s \<and> same_user s t"
proof -
  have "num_dentries s \<le> dir_reads s" using l by (auto simp: user_dir_def word_le_nat_alt dest!: sym [of "[]"])
  then have "dir_read a (sti s) = Ok (of_nat 0, (sti s)\<lparr>mem := mem s, dir_reads := 0\<rparr>)"
    using dir_read_end [of "sti s" a] by (simp add: sti_def)
  then obtain t where "sys_read E (of_nat fd) a 32 s = Ok (of_nat 0, t)" "user_ok t" "user_screen t = user_screen s" "mem t = mem s"
    using user_dir_call [OF ok l a, where c = 0 and m = "mem s" and r = 0 and E = E] by auto
  then show ?thesis by (auto simp: same_user_def)
qed

interpretation kernel_dir: dir_kernel "int80 W run" user_ok user_screen user_dir user_names user_can_list
  for W :: "'a kernel_state_scheme \<Rightarrow> 'a kernel_state_scheme env" and run
proof
  fix s :: "'a kernel_state_scheme" and a
  assume "user_ok s" "user_can_list s" "str_at (mem s) a [46]"
  then show "\<exists>fd t. int80 W run SYS_OPEN a 0 0 s = Ok (of_nat fd, t) \<and> of_nat fd \<noteq> (-1 :: i32) \<and> user_ok t \<and>
      user_screen t = user_screen s \<and> same_user s t \<and> user_dir fd (user_names s) t"
    using user_open_dir by simp
next
  fix s :: "'a kernel_state_scheme" and fd nm ns a
  assume "user_ok s" "user_dir fd (nm # ns) s" "user_run a 32"
  then show "\<exists>t. int80 W run SYS_READ (of_nat fd) a 32 s = Ok (of_nat (length nm), t) \<and> user_ok t \<and> user_screen t = user_screen s \<and>
      same_user_but a 32 s t \<and> bytes (ptr (mem t) a) (length nm) = nm \<and> 0 < length nm \<and> length nm < 32 \<and> user_dir fd ns t"
    using user_read_dir by simp
next
  fix s :: "'a kernel_state_scheme" and fd a
  assume "user_ok s" "user_dir fd [] s" "user_run a 32"
  then show "\<exists>t. int80 W run SYS_READ (of_nat fd) a 32 s = Ok (0, t) \<and> user_ok t \<and> user_screen t = user_screen s \<and> same_user s t"
    using user_read_end by simp
next
  fix s t :: "'a kernel_state_scheme" and fd ns a n r
  assume s: "user_ok s" "user_dir fd ns s" "user_run a n" and "int80 W run SYS_WRITE 1 a (of_nat n) s = Ok (r, t)"
  then have t: "t = fold (\<lambda>c. putc c (get_tty_number s)) (bytes (ptr (mem s) a) n) s" using user_write [OF s(1,3)] by simp
  have "dir_reads t = dir_reads s" using more_fold_putc [of "get_tty_number s" _ s] t by (metis above_screen_dir)
  then show "user_dir fd ns t" by (rule dir_carried [OF terminal_write_carried(1,2) [OF s(1) t] s(1,2)])
next
  fix s :: "'a kernel_state_scheme" and fd ns m
  assume s: "user_ok s" "user_dir fd ns s" and m: "\<And>a. \<not> in_user a \<Longrightarrow> m a = mem s a"
  show "user_dir fd ns (s\<lparr>mem := m\<rparr>)" by (rule dir_carried [OF user_store(1,2) [OF s(1) m] s]) simp_all
qed

section \<open>Properties of ls\<close>

text \<open>
  C13. \<open>ls\<close> on this kernel prints the name of every directory entry, in the order of the directory, each
  on its own line, and returns 0, provided nobody has left the driver's shared directory position in
  the middle.
\<close>

theorem ls_lists_directory:
  assumes "user_ok s" and "user_can_list s" and "user_run buf 33" and "str_at (mem s) (L ''.'') [46]" and "user_run (L ''.'') 2"
  shows "\<exists>t. ls_main (int80 W run) L buf s = Ok (0, t) \<and> user_ok t \<and>
    user_screen t = fold term_putc (concat (map (\<lambda>i. entry_name s i @ [10]) [0..<unat (num_dentries s)])) (user_screen s)"
  using kernel_dir.ls_prints [where L = L, OF assms] by (simp add: user_names_def comp_def)

text \<open>A process with the string \<open>.\<close> in its page, and the image of two entries, \<open>shell\<close> and the directory.\<close>

definition sample_ls :: kernel_state where
  "sample_ls = sample_user\<lparr>mem := small_image(0x8100000 := 46)\<rparr>"

lemma sample_ls_facts: "user_ok sample_ls" "user_can_list sample_ls" "str_at (mem sample_ls) 0x8100000 [46]"
  "unat (num_dentries sample_ls) = 2" "entry_name sample_ls 0 = map of_char ''shell''" "entry_name sample_ls 1 = [46]"
proof -
  have f: "num_dentries sample_user = 2" "dir_reads sample_user = 0" "fs_dentries sample_user = 0x410040"
    using sample_user_image by (simp_all add: small_mounted_def)
  note g = small_mounted_facts [OF sample_user_image]
  let ?m = "small_image(0x8100000 := 46)"
  have m: "?m a = mem sample_user a" if "\<not> in_user a" for a using that by (auto simp: sample_user_pcb in_user_def)
  have im: "same_image sample_user sample_ls" "user_ok sample_ls"
    unfolding sample_ls_def using user_store(1,3) [OF sample_user_facts(1) m] by blast+
  show "user_ok sample_ls" by (rule im(2))
  show n: "unat (num_dentries sample_ls) = 2" using f by (simp add: sample_ls_def)
  show e: "entry_name sample_ls 0 = map of_char ''shell''" "entry_name sample_ls 1 = [46]"
    using same_entry(2) [OF im(1) g(1,7)] g(8,9) by simp_all
  have "entry_name sample_ls i \<noteq> []" if "i < 2" for i using e that by (cases "i = 0") (simp_all add: less_2_cases_iff)
  then have "names_ok sample_ls" using n by (simp add: names_ok_def)
  moreover have "find (\<lambda>i. entry_name sample_ls i = [46]) [0..<63] = Some 1" using e by (auto simp: find_upt_Some)
  moreover have "load32 (mem sample_ls) (dentry_addr sample_ls 1 + 32) = 1"
    by (simp add: sample_ls_def dentry_addr_def f load32_def small_image_def)
  moreover have "free_fd (this_pcb sample_ls) = free_fd (this_pcb sample_user)" by (simp add: sample_ls_def this_pcb_addr_def)
  ultimately show "user_can_list sample_ls"
    using sample_user_facts(2) f by (auto simp: user_can_list_def user_can_open_def sample_ls_def)
  show "str_at (mem sample_ls) 0x8100000 [46]" by (simp add: sample_ls_def small_image_zero)
qed

theorem ls_lists_directory_witness:
  "\<exists>t. ls_main (int80 (\<lambda>_. sample_env) (\<lambda>_ _. No_Return)) (\<lambda>_. 0x8100000) 0x8300000 sample_ls = Ok (0, t) \<and>
    user_screen t = fold term_putc (map of_char ''shell'' @ [10, 46, 10]) (user_screen sample_ls)"
  using ls_lists_directory [OF sample_ls_facts(1,2), of "0x8300000" "\<lambda>_. 0x8100000" "\<lambda>_. sample_env" "\<lambda>_ _. No_Return"]
    sample_ls_facts(3-6)
  by (auto simp: user_run_def upt_rec)

end
