(* ===== verification/User_Shell.thy ===== *)
theory User_Shell
  imports User_Dir
begin

text \<open>
  Reading lines from the terminal: the interface that \<open>hello\<close> and the shell rely on, the two programs, and the
  kernel's system calls behind it.
\<close>

section \<open>The interface\<close>

lemma str_atI:
  assumes "\<And>i. i < length xs \<Longrightarrow> m (a + of_nat i) = xs ! i" and "m (a + of_nat (length xs)) = 0" and "0 \<notin> set xs"
  shows "str_at m a xs"
  using assms
proof (induction xs arbitrary: a)
  case (Cons x xs)
  have "m (a + 1 + of_nat i) = xs ! i" if "i < length xs" for i using Cons.prems(1) [of "Suc i"] that by (simp add: add.assoc)
  moreover have "m (a + 1 + of_nat (length xs)) = 0" using Cons.prems(2) by (simp add: add.assoc)
  ultimately have "str_at m (a + 1) xs" using Cons.IH Cons.prems(3) by simp
  then show ?case using Cons.prems(1) [of 0] Cons.prems(3) by auto
qed simp

text \<open>
  \<open>typed line scr s\<close>: a read of the terminal in \<open>s\<close> finds the finished line \<open>line\<close>, and by then the terminal shows \<open>scr\<close>
  (the line is echoed while it is typed). The read fills the whole buffer, with zeros after the line.
\<close>

locale console_kernel = terminal_kernel K ok shown
  for K :: "'a machine_scheme kernel_call" and ok :: "'a machine_scheme \<Rightarrow> bool"
    and shown :: "'a machine_scheme \<Rightarrow> text_term" +
  fixes typed :: "u8 list \<Rightarrow> text_term \<Rightarrow> 'a machine_scheme \<Rightarrow> bool"
  assumes read_line: "ok s \<Longrightarrow> typed line scr s \<Longrightarrow> user_run a n \<Longrightarrow> n \<le> 1024 \<Longrightarrow>
      \<exists>t. K SYS_READ 0 a (of_nat n) s = Ok (of_nat n, t) \<and> ok t \<and> same_user_but a n s t \<and>
        bytes (ptr (mem t) a) n = take n (line @ replicate 1024 0) \<and> shown t = term_putc 10 scr"
    and typed_text: "typed line scr s \<Longrightarrow> length line < 1024 \<and> 0 \<notin> set line \<and> 10 \<notin> set line"
begin

text \<open>A line read into a buffer of 1024 bytes and ended by a zero is the string that was typed.\<close>

lemma line_string:
  assumes "bytes (ptr m buf) 1023 = take 1023 (line @ replicate 1024 0)" and "length line < 1024" and "0 \<notin> set line"
  shows "str_at (m(buf + 1023 := 0)) buf line"
proof (rule str_atI [OF _ _ assms(3)])
  have at: "m (buf + of_nat i) = (line @ replicate 1024 0) ! i" if "i < 1023" for i
  proof -
    have "m (buf + of_nat i) = bytes (ptr m buf) 1023 ! i" using that by (simp add: ptr_def)
    also have "\<dots> = (line @ replicate 1024 0) ! i" unfolding assms(1) using that by (simp del: take_append)
    finally show ?thesis .
  qed
  have ne: "(of_nat i :: u32) \<noteq> 1023" if "i < 1023" for i using of_nat_u32_eq_iff [of i 1023] that by simp
  show "(m(buf + 1023 := 0)) (buf + of_nat i) = line ! i" if "i < length line" for i
    using that assms(2) at [of i] ne [of i] by (simp add: nth_append)
  show "(m(buf + 1023 := 0)) (buf + of_nat (length line)) = 0"
    using assms(2) at [of "length line"] ne [of "length line"] by (cases "length line = 1023") (auto simp: nth_append)
qed

text \<open>Reading a line and setting its terminator, as both programs do.\<close>

lemma read_string:
  assumes "ok s" and "typed line scr s" and buf: "user_run buf 1024"
  shows "\<exists>t. ece391_read K 0 buf 1023 s = Ok (1023, t) \<and> ok t \<and> same_user_but buf 1024 s t \<and>
    mem t (buf + 1022) \<noteq> 10 \<and> ok (t\<lparr>mem := (mem t)(buf + 1023 := 0)\<rparr>) \<and>
    shown (t\<lparr>mem := (mem t)(buf + 1023 := 0)\<rparr>) = term_putc 10 scr \<and>
    same_user_but buf 1024 s (t\<lparr>mem := (mem t)(buf + 1023 := 0)\<rparr>) \<and> str_at ((mem t)(buf + 1023 := 0)) buf line"
proof -
  note l = typed_text [OF assms(2)]
  obtain t where t: "K SYS_READ 0 buf 1023 s = Ok (1023, t)" "ok t" "same_user_but buf 1023 s t"
      "bytes (ptr (mem t) buf) 1023 = take 1023 (line @ replicate 1024 0)" "shown t = term_putc 10 scr"
    using read_line [OF assms(1,2) user_run_le [OF buf, of 1023]] by auto
  have in1: "in_user (buf + 1023)" using user_run_at [OF buf, of 1023] by simp
  have "mem t (buf + of_nat 1022) = (line @ replicate 1024 0) ! 1022"
  proof -
    have "mem t (buf + of_nat 1022) = bytes (ptr (mem t) buf) 1023 ! 1022" by (simp add: ptr_def)
    then show ?thesis unfolding t(4) by (simp del: take_append)
  qed
  then have "mem t (buf + 1022) \<noteq> 10" using l by (auto simp: nth_append in_set_conv_nth split: if_splits)
  moreover have "same_user_but buf 1024 s (t\<lparr>mem := (mem t)(buf + 1023 := 0)\<rparr>)"
    using t(3) by (auto simp: same_user_but_def)
  ultimately show ?thesis
    using t line_string [OF t(4)] l store_ok [OF t(2) in1] store_shown [OF t(2) in1] same_user_but_mono [OF t(3), of 1024]
    by (auto simp: ece391_read_def)
qed

lemma hello_greets:
  assumes s: "ok s" and buf: "user_run buf 1024"
    and q: "a = L ''Hi, what's your name? ''" "str_at (mem s) a ask" "user_run a (Suc (length ask))"
    and h: "b = L ''Hello, ''" "str_at (mem s) b hello" "user_run b (Suc (length hello))" "disjoint_runs buf 1024 b (Suc (length hello))"
    and typed: "\<And>t. ece391_fdputs K 1 a s = Ok t \<Longrightarrow> typed line scr t"
  shows "\<exists>t. hello_main K L buf s = Ok (0, t) \<and> ok t \<and> shown t = fold term_putc (hello @ line) (term_putc 10 scr)"
proof -
  obtain t where t: "ece391_fdputs K 1 a s = Ok t" "ok t" "same_user s t" using fdputs_prints [OF s q(2,3)] by blast
  obtain u where u: "ece391_read K 0 buf 1023 t = Ok (1023, u)"
      "ok (u\<lparr>mem := (mem u)(buf + 1023 := 0)\<rparr>)" "shown (u\<lparr>mem := (mem u)(buf + 1023 := 0)\<rparr>) = term_putc 10 scr"
      "same_user_but buf 1024 t (u\<lparr>mem := (mem u)(buf + 1023 := 0)\<rparr>)" "str_at ((mem u)(buf + 1023 := 0)) buf line"
    using read_string [OF t(2) typed [OF t(1)] buf] by blast
  define v where "v = u\<lparr>mem := (mem u)(buf + 1023 := 0)\<rparr>"
  have hv: "str_at (mem v) b hello"
    unfolding v_def by (rule same_user_but_str_at [OF u(4) h(3) same_user_str_at [OF t(3) h(3,2)] h(4)])
  obtain w where w: "ece391_fdputs K 1 b v = Ok w" "ok w" "same_user v w" "shown w = fold term_putc hello (term_putc 10 scr)"
    using fdputs_prints [OF _ hv h(3)] u(2,3) by (auto simp: v_def)
  have len: "length line < 1024" using typed_text [OF typed [OF t(1)]] by simp
  have "str_at (mem w) buf line" by (rule same_user_str_at [OF w(3)]) (use u(5) user_run_le [OF buf] len in \<open>simp_all add: v_def\<close>)
  then obtain x where "ece391_fdputs K 1 buf w = Ok x" "ok x" "shown x = fold term_putc line (shown w)"
    using fdputs_prints [OF w(2)] user_run_le [OF buf, of "Suc (length line)"] len by auto
  then show ?thesis
    using t(1) u(1) w(1,4) by (simp add: hello_main_def q(1) [symmetric] h(1) [symmetric] put_at_def v_def [symmetric])
qed

text \<open>One round of the shell: the line typed after the prompt is what \<open>execute\<close> gets.\<close>

lemma shell_round:
  assumes s: "ok s" and buf: "user_run buf 1024"
    and q: "a = L ''391OS> ''" "str_at (mem s) a prompt" "user_run a (Suc (length prompt))"
    and e: "b = L ''exit''" "str_at (mem s) b quit" "user_run b (Suc (length quit))" "disjoint_runs buf 1024 b (Suc (length quit))"
    and typed: "\<And>t. ece391_fdputs K 1 a s = Ok t \<Longrightarrow> typed line scr t"
  shows "\<exists>t. ok t \<and> same_user_but buf 1024 s t \<and> str_at (mem t) buf line \<and> shown t = term_putc 10 scr \<and>
    shell_main K L buf s = (if line = quit then Some (Ok (0, t)) else if line = [] then shell_main K L buf t
      else lbind (ece391_execute K buf t) (\<lambda>(rval, u). lbind (shell_report K L rval u) (shell_main K L buf)))"
proof -
  obtain t where t: "ece391_fdputs K 1 a s = Ok t" "ok t" "same_user s t" using fdputs_prints [OF s q(2,3)] by blast
  obtain u where u: "ece391_read K 0 buf 1023 t = Ok (1023, u)" "mem u (buf + 1022) \<noteq> 10"
      "ok (u\<lparr>mem := (mem u)(buf + 1023 := 0)\<rparr>)" "shown (u\<lparr>mem := (mem u)(buf + 1023 := 0)\<rparr>) = term_putc 10 scr"
      "same_user_but buf 1024 t (u\<lparr>mem := (mem u)(buf + 1023 := 0)\<rparr>)" "str_at ((mem u)(buf + 1023 := 0)) buf line"
    using read_string [OF t(2) typed [OF t(1)] buf] by blast
  define v where "v = u\<lparr>mem := (mem u)(buf + 1023 := 0)\<rparr>"
  have end_line: "end_line buf 1023 u = Ok v" using u(2) by (simp add: end_line_def get_at_def put_at_def v_def)
  have "str_at (mem v) b quit"
    unfolding v_def by (rule same_user_but_str_at [OF u(5) e(3) same_user_str_at [OF t(3) e(3,2)] e(4)])
  then obtain r where r: "ece391_strcmp (mem v) buf b = Ok r" "r = 0 \<longleftrightarrow> line = quit"
    using strcmp_user [of "mem v" buf line b quit] u(6) by (auto simp: v_def)
  have "mem v buf = 0 \<longleftrightarrow> line = []" using u(6) by (cases line) (auto simp: v_def)
  then have "shell_main K L buf s = (if line = quit then Some (Ok (0, v)) else if line = [] then shell_main K L buf v
      else lbind (ece391_execute K buf v) (\<lambda>(rval, u). lbind (shell_report K L rval u) (shell_main K L buf)))"
    using t(1) u(1) r end_line by (subst shell_main.simps) (simp add: q(1) [symmetric] e(1) [symmetric] eq_commute [of 0])
  moreover have "same_user_but buf 1024 s v" using t(3) u(5) by (auto simp: v_def intro: same_user_but_trans)
  ultimately show ?thesis using u(3,4,6) by (auto simp: v_def)
qed

end

section \<open>The kernel's terminal\<close>

text \<open>
  The wait of the read ends in a state in which the caller's terminal is the active one and its line is finished;
  the interrupts that came in meanwhile have left the process as it was.
\<close>

definition line_typed ::
  "('a kernel_state_scheme \<Rightarrow> 'a kernel_state_scheme env) \<Rightarrow> u8 list \<Rightarrow> text_term \<Rightarrow> 'a kernel_state_scheme \<Rightarrow> bool" where
  "line_typed W line scr s \<longleftrightarrow> flags (fds (this_pcb s) 0) = IN_USE \<and> jumptable (fds (this_pcb s) 0) = Some Stdin_Fops \<and>
     0 \<notin> set line \<and> 10 \<notin> set line \<and>
     (\<exists>tty u. tty = get_tty_number s \<and>
        spin_while (\<lambda>s. allow_terminal_read s tty = 0) (irqs (W s)) (set_command_location tty (sti s)) = Some u \<and>
        user_ok u \<and> same_process s u \<and> same_user s u \<and> active_term u = tty \<and> active_terminal u = tty \<and>
        line_ok u tty \<and> tail_clear u tty \<and> line_text u tty = line \<and> user_screen u = scr)"

lemma new_line_putc: "\<exists>c. new_line s = (putc 10 (active_term s) s)\<lparr>command_y := c\<rparr>"
  by (rule exI [of _ "command_y (new_line s)"]) (simp add: new_line_def putc_def advance_line_def scrolling_def Let_def)

lemma user_read_line:
  fixes s :: "'a kernel_state_scheme"
  assumes ok: "user_ok s" and l: "line_typed W line scr s" and a: "user_run a n" and n: "n \<le> 1024"
  shows "\<exists>t. sys_read (W s) 0 a (of_nat n) s = Ok (of_nat n, t) \<and> user_ok t \<and> same_user_but a n s t \<and>
    bytes (ptr (mem t) a) n = take n (line @ replicate 1024 0) \<and> user_screen t = term_putc 10 scr"
proof -
  let ?tty = "get_tty_number s"
  obtain u where u: "spin_while (\<lambda>s. allow_terminal_read s ?tty = 0) (irqs (W s)) (set_command_location ?tty (sti s)) = Some u"
      "user_ok u" "same_process s u" "same_user s u" "active_term u = ?tty" "active_terminal u = ?tty"
      "line_ok u ?tty" "tail_clear u ?tty" "line_text u ?tty = line" "user_screen u = scr"
    using l by (auto simp: line_typed_def)
  have d: "flags (fds (this_pcb s) 0) = IN_USE" "jumptable (fds (this_pcb s) 0) = Some Stdin_Fops" using l by (simp_all add: line_typed_def)
  have tty: "get_tty_number u = ?tty" using u(3) unfolding get_tty_number_def same_process_def by metis
  define v where "v = putc 10 ?tty u"
  have vf: "v = fold (\<lambda>c. putc c (get_tty_number u)) [10] u" by (simp add: v_def tty)
  note V = terminal_write_carried [OF u(2) vf]
  obtain c where c: "new_line u = v\<lparr>command_y := c\<rparr>" using new_line_putc [of u] u(5) by (auto simp: v_def)
  have ns: "n = nat (sint (of_nat n :: i32))" using small_count(3) [of n] n by simp
  define m where "m = blit (mem v) a n (\<lambda>i. command_buffer u ?tty (int (unat i)))"
  obtain w where w: "terminal_read (irqs (W s)) ?tty a (of_nat n) (sti s) = Ok (of_nat n, w)" "mem w = m"
      "screen_x w = screen_x v" "screen_y w = screen_y v" "kernel_stack_bottom w = kernel_stack_bottom v" "pcbs w = pcbs v"
      "same_image (v\<lparr>mem := m\<rparr>) w"
    using terminal_read_eq [OF u(1) ns n, of a, unfolded u(6) c] by (simp add: m_def same_image_def)
  define t where "t = update_pcb (this_pcb_addr s) (set_fd 0 (\<lambda>d. d\<lparr>fileposition := fileposition d + of_nat n\<rparr>)) w"
  have st: "this_pcb_addr (sti s) = this_pcb_addr s" "pcbs (sti s) = pcbs s" "get_tty_number (sti s) = ?tty"
    by (simp_all add: this_pcb_addr_def sti_def get_tty_number_def)
  have "a \<noteq> NULL_PTR" using a by (auto simp: user_run_def NULL_PTR_def)
  then have call: "sys_read (W s) 0 a (of_nat n) s = Ok (of_nat n, t)"
    using d w(1) by (simp add: sys_read_def st Let_def bad_fd_def IN_USE_def NOT_IN_USE_def fops_read_def t_def)
  have out: "m b = mem v b" if "\<not> in_user b" for b using outside_user [OF a order_refl that] by (simp add: m_def blit_outside)
  have pv: "this_pcb_addr v = this_pcb_addr s" "this_pcb v = this_pcb s" using u(3) V(2) unfolding same_process_def by metis+
  have "same_image v (v\<lparr>mem := m\<rparr>)" using V(3) out by (intro same_image_user) (auto simp: user_ok_def)
  then have "same_image v w" using w(7) by (rule same_image_trans)
  then have im: "same_image v t" unfolding t_def by (rule same_image_writes(1))
  have tm: "mem t = m" by (simp add: t_def update_pcb_def w(2))
  have fl: "screen_x t = screen_x v" "screen_y t = screen_y v" "kernel_stack_bottom t = kernel_stack_bottom v"
    "tty_number (pcbs t (this_pcb_addr v)) = tty_number (this_pcb v)" "fds (pcbs t (this_pcb_addr v)) 1 = fds (this_pcb v) 1"
    "argbuf (pcbs t (this_pcb_addr v)) = argbuf (this_pcb v)"
    using w(3-6) by (simp_all add: t_def update_pcb_def set_fd_def pv(1))
  have ok_t: "user_ok t" "user_screen t = user_screen v" using descriptor_carried [OF V(3) im _ fl] tm out by auto
  have "same_user s v" using u(4) V(4) by (rule same_user_trans)
  then have "same_user_but a n s t" by (simp add: same_user_def same_user_but_def tm m_def blit_outside)
  moreover have "bytes (ptr (mem t) a) n = take n (line @ replicate 1024 0)"
  proof (rule nth_equalityI)
    fix i assume "i < length (bytes (ptr (mem t) a) n)"
    then have i: "i < n" by simp
    have "command_buffer u ?tty (int i) = (line @ replicate 1024 0) ! i"
      using i n tail_clearD [OF u(8), of i] line_okD(5) [OF u(7)] unfolding u(9) [symmetric] by (auto simp: nth_append line_text_def)
    then show "bytes (ptr (mem t) a) n ! i = take n (line @ replicate 1024 0) ! i"
      using i n unat_of_nat_u32 [of i] by (simp add: ptr_def tm m_def blit_at del: take_append of_nat_unat)
  qed (use n in simp)
  ultimately show ?thesis using call ok_t V(5) u(10) by auto
qed

interpretation kernel_console: console_kernel "int80 W run" user_ok user_screen "line_typed W"
  for W :: "'a kernel_state_scheme \<Rightarrow> 'a kernel_state_scheme env" and run
proof
  fix s :: "'a kernel_state_scheme" and line scr a n
  assume "user_ok s" "line_typed W line scr s" "user_run a n" "n \<le> 1024"
  then show "\<exists>t. int80 W run SYS_READ 0 a (of_nat n) s = Ok (of_nat n, t) \<and> user_ok t \<and> same_user_but a n s t \<and>
      bytes (ptr (mem t) a) n = take n (line @ replicate 1024 0) \<and> user_screen t = term_putc 10 scr"
    using user_read_line by simp
next
  fix s :: "'a kernel_state_scheme" and line scr
  assume "line_typed W line scr s"
  then show "length line < 1024 \<and> 0 \<notin> set line \<and> 10 \<notin> set line"
    using line_okD by (auto simp: line_typed_def line_text_def)
qed

text \<open>A line that is finished before it is asked for.\<close>

lemma line_ready:
  fixes s :: "'a kernel_state_scheme"
  assumes "user_ok s" and "flags (fds (this_pcb s) 0) = IN_USE" and "jumptable (fds (this_pcb s) 0) = Some Stdin_Fops"
    and "irqs (W s) = []" and "tty = get_tty_number s" and "allow_terminal_read s tty \<noteq> 0" and "active_term s = tty" and "active_terminal s = tty"
    and "line_ok s tty" and "tail_clear s tty" and "0 \<notin> set (line_text s tty)" and "10 \<notin> set (line_text s tty)"
  shows "line_typed W (line_text s tty) (user_screen s) s"
proof -
  let ?u = "set_command_location tty (sti s)"
  have addr: "this_pcb_addr ?u = this_pcb_addr s" by (simp add: this_pcb_addr_def set_command_location_def sti_def)
  have p: "same_process s ?u" by (simp add: same_process_def addr) (simp add: set_command_location_def sti_def)
  have im: "same_image s ?u" by (simp add: same_image_def set_command_location_def sti_def)
  have "on_screen (get_tty_number s) ?u" using assms(1) by (simp add: user_ok_def on_screen_def set_command_location_def sti_def)
  then have "user_ok ?u" by (rule ok_carried [OF im p assms(1)])
  moreover have "user_screen ?u = user_screen s"
    by (simp add: user_screen_def get_tty_number_def addr) (simp add: abs_term_def set_command_location_def sti_def)
  moreover have "line_text ?u tty = line_text s tty" "line_ok ?u tty" "tail_clear ?u tty" "active_term ?u = tty" "active_terminal ?u = tty"
      "allow_terminal_read ?u tty \<noteq> 0" "same_user s ?u"
    using assms(6-10) by (simp_all add: line_text_def line_ok_def tail_clear_def set_command_location_def sti_def same_user_def)
  ultimately show ?thesis using assms(2-5,11,12) p by (auto simp: line_typed_def)
qed

section \<open>Properties of the shell\<close>

text \<open>
  C10. A round of the shell on this kernel: after its prompt it takes the line typed on its own terminal as a string, ends with
  status 0 on \<open>exit\<close>, asks again on an empty line, and otherwise calls \<open>execute\<close> with exactly that line, reports the
  program's end and goes on.
\<close>

theorem shell_runs_line:
  assumes "user_ok s" and "user_run buf 1024"
    and "a = L ''391OS> ''" and "str_at (mem s) a prompt" and "user_run a (Suc (length prompt))"
    and "b = L ''exit''" and "str_at (mem s) b quit" and "user_run b (Suc (length quit))" and "disjoint_runs buf 1024 b (Suc (length quit))"
    and "\<And>t. ece391_fdputs (int80 W run) 1 a s = Ok t \<Longrightarrow> line_typed W line scr t"
  shows "\<exists>t. user_ok t \<and> same_user_but buf 1024 s t \<and> str_at (mem t) buf line \<and> user_screen t = term_putc 10 scr \<and>
    shell_main (int80 W run) L buf s =
      (if line = quit then Some (Ok (0, t)) else if line = [] then shell_main (int80 W run) L buf t
       else lbind (ece391_execute (int80 W run) buf t) (\<lambda>(rval, u).
              lbind (shell_report (int80 W run) L rval u) (shell_main (int80 W run) L buf)))"
  by (rule kernel_console.shell_round [OF assms])

text \<open>The sample process with the shell's strings in its page and the line \<open>ls\<close> on its terminal.\<close>

definition sample_shell :: kernel_state where
  "sample_shell = sample_user\<lparr>mem := small_image(0x8100000 := 62, 0x8100010 := 101, 0x8100011 := 120, 0x8100012 := 105, 0x8100013 := 116),
     active_term := 0, active_terminal := 0, command_buffer := (\<lambda>_ j. if j = 0 then 108 else if j = 1 then 115 else 0),
     command_length := (\<lambda>_. 2), cursor_x := (\<lambda>_. 2), allow_terminal_read := (\<lambda>_. 1)\<rparr>"

theorem shell_runs_line_witness:
  "\<exists>t. str_at (mem t) 0x8300000 [108, 115] \<and>
    shell_main (int80 (\<lambda>_. sample_env) (\<lambda>_ _. No_Return)) (\<lambda>c. if c = ''exit'' then 0x8100010 else 0x8100000) 0x8300000 sample_shell =
      lbind (ece391_execute (int80 (\<lambda>_. sample_env) (\<lambda>_ _. No_Return)) 0x8300000 t) (\<lambda>(rval, u).
        lbind (shell_report (int80 (\<lambda>_. sample_env) (\<lambda>_ _. No_Return)) (\<lambda>c. if c = ''exit'' then 0x8100010 else 0x8100000) rval u)
          (shell_main (int80 (\<lambda>_. sample_env) (\<lambda>_ _. No_Return)) (\<lambda>c. if c = ''exit'' then 0x8100010 else 0x8100000) 0x8300000))"
proof -
  let ?L = "\<lambda>c. if c = ''exit'' then 0x8100010 else (0x8100000 :: u32)" and ?K = "int80 (\<lambda>_. sample_env) (\<lambda>_ _. No_Return)"
  have z: "small_image a = 0" if "0x8100000 \<le> unat a" for a using that by (intro small_image_zero) auto
  have str: "str_at (mem sample_shell) 0x8100000 [62]" "str_at (mem sample_shell) 0x8100010 [101, 120, 105, 116]"
    by (simp_all add: sample_shell_def z)
  let ?m = "mem sample_shell"
  have m: "?m a = mem sample_user a" if "\<not> in_user a" for a using that by (auto simp: sample_shell_def sample_user_pcb in_user_def)
  have im: "same_image sample_user sample_shell" "same_process sample_user sample_shell"
    using user_store(1) [OF sample_user_facts(1) m] by (simp_all add: sample_shell_def same_image_def same_process_def this_pcb_addr_def)
  have ok: "user_ok sample_shell"
    by (rule ok_carried [OF im sample_user_facts(1)]) (use sample_user_facts(1) in \<open>simp add: user_ok_def on_screen_def sample_shell_def\<close>)
  have tty: "get_tty_number sample_shell = 0" using sample_user_pcb(4) by (simp add: sample_shell_def get_tty_number_def this_pcb_addr_def)
  define t where "t = putc 62 0 sample_shell"
  have t: "t = fold (\<lambda>c. putc c (get_tty_number sample_shell)) [62] sample_shell" by (simp add: t_def tty)
  have "user_run 0x8100000 1" by (simp add: user_run_def)
  then have put: "ece391_fdputs ?K 1 0x8100000 sample_shell = Ok t"
    using user_write [OF ok, of "0x8100000" 1 sample_env] str(1) strlen_user [OF str(1)] t by (simp add: ece391_fdputs_def ece391_write_def bytes_def ptr_def)
  note T = terminal_write_carried [OF ok t]
  have f: "line_text t 0 = [108, 115]" "line_ok t 0" "tail_clear t 0" "active_term t = 0" "active_terminal t = 0" "allow_terminal_read t 0 \<noteq> 0"
    by (simp_all add: t_def screen_op_defs sample_shell_def line_text_def line_ok_def tail_clear_def TERMINAL_BUFFER_MAX_SIZE_def upt_rec)
  have p: "this_pcb t = this_pcb sample_user" "get_tty_number t = 0"
    using T(2) im(2) tty unfolding same_process_def get_tty_number_def by metis+
  have "line_typed (\<lambda>_. sample_env) (line_text t 0) (user_screen t) t"
    by (rule line_ready) (use T(3) f p in \<open>simp_all add: sample_user_pcb(1) sample_pcb_def sample_fd_def sample_env_def\<close>)
  then have "line_typed (\<lambda>_. sample_env) [108, 115] (user_screen t) u" if "ece391_fdputs ?K 1 0x8100000 sample_shell = Ok u" for u
    using that put f(1) by simp
  then show ?thesis
    using shell_runs_line [OF ok, of "0x8300000" "0x8100000" ?L "[62]" "0x8100010" "[101, 120, 105, 116]" "\<lambda>_. sample_env" "\<lambda>_ _. No_Return" "[108, 115]" "user_screen t"] str
    by (auto simp: user_run_def disjoint_runs_def)
qed

end
