(* ===== verification/User_Clock.thy ===== *)
theory User_Clock
  imports Fish User_Shell
begin

text \<open>
  Waiting for the clock: the interface that \<open>pingpong\<close> and the fish program rely on, the two animations, and the kernel's
  system calls behind it.
\<close>

section \<open>The interface\<close>

text \<open>
  \<open>clock fd s\<close>: the descriptor is open on the clock, and the clock keeps ticking. \<open>page s\<close> is the screen memory that
  \<open>vidmap\<close> hands to the process: the process may write it, and waiting leaves it alone.
\<close>

locale clock_kernel = terminal_kernel K ok shown
  for K :: "'a machine_scheme kernel_call" and ok :: "'a machine_scheme \<Rightarrow> bool"
    and shown :: "'a machine_scheme \<Rightarrow> text_term" +
  fixes clock :: "nat \<Rightarrow> 'a machine_scheme \<Rightarrow> bool" and page :: "'a machine_scheme \<Rightarrow> u32"
  assumes wait_tick: "ok s \<Longrightarrow> clock fd s \<Longrightarrow> user_run a 4 \<Longrightarrow>
      \<exists>t. K SYS_READ (of_nat fd) a 4 s = Ok (0, t) \<and> ok t \<and> clock fd t \<and> shown t = shown s \<and> same_user s t \<and>
        page t = page s \<and> (\<forall>b\<in>span (page s) 4000. mem t b = mem s b)"
    and write_clock: "ok s \<Longrightarrow> clock fd s \<Longrightarrow> user_run a n \<Longrightarrow> K SYS_WRITE 1 a (of_nat n) s = Ok (r, t) \<Longrightarrow> clock fd t"
    and own_clock: "ok s \<Longrightarrow> clock fd s \<Longrightarrow> (\<And>a. \<not> in_user a \<Longrightarrow> a \<notin> span (page s) 4000 \<Longrightarrow> m a = mem s a) \<Longrightarrow>
      ok (s\<lparr>mem := m\<rparr>) \<and> clock fd (s\<lparr>mem := m\<rparr>) \<and> page (s\<lparr>mem := m\<rparr>) = page s"
begin

section \<open>The fish\<close>

end

fun animate :: "nat \<Rightarrow> blink list \<times> (u16 \<Rightarrow> u8) \<Rightarrow> blink list \<times> (u16 \<Rightarrow> u8)" where
  "animate 0 x = x"
| "animate (Suc n) (bs, f) = animate n (map tick bs, fold draw bs f)"

definition fish_ready :: "fish_frame \<Rightarrow> u32 \<Rightarrow> bool" where
  "fish_ready L v \<longleftrightarrow> layout_ok (fish_layout.truncate L) v \<and> user_run (blink_array L) 32000 \<and> user_run (mp1_list_head L) 4 \<and>
     user_run (vmem_base_addr L) 4 \<and> user_run (garbage_var L) 4"

lemma user_span: "user_run a n \<Longrightarrow> b \<in> span a n \<Longrightarrow> in_user b"
  using user_run_at by (auto simp: span_def)

lemma truncate_fields [simp]:
  "blink_array (fish_layout.truncate L) = blink_array L" "mp1_list_head (fish_layout.truncate L) = mp1_list_head L"
  "vmem_base_addr (fish_layout.truncate L) = vmem_base_addr L"
  by (simp_all add: fish_layout.defs)

context clock_kernel
begin

lemma fish_wait_ticks:
  assumes "ok s" and "clock fd s" and "fish_ready L (page s)" and "table_in (fish_layout.truncate L) (page s) (mem s) ps"
  shows "\<exists>t. fish_wait K L (of_nat fd) n s = Ok t \<and> ok t \<and> clock fd t \<and> page t = page s \<and>
    table_in (fish_layout.truncate L) (page s) (mem t) ps \<and>
    (table_of (mem t) ps, cells (page s) (mem t)) = animate n (table_of (mem s) ps, cells (page s) (mem s))"
  using assms
proof (induction n arbitrary: s)
  case (Suc n)
  let ?L = "fish_layout.truncate L" and ?v = "page s"
  have L: "layout_ok ?L ?v" "user_run (blink_array L) 32000" "user_run (mp1_list_head L) 4" "user_run (vmem_base_addr L) 4"
      "user_run (garbage_var L) 4"
    using Suc.prems(3) by (simp_all add: fish_ready_def)
  obtain t where t: "K SYS_READ (of_nat fd) (garbage_var L) 4 s = Ok (0, t)" "ok t" "clock fd t" "same_user s t" "page t = ?v"
      "\<And>b. b \<in> span ?v 4000 \<Longrightarrow> mem t b = mem s b"
    using wait_tick [OF Suc.prems(1,2) L(5)] by blast
  have "mem t b = mem s b" if "b \<in> table_bytes ?L" for b
    using that t(4) user_span [OF L(2)] user_span [OF L(3)] user_span [OF L(4)] by (auto simp: table_bytes_def same_user_def)
  note T = table_carried [OF L(1) Suc.prems(4) this]
  have ct: "cells ?v (mem t) = cells ?v (mem s)" by (rule cells_cong) (rule t(6))
  obtain m where m: "mp1_rtc_tasklet ?L (mem t) = Ok m" "table_in ?L ?v m ps" "table_of m ps = map tick (table_of (mem t) ps)"
      "cells ?v m = fold draw (table_of (mem t) ps) (cells ?v (mem t))"
      "\<And>b. b \<notin> span ?v 4000 \<Longrightarrow> b \<notin> span (blink_array L) 32000 \<Longrightarrow> m b = mem t b"
    using tasklet_ticks [OF L(1) T(1)] by auto
  have "m b = mem t b" if "\<not> in_user b" "b \<notin> span (page t) 4000" for b using m(5) [of b] that user_span [OF L(2)] t(5) by auto
  then have u: "ok (t\<lparr>mem := m\<rparr>)" "clock fd (t\<lparr>mem := m\<rparr>)" "page (t\<lparr>mem := m\<rparr>) = ?v" using own_clock [OF t(2,3), of m] t(5) by auto
  obtain w where w: "fish_wait K L (of_nat fd) n (t\<lparr>mem := m\<rparr>) = Ok w" "ok w" "clock fd w" "page w = ?v" "table_in ?L ?v (mem w) ps"
      "(table_of (mem w) ps, cells ?v (mem w)) = animate n (table_of m ps, cells ?v m)"
    using Suc.IH [OF u(1,2)] Suc.prems(3) m(2) u(3) by auto
  then show ?case using t(1) m(1,3,4) T(2) ct by (simp add: ece391_read_def)
qed simp

end

section \<open>Ping-pong\<close>

text \<open>A row of the game: the letter between two walls.\<close>

definition pp_blank :: "u8 list" where
  "pp_blank = 32 # 124 # replicate 76 32 @ [124, 10]"

definition pp_row :: "u8 \<Rightarrow> nat \<Rightarrow> u8 list" where
  "pp_row c j = pp_blank[j := c]"

definition pp_walls :: "u32 \<Rightarrow> memory \<Rightarrow> bool" where
  "pp_walls buf m \<longleftrightarrow> m buf = 32 \<and> m (buf + 1) = 124 \<and> m (buf + 78) = 124 \<and> m (buf + 79) = 10 \<and> m (buf + 80) = 0"

lemma pp_blank_facts: "length pp_blank = 80" "set pp_blank = {32, 124, 10}"
  "i < 80 \<Longrightarrow> pp_blank ! i = (if i = 0 then 32 else if i = 1 \<or> i = 78 then 124 else if i = 79 then 10 else 32)"
  by (auto simp: pp_blank_def nth_Cons' nth_append)

lemma length_pp_row [simp]: "length (pp_row c j) = 80"
  by (simp add: pp_row_def pp_blank_facts)

lemma fill_spaces_at:
  assumes "i < 2 ^ 32" and "to \<le> 2 ^ 32" and "from \<le> to"
  shows "fill_spaces buf from to m (buf + of_nat i) = (if from \<le> i \<and> i < to then 32 else m (buf + of_nat i))"
  using assms(3,2)
proof (induction to rule: dec_induct)
  case (step n)
  have "(of_nat i :: u32) = of_nat n \<longleftrightarrow> i = n" using of_nat_u32_eq_iff [of i n] assms(1) step.prems by simp
  then show ?case using step by (auto simp: fill_spaces_def)
qed (auto simp: fill_spaces_def)

lemma fill_spaces_outside:
  assumes "b \<notin> span buf to"
  shows "fill_spaces buf from to m b = m b"
proof -
  have "fold (\<lambda>i m. m(buf + of_nat i := 32)) is m b = m b" if "\<forall>i\<in>set is. i < to" for "is"
    using that
  proof (induction "is" arbitrary: m)
    case (Cons i "is")
    then have "b \<noteq> buf + of_nat i" using assms by auto
    then show ?case using Cons by simp
  qed simp
  then show ?thesis by (simp add: fill_spaces_def)
qed

lemma pp_row_nth: "i < 80 \<Longrightarrow> 2 \<le> j \<Longrightarrow> j < 78 \<Longrightarrow>
   pp_row c j ! i = (if i = j then c else if i = 0 then 32 else if i = 1 \<or> i = 78 then 124 else if i = 79 then 10 else 32)"
  by (simp add: pp_row_def nth_list_update pp_blank_facts)

lemma pp_frame:
  assumes "pp_walls buf m" and "2 \<le> j" and "j < 78" and "c \<noteq> 0"
  defines "n \<equiv> (fill_spaces buf 2 78 m)(buf + of_nat j := c)"
  shows "str_at n buf (pp_row c j)" "pp_walls buf n" "b \<notin> span buf 81 \<Longrightarrow> n b = m b"
proof -
  have at: "n (buf + of_nat i) = (if i = j then c else if 2 \<le> i \<and> i < 78 then 32 else m (buf + of_nat i))" if "i < 81" for i
  proof -
    have "(of_nat i :: u32) = of_nat j \<longleftrightarrow> i = j" using of_nat_u32_eq_iff [of i j] that assms(3) by simp
    then show ?thesis using fill_spaces_at [of i 78 2 buf m] that by (simp add: n_def)
  qed
  show w: "pp_walls buf n"
    using at [of 0] at [of 1] at [of 78] at [of 79] at [of 80] assms(1-3) by (auto simp: pp_walls_def)
  show "str_at n buf (pp_row c j)"
  proof (rule str_atI)
    show "n (buf + of_nat i) = pp_row c j ! i" if "i < length (pp_row c j)" for i
    proof -
      have "i < 80" using that by simp
      then consider "i = j" | "i = 0" | "i = 1" | "i = 78" | "i = 79" | "2 \<le> i" "i < 78" "i \<noteq> j" by linarith
      then show ?thesis using at [of i] pp_row_nth [of i j c] assms(1-3) that by cases (auto simp: pp_walls_def)
    qed
    show "n (buf + of_nat (length (pp_row c j))) = 0" using w by (simp add: pp_walls_def)
    have "set (pp_row c j) \<subseteq> insert c {32, 124, 10}" using set_update_subset_insert [of pp_blank j c] by (auto simp: pp_row_def pp_blank_facts(2))
    then show "0 \<notin> set (pp_row c j)" using assms(4) by auto
  qed
  show "n b = m b" if "b \<notin> span buf 81"
  proof -
    have "b \<noteq> buf + of_nat j" "b \<notin> span buf 78" using that assms(3) span_of_nat [of j 81 buf] span_sub [of 0 78 81 buf] by auto
    then show ?thesis by (simp add: n_def fill_spaces_outside)
  qed
qed

definition pp_round_text :: "u8 \<Rightarrow> u8 list" where
  "pp_round_text c = concat (map (pp_row c) ([2..<78] @ rev [2..<78]))"

context clock_kernel
begin

lemma draw_frame_prints:
  assumes "ok s" and "clock fd s" and buf: "user_run buf 81" and g: "user_run garbage 4" and w: "pp_walls buf (mem s)"
    and j: "2 \<le> j" "j < 78" and c: "c \<noteq> 0"
  shows "\<exists>t. draw_frame K buf garbage (of_nat fd) c j s = Ok t \<and> ok t \<and> clock fd t \<and> pp_walls buf (mem t) \<and>
    shown t = fold term_putc (pp_row c j) (shown s)"
proof -
  define m where "m = (fill_spaces buf 2 78 (mem s))(buf + of_nat j := c)"
  note f = pp_frame [OF w j c, folded m_def]
  have out: "m a = mem s a" if "\<not> in_user a" for a using f(3) user_span [OF buf] that by blast
  have u: "ok (s\<lparr>mem := m\<rparr>)" "clock fd (s\<lparr>mem := m\<rparr>)" "shown (s\<lparr>mem := m\<rparr>) = shown s"
    using own_clock [OF assms(1,2), of m] user_shown [OF assms(1) out] out by auto
  have r: "user_run buf (Suc (length (pp_row c j)))" "user_run buf (length (pp_row c j))" using user_run_le [OF buf] by simp_all
  obtain t where t: "ece391_fdputs K 1 buf (s\<lparr>mem := m\<rparr>) = Ok t" "ok t" "same_user (s\<lparr>mem := m\<rparr>) t"
      "shown t = fold term_putc (pp_row c j) (shown s)"
    using fdputs_prints [OF u(1) _ r(1)] f(1) u(3) by auto
  then obtain r' where "K SYS_WRITE 1 buf (of_nat (length (pp_row c j))) (s\<lparr>mem := m\<rparr>) = Ok (r', t)"
    using strlen_user [OF f(1)] by (auto simp: ece391_fdputs_def ece391_write_def obind_eq_Ok)
  then have ct: "clock fd t" using write_clock [OF u(1,2) r(2)] by blast
  obtain v where v: "K SYS_READ (of_nat fd) garbage 4 t = Ok (0, v)" "ok v" "clock fd v" "shown v = shown t" "same_user t v"
    using wait_tick [OF t(2) ct g] by blast
  have "mem v (buf + of_nat i) = m (buf + of_nat i)" if "i < 81" for i
    using t(3) v(5) user_run_at [OF buf that] by (simp add: same_user_def)
  from this [of 0] this [of 1] this [of 78] this [of 79] this [of 80] have "pp_walls buf (mem v)" using f(2) by (simp add: pp_walls_def)
  then show ?thesis using t v by (simp add: draw_frame_def m_def [symmetric] ece391_read_def Let_def)
qed

lemma draw_frames_print:
  assumes "ok s" and "clock fd s" and buf: "user_run buf 81" and g: "user_run garbage 4" and "pp_walls buf (mem s)"
    and "set js \<subseteq> {2..<78}" and c: "c \<noteq> 0"
  shows "\<exists>t. draw_frames K buf garbage (of_nat fd) c js s = Ok t \<and> ok t \<and> clock fd t \<and> pp_walls buf (mem t) \<and>
    shown t = fold term_putc (concat (map (pp_row c) js)) (shown s)"
  using assms(1,2,5,6)
proof (induction js arbitrary: s)
  case (Cons j js)
  obtain t where t: "draw_frame K buf garbage (of_nat fd) c j s = Ok t" "ok t" "clock fd t" "pp_walls buf (mem t)"
      "shown t = fold term_putc (pp_row c j) (shown s)"
    using draw_frame_prints [OF Cons.prems(1,2) buf g Cons.prems(3) _ _ c, of j] Cons.prems(4) by auto
  then show ?case using Cons.IH [OF t(2-4)] Cons.prems(4) by auto
qed simp

lemma pingpong_round_prints:
  assumes "ok s" and "clock fd s" and "user_run buf 81" and "user_run garbage 4" and "pp_walls buf (mem s)" and "c \<noteq> 0"
  shows "\<exists>t. pingpong_round K buf garbage (of_nat fd) (c, s) = Ok (if c = 90 then 65 else c + 1, t) \<and> ok t \<and> clock fd t \<and>
    pp_walls buf (mem t) \<and> shown t = fold term_putc (pp_round_text c) (shown s)"
proof -
  obtain t where t: "draw_frames K buf garbage (of_nat fd) c [2..<78] s = Ok t" "ok t" "clock fd t" "pp_walls buf (mem t)"
      "shown t = fold term_putc (concat (map (pp_row c) [2..<78])) (shown s)"
    using draw_frames_print [OF assms(1-5) _ assms(6), of "[2..<78]"] by auto
  obtain u where u: "draw_frames K buf garbage (of_nat fd) c (rev [2..<78]) t = Ok u" "ok u" "clock fd u" "pp_walls buf (mem u)"
      "shown u = fold term_putc (concat (map (pp_row c) (rev [2..<78]))) (shown t)"
    using draw_frames_print [OF t(2,3) assms(3,4) t(4) _ assms(6), of "rev [2..<78]"] by auto
  show ?thesis using t(1,5) u by (simp add: pingpong_round_def pp_round_text_def del: upt_rec_numeral)
qed

end

section \<open>The kernel's clock\<close>

definition user_page :: "'a kernel_state_scheme \<Rightarrow> u32" where
  "user_page s = video_buff (get_tty_number s)"

text \<open>The interrupts that come in while a process waits are those of the clock, and at least one comes in.\<close>

definition user_clock :: "('a kernel_state_scheme \<Rightarrow> 'a kernel_state_scheme env) \<Rightarrow> nat \<Rightarrow> 'a kernel_state_scheme \<Rightarrow> bool" where
  "user_clock W fd s \<longleftrightarrow> fd \<in> {2..<8} \<and> flags (fds (this_pcb s) fd) = IN_USE \<and> jumptable (fds (this_pcb s) fd) = Some Rtc_Fops \<and>
     active_term s < 3 \<and> disjoint_runs VIDEO 4096 (bb_start s) (fs_len s) \<and>
     (\<forall>s. irqs (W s) \<noteq> [] \<and> (\<forall>h\<in>set (irqs (W s)). \<exists>d. h = clock_interruption d))"

lemma clock_mem:
  assumes "active_term s < 3" and "4096 \<le> unat (b - VIDEO)"
  shows "mem (clock_interruption d s) b = mem s b"
  using assms memcpy_video [OF assms(1)]
  by (simp add: clock_interruption_def Let_def case_prod_beta update_vid_shows inb_def outb_def cli_def sti_def send_eoi_def blit_outside)

lemma clock_fields:
  fixes s :: "'a kernel_state_scheme"
  shows "screen_x (clock_interruption d s) = screen_x s" "screen_y (clock_interruption d s) = screen_y s"
    "active_term (clock_interruption d s) = active_term s" "pcbs (clock_interruption d s) = pcbs s"
    "kernel_stack_bottom (clock_interruption d s) = kernel_stack_bottom s" "bb_start (clock_interruption d s) = bb_start s"
    "fs_dentries (clock_interruption d s) = fs_dentries s" "inodes (clock_interruption d s) = inodes s"
    "data_start (clock_interruption d s) = data_start s" "num_dentries (clock_interruption d s) = num_dentries s"
    "num_inodes (clock_interruption d s) = num_inodes s" "num_datablocks (clock_interruption d s) = num_datablocks s"
  by (simp_all add: clock_interruption_def Let_def case_prod_beta update_vid_def inb_def outb_def cli_def sti_def send_eoi_def)

lemma off_video:
  assumes "in_user b \<or> b \<in> span (video_buff t) 4000" and "t < 3"
  shows "4096 \<le> unat (b - VIDEO)"
  using assms(1)
proof
  assume "in_user b"
  then show ?thesis by (auto simp: in_user_def VIDEO_def word_le_nat_alt word_less_nat_alt unat_sub_if_size word_size)
next
  assume "b \<in> span (video_buff t) 4000"
  then obtain i where "i < 4000" "b = video_buff t + of_nat i" by (auto simp: span_eq)
  then show ?thesis using disjoint_runs_outside [OF video_disjoint [OF assms(2)], of i] by simp
qed

text \<open>The clock interrupt, and the end of the wait, leave the process and its screen memory as they were.\<close>

definition undisturbed :: "'a kernel_state_scheme \<Rightarrow> 'a kernel_state_scheme \<Rightarrow> bool" where
  "undisturbed s t \<longleftrightarrow> same_image s t \<and> same_process s t \<and> screen_x t = screen_x s \<and> screen_y t = screen_y s \<and>
     active_term t = active_term s \<and> (\<forall>b. 4096 \<le> unat (b - VIDEO) \<longrightarrow> mem t b = mem s b)"

lemma undisturbed_facts:
  assumes "user_ok s" and u: "undisturbed s t"
  shows "user_ok t" "user_screen t = user_screen s" "same_user s t" "user_page t = user_page s"
    "b \<in> span (user_page s) 4000 \<Longrightarrow> mem t b = mem s b"
proof -
  have s: "get_tty_number s < 3" "on_screen (get_tty_number s) s" using assms(1) by (auto simp: user_ok_def)
  have tt: "get_tty_number t = get_tty_number s" using u unfolding undisturbed_def same_process_def get_tty_number_def by metis
  have "on_screen (get_tty_number s) t" using s(2) u by (simp add: on_screen_def undisturbed_def)
  then show "user_ok t" using ok_carried [of s t] u assms(1) by (simp add: undisturbed_def)
  show p: "mem t b = mem s b" if "b \<in> span (user_page s) 4000" for b
    using off_video [of b, OF _ s(1)] that u by (simp add: user_page_def undisturbed_def)
  show "same_user s t" using off_video [OF _ s(1)] u by (simp add: same_user_def undisturbed_def)
  show "user_page t = user_page s" by (simp add: user_page_def tt)
  have "grid (mem t) (user_page s) = grid (mem s) (user_page s)" by (rule grid_cong) (use p in auto)
  then show "user_screen t = user_screen s" using u by (simp add: user_screen_def tt abs_term_def user_page_def undisturbed_def)
qed

lemma undisturbed_trans: "undisturbed s t \<Longrightarrow> undisturbed t u \<Longrightarrow> undisturbed s u"
  unfolding undisturbed_def same_process_def using same_image_trans by metis

lemma user_wait:
  fixes s :: "'a kernel_state_scheme"
  assumes ok: "user_ok s" and c: "user_clock W fd s" and a: "user_run a 4"
  shows "\<exists>t. sys_read (W s) (of_nat fd) a 4 s = Ok (0, t) \<and> undisturbed s t \<and> user_clock W fd t"
proof -
  have fd: "fd < 8" "2 \<le> fd" "flags (fds (this_pcb s) fd) = IN_USE" "jumptable (fds (this_pcb s) fd) = Some Rtc_Fops"
    and act: "active_term s < 3" and dis: "disjoint_runs VIDEO 4096 (bb_start s) (fs_len s)"
    using c by (auto simp: user_clock_def)
  have "irqs (W s) \<noteq> []" "\<forall>h\<in>set (irqs (W s)). \<exists>d. h = clock_interruption d" using c by (auto simp: user_clock_def)
  then obtain d hs where W: "irqs (W s) = clock_interruption d # hs" by (cases "irqs (W s)") auto
  have st: "this_pcb_addr (sti s) = this_pcb_addr s" "pcbs (sti s) = pcbs s" "active_term (sti s) = active_term s"
    by (simp_all add: this_pcb_addr_def sti_def)
  define u where "u = (if interrupt_occurred (sti s) = 0 then clock_interruption d (sti s) else sti s)"
  have stops: "spin_while w hs x = Some x" if "\<not> w x" for w hs and x :: "'a kernel_state_scheme" using that by (cases hs) simp_all
  have "interrupt_occurred (clock_interruption d (sti s)) = 1" using clock_interruption_effect(1) [of "sti s" d] act st(3) by simp
  then have "spin_while (\<lambda>s. interrupt_occurred s = 0) (irqs (W s)) (sti s) = Some u" using stops by (simp add: W u_def)
  then have r: "rtc_read (irqs (W s)) (sti s) = Some (0, u\<lparr>interrupt_occurred := 0\<rparr>)" by (simp add: rtc_read_def)
  define t where "t = update_pcb (this_pcb_addr s) (set_fd fd (\<lambda>d. d\<lparr>fileposition := fileposition d + 0\<rparr>)) (u\<lparr>interrupt_occurred := 0\<rparr>)"
  have a0: "a \<noteq> NULL_PTR" using a by (auto simp: user_run_def NULL_PTR_def)
  have call: "sys_read (W s) (of_nat fd) a 4 s = Ok (0, t)"
    using fd a0 r by (simp add: sys_read_def st Let_def bad_fd_def small_fd IN_USE_def NOT_IN_USE_def fops_read_def t_def)
  have um: "mem u b = mem s b" if "4096 \<le> unat (b - VIDEO)" for b
    using clock_mem [OF _ that, of "sti s" d] act by (simp add: u_def sti_def)
  have tf: "screen_x t = screen_x s" "screen_y t = screen_y s" "active_term t = active_term s" "this_pcb_addr t = this_pcb_addr s"
      "pcbs t = pcbs s" "mem t = mem u" "bb_start t = bb_start s" "fs_dentries t = fs_dentries s" "inodes t = inodes s"
      "data_start t = data_start s" "num_dentries t = num_dentries s" "num_inodes t = num_inodes s" "num_datablocks t = num_datablocks s"
    using clock_fields [of d "sti s"] by (auto simp: t_def u_def this_pcb_addr_def update_pcb_def set_fd_def sti_def)
  have "same_image s t" using um disjoint_runs_outside [OF dis] by (simp add: same_image_def tf)
  then have "undisturbed s t" using um by (simp add: undisturbed_def same_process_def tf)
  moreover have "user_clock W fd t" using c by (simp add: user_clock_def tf fs_len_def)
  ultimately show ?thesis using call by blast
qed

lemma user_clock_carried:
  assumes "user_clock W fd s" and "same_image s t" and "same_process s t" and "active_term t = active_term s"
  shows "user_clock W fd t"
  using assms(1,3,4) same_imageD [OF assms(2)] unfolding user_clock_def same_process_def by auto

lemma active_fold_putc: "active_term (fold (\<lambda>c. putc c tty) cs s) = active_term s"
  by (induction cs arbitrary: s) (simp_all add: screen_op_defs)

interpretation kernel_clock: clock_kernel "int80 W run" user_ok user_screen "user_clock W" user_page
  for W :: "'a kernel_state_scheme \<Rightarrow> 'a kernel_state_scheme env" and run
proof
  fix s :: "'a kernel_state_scheme" and fd a
  assume s: "user_ok s" "user_clock W fd s" "user_run a 4"
  then obtain t where t: "sys_read (W s) (of_nat fd) a 4 s = Ok (0, t)" "undisturbed s t" "user_clock W fd t" using user_wait by blast
  then show "\<exists>t. int80 W run SYS_READ (of_nat fd) a 4 s = Ok (0, t) \<and> user_ok t \<and> user_clock W fd t \<and> user_screen t = user_screen s \<and>
      same_user s t \<and> user_page t = user_page s \<and> (\<forall>b\<in>span (user_page s) 4000. mem t b = mem s b)"
    using undisturbed_facts [OF s(1) t(2)] by auto
next
  fix s t :: "'a kernel_state_scheme" and fd a n r
  assume s: "user_ok s" "user_clock W fd s" "user_run a n" and "int80 W run SYS_WRITE 1 a (of_nat n) s = Ok (r, t)"
  then have t: "t = fold (\<lambda>c. putc c (get_tty_number s)) (bytes (ptr (mem s) a) n) s" using user_write [OF s(1,3)] by simp
  have "active_term t = active_term s" unfolding t by (rule active_fold_putc)
  then show "user_clock W fd t" by (rule user_clock_carried [OF s(2) terminal_write_carried(1,2) [OF s(1) t]])
next
  fix s :: "'a kernel_state_scheme" and fd m
  assume s: "user_ok s" "user_clock W fd s" and m: "\<And>a. \<not> in_user a \<Longrightarrow> a \<notin> span (user_page s) 4000 \<Longrightarrow> m a = mem s a"
  have f: "get_tty_number s < 3" "on_screen (get_tty_number s) s" "disjoint_runs 0x08000000 0x400000 (bb_start s) (fs_len s)"
      "disjoint_runs (user_page s) 4000 (bb_start s) (fs_len s)"
    using s(1) by (auto simp: user_ok_def user_page_def)
  have "m (bb_start s + of_nat i) = mem s (bb_start s + of_nat i)" if "i < fs_len s" for i
  proof (rule m)
    have "0x400000 \<le> unat (bb_start s + of_nat i - 0x08000000)" using disjoint_runs_outside [OF f(3) that] .
    then show "\<not> in_user (bb_start s + of_nat i)"
      by (auto simp: in_user_def word_le_nat_alt word_less_nat_alt unat_sub_if_size word_size)
    have "4000 \<le> unat (bb_start s + of_nat i - user_page s)" using disjoint_runs_outside [OF f(4) that] .
    then show "bb_start s + of_nat i \<notin> span (user_page s) 4000" by (auto simp: span_eq unat_of_nat_u32)
  qed
  then have im: "same_image s (s\<lparr>mem := m\<rparr>)" by (simp add: same_image_def)
  have p: "same_process s (s\<lparr>mem := m\<rparr>)" by (simp add: same_process_def this_pcb_addr_def)
  have "user_ok (s\<lparr>mem := m\<rparr>)" by (rule ok_carried [OF im p s(1)]) (use f(2) in \<open>simp add: on_screen_def\<close>)
  moreover have "user_clock W fd (s\<lparr>mem := m\<rparr>)" by (rule user_clock_carried [OF s(2) im p]) simp
  ultimately show "user_ok (s\<lparr>mem := m\<rparr>) \<and> user_clock W fd (s\<lparr>mem := m\<rparr>) \<and> user_page (s\<lparr>mem := m\<rparr>) = user_page s"
    by (simp add: user_page_def get_tty_number_def this_pcb_addr_def)
qed

end
