(* ===== verification/User_Animation.thy ===== *)
theory User_Animation
  imports User_Clock
begin

text \<open>
  What the fish program and \<open>pingpong\<close> do on this kernel.
\<close>

section \<open>A process with a clock\<close>

definition sample_ticks :: "kernel_state \<Rightarrow> kernel_state env" where
  "sample_ticks = (\<lambda>_. sample_env\<lparr>irqs := [clock_interruption (\<lambda>_ _. 0)]\<rparr>)"

definition sample_fish :: fish_frame where
  "sample_fish = \<lparr>blink_array = 0x8100000, mp1_list_head = 0x8110000, vmem_base_addr = 0x8110010, add_temp = 0x83F0000, find_temp = 0x83F0020,
     c0_var = 0x83F0030, c1_var = 0x83F0031, frame_blink = 0x83F0100, garbage_var = 0x83F0040, ret_val_var = 0x83F0044, main_blink = 0x83F0200\<rparr>"

text \<open>Its page holds the pointer to screen memory, a structure to be added at location 540, and the row of the game.\<close>

definition sample_clock_mem :: memory where
  "sample_clock_mem = (set_walls 0x8200000 (fill_spaces 0x8200000 0 81 small_image))(0x8110011 := 0x10, 0x83F0100 := 0x1C, 0x83F0101 := 2,
     0x83F0102 := 73, 0x83F0103 := 77, 0x83F0104 := 7, 0x83F0106 := 6)"

definition sample_clock :: kernel_state where
  "sample_clock = sample_user\<lparr>mem := sample_clock_mem, active_term := 0,
     pcbs := (\<lambda>_. ((sample_pcb 1)\<lparr>argbuf := lit ''shell'', fds := (fds (sample_pcb 1))(2 := sample_fd (Some Rtc_Fops) IN_USE)\<rparr>))\<rparr>"

lemma sample_clock_outside: "\<not> in_user a \<Longrightarrow> sample_clock_mem a = small_image a"
proof -
  assume a: "\<not> in_user a"
  have "user_run 0x8200000 81" by (simp add: user_run_def)
  then have "a \<notin> span 0x8200000 81" using user_span a by blast
  moreover from this have "a \<noteq> 0x8200000 + of_nat i" if "i < 81" for i using span_of_nat [OF that] by metis
  from this [of 80] this [of 79] this [of 78] this [of 1] have "a \<noteq> 0x8200050" "a \<noteq> 0x820004F" "a \<noteq> 0x820004E" "a \<noteq> 0x8200001" by simp_all
  ultimately show ?thesis
    using a by (auto simp: sample_clock_mem_def set_walls_def fill_spaces_outside in_user_def)
qed

lemma sample_clock_facts:
  "user_ok sample_clock" "user_clock sample_ticks 2 sample_clock" "user_page sample_clock = 0x1000" "mem sample_clock = sample_clock_mem"
proof -
  have out: "mem sample_clock a = mem sample_user a" if "\<not> in_user a" for a
    using sample_clock_outside [OF that] by (simp add: sample_clock_def sample_user_pcb)
  have "same_image sample_user (sample_user\<lparr>mem := sample_clock_mem\<rparr>)"
    by (rule user_store(1) [OF sample_user_facts(1)]) (simp add: sample_clock_outside sample_user_pcb)
  then have im: "same_image sample_user sample_clock" by (simp add: same_image_def sample_clock_def)
  show "user_ok sample_clock"
    by (rule descriptor_carried(1) [OF sample_user_facts(1) im out])
      (simp_all add: sample_clock_def sample_user_pcb(1) sample_pcb_def)
  have b: "bb_start sample_user = 0x410000" "fs_len sample_user = 12288"
    using sample_user_image small_mounted_facts(2) [OF sample_user_image] by (simp_all add: small_mounted_def)
  show "user_clock sample_ticks 2 sample_clock"
    using same_imageD(1,8) [OF im]
    by (simp add: user_clock_def b disjoint_runs_def VIDEO_def sample_ticks_def) (auto simp: sample_clock_def sample_fd_def)
  show "user_page sample_clock = 0x1000"
    by (simp add: user_page_def get_tty_number_def sample_clock_def sample_pcb_def video_buff_def video_defs)
  show "mem sample_clock = sample_clock_mem" by (simp add: sample_clock_def)
qed

text \<open>Outside the row of the game.\<close>

lemma sample_clock_rest:
  assumes "0x8100000 \<le> unat a" and "unat a < 0x8200000 \<or> 0x8200051 \<le> unat a"
  shows "sample_clock_mem a = ((\<lambda>_. 0)(0x8110011 := 0x10, 0x83F0100 := 0x1C, 0x83F0101 := 2, 0x83F0102 := 73, 0x83F0103 := 77,
    0x83F0104 := 7, 0x83F0106 := 6)) a"
proof -
  have "0x8200000 \<le> unat x \<and> unat x < 0x8200051" if "x \<in> span 0x8200000 81" for x
    using that unat_offset [of "0x8200000" 81] by (auto simp: span_eq)
  then have "a \<notin> span 0x8200000 81" using assms(2) by force
  moreover have "small_image a = 0" using assms(1) by (intro small_image_zero) auto
  ultimately show ?thesis
    using assms(2) by (auto simp: sample_clock_mem_def set_walls_def fill_spaces_outside)
qed

lemma sample_clock_low: "0x8100000 \<le> unat a \<Longrightarrow> unat a < 0x8110000 \<Longrightarrow> sample_clock_mem a = 0"
  using sample_clock_rest [of a] by auto

lemma sample_fish_facts:
  "fish_ready sample_fish 0x1000" "table_in (fish_layout.truncate sample_fish) 0x1000 sample_clock_mem []"
  "span (add_temp (fish_layout.truncate sample_fish)) 16 \<inter> span 0x83F0100 16 = {}"
proof -
  show "fish_ready sample_fish 0x1000"
    by (simp add: fish_ready_def layout_ok_def fish_layout.defs sample_fish_def user_run_def span_disjoint)
  show "span (add_temp (fish_layout.truncate sample_fish)) 16 \<inter> span 0x83F0100 16 = {}"
    by (simp add: fish_layout.defs sample_fish_def span_disjoint)
  let ?L = "fish_layout.truncate sample_fish"
  have "load16 sample_clock_mem p = 0" if p: "p \<in> slots_of ?L" for p
  proof -
    obtain i where i: "i < 2000" "p = 0x8100000 + 16 * of_nat i" using p by (auto simp: slots_of_def fish_layout.defs sample_fish_def)
    have u: "unat (0x8100000 + of_nat (16 * i) :: u32) = 0x8100000 + 16 * i" "unat (0x8100000 + of_nat (16 * i + 1) :: u32) = 0x8100000 + 16 * i + 1"
      using unat_offset [of "0x8100000" 32001 "16 * i"] unat_offset [of "0x8100000" 32001 "16 * i + 1"] i(1) by simp_all
    have "p = 0x8100000 + of_nat (16 * i)" "p + 1 = 0x8100000 + of_nat (16 * i + 1)" using i(2) by simp_all
    then have "sample_clock_mem p = 0" "sample_clock_mem (p + 1) = 0" using u i(1) by (auto intro!: sample_clock_low simp del: of_nat_add of_nat_mult)
    then show ?thesis by (simp add: load16_def)
  qed
  moreover have "load32 sample_clock_mem 0x8110000 = 0" "load32 sample_clock_mem 0x8110010 = 0x1000"
    by (simp_all add: load32_def sample_clock_rest)
  ultimately show "table_in ?L 0x1000 sample_clock_mem []"
    by (simp add: table_in_def) (simp add: fish_layout.defs sample_fish_def)
qed

section \<open>Properties of the animations\<close>

text \<open>
  C11. The fish program waiting for \<open>n\<close> ticks of this kernel's clock: every entry of its table goes through \<open>n\<close> steps of its
  blinking, and the screen memory of the process shows what the entries drew, in the order of the list.
\<close>

theorem fish_animates:
  assumes "user_ok s" and "user_clock W fd s" and "fish_ready L (user_page s)" and "table_in (fish_layout.truncate L) (user_page s) (mem s) ps"
  shows "\<exists>t. fish_wait (int80 W run) L (of_nat fd) n s = Ok t \<and> user_ok t \<and> table_in (fish_layout.truncate L) (user_page s) (mem t) ps \<and>
    (table_of (mem t) ps, cells (user_page s) (mem t)) = animate n (table_of (mem s) ps, cells (user_page s) (mem s))"
  using kernel_clock.fish_wait_ticks [OF assms] by blast

text \<open>
  A round of \<open>pingpong\<close> on this kernel prints 152 rows, the letter once at every position on its way out and once on its way
  back between the walls, waits for the clock after each, and goes on to the next letter of the alphabet.
\<close>

theorem pingpong_bounces:
  assumes "user_ok s" and "user_clock W fd s" and "user_run buf 81" and "user_run garbage 4" and "pp_walls buf (mem s)" and "c \<noteq> 0"
  shows "\<exists>t. pingpong_round (int80 W run) buf garbage (of_nat fd) (c, s) = Ok (if c = 90 then 65 else c + 1, t) \<and> user_ok t \<and>
    user_clock W fd t \<and> pp_walls buf (mem t) \<and> user_screen t = fold term_putc (pp_round_text c) (user_screen s)"
  by (rule kernel_clock.pingpong_round_prints [OF assms])

theorem pingpong_bounces_witness:
  "\<exists>t. pingpong_round (int80 sample_ticks (\<lambda>_ _. No_Return)) 0x8200000 0x83F0040 2 (65, sample_clock) = Ok (66, t) \<and>
    user_screen t = fold term_putc (pp_round_text 65) (user_screen sample_clock)"
proof -
  have "user_run 0x8200000 81" "user_run 0x83F0040 4" by (simp_all add: user_run_def)
  moreover have "pp_walls 0x8200000 (mem sample_clock)"
    using fill_spaces_at [of 0 81 0 "0x8200000" small_image]
    by (simp add: pp_walls_def sample_clock_facts(4) sample_clock_mem_def set_walls_def)
  ultimately show ?thesis using pingpong_bounces [OF sample_clock_facts(1,2), of "0x8200000" "0x83F0040" 65 "\<lambda>_ _. No_Return"] by auto
qed

text \<open>The sample process with one entry in the table.\<close>

lemma sample_added:
  defines "b \<equiv> get_blink sample_clock_mem 0x83F0100"
  obtains p m where "mp1_ioctl_add (fish_layout.truncate sample_fish) 0x83F0100 sample_clock_mem = (0, m)"
    and "table_in (fish_layout.truncate sample_fish) 0x1000 m [p]" and "table_of m [p] = [fresh b]"
    and "user_ok (sample_clock\<lparr>mem := m\<rparr>)" and "user_clock sample_ticks 2 (sample_clock\<lparr>mem := m\<rparr>)" and "user_page (sample_clock\<lparr>mem := m\<rparr>) = 0x1000"
proof -
  let ?L = "fish_layout.truncate sample_fish"
  have ok: "layout_ok ?L 0x1000" using sample_fish_facts(1) by (simp add: fish_ready_def)
  have "location b = 540" by (simp add: b_def load16_def sample_clock_rest)
  then have "location b < 2000" "location b \<noteq> 0" by simp_all
  then obtain p m where m: "mp1_ioctl_add ?L 0x83F0100 sample_clock_mem = (0, m)" "table_in ?L 0x1000 m [p]"
      "table_of m [p] = fresh b # table_of sample_clock_mem []" "\<And>x. x \<notin> add_bytes ?L 0x1000 \<Longrightarrow> m x = sample_clock_mem x"
    using add_succeeds [OF ok sample_fish_facts(2,3)] unfolding b_def by auto
  have "user_run 0x8100000 32000" "user_run 0x8110000 4" "user_run 0x83F0000 16" by (simp_all add: user_run_def)
  then have "m a = mem sample_clock a" if "\<not> in_user a" "a \<notin> span (user_page sample_clock) 4000" for a
    using that m(4) [of a] user_span by (auto simp: add_bytes_def sample_clock_facts(3,4) fish_layout.defs sample_fish_def)
  note own = kernel_clock.own_clock [OF sample_clock_facts(1,2) this]
  show thesis by (rule that [OF m(1,2)]) (use m(3) own sample_clock_facts(3) in \<open>simp_all add: table_of_def\<close>)
qed

theorem fish_animates_witness:
  "\<exists>p m t. mp1_ioctl_add (fish_layout.truncate sample_fish) 0x83F0100 sample_clock_mem = (0, m) \<and>
    fish_wait (int80 sample_ticks (\<lambda>_ _. No_Return)) sample_fish 2 200 (sample_clock\<lparr>mem := m\<rparr>) = Ok t \<and>
    (table_of (mem t) [p], cells 0x1000 (mem t)) = animate 200 ([fresh (get_blink sample_clock_mem 0x83F0100)], cells 0x1000 m)"
proof -
  obtain p m where m: "mp1_ioctl_add (fish_layout.truncate sample_fish) 0x83F0100 sample_clock_mem = (0, m)"
      "table_in (fish_layout.truncate sample_fish) 0x1000 m [p]" "table_of m [p] = [fresh (get_blink sample_clock_mem 0x83F0100)]"
      "user_ok (sample_clock\<lparr>mem := m\<rparr>)" "user_clock sample_ticks 2 (sample_clock\<lparr>mem := m\<rparr>)" "user_page (sample_clock\<lparr>mem := m\<rparr>) = 0x1000"
    using sample_added by blast
  show ?thesis
    using fish_animates [OF m(4,5), of sample_fish "[p]" "\<lambda>_ _. No_Return" 200] sample_fish_facts(1) m(1,2,3,6) by auto
qed

text \<open>
  C12. The list of \<open>blink.S\<close> in its array of slots is a table of blinking characters: an addition enters the structure in front,
  freshly started, and shows its character; it fails and changes nothing of the table when the location is off the screen or all slots are
  taken; a removal deletes the newest entry at its location, and fails when there is none. Locations are not zero.
\<close>

theorem blink_table_refines:
  assumes "layout_ok L v" and "table_in L v m ps" and "span (add_temp L) 16 \<inter> span arg 16 = {}" and "b = get_blink m arg" and "location b \<noteq> 0"
  shows "(location b < 2000 \<and> length ps < 2000 \<longrightarrow> (\<exists>p t. mp1_ioctl L arg RTC_ADD m = Ok (0, t) \<and> table_in L v t (p # ps) \<and>
       table_of t (p # ps) = fresh b # table_of m ps \<and> cells v t = (cells v m)(location b := on_char b))) \<and>
    (2000 \<le> location b \<or> length ps = 2000 \<longrightarrow> (\<exists>t. mp1_ioctl L arg RTC_ADD m = Ok (-1, t) \<and> table_in L v t ps \<and> table_of t ps = table_of m ps)) \<and>
    (\<forall>loc. ucast loc \<in> location ` set (table_of m ps) \<longrightarrow> (\<exists>qs t. mp1_ioctl L loc RTC_REMOVE m = Ok (0, t) \<and> table_in L v t qs \<and>
       table_of t qs = del_first (ucast loc) (table_of m ps))) \<and>
    (\<forall>loc. ucast loc \<notin> location ` set (table_of m ps) \<longrightarrow> mp1_ioctl L loc RTC_REMOVE m = Ok (-1, m))"
proof (intro conjI allI impI)
  assume "location b < 2000 \<and> length ps < 2000"
  then show "\<exists>p t. mp1_ioctl L arg RTC_ADD m = Ok (0, t) \<and> table_in L v t (p # ps) \<and>
      table_of t (p # ps) = fresh b # table_of m ps \<and> cells v t = (cells v m)(location b := on_char b)"
    using add_succeeds [OF assms(1-3)] assms(4,5) by (auto simp: mp1_ioctl_def)
next
  assume "2000 \<le> location b \<or> length ps = 2000"
  then obtain t where t: "mp1_ioctl_add L arg m = (-1, t)" "\<And>x. x \<notin> span (add_temp L) 16 \<Longrightarrow> t x = m x"
    using add_fails [OF assms(1-3)] assms(4) by blast
  then show "\<exists>t. mp1_ioctl L arg RTC_ADD m = Ok (-1, t) \<and> table_in L v t ps \<and> table_of t ps = table_of m ps"
    using table_carried [OF assms(1,2), of t] table_apart(1) [OF assms(1)] by (fastforce simp: mp1_ioctl_def)
next
  fix loc :: u32
  assume "ucast loc \<in> location ` set (table_of m ps)"
  then obtain p where "find (\<lambda>q. load16 m q = ucast loc) ps = Some p"
    by (cases "find (\<lambda>q. load16 m q = ucast loc) ps") (auto simp: find_None_iff table_of_def)
  then obtain xs ys where "ps = xs @ p # ys" "\<forall>q\<in>set xs. load16 m q \<noteq> ucast loc" "load16 m p = ucast loc" by (elim find_split)
  then show "\<exists>qs t. mp1_ioctl L loc RTC_REMOVE m = Ok (0, t) \<and> table_in L v t qs \<and> table_of t qs = del_first (ucast loc) (table_of m ps)"
    using remove_found [OF assms(1), of m xs p ys loc] assms(2) by (fastforce simp: mp1_ioctl_def rtc_commands)
next
  fix loc :: u32
  assume "ucast loc \<notin> location ` set (table_of m ps)"
  then have "find (\<lambda>q. load16 m q = ucast loc) ps = None" by (force simp: find_None_iff table_of_def image_image image_iff)
  then show "mp1_ioctl L loc RTC_REMOVE m = Ok (-1, m)"
    using find_helper_eq [OF assms(2), of loc] by (simp add: mp1_ioctl_def rtc_commands mp1_ioctl_remove_def)
qed

theorem blink_table_refines_witness:
  "\<exists>p t. mp1_ioctl (fish_layout.truncate sample_fish) 0x83F0100 RTC_ADD sample_clock_mem = Ok (0, t) \<and>
     table_of t [p] = [fresh (get_blink sample_clock_mem 0x83F0100)] \<and>
     mp1_ioctl (fish_layout.truncate sample_fish) 200 RTC_REMOVE sample_clock_mem = Ok (-1, sample_clock_mem)"
proof -
  have "layout_ok (fish_layout.truncate sample_fish) 0x1000" using sample_fish_facts(1) by (simp add: fish_ready_def)
  moreover have "location (get_blink sample_clock_mem 0x83F0100) = 540" by (simp add: load16_def sample_clock_rest)
  ultimately show ?thesis
    using blink_table_refines [OF _ sample_fish_facts(2,3) refl] by (auto simp: table_of_def)
qed

end
