(* ===== verification/Emulate.thy ===== *)
theory Emulate
  imports Blink_Table
begin

text \<open>
  The system calls emulated on Linux, \<open>syscalls/ece391emulate.c\<close>: the same interface as the stubs of
  \<open>ece391syscall.S\<close>, for a user program that is linked as a Linux program. Linux and its C library are a
  parameter; the string routines are those of \<open>User_Lib\<close>.
\<close>

section \<open>The host and the state of the file\<close>

text \<open>The static variables; \<open>mem_fd\<close> is the one inside \<open>ece391_vidmap\<close>.\<close>

record emulation = machine +
  start_esp :: u32
  dir_fd :: i32
  dir :: u32
  mem_fd :: i32

text \<open>
  What the file uses of Linux. \<open>h_readdir\<close> gives the address of the \<open>d_name\<close> of the next entry, \<open>h_execv\<close> the
  status with which the program it starts will end (\<open>None\<close> when it fails and returns), \<open>h_kill_self\<close> the status
  of a process that sends itself a signal, \<open>h_fork\<close> starts a child that does as it is told and ends with that
  status, and \<open>h_wait\<close> is given the value of the uninitialised variable that it overwrites.
\<close>

record 's host =
  h_int80 :: "'s kernel_call"
  h_fork :: "('s \<Rightarrow> u32) \<Rightarrow> 's \<Rightarrow> 's"
  h_execv :: "u32 \<Rightarrow> u32 list \<Rightarrow> 's \<Rightarrow> u32 option"
  h_kill_self :: "u32 \<Rightarrow> u32"
  h_wait :: "u32 \<Rightarrow> 's \<Rightarrow> u32 \<times> 's"
  h_opendir :: "u32 \<Rightarrow> 's \<Rightarrow> u32 \<times> 's"
  h_readdir :: "u32 \<Rightarrow> 's \<Rightarrow> u32 option \<times> 's"
  h_closedir :: "u32 \<Rightarrow> 's \<Rightarrow> 's"
  h_open :: "u32 \<Rightarrow> u32 \<Rightarrow> 's \<Rightarrow> i32 \<times> 's"
  h_close :: "i32 \<Rightarrow> 's \<Rightarrow> 's"
  h_mmap :: "u32 \<Rightarrow> u32 \<Rightarrow> u32 \<Rightarrow> u32 \<Rightarrow> i32 \<Rightarrow> u32 \<Rightarrow> 's \<Rightarrow> u32 \<times> 's"
  h_perror :: "u32 \<Rightarrow> 's \<Rightarrow> 's"

definition O_RDONLY :: u32 where "O_RDONLY = 0"
definition O_RDWR :: u32 where "O_RDWR = 2"
definition MAP_FAILED :: u32 where "MAP_FAILED = -1"

text \<open>The status macros of \<open>sys/wait.h\<close>.\<close>

definition WTERMSIG :: "u32 \<Rightarrow> u32" where "WTERMSIG stat = stat AND 0x7F"
definition WIFEXITED :: "u32 \<Rightarrow> bool" where "WIFEXITED stat \<longleftrightarrow> WTERMSIG stat = 0"
definition WEXITSTATUS :: "u32 \<Rightarrow> u32" where "WEXITSTATUS stat = drop_bit 8 (stat AND 0xFF00)"

section \<open>Calls that are passed on\<close>

definition do_call :: "('a emulation_scheme, 'b) host_scheme \<Rightarrow> 'a emulation_scheme kernel_call" where
  "do_call H number ebx ecx edx s =
     obind (h_int80 H number ebx ecx edx s) (\<lambda>(eax, s). Ok (if eax \<le> 0xFFFFC000 then eax else -1, s))"

definition emulated_halt where
  "emulated_halt H stat s = do_call H 1 stat 0 0 s"

definition linux_read where
  "linux_read H fd buf nbytes s = do_call H 3 fd buf nbytes s"

definition linux_write where
  "linux_write H fd buf nbytes s = do_call H 4 fd buf nbytes s"

definition linux_close where
  "linux_close H fd s = do_call H 6 fd 0 0 s"

text \<open>The code before \<open>main\<close> keeps the stack pointer, at which Linux has put the arguments.\<close>

definition emulated_start ::
  "('a emulation_scheme, 'b) host_scheme \<Rightarrow> u32 \<Rightarrow> ('a emulation_scheme \<Rightarrow> (i32 \<times> 'a emulation_scheme) outcome) \<Rightarrow>
   'a emulation_scheme \<Rightarrow> (i32 \<times> 'a emulation_scheme) outcome" where
  "emulated_start H esp main s = obind (main (s\<lparr>start_esp := esp\<rparr>)) (\<lambda>(eax, s). emulated_halt H eax s)"

section \<open>execute\<close>

partial_function (option) word_end :: "memory \<Rightarrow> u32 \<Rightarrow> u32 option" where
  "word_end m scan = (if 0 \<noteq> m scan \<and> 32 \<noteq> m scan \<and> 10 \<noteq> m scan then word_end m (scan + 1) else Some scan)"

partial_function (option) skip_blanks :: "memory \<Rightarrow> u32 \<Rightarrow> u32 option" where
  "skip_blanks m scan = (if 32 = m scan then skip_blanks m (scan + 1) else Some scan)"

text \<open>The array \<open>args\<close> of 1024 pointers, filled from the front, is the list of the pointers stored so far.\<close>

partial_function (option) parse_args :: "u32 \<Rightarrow> u32 list \<Rightarrow> memory \<Rightarrow> (u32 list \<times> memory) outcome option" where
  "parse_args scan args m =
     Option.bind (skip_blanks m scan) (\<lambda>scan.
       if 0 = m scan \<or> 10 = m scan then Some (Ok (args, m(scan := 0)))
       else if length args < 1024 then
         Option.bind (word_end m scan) (\<lambda>e.
           if 0 \<noteq> m e then parse_args (e + 1) (args @ [scan]) (m(e := 0)) else parse_args e (args @ [scan]) m)
       else Some (Fault Out_Of_Bounds))"

definition child_code :: "('a emulation_scheme, 'b) host_scheme \<Rightarrow> u32 \<Rightarrow> u32 list \<Rightarrow> 'a emulation_scheme \<Rightarrow> u32" where
  "child_code H path args s = (case h_execv H path args s of Some stat \<Rightarrow> stat | None \<Rightarrow> h_kill_self H 9)"

definition exit_code :: "u32 \<Rightarrow> i32" where
  "exit_code stat =
     (if WIFEXITED stat then WEXITSTATUS stat else if 9 = WTERMSIG stat then -1 else 256)"

definition emulated_execute ::
  "('a emulation_scheme, 'b) host_scheme \<Rightarrow> u32 \<Rightarrow> u32 \<Rightarrow> u32 \<Rightarrow> 'a emulation_scheme \<Rightarrow>
   (i32 \<times> 'a emulation_scheme) outcome" where
  "emulated_execute H buf stat0 command s =
     obind (ece391_strlen (mem s) command) (\<lambda>n.
       if 1023 < n then Ok (-1, s)
       else
         obind (ece391_strcpy (buf + 2) command ((mem s)(buf := 46, buf + 1 := 47))) (\<lambda>m.
         obind (of_loop (word_end m (buf + 2))) (\<lambda>scan.
         obind (if 0 \<noteq> m scan then loop_value (parse_args (scan + 1) [buf] (m(scan := 0))) else Ok ([buf], m)) (\<lambda>(args, m).
           if length args < 1024 then
             let (stat, s) = h_wait H stat0 (h_fork H (child_code H buf args) (s\<lparr>mem := m\<rparr>))
             in Ok (exit_code stat, s)
           else Fault Out_Of_Bounds))))"

section \<open>open and close\<close>

definition emulated_open ::
  "('a emulation_scheme, 'b) host_scheme \<Rightarrow> (string \<Rightarrow> u32) \<Rightarrow> u32 \<Rightarrow> 'a emulation_scheme \<Rightarrow>
   (i32 \<times> 'a emulation_scheme) outcome" where
  "emulated_open H L filename s =
     obind (ece391_strcmp (mem s) filename (L ''.'')) (\<lambda>r.
       if 0 = r then
         let (d, s) = h_opendir H (L ''.'') s;
             (fd, s) = h_open H (L ''/dev/null'') O_RDONLY (s\<lparr>dir := d\<rparr>)
         in Ok (fd, s\<lparr>dir_fd := fd\<rparr>)
       else
         obind (h_int80 H 5 filename O_RDONLY 0 s) (\<lambda>(rval, s). Ok (if rval > 0xFFFFC000 then -1 else rval, s)))"

definition emulated_close ::
  "('a emulation_scheme, 'b) host_scheme \<Rightarrow> i32 \<Rightarrow> 'a emulation_scheme \<Rightarrow> (i32 \<times> 'a emulation_scheme) outcome" where
  "emulated_close H fd s =
     (if dir s = NULL_PTR \<or> dir_fd s \<noteq> fd then linux_close H fd s
      else
        let s = h_closedir H (dir s) s;
            s = s\<lparr>dir := NULL_PTR\<rparr>;
            s = h_close H (dir_fd s) s
        in Ok (0, s\<lparr>dir_fd := -1\<rparr>))"

section \<open>getargs\<close>

definition end_args :: "u32 \<Rightarrow> i32 \<Rightarrow> memory \<Rightarrow> i32 \<times> memory" where
  "end_args buf nbytes m = (if sint nbytes < 1 then (-1, m) else (0, m(buf := 0)))"

partial_function (option) copy_args ::
  "i32 \<Rightarrow> u32 \<Rightarrow> i32 \<Rightarrow> u32 \<Rightarrow> i32 \<Rightarrow> memory \<Rightarrow> (i32 \<times> memory) outcome option" where
  "copy_args argc argv idx buf nbytes m =
     (if sint idx < sint argc then
        lbind (ece391_strlen m (load32 m (argv + 4 * idx))) (\<lambda>len.
          if sint len > sint nbytes then Some (Ok (-1, m))
          else
            lbind (ece391_strcpy buf (load32 m (argv + 4 * idx)) m) (\<lambda>m.
              let buf = buf + len; nbytes = nbytes - len; idx = idx + 1 in
              if sint idx \<ge> sint argc then Some (Ok (end_args buf nbytes m))
              else if sint nbytes < 1 then Some (Ok (-1, m))
              else copy_args argc argv idx (buf + 1) (nbytes - 1) (m(buf := 32))))
      else Some (Ok (end_args buf nbytes m)))"

definition emulated_getargs :: "u32 \<Rightarrow> i32 \<Rightarrow> 'a emulation_scheme \<Rightarrow> (i32 \<times> 'a emulation_scheme) outcome" where
  "emulated_getargs buf nbytes s =
     obind (loop_value (copy_args (load32 (mem s) (start_esp s)) (start_esp s + 4) 1 buf nbytes (mem s)))
       (\<lambda>(r, m). Ok (r, s\<lparr>mem := m\<rparr>))"

section \<open>vidmap\<close>

definition emulated_vidmap ::
  "('a emulation_scheme, 'b) host_scheme \<Rightarrow> (string \<Rightarrow> u32) \<Rightarrow> u32 \<Rightarrow> 'a emulation_scheme \<Rightarrow> i32 \<times> 'a emulation_scheme" where
  "emulated_vidmap H L screen_start s =
     (let s = (if mem_fd s = -1 then let (fd, s) = h_open H (L ''/dev/mem'') O_RDWR s in s\<lparr>mem_fd := fd\<rparr> else s);
          (mem_image, s) = h_mmap H 0 (1024 * 1024) 3 1 (mem_fd s) 0 s
      in if mem_image = MAP_FAILED then (-1, h_perror H (L ''mmap low memory'') s)
         else (0, s\<lparr>mem := store32 (mem s) screen_start (mem_image + 0xB8000)\<rparr>))"

section \<open>read and write\<close>

partial_function (option) pad_name :: "i32 \<Rightarrow> u32 \<Rightarrow> i32 \<Rightarrow> memory \<Rightarrow> (i32 \<times> memory) option" where
  "pad_name nbytes dest copied m =
     (if sint nbytes > sint copied \<and> 32 > sint copied then pad_name nbytes (dest + 1) (copied + 1) (m(dest := 0))
      else Some (copied, m))"

partial_function (option) copy_name :: "i32 \<Rightarrow> u32 \<Rightarrow> u32 \<Rightarrow> i32 \<Rightarrow> memory \<Rightarrow> (i32 \<times> memory) option" where
  "copy_name nbytes src dest copied m =
     (if 0 \<noteq> m src then
        let m = m(dest := m src); copied = copied + 1 in
        if copied = nbytes then Some (nbytes, m)
        else if 32 = copied then Some (32, m)
        else copy_name nbytes (src + 1) (dest + 1) copied m
      else pad_name nbytes dest copied m)"

definition emulated_read ::
  "('a emulation_scheme, 'b) host_scheme \<Rightarrow> i32 \<Rightarrow> u32 \<Rightarrow> i32 \<Rightarrow> 'a emulation_scheme \<Rightarrow>
   (i32 \<times> 'a emulation_scheme) outcome" where
  "emulated_read H fd buf nbytes s =
     (if dir s = NULL_PTR \<or> dir_fd s \<noteq> fd then linux_read H fd buf nbytes s
      else case h_readdir H (dir s) s of
        (None, s) \<Rightarrow> Ok (0, s)
      | (Some d_name, s) \<Rightarrow>
          obind (of_loop (copy_name nbytes d_name buf 0 (mem s))) (\<lambda>(r, m). Ok (r, s\<lparr>mem := m\<rparr>)))"

definition emulated_write ::
  "('a emulation_scheme, 'b) host_scheme \<Rightarrow> i32 \<Rightarrow> u32 \<Rightarrow> i32 \<Rightarrow> 'a emulation_scheme \<Rightarrow>
   (i32 \<times> 'a emulation_scheme) outcome" where
  "emulated_write H fd buf nbytes s =
     (if dir s = NULL_PTR \<or> dir_fd s \<noteq> fd then linux_write H fd buf nbytes s else Ok (-1, s))"

end
