(* ===== verification/Emulate_Calls.thy ===== *)
theory Emulate_Calls
  imports Emulate
begin

text \<open>
  What the emulated system calls do: the command line of \<open>execute\<close> as a list of words, the arguments of
  \<open>getargs\<close> as those words joined by spaces, and the entries of a directory as records of 32 bytes.
\<close>

section \<open>Strings inside a run of memory\<close>

lemma span_apart: "i + j \<le> 2 ^ 32 \<Longrightarrow> b \<in> span a i \<Longrightarrow> b \<notin> span (a + of_nat i) j"
proof
  assume ij: "i + j \<le> 2 ^ 32" and b: "b \<in> span a i" "b \<in> span (a + of_nat i) j"
  then obtain p q where "p < i" "q < j" "(of_nat p :: u32) = of_nat (i + q)"
    by (auto simp: span_eq ac_simps)
  then show False using ij of_nat_u32_eq_iff [of p "i + q"] by simp
qed

lemma span_in: "b \<in> span (a + of_nat i) j \<Longrightarrow> i + j \<le> n \<Longrightarrow> b \<in> span a n"
  using span_sub by blast

lemma not_in_span: "b \<notin> span a n \<Longrightarrow> n \<le> unat (b - a)"
  using span_of_nat [of "unat (b - a)" n a] by (cases "unat (b - a) < n") auto

lemma str_at_frame: "str_at m a xs \<Longrightarrow> (\<And>b. b \<in> span a (Suc (length xs)) \<Longrightarrow> m' b = m b) \<Longrightarrow> str_at m' a xs"
  using str_at_cong [of xs m' a m] by (simp add: less_Suc_eq_le)

lemma str_at_move:
  "str_at m a xs \<Longrightarrow> (\<And>i. i \<le> length xs \<Longrightarrow> m' (a' + of_nat i) = m (a + of_nat i)) \<Longrightarrow> str_at m' a' xs"
proof (induction xs arbitrary: a a')
  case (Cons x xs)
  have "m' (a' + 1 + of_nat i) = m (a + 1 + of_nat i)" if "i \<le> length xs" for i
    using Cons.prems(2) [of "Suc i"] that by (simp add: add.assoc)
  then show ?case using Cons.IH [of "a + 1" "a' + 1"] Cons.prems(1) Cons.prems(2) [of 0] by simp
next
  case Nil
  then show ?case using Nil(2) [of 0] by simp
qed

lemma str_at_suffix: "str_at m a (xs @ ys) \<Longrightarrow> str_at m (a + of_nat (length xs)) ys"
proof (induction xs arbitrary: a)
  case (Cons x xs)
  then show ?case using Cons.IH [of "a + 1"] by (simp add: add.assoc)
qed simp

lemma str_at_cut:
  assumes "str_at m a (xs @ ys)" and "length xs < 2 ^ 32"
  shows "str_at (m(a + of_nat (length xs) := 0)) a xs"
  using assms
proof (induction xs arbitrary: a)
  case (Cons x xs)
  have "of_nat (Suc (length xs)) \<noteq> (0 :: u32)" using Cons.prems(2) of_nat_u32_eq_iff [of "Suc (length xs)" 0] by simp
  then have "a \<noteq> a + (1 + of_nat (length xs))" by simp
  then show ?case using Cons.IH [of "a + 1"] Cons.prems by (auto simp: add.assoc)
qed simp

lemma str_at_appendI:
  "(\<And>i. i < length xs \<Longrightarrow> m (a + of_nat i) = xs ! i) \<Longrightarrow> 0 \<notin> set xs \<Longrightarrow> str_at m (a + of_nat (length xs)) ys \<Longrightarrow> str_at m a (xs @ ys)"
proof (induction xs arbitrary: a)
  case (Cons x xs)
  have "m (a + 1 + of_nat i) = xs ! i" if "i < length xs" for i
    using Cons.prems(1) [of "Suc i"] that by (simp add: add.assoc)
  then show ?case using Cons.IH [of "a + 1"] Cons.prems(1) [of 0] Cons.prems(2,3) by (simp add: add.assoc)
qed simp

lemma sint_of_nat_small: "n < 2 ^ 31 \<Longrightarrow> sint (of_nat n :: i32) = int n"
  using sint_small [of "of_nat n"] by (simp add: unat_of_nat_u32)

lemma str_at_head: "str_at m a xs \<Longrightarrow> (m a = 0 \<longleftrightarrow> xs = []) \<and> (xs \<noteq> [] \<longrightarrow> m a = hd xs)"
  by (cases xs) auto

text \<open>A string copied into another part of memory.\<close>

lemma strcpy_into:
  assumes "str_at m src w" and "length w < 2 ^ 31" and "span src (Suc (length w)) \<inter> B = {}" and "dst \<in> B"
  obtains m' where "ece391_strcpy dst src m = Ok m'" and "str_at m' dst w"
    and "\<And>b. b \<notin> span dst (Suc (length w)) \<Longrightarrow> m' b = m b"
proof -
  let ?m = "blit m dst (Suc (length w)) (ptr m src)"
  have "dst \<notin> span src (Suc (length w))" using assms(3,4) by blast
  then have "length w < unat (dst - src)" using not_in_span by fastforce
  then have "ece391_strcpy dst src m = Ok ?m" using assms(1,2) by (intro strcpy_user) auto
  moreover have "str_at ?m dst w" by (rule str_at_move [OF assms(1)]) (use assms(2) in \<open>simp add: blit_at ptr_def\<close>)
  moreover have "?m b = m b" if "b \<notin> span dst (Suc (length w))" for b by (rule blit_outside, rule not_in_span, rule that)
  ultimately show thesis by (rule that)
qed

section \<open>The words of a command\<close>

text \<open>A word goes up to the next space or newline.\<close>

definition in_word :: "u8 \<Rightarrow> bool" where
  "in_word c \<longleftrightarrow> c \<noteq> 32 \<and> c \<noteq> 10"

definition blank :: "u8 \<Rightarrow> bool" where
  "blank c \<longleftrightarrow> c = 32"

text \<open>Arguments: a newline ends them when it comes where a word could start, not when it ends a word.\<close>

function arg_words :: "u8 list \<Rightarrow> u8 list list" where
  "arg_words xs =
     (case dropWhile blank xs of
        [] \<Rightarrow> []
      | y # ys \<Rightarrow> if y = 10 then [] else takeWhile in_word (y # ys) # arg_words (drop 1 (dropWhile in_word ys)))"
  by auto
termination
proof (relation "measure length")
  fix xs y and ys :: "u8 list"
  assume "dropWhile blank xs = y # ys"
  then have "length ys < length xs" by (metis length_Cons length_dropWhile_le less_eq_Suc_le)
  then show "(drop 1 (dropWhile in_word ys), xs) \<in> measure length"
    using length_dropWhile_le [of in_word ys] by simp
qed simp

declare arg_words.simps [simp del]

definition command_words :: "u8 list \<Rightarrow> u8 list list" where
  "command_words xs = (map of_char ''./'' @ takeWhile in_word xs) # arg_words (drop 1 (dropWhile in_word xs))"

lemma arg_words_count: "2 * length (arg_words xs) \<le> length xs + 1"
proof (induction xs rule: arg_words.induct)
  case (1 xs)
  show ?case
  proof (cases "dropWhile blank xs")
    case Nil
    then show ?thesis by (subst arg_words.simps) (simp del: dropWhile_eq_Nil_conv)
  next
    case (Cons y ys)
    have "length ys < length xs" using Cons by (metis length_Cons length_dropWhile_le less_eq_Suc_le)
    moreover have "length (dropWhile in_word ys) \<le> length ys" by (rule length_dropWhile_le)
    ultimately show ?thesis using Cons 1 by (cases "y = 10") (simp_all add: arg_words.simps [of xs], arith)
  qed
qed

lemma word_end_at: "str_at m a xs \<Longrightarrow> word_end m a = Some (a + of_nat (length (takeWhile in_word xs)))"
proof (induction xs arbitrary: a)
  case (Cons x xs)
  then show ?case by (subst word_end.simps) (auto simp: in_word_def [of x] add.assoc)
qed (subst word_end.simps, simp)

lemma skip_blanks_at: "str_at m a xs \<Longrightarrow> skip_blanks m a = Some (a + of_nat (length (takeWhile blank xs)))"
proof (induction xs arbitrary: a)
  case (Cons x xs)
  then show ?case by (subst skip_blanks.simps) (auto simp: blank_def [of x] add.assoc)
qed (subst skip_blanks.simps, simp)

lemma parse_args_stop:
  assumes "str_at m scan xs" and "dropWhile blank xs = [] \<or> hd (dropWhile blank xs) = 10"
  shows "parse_args scan args m = Some (Ok (args, m(scan + of_nat (length (takeWhile blank xs)) := 0)))" "arg_words xs = []"
proof -
  have "str_at m (scan + of_nat (length (takeWhile blank xs))) (dropWhile blank xs)"
    by (rule str_at_suffix) (simp add: assms(1))
  then have "m (scan + of_nat (length (takeWhile blank xs))) = 0 \<or> m (scan + of_nat (length (takeWhile blank xs))) = 10"
    using assms(2) str_at_head by fastforce
  then show "parse_args scan args m = Some (Ok (args, m(scan + of_nat (length (takeWhile blank xs)) := 0)))"
    using skip_blanks_at [OF assms(1)] by (subst parse_args.simps) auto
  show "arg_words xs = []"
    using assms(2) by (subst arg_words.simps) (auto simp del: dropWhile_eq_Nil_conv split: list.split)
qed

lemma parse_args_word:
  assumes str: "str_at m scan xs" and y: "dropWhile blank xs = y # ys" "y \<noteq> 10" and room: "length args < 1024"
  obtains bs w r start e where "xs = bs @ w @ r" and "start = scan + of_nat (length bs)" and "e = start + of_nat (length w)"
    and "str_at m start (w @ r)" and "str_at m e r" and "r = dropWhile in_word ys" and "arg_words xs = w # arg_words (drop 1 r)"
    and "parse_args scan args m =
      (if 0 \<noteq> m e then parse_args (e + 1) (args @ [start]) (m(e := 0)) else parse_args e (args @ [start]) m)"
proof -
  have word: "in_word y" using y hd_dropWhile [of blank xs] by (simp add: in_word_def blank_def)
  define start where "start = scan + of_nat (length (takeWhile blank xs))"
  define w where "w = takeWhile in_word (y # ys)"
  define e where "e = start + of_nat (length w)"
  have wr: "y # ys = w @ dropWhile in_word ys" using word by (simp add: w_def)
  have xs: "xs = takeWhile blank xs @ w @ dropWhile in_word ys" using y(1) wr by (metis takeWhile_dropWhile_id)
  have start: "str_at m start (w @ dropWhile in_word ys)"
    unfolding start_def wr [symmetric] y(1) [symmetric] by (rule str_at_suffix) (simp add: str)
  have "word_end m start = Some e" unfolding e_def w_def using word_end_at [OF start] wr by simp
  moreover have "m start \<noteq> 0" "m start \<noteq> 10" using start y wr by (metis list.sel(1) list.distinct(1) str_at_head)+
  moreover have "skip_blanks m scan = Some start" unfolding start_def by (rule skip_blanks_at [OF str])
  ultimately have "parse_args scan args m =
      (if 0 \<noteq> m e then parse_args (e + 1) (args @ [start]) (m(e := 0)) else parse_args e (args @ [start]) m)"
    using room by (subst parse_args.simps) simp
  moreover have "arg_words xs = w # arg_words (drop 1 (dropWhile in_word ys))"
    using y by (subst arg_words.simps) (simp add: w_def)
  ultimately show thesis using that xs start_def e_def start str_at_suffix [OF start, folded e_def] by blast
qed

lemma parse_args_words:
  "str_at m scan xs \<Longrightarrow> length xs + 1 < 2 ^ 32 \<Longrightarrow> length args + length (arg_words xs) \<le> 1024 \<Longrightarrow>
     \<exists>ps m'. parse_args scan args m = Some (Ok (args @ ps, m')) \<and> list_all2 (str_at m') ps (arg_words xs) \<and>
       (\<forall>b. b \<notin> span scan (Suc (length xs)) \<longrightarrow> m' b = m b)"
proof (induction xs arbitrary: m scan args rule: arg_words.induct)
  case (1 xs)
  show ?case
  proof (cases "dropWhile blank xs = [] \<or> hd (dropWhile blank xs) = 10")
    case True
    have "scan + of_nat (length (takeWhile blank xs)) \<in> span scan (Suc (length xs))"
      using length_takeWhile_le [of blank xs] by auto
    then show ?thesis using parse_args_stop [OF 1(2) True] by auto
  next
    case False
    then obtain y ys where y: "dropWhile blank xs = y # ys" "y \<noteq> 10" by (cases "dropWhile blank xs") auto
    then have "length args < 1024" using 1(4) by (subst (asm) arg_words.simps) simp
    with 1(2) y obtain bs w r start e where xs: "xs = bs @ w @ r" "start = scan + of_nat (length bs)" "e = start + of_nat (length w)"
      and at: "str_at m start (w @ r)" "str_at m e r" and r: "r = dropWhile in_word ys" and aw: "arg_words xs = w # arg_words (drop 1 r)"
      and step: "parse_args scan args m =
        (if 0 \<noteq> m e then parse_args (e + 1) (args @ [start]) (m(e := 0)) else parse_args e (args @ [start]) m)"
      by (rule parse_args_word)
    show ?thesis
    proof (cases r)
      case Nil
      then have "parse_args e (args @ [start]) m = Some (Ok (args @ [start], m))" "arg_words [] = []"
        using parse_args_stop(1) [OF at(2), of "args @ [start]"] parse_args_stop(2) [OF at(2)] at(2) by (auto simp: fun_upd_idem)
      then show ?thesis using step at aw Nil by auto
    next
      case (Cons c cs)
      then have e0: "m e \<noteq> 0" and cs: "str_at m (e + 1) cs" using at(2) by auto
      have room: "length bs + length w + length r + 1 < 2 ^ 32" using 1(3) xs by simp
      have e1: "e + 1 = start + of_nat (Suc (length w))" by (simp add: xs ac_simps)
      have below: "b \<notin> span (e + 1) (Suc (length cs))" if "b \<in> span start (Suc (length w))" for b
        unfolding e1 by (rule span_apart [OF _ that]) (use room Cons in simp)
      define m1 where "m1 = m(e := 0)"
      have "e \<in> span start (Suc (length w))" unfolding xs(3) by auto
      then have "str_at m1 (e + 1) cs" by (intro str_at_frame [OF cs]) (use below in \<open>auto simp: m1_def\<close>)
      then obtain ps m' where ps: "parse_args (e + 1) (args @ [start]) m1 = Some (Ok ((args @ [start]) @ ps, m'))"
        "list_all2 (str_at m') ps (arg_words cs)" "\<forall>b. b \<notin> span (e + 1) (Suc (length cs)) \<longrightarrow> m' b = m1 b"
        using 1(1) [OF y(1,2), of m1 "e + 1" "args @ [start]"] Cons aw room 1(4) by (auto simp: r [symmetric])
      have "str_at m1 start w" unfolding m1_def xs(3) by (rule str_at_cut [OF at(1)]) (use room in simp)
      then have w: "str_at m' start w" by (rule str_at_frame) (use ps(3) below in auto)
      have "m' b = m b" if "b \<notin> span scan (Suc (length xs))" for b
      proof -
        have "span start (Suc (length (w @ r))) \<subseteq> span scan (Suc (length xs))"
          unfolding xs(2) by (rule span_sub) (simp add: xs(1))
        moreover have "e \<in> span start (Suc (length (w @ r)))" unfolding xs(3) by auto
        moreover have "span (e + 1) (Suc (length cs)) \<subseteq> span start (Suc (length (w @ r)))"
          unfolding e1 by (rule span_sub) (simp add: Cons)
        ultimately have "b \<noteq> e" "b \<notin> span (e + 1) (Suc (length cs))" using that by blast+
        then show ?thesis using ps(3) by (simp add: m1_def)
      qed
      then show ?thesis using step e0 ps(1,2) w aw Cons by (auto simp: m1_def)
    qed
  qed
qed

section \<open>execute runs the words\<close>

text \<open>The copy of the command line behind \<open>./\<close> in the local buffer.\<close>

lemma command_copied:
  assumes str: "str_at m command xs" and len: "length xs \<le> 1023" and apart: "span command (Suc (length xs)) \<inter> span buf 1026 = {}"
  obtains m' where "ece391_strcpy (buf + 2) command (m(buf := 46, buf + 1 := 47)) = Ok m'"
    and "str_at m' buf ([46, 47] @ xs)" and "\<And>b. b \<notin> span buf 1026 \<Longrightarrow> m' b = m b"
proof -
  let ?m = "m(buf := 46, buf + 1 := 47)"
  have here: "buf \<in> span buf 2" "buf + 1 \<in> span buf 2" "buf + 2 \<in> span buf 1026" "span buf 2 \<subseteq> span buf 1026"
    using span_in [of _ buf 0 2 1026] by auto
  have src: "str_at ?m command xs" by (rule str_at_frame [OF str]) (use apart here in auto)
  have "length xs < 2 ^ 31" using len by simp
  then obtain m' where m': "ece391_strcpy (buf + 2) command ?m = Ok m'" "str_at m' (buf + 2) xs"
    "\<And>b. b \<notin> span (buf + 2) (Suc (length xs)) \<Longrightarrow> m' b = ?m b"
    by (rule strcpy_into [OF src _ apart here(3)]) (rule that)
  have "b \<notin> span (buf + 2) (Suc (length xs))" if "b \<in> span buf 2" for b
    using span_apart [of 2 "Suc (length xs)" b buf] that len by simp
  then have first: "m' buf = 46" "m' (buf + 1) = 47" using m'(3) here by simp_all
  have "buf + 1 + 1 = buf + 2" by simp
  then have "str_at m' buf ([46, 47] @ xs)" using first m'(2) by (simp only: append.simps str_at.simps) simp
  moreover have "m' b = m b" if "b \<notin> span buf 1026" for b
  proof -
    have "b \<noteq> buf" "b \<noteq> buf + 1" using that here by blast+
    then show ?thesis using m'(3) [of b] span_in [of b buf 2 "Suc (length xs)" 1026] len that by auto
  qed
  ultimately show thesis using m'(1) by (intro that)
qed

lemma command_parsed:
  assumes str: "str_at m buf ([46, 47] @ xs)" and len: "length xs \<le> 1023"
  obtains scan ps m' where "word_end m (buf + 2) = Some scan"
    and "(if 0 \<noteq> m scan then loop_value (parse_args (scan + 1) [buf] (m(scan := 0))) else Ok ([buf], m)) = Ok (ps, m')"
    and "list_all2 (str_at m') ps (command_words xs)" and "hd ps = buf" and "length ps \<le> 513"
    and "\<And>b. b \<notin> span buf 1026 \<Longrightarrow> m' b = m b"
proof -
  define w where "w = takeWhile in_word xs"
  define scan where "scan = buf + of_nat (length ([46, 47] @ w))"
  have xs: "[46, 47] @ xs = ([46, 47] @ w) @ dropWhile in_word xs" by (simp add: w_def)
  have "str_at m (buf + 2) xs" using str_at_suffix [OF str] by simp
  then have we: "word_end m (buf + 2) = Some scan" using word_end_at by (simp add: scan_def w_def add.assoc)
  have rest: "str_at m scan (dropWhile in_word xs)" unfolding scan_def by (rule str_at_suffix) (use str xs in simp)
  have lw: "length xs = length w + length (dropWhile in_word xs)" using xs by (metis append_assoc length_append same_append_eq)
  show thesis
  proof (cases "dropWhile in_word xs")
    case Nil
    then have "m scan = 0" "w = xs" using rest xs unfolding Nil by simp_all
    moreover have "arg_words [] = []" by (subst arg_words.simps) simp
    ultimately show thesis using we str
      by (intro that [of scan "[buf]" m]) (simp_all add: command_words_def Nil w_def [symmetric] del: dropWhile_eq_Nil_conv)
  next
    case (Cons c cs)
    define m1 where "m1 = m(scan := 0)"
    have scan1: "scan + 1 = buf + of_nat (Suc (length ([46, 47] @ w)))" by (simp add: scan_def ac_simps)
    have below: "b \<notin> span (scan + 1) (Suc (length cs))" if "b \<in> span buf (Suc (length ([46, 47] @ w)))" for b
      unfolding scan1 by (rule span_apart [OF _ that]) (use lw len Cons in simp)
    have sc: "scan \<in> span buf (Suc (length ([46, 47] @ w)))" unfolding scan_def by (rule span_of_nat) simp
    have cs: "str_at m (scan + 1) cs" "m scan \<noteq> 0" using rest Cons by auto
    have "str_at m1 (scan + 1) cs" by (rule str_at_frame [OF cs(1)]) (use below sc in \<open>auto simp: m1_def\<close>)
    moreover have "2 * length (arg_words cs) \<le> 1024" using arg_words_count [of cs] lw len Cons by simp
    ultimately obtain ps m' where ps: "parse_args (scan + 1) [buf] m1 = Some (Ok ([buf] @ ps, m'))"
      "list_all2 (str_at m') ps (arg_words cs)" "\<forall>b. b \<notin> span (scan + 1) (Suc (length cs)) \<longrightarrow> m' b = m1 b"
      using parse_args_words [of m1 "scan + 1" cs "[buf]"] lw len Cons by auto
    have "str_at m1 buf ([46, 47] @ w)" unfolding m1_def scan_def
      by (rule str_at_cut [where ys = "c # cs"]) (use str xs Cons lw len in simp_all)
    then have "str_at m' buf ([46, 47] @ w)" by (rule str_at_frame) (use ps(3) below in auto)
    moreover have "m' b = m b" if "b \<notin> span buf 1026" for b
    proof -
      have "b \<notin> span (scan + 1) (Suc (length cs))" "b \<noteq> scan"
        using that span_in [of b buf "Suc (length ([46, 47] @ w))" "Suc (length cs)" 1026] span_in [of b buf 0 "Suc (length ([46, 47] @ w))" 1026] sc lw len Cons
        by (auto simp: scan1)
      then show ?thesis using ps(3) by (simp add: m1_def)
    qed
    moreover have "length ps \<le> 512" using list_all2_lengthD [OF ps(2)] \<open>2 * length (arg_words cs) \<le> 1024\<close> by simp
    ultimately show thesis using we ps(1,2) \<open>m scan \<noteq> 0\<close> Cons
      by (intro that [of scan "buf # ps" m']) (auto simp: m1_def command_words_def w_def [symmetric])
  qed
qed

text \<open>
  C14. The emulated \<open>ece391_execute\<close> starts the program \<open>./name\<close> with the words of the command line as its arguments, each
  a zero-terminated string in the local buffer, at most 513 of them for an array of 1024, and turns the status of the
  child into the value the kernel would return: the exit status, -1 when the program could not be started, 256 when a
  signal ended it. A command of more than 1023 bytes is refused. Only the local buffer changes. Of Linux it is assumed
  that \<open>wait\<close> reports how the child ended that \<open>fork\<close> started.
\<close>

theorem emulated_execute_runs:
  fixes s :: "'a emulation_scheme" and H :: "('a emulation_scheme, 'b) host_scheme"
  assumes str: "str_at (mem s) command xs" and len: "length xs < 2 ^ 32" and apart: "span command (Suc (length xs)) \<inter> span buf 1026 = {}"
    and host: "\<And>child t. h_wait H stat0 (h_fork H child t) = (child t, t)"
  shows "if length xs > 1023 then emulated_execute H buf stat0 command s = Ok (-1, s)
    else \<exists>ps t. emulated_execute H buf stat0 command s =
      Ok (case h_execv H buf ps t of Some stat \<Rightarrow> exit_code stat | None \<Rightarrow> exit_code (h_kill_self H 9), t) \<and>
    list_all2 (str_at (mem t)) ps (command_words xs) \<and> hd ps = buf \<and> length ps \<le> 513 \<and>
    t = s\<lparr>mem := mem t\<rparr> \<and> (\<forall>b. b \<notin> span buf 1026 \<longrightarrow> mem t b = mem s b)"
proof (cases "length xs > 1023")
  case True
  then have "(1023 :: u32) < of_nat (length xs)" using len by (simp add: word_less_nat_alt unat_of_nat_u32)
  then show ?thesis using True str by (simp add: emulated_execute_def)
next
  case False
  then have short: "\<not> (1023 :: u32) < of_nat (length xs)" by (simp add: word_less_nat_alt unat_of_nat_u32)
  obtain m where m: "ece391_strcpy (buf + 2) command ((mem s)(buf := 46, buf + 1 := 47)) = Ok m"
    "str_at m buf ([46, 47] @ xs)" "\<And>b. b \<notin> span buf 1026 \<Longrightarrow> m b = mem s b"
    using command_copied [OF str _ apart] False by auto
  obtain scan ps m' where p: "word_end m (buf + 2) = Some scan"
    "(if 0 \<noteq> m scan then loop_value (parse_args (scan + 1) [buf] (m(scan := 0))) else Ok ([buf], m)) = Ok (ps, m')"
    "list_all2 (str_at m') ps (command_words xs)" "hd ps = buf" "length ps \<le> 513" "\<And>b. b \<notin> span buf 1026 \<Longrightarrow> m' b = m b"
    using command_parsed [OF m(2)] False by auto
  have "emulated_execute H buf stat0 command s = Ok (exit_code (child_code H buf ps (s\<lparr>mem := m'\<rparr>)), s\<lparr>mem := m'\<rparr>)"
    using str short m(1) p(1,2,5) by (simp add: emulated_execute_def host)
  moreover have "exit_code (child_code H buf ps t) =
      (case h_execv H buf ps t of Some stat \<Rightarrow> exit_code stat | None \<Rightarrow> exit_code (h_kill_self H 9))" for t
    by (simp add: child_code_def split: option.split)
  ultimately show ?thesis unfolding if_not_P [OF False]
    by (intro exI [of _ ps] exI [of _ "s\<lparr>mem := m'\<rparr>"]) (use p(3-6) m(3) in simp)
qed

text \<open>
  A host for examples: its state lists the statuses of the children that have ended; a program ends with
  its number of arguments as exit status, and the directory has one entry whose name stands at \<open>0x1000\<close>.
\<close>

record linux_state = emulation +
  children :: "u32 list"

definition sample_linux :: "linux_state host" where
  "sample_linux = \<lparr>h_int80 = (\<lambda>_ _ _ _ s. Ok (0, s)),
     h_fork = (\<lambda>child s. s\<lparr>children := child s # children s\<rparr>), h_execv = (\<lambda>_ args _. Some (push_bit 8 (of_nat (length args)))),
     h_kill_self = (\<lambda>sig. sig), h_wait = (\<lambda>_ s. (hd (children s), s\<lparr>children := tl (children s)\<rparr>)),
     h_opendir = (\<lambda>_ s. (1, s)), h_readdir = (\<lambda>_ s. (Some 0x1000, s)), h_closedir = (\<lambda>_ s. s),
     h_open = (\<lambda>_ _ s. (3, s)), h_close = (\<lambda>_ s. s), h_mmap = (\<lambda>_ _ _ _ _ _ s. (0x40000000, s)), h_perror = (\<lambda>_ s. s)\<rparr>"

definition sample_emulation :: "memory \<Rightarrow> linux_state" where
  "sample_emulation m = \<lparr>mem = m, io = [], interrupts_on = True, start_esp = 0x100, dir_fd = 3, dir = 1, mem_fd = -1, children = []\<rparr>"

theorem emulated_execute_runs_witness:
  "\<exists>ps t. emulated_execute sample_linux 0x2000 0 0x1000
      (sample_emulation ((\<lambda>_. 0)(0x1000 := 108, 0x1001 := 115, 0x1002 := 32, 0x1003 := 97, 0x1004 := 10))) = Ok (2, t) \<and>
    list_all2 (str_at (mem t)) ps [[46, 47, 108, 115], [97]]"
proof -
  let ?s = "sample_emulation ((\<lambda>_. 0)(0x1000 := 108, 0x1001 := 115, 0x1002 := 32, 0x1003 := 97, 0x1004 := 10))"
  have "str_at (mem ?s) 0x1000 [108, 115, 32, 97, 10]" by (simp add: sample_emulation_def)
  moreover have "span 0x1000 (Suc (length [108, 115, 32, 97, 10 :: u8])) \<inter> span 0x2000 1026 = {}" by (rule span_disjoint) simp_all
  moreover have "h_wait sample_linux 0 (h_fork sample_linux child t) = (child t, t)" for child t by (simp add: sample_linux_def)
  ultimately obtain ps t where r: "emulated_execute sample_linux 0x2000 0 0x1000 ?s =
      Ok (case h_execv sample_linux 0x2000 ps t of Some stat \<Rightarrow> exit_code stat | None \<Rightarrow> exit_code (h_kill_self sample_linux 9), t)"
    "list_all2 (str_at (mem t)) ps (command_words [108, 115, 32, 97, 10])"
    using emulated_execute_runs [of ?s "0x1000" "[108, 115, 32, 97, 10]" "0x2000" sample_linux 0] by auto
  have w: "command_words [108, 115, 32, 97, 10] = [[46, 47, 108, 115], [97]]"
    by (simp add: command_words_def in_word_def blank_def arg_words.simps)
  have "length ps = 2" using list_all2_lengthD [OF r(2)] w by simp
  then show ?thesis using r w
    by (intro exI [of _ ps] exI [of _ t]) (simp add: sample_linux_def exit_code_def WIFEXITED_def WTERMSIG_def WEXITSTATUS_def)
qed

section \<open>getargs joins the words\<close>

fun joined :: "u8 list list \<Rightarrow> u8 list" where
  "joined [] = []"
| "joined [w] = w"
| "joined (w # v # vs) = w @ 32 # joined (v # vs)"

text \<open>An array of pointers at \<open>p\<close> to the strings \<open>ws\<close>, pointers and strings outside \<open>B\<close>.\<close>

fun argv_at :: "memory \<Rightarrow> u32 set \<Rightarrow> u32 \<Rightarrow> u8 list list \<Rightarrow> bool" where
  "argv_at m B p [] \<longleftrightarrow> True"
| "argv_at m B p (w # ws) \<longleftrightarrow> str_at m (load32 m p) w \<and> length w < 2 ^ 31 \<and> span p 4 \<inter> B = {} \<and>
     span (load32 m p) (Suc (length w)) \<inter> B = {} \<and> argv_at m B (p + 4) ws"

lemma argv_at_frame: "argv_at m B p ws \<Longrightarrow> (\<And>b. b \<notin> B \<Longrightarrow> m' b = m b) \<Longrightarrow> argv_at m' B p ws"
proof (induction ws arbitrary: p)
  case (Cons w ws)
  have "load32 m' p = load32 m p" by (rule load_cong(2), rule Cons.prems(2)) (use Cons.prems(1) in auto)
  moreover have "str_at m' (load32 m p) w"
    by (rule str_at_frame [of m], use Cons.prems(1) in simp, rule Cons.prems(2)) (use Cons.prems(1) in auto)
  ultimately show ?case using Cons by simp
qed simp

lemma argv_at_mono: "argv_at m B p ws \<Longrightarrow> B' \<subseteq> B \<Longrightarrow> argv_at m B' p ws"
  by (induction ws arbitrary: p) auto

text \<open>One round of the loop.\<close>

lemma copy_args_word:
  assumes w: "str_at m p w" "length w < 2 ^ 31" "span p (Suc (length w)) \<inter> span buf (Suc n) = {}"
    and p: "p = load32 m (argv + 4 * of_nat k)" and c: "k < c" "c < 2 ^ 31" "n < 2 ^ 31"
  shows "if n < length w then copy_args (of_nat c) argv (of_nat k) buf (of_nat n) m = Some (Ok (-1, m))
    else \<exists>m'. str_at m' buf w \<and> (\<forall>b. b \<notin> span buf (Suc (length w)) \<longrightarrow> m' b = m b) \<and>
      copy_args (of_nat c) argv (of_nat k) buf (of_nat n) m =
        (if c = Suc k then Some (Ok (end_args (buf + of_nat (length w)) (of_nat (n - length w)) m'))
         else if n = length w then Some (Ok (-1, m'))
         else copy_args (of_nat c) argv (of_nat (Suc k)) (buf + of_nat (length w) + 1) (of_nat (n - Suc (length w)))
                (m'(buf + of_nat (length w) := 32)))"
proof -
  note s = sint_of_nat_small
  have idx: "sint (of_nat k :: i32) < sint (of_nat c :: i32)" using c by (simp add: s)
  show ?thesis
  proof (cases "n < length w")
    case True
    then show ?thesis using idx w(1,2) p c(3) by (subst copy_args.simps) (simp add: s)
  next
    case False
    obtain m' where m': "ece391_strcpy buf p m = Ok m'" "str_at m' buf w" "\<And>b. b \<notin> span buf (Suc (length w)) \<Longrightarrow> m' b = m b"
      using strcpy_into [OF w, of buf] by auto
    have eq: "(of_nat k + 1 :: i32) = of_nat (Suc k)" "(of_nat n - of_nat (length w) :: i32) = of_nat (n - length w)"
      using False by (simp_all add: of_nat_diff add.commute)
    have eq1: "(of_nat (n - length w) - 1 :: i32) = of_nat (n - Suc (length w))" if "n \<noteq> length w"
      using False that by (simp add: of_nat_diff)
    have cmp: "int (Suc k) \<ge> int c \<longleftrightarrow> c = Suc k" "int (n - length w) < 1 \<longleftrightarrow> n = length w" "\<not> int n < int (length w)"
      using c False by auto
    have si: "sint (of_nat (Suc k) :: i32) = int (Suc k)" "sint (of_nat c :: i32) = int c" "sint (of_nat n :: i32) = int n"
      "sint (of_nat (n - length w) :: i32) = int (n - length w)" "sint (of_nat (length w) :: i32) = int (length w)"
      using c w(2) by (intro s; simp)+
    have "copy_args (of_nat c) argv (of_nat k) buf (of_nat n) m =
        (if c = Suc k then Some (Ok (end_args (buf + of_nat (length w)) (of_nat (n - length w)) m'))
         else if n = length w then Some (Ok (-1, m'))
         else copy_args (of_nat c) argv (of_nat (Suc k)) (buf + of_nat (length w) + 1) (of_nat (n - Suc (length w)))
                (m'(buf + of_nat (length w) := 32)))"
      using idx w(1) m'(1) eq1
      by (subst copy_args.simps)
        (simp only: p [symmetric] if_True strlen_user lbind_simps si cmp eq Let_def if_False simp_thms split: if_split; simp)
    then show ?thesis using False m' by auto
  qed
qed

text \<open>A space instead of the terminator glues two strings.\<close>

lemma str_at_glue:
  assumes w: "str_at m a w" "length w < 2 ^ 31" and ys: "str_at m' (a + of_nat (length w) + 1) ys"
    and low: "\<And>b. b \<in> span a (Suc (length w)) \<Longrightarrow> m' b = (m(a + of_nat (length w) := 32)) b"
  shows "str_at m' a (w @ 32 # ys)"
proof -
  have "str_at m' a ((w @ [32]) @ ys)"
  proof (rule str_at_appendI)
    fix i assume i: "i < length (w @ [32])"
    then have "m' (a + of_nat i) = (m(a + of_nat (length w) := 32)) (a + of_nat i)" by (intro low) simp
    moreover have "a + of_nat i \<noteq> a + of_nat (length w)" if "i < length w"
      using that w(2) of_nat_u32_eq_iff [of i "length w"] by simp
    ultimately show "m' (a + of_nat i) = (w @ [32]) ! i"
      using str_at_nth [OF w(1)] i by (cases "i = length w") (auto simp: nth_append)
  next
    show "0 \<notin> set (w @ [32])" using str_at_zero [OF w(1)] by simp
    show "str_at m' (a + of_nat (length (w @ [32]))) ys" using ys by (simp add: ac_simps)
  qed
  then show ?thesis by simp
qed

lemma copy_args_joins:
  "argv_at m (span buf (Suc n)) (argv + 4 * of_nat k) ws \<Longrightarrow> ws \<noteq> [] \<Longrightarrow> k + length ws < 2 ^ 31 \<Longrightarrow> n < 2 ^ 31 \<Longrightarrow>
   \<exists>m'. copy_args (of_nat (k + length ws)) argv (of_nat k) buf (of_nat n) m =
       Some (Ok (if length (joined ws) < n then 0 else -1, m')) \<and>
     (length (joined ws) < n \<longrightarrow> str_at m' buf (joined ws)) \<and> (\<forall>b. b \<notin> span buf (Suc n) \<longrightarrow> m' b = m b)"
proof (induction ws arbitrary: k buf n m rule: joined.induct)
  case (2 w)
  show ?case
  proof (cases "n < length w")
    case True
    then show ?thesis using copy_args_word [OF _ _ _ refl, of m argv k w buf n "k + length [w]"] 2 by simp
  next
    case False
    then obtain m' where m': "str_at m' buf w" "\<forall>b. b \<notin> span buf (Suc (length w)) \<longrightarrow> m' b = m b"
      "copy_args (of_nat (Suc k)) argv (of_nat k) buf (of_nat n) m =
        Some (Ok (end_args (buf + of_nat (length w)) (of_nat (n - length w)) m'))"
      using copy_args_word [OF _ _ _ refl, of m argv k w buf n "Suc k"] 2 by auto
    have "m' (buf + of_nat (length w)) = 0" using str_at_suffix [of m' buf w "[]"] m'(1) by simp
    then have "end_args (buf + of_nat (length w)) (of_nat (n - length w)) m' = (if length w < n then 0 else -1, m')"
      using 2(4) by (auto simp: end_args_def sint_of_nat_small fun_upd_idem simp del: of_nat_diff)
    moreover have "span buf (Suc (length w)) \<subseteq> span buf (Suc n)" using span_in [of _ buf 0] False by auto
    ultimately show ?thesis using m' by (intro exI [of _ m']) auto
  qed
next
  case (3 w v vs)
  let ?c = "k + length (w # v # vs)"
  let ?b = "buf + of_nat (length w)"
  show ?case
  proof (cases "n \<le> length w")
    case True
    then show ?thesis using copy_args_word [OF _ _ _ refl, of m argv k w buf n ?c] 3(2-5)
      by (cases "n = length w") auto
  next
    case False
    then obtain m1 where m1: "str_at m1 buf w" "\<forall>b. b \<notin> span buf (Suc (length w)) \<longrightarrow> m1 b = m b"
      "copy_args (of_nat ?c) argv (of_nat k) buf (of_nat n) m =
         copy_args (of_nat ?c) argv (of_nat (Suc k)) (?b + 1) (of_nat (n - Suc (length w))) (m1(?b := 32))"
      using copy_args_word [OF _ _ _ refl, of m argv k w buf n ?c] 3(2-5) by auto
    define n' where "n' = n - Suc (length w)"
    define m2 where "m2 = m1(?b := 32)"
    have b1: "?b + 1 = buf + of_nat (Suc (length w))" by (simp add: ac_simps)
    have sub: "span (?b + 1) (Suc n') \<subseteq> span buf (Suc n)" "span buf (Suc (length w)) \<subseteq> span buf (Suc n)" "?b \<in> span buf (Suc (length w))"
      using False span_in [of _ buf "Suc (length w)" "Suc n'" "Suc n"] span_in [of _ buf 0 "Suc (length w)" "Suc n"] unfolding b1 by (auto simp: n'_def)
    have m2: "m2 b = m b" if "b \<notin> span buf (Suc n)" for b
    proof -
      have "b \<notin> span buf (Suc (length w))" "b \<noteq> ?b" using that sub by blast+
      then show ?thesis using m1(2) by (simp add: m2_def)
    qed
    have "argv_at m (span buf (Suc n)) (argv + 4 * of_nat (Suc k)) (v # vs)" using 3(2) by (simp add: algebra_simps)
    from argv_at_frame [OF this m2] have "argv_at m2 (span (?b + 1) (Suc n')) (argv + 4 * of_nat (Suc k)) (v # vs)"
      by (rule argv_at_mono [OF _ sub(1)])
    moreover have "Suc k + length (v # vs) < 2 ^ 31" "n' < 2 ^ 31" using 3(4,5) by (simp_all add: n'_def)
    moreover have c: "Suc k + length (v # vs) = ?c" by simp
    ultimately obtain m' where m': "copy_args (of_nat ?c) argv (of_nat (Suc k)) (?b + 1) (of_nat n') m2 =
        Some (Ok (if length (joined (v # vs)) < n' then 0 else -1, m'))"
      "length (joined (v # vs)) < n' \<longrightarrow> str_at m' (?b + 1) (joined (v # vs))" "\<forall>b. b \<notin> span (?b + 1) (Suc n') \<longrightarrow> m' b = m2 b"
      using 3(1) [of m2 "?b + 1" n' "Suc k"] unfolding c by blast
    have low: "m' b = m2 b" if "b \<in> span buf (Suc (length w))" for b
      using m'(3) span_apart [OF _ that, of "Suc n'"] 3(5) False unfolding b1 n'_def by auto
    have "str_at m' buf (w @ 32 # joined (v # vs))" if "length (joined (v # vs)) < n'"
      using str_at_glue [OF m1(1)] low m'(2) that 3(2) by (simp add: m2_def)
    moreover have "length (joined (w # v # vs)) < n \<longleftrightarrow> length (joined (v # vs)) < n'" using False by (auto simp: n'_def)
    moreover have "m' b = m b" if "b \<notin> span buf (Suc n)" for b using m'(3) m2 that sub(1) by auto
    ultimately show ?thesis using m1(3) m'(1) unfolding n'_def [symmetric] m2_def [symmetric]
      by (intro exI [of _ m']) simp
  qed
qed simp

text \<open>
  C15. The emulated \<open>ece391_getargs\<close> writes the arguments of the Linux process, joined by single spaces and ended by a
  zero byte, when they fit into \<open>nbytes\<close> with the zero byte, and returns -1 when they do not. Nothing outside the buffer
  changes but the byte right behind it: an argument that fills the buffer exactly is copied with its terminator before
  the call fails.
\<close>

theorem emulated_getargs_joins:
  fixes s :: "'a emulation_scheme"
  assumes argc: "load32 (mem s) (start_esp s) = of_nat (Suc (length ws))" and count: "Suc (length ws) < 2 ^ 31"
    and argv: "argv_at (mem s) (span buf (Suc n)) (start_esp s + 8) ws" and n: "n < 2 ^ 31"
  shows "\<exists>t. emulated_getargs buf (of_nat n) s = Ok (if length (joined ws) < n then 0 else -1, t) \<and>
    (length (joined ws) < n \<longrightarrow> str_at (mem t) buf (joined ws)) \<and>
    t = s\<lparr>mem := mem t\<rparr> \<and> (\<forall>b. b \<notin> span buf (Suc n) \<longrightarrow> mem t b = mem s b)"
proof -
  let ?argc = "of_nat (1 + length ws)" and ?argv = "start_esp s + 4"
  have "\<exists>m'. copy_args ?argc ?argv 1 buf (of_nat n) (mem s) = Some (Ok (if length (joined ws) < n then 0 else -1, m')) \<and>
    (length (joined ws) < n \<longrightarrow> str_at m' buf (joined ws)) \<and> (\<forall>b. b \<notin> span buf (Suc n) \<longrightarrow> m' b = mem s b)"
  proof (cases "ws = []")
    case True
    then show ?thesis using n by (subst copy_args.simps) (auto simp: end_args_def sint_of_nat_small)
  next
    case False
    have "argv_at (mem s) (span buf (Suc n)) (?argv + 4 * of_nat 1) ws" using argv by (simp add: add.assoc)
    then show ?thesis using copy_args_joins [of "mem s" buf n ?argv 1 ws] False count n by (simp del: of_nat_add)
  qed
  then obtain m' where "copy_args ?argc ?argv 1 buf (of_nat n) (mem s) = Some (Ok (if length (joined ws) < n then 0 else -1, m'))"
    "length (joined ws) < n \<longrightarrow> str_at m' buf (joined ws)" "\<forall>b. b \<notin> span buf (Suc n) \<longrightarrow> m' b = mem s b" by blast
  then show ?thesis using argc by (intro exI [of _ "s\<lparr>mem := m'\<rparr>"]) (simp add: emulated_getargs_def)
qed

theorem emulated_getargs_joins_witness:
  "\<exists>t. emulated_getargs 0x3000 4
      (sample_emulation ((\<lambda>_. 0)(0x100 := 3, 0x109 := 0x10, 0x10D := 0x20, 0x1000 := 97, 0x2000 := 98))) = Ok (0, t) \<and>
    str_at (mem t) 0x3000 [97, 32, 98]"
proof -
  let ?s = "sample_emulation ((\<lambda>_. 0)(0x100 := 3, 0x109 := 0x10, 0x10D := 0x20, 0x1000 := 97, 0x2000 := 98))"
  have "argv_at (mem ?s) (span 0x3000 (Suc 4)) (start_esp ?s + 8) [[97], [98]]"
    by (simp add: sample_emulation_def load32_def span_disjoint)
  moreover have "load32 (mem ?s) (start_esp ?s) = of_nat (Suc (length [[97], [98 :: u8]]))"
    by (simp add: sample_emulation_def load32_def)
  ultimately show ?thesis using emulated_getargs_joins [of ?s "[[97], [98]]" "0x3000" 4] by auto
qed

section \<open>The directory in records of 32 bytes\<close>

definition name_byte :: "u8 list \<Rightarrow> u32 \<Rightarrow> u8" where
  "name_byte xs i = (if unat i < length xs then xs ! unat i else 0)"

lemma name_byte_shift: "n < 2 ^ 32 \<Longrightarrow> blit m d n (\<lambda>i. name_byte (x # xs) (i + 1)) = blit m d n (name_byte xs)"
proof (rule blit_cong)
  fix i assume "n < 2 ^ 32" "i < n"
  then have "unat (of_nat i + 1 :: u32) = Suc i" "unat (of_nat i :: u32) = i" by (simp_all add: unat_Suc_u32 unat_of_nat_u32)
  then show "name_byte (x # xs) (of_nat i + 1) = name_byte xs (of_nat i)" by (simp add: name_byte_def)
qed

lemma pad_name_zeros:
  "k \<le> min n 32 \<Longrightarrow> n < 2 ^ 31 \<Longrightarrow>
     pad_name (of_nat n) dest (of_nat k) m = Some (of_nat (min n 32), blit m dest (min n 32 - k) (name_byte []))"
proof (induction "min n 32 - k" arbitrary: k dest m)
  case 0
  then have "sint (of_nat k :: i32) = int k" "sint (of_nat n :: i32) = int n" by (simp_all add: sint_of_nat_small)
  then show ?case using 0 by (subst pad_name.simps) (auto simp: min_def)
next
  case (Suc d)
  have k: "sint (of_nat k :: i32) = int k" "sint (of_nat n :: i32) = int n" "(of_nat k :: i32) + 1 = of_nat (Suc k)"
    using Suc.hyps(2) Suc.prems by (simp_all add: sint_of_nat_small add.commute)
  have "pad_name (of_nat n) dest (of_nat k) m = pad_name (of_nat n) (dest + 1) (of_nat (Suc k)) (m(dest := 0))"
  proof -
    have "k < n" "k < 32" using Suc.hyps(2) by auto
    then show ?thesis using k by (subst pad_name.simps) (simp del: of_nat_Suc)
  qed
  also have "\<dots> = Some (of_nat (min n 32), blit (m(dest := 0)) (dest + 1) d (name_byte []))"
  proof -
    have "d = min n 32 - Suc k" "Suc k \<le> min n 32" using Suc.hyps(2) by linarith+
    then show ?thesis using Suc.hyps(1) [of "Suc k" "dest + 1" "m(dest := 0)"] Suc.prems(2) by (simp del: of_nat_Suc)
  qed
  also have "blit (m(dest := 0)) (dest + 1) d (name_byte []) = blit m dest (Suc d) (name_byte [])"
    using blit_Suc_first [of d m dest "name_byte []"] Suc.hyps(2) by (auto simp: name_byte_def [abs_def])
  finally show ?case using Suc.hyps(2) by simp
qed

lemma copy_name_padded:
  "str_at m src xs \<Longrightarrow> span src (Suc (length xs)) \<inter> span dest (min n 32 - k) = {} \<Longrightarrow> k < min n 32 \<Longrightarrow> n < 2 ^ 31 \<Longrightarrow>
     copy_name (of_nat n) src dest (of_nat k) m = Some (of_nat (min n 32), blit m dest (min n 32 - k) (name_byte xs))"
proof (induction xs arbitrary: src dest k m)
  case Nil
  then show ?case using pad_name_zeros [of k n dest m] by (subst copy_name.simps) simp
next
  case (Cons x xs)
  let ?r = "min n 32 - Suc k"
  have r: "min n 32 - k = Suc ?r" using Cons.prems(3) by linarith
  have k: "(of_nat k :: i32) + 1 = of_nat (Suc k)" by simp
  have ends: "(of_nat (Suc k) :: i32) = of_nat n \<longleftrightarrow> Suc k = n" "(32 :: i32) = of_nat (Suc k) \<longleftrightarrow> Suc k = 32"
    using Cons.prems(3,4) of_nat_u32_eq_iff [of "Suc k" n] of_nat_u32_eq_iff [of 32 "Suc k"] by (auto simp del: of_nat_Suc)
  have first: "blit (m(dest := x)) (dest + 1) ?r (name_byte xs) = blit m dest (Suc ?r) (name_byte (x # xs))"
    using blit_Suc_first [of ?r m dest "name_byte (x # xs)"] name_byte_shift [of ?r "m(dest := x)" "dest + 1" x xs]
    by (simp add: name_byte_def [of _ 0])
  have step: "copy_name (of_nat n) src dest (of_nat k) m =
      (if Suc k = n \<or> Suc k = 32 then Some (of_nat (Suc k), m(dest := x))
       else copy_name (of_nat n) (src + 1) (dest + 1) (of_nat (Suc k)) (m(dest := x)))"
    using Cons.prems(1) by (subst copy_name.simps) (auto simp: Let_def k ends simp del: of_nat_Suc)
  show ?case
  proof (cases "Suc k = n \<or> Suc k = 32")
    case True
    then have "?r = 0" "min n 32 = Suc k" using Cons.prems(3) by auto
    then show ?thesis using step True first r by simp
  next
    case False
    have sub: "span (src + 1) (Suc (length xs)) \<subseteq> span src (Suc (length (x # xs)))" "span (dest + 1) ?r \<subseteq> span dest (Suc ?r)"
      using span_sub [of 1 "Suc (length xs)" "Suc (Suc (length xs))" src] span_sub [of 1 ?r "Suc ?r" dest] by auto
    have apart: "span src (Suc (length (x # xs))) \<inter> span dest (Suc ?r) = {}" "dest \<in> span dest (Suc ?r)"
      using Cons.prems(2) r by simp_all
    have str: "str_at m (src + 1) xs" using Cons.prems(1) by simp
    have "b \<noteq> dest" if "b \<in> span (src + 1) (Suc (length xs))" for b using that sub(1) apart by blast
    then have "str_at (m(dest := x)) (src + 1) xs" by (intro str_at_frame [OF str]) simp
    moreover have "span (src + 1) (Suc (length xs)) \<inter> span (dest + 1) ?r = {}" using sub apart(1) by blast
    ultimately have "copy_name (of_nat n) (src + 1) (dest + 1) (of_nat (Suc k)) (m(dest := x)) =
        Some (of_nat (min n 32), blit (m(dest := x)) (dest + 1) ?r (name_byte xs))"
      by (rule Cons.IH) (use False Cons.prems(3,4) in auto)
    then show ?thesis using step False first r by simp
  qed
qed

lemma bytes_named: "n \<le> length xs + j \<Longrightarrow> n < 2 ^ 32 \<Longrightarrow> bytes (ptr (blit m buf n (name_byte xs)) buf) n = take n (xs @ replicate j 0)"
  by (rule nth_equalityI) (auto simp: nth_bytes ptr_def blit_at name_byte_def unat_of_nat_u32 nth_append)

text \<open>
  While a directory is open, a read of its descriptor through the emulation delivers the next name that Linux reports,
  cut or padded with zeros to the smaller of 32 and the size asked for, and changes nothing else; at the end of the directory
  it returns 0, and a write to the descriptor is refused.
\<close>

theorem emulated_directory_reads:
  fixes s t :: "'a emulation_scheme"
  assumes "dir s \<noteq> NULL_PTR" and "h_readdir H (dir s) s = (next_name, t)" and "0 < n" and "n < 2 ^ 31"
    and "\<And>p. next_name = Some p \<Longrightarrow> str_at (mem t) p name \<and> span p (Suc (length name)) \<inter> span buf 32 = {}"
  shows "(case next_name of
      None \<Rightarrow> emulated_read H (dir_fd s) buf (of_nat n) s = Ok (0, t)
    | Some p \<Rightarrow> \<exists>m. emulated_read H (dir_fd s) buf (of_nat n) s = Ok (of_nat (min n 32), t\<lparr>mem := m\<rparr>) \<and>
        bytes (ptr m buf) (min n 32) = take (min n 32) (name @ replicate 32 0) \<and>
        (\<forall>b. b \<notin> span buf (min n 32) \<longrightarrow> m b = mem t b)) \<and>
    emulated_write H (dir_fd s) buf nbytes s = Ok (-1, s)"
proof -
  have w: "emulated_write H (dir_fd s) buf nbytes s = Ok (-1, s)" using assms(1) by (simp add: emulated_write_def)
  show ?thesis
  proof (cases next_name)
    case None
    then show ?thesis using assms(1,2) w by (simp add: emulated_read_def)
  next
    case (Some p)
    let ?m = "blit (mem t) buf (min n 32) (name_byte name)"
    have "span buf (min n 32) \<subseteq> span buf 32" using span_in [of _ buf 0 "min n 32" 32] by auto
    then have "copy_name (of_nat n) p buf (of_nat 0) (mem t) = Some (of_nat (min n 32), ?m)"
      using copy_name_padded [of "mem t" p name buf n 0] assms(3,4) assms(5) [OF Some] by auto
    then have "emulated_read H (dir_fd s) buf (of_nat n) s = Ok (of_nat (min n 32), t\<lparr>mem := ?m\<rparr>)"
      using assms(1,2) Some by (simp add: emulated_read_def)
    moreover have "\<forall>b. b \<notin> span buf (min n 32) \<longrightarrow> ?m b = mem t b" by (simp add: blit_outside not_in_span)
    ultimately show ?thesis using w Some bytes_named [of "min n 32" name 32 "mem t" buf] by auto
  qed
qed

theorem emulated_directory_reads_witness:
  "\<exists>m. emulated_read sample_linux 3 0x2000 4 (sample_emulation ((\<lambda>_. 0)(0x1000 := 108, 0x1001 := 115))) =
      Ok (4, sample_emulation m) \<and> bytes (ptr m 0x2000) 4 = [108, 115, 0, 0]"
proof -
  let ?s = "sample_emulation ((\<lambda>_. 0)(0x1000 := 108, 0x1001 := 115))"
  have "str_at (mem ?s) 0x1000 [108, 115] \<and> span 0x1000 (Suc (length [108, 115 :: u8])) \<inter> span 0x2000 32 = {}"
    by (simp add: sample_emulation_def span_disjoint)
  moreover have "replicate 2 (0 :: u8) = [0, 0]" by (simp add: numeral_2_eq_2)
  ultimately show ?thesis
    using emulated_directory_reads [of ?s sample_linux "Some 0x1000" ?s 4 "[108, 115]" "0x2000" 0]
    by (auto simp: sample_emulation_def sample_linux_def NULL_PTR_def)
qed

end
