(* ===== verification/Wrappers.thy ===== *)
theory Wrappers
  imports Kernel_Entry
begin

text \<open>
  The assembly around the interrupt handlers: the \<open>HANDLER\<close> wrappers, the register saving of
  \<open>syscall_handler\<close> and the jump of \<open>to_the_user_space\<close> (\<open>interrupthandler.S\<close>), with the stack discipline of
  \<open>pit_interruption\<close> (\<open>scheduler.c\<close>), which leaves through the frame of another process. The processor's own
  part of an interrupt, and of \<open>iret\<close>, is written out as the manual describes it.
\<close>

section \<open>Registers and stack\<close>

text \<open>
  The registers beside \<open>esp\<close> and \<open>ebp\<close>, which the kernel state has. Bit 9 of the flags is
  \<open>interrupts_on\<close>; \<open>r_eflags\<close> holds the others.
\<close>

record cpu = kernel_state +
  r_eax :: u32
  r_ebx :: u32
  r_ecx :: u32
  r_edx :: u32
  r_esi :: u32
  r_edi :: u32
  r_eflags :: u32
  r_eip :: u32
  r_cs :: u32
  r_ss :: u32
  r_ds :: u32

definition USER_CS :: u32 where "USER_CS = 0x23"
definition USER_DS :: u32 where "USER_DS = 0x2B"

definition get_flags :: "'a cpu_scheme \<Rightarrow> u32" where
  "get_flags c = (if interrupts_on c then set_bit 9 (r_eflags c) else unset_bit 9 (r_eflags c))"

definition set_flags :: "u32 \<Rightarrow> 'a cpu_scheme \<Rightarrow> 'a cpu_scheme" where
  "set_flags v c = c\<lparr>r_eflags := v, interrupts_on := bit v 9\<rparr>"

definition pushl :: "u32 \<Rightarrow> 'a kernel_state_scheme \<Rightarrow> 'a kernel_state_scheme" where
  "pushl v c = c\<lparr>esp := esp c - 4, mem := store32 (mem c) (esp c - 4) v\<rparr>"

definition popl :: "'a kernel_state_scheme \<Rightarrow> u32 \<times> 'a kernel_state_scheme" where
  "popl c = (load32 (mem c) (esp c), c\<lparr>esp := esp c + 4\<rparr>)"

text \<open>
  An interrupt or trap through an interrupt gate: from user mode the processor first takes the stack
  that the TSS names and saves the user's; then it saves flags, \<open>cs\<close> and \<open>eip\<close> and disables interrupts.
\<close>

definition user_mode :: "'a cpu_scheme \<Rightarrow> bool" where
  "user_mode c \<longleftrightarrow> r_cs c AND 3 = 3"

definition through_gate :: "u32 \<Rightarrow> 'a cpu_scheme \<Rightarrow> 'a cpu_scheme" where
  "through_gate handler c =
     (let old = c;
          c = (if user_mode c then pushl (esp old) (pushl (r_ss old) (c\<lparr>esp := tss_esp0 c, r_ss := ucast KERNEL_DS\<rparr>)) else c);
          c = pushl (get_flags old) c;
          c = pushl (r_cs old) c;
          c = pushl (r_eip old) c
      in c\<lparr>r_eip := handler, r_cs := ucast KERNEL_CS, interrupts_on := False\<rparr>)"

definition iret :: "'a cpu_scheme \<Rightarrow> 'a cpu_scheme" where
  "iret c =
     (let (ip, c) = popl c; (sel, c) = popl c; (fl, c) = popl c;
          c = set_flags fl (c\<lparr>r_eip := ip, r_cs := sel\<rparr>)
      in if user_mode c then (let (sp, c) = popl c; (seg, c) = popl c in c\<lparr>esp := sp, r_ss := seg\<rparr>) else c)"

section \<open>The wrappers of the device interrupts\<close>

definition save_registers :: "'a cpu_scheme \<Rightarrow> 'a cpu_scheme" where
  "save_registers c =
     (let c = pushl (ebp c) c; c = pushl (r_eax c) c; c = pushl (r_ebx c) c; c = pushl (r_ecx c) c;
          c = pushl (r_edx c) c; c = pushl (r_edi c) c; c = pushl (r_esi c) c
      in pushl (get_flags c) c)"

definition restore_registers :: "'a cpu_scheme \<Rightarrow> 'a cpu_scheme" where
  "restore_registers c =
     (let (v, c) = popl c; c = set_flags v c;
          (v, c) = popl c; c = c\<lparr>r_esi := v\<rparr>;
          (v, c) = popl c; c = c\<lparr>r_edi := v\<rparr>;
          (v, c) = popl c; c = c\<lparr>r_edx := v\<rparr>;
          (v, c) = popl c; c = c\<lparr>r_ecx := v\<rparr>;
          (v, c) = popl c; c = c\<lparr>r_ebx := v\<rparr>;
          (v, c) = popl c; c = c\<lparr>r_eax := v\<rparr>;
          (v, c) = popl c
      in c\<lparr>ebp := v\<rparr>)"

text \<open>
  The end of a wrapper, from the label \<open>end_name\<close> on.
\<close>

definition end_handler :: "'a cpu_scheme \<Rightarrow> 'a cpu_scheme" where
  "end_handler c = iret (sti (restore_registers c))"

text \<open>
  A call of a C function with its frame: the return address, the caller's \<open>ebp\<close>, \<open>locals\<close> bytes for the
  function. \<open>leave\<close> and \<open>ret\<close> take the way back from whatever \<open>ebp\<close> names then. The registers that the
  function may use freely come back with the values \<open>J\<close>.
\<close>

definition c_entry :: "u32 \<Rightarrow> u32 \<Rightarrow> 'a cpu_scheme \<Rightarrow> 'a cpu_scheme" where
  "c_entry ret_addr locals c =
     (let c = pushl ret_addr c; c = pushl (ebp c) c; c = c\<lparr>ebp := esp c\<rparr> in c\<lparr>esp := esp c - locals\<rparr>)"

definition leave_ret :: "'a cpu_scheme \<Rightarrow> 'a cpu_scheme" where
  "leave_ret c =
     (let c = c\<lparr>esp := ebp c\<rparr>; (v, c) = popl c; c = c\<lparr>ebp := v\<rparr>; (ip, c) = popl c in c\<lparr>r_eip := ip\<rparr>)"

definition scratch :: "u32 \<times> u32 \<times> u32 \<times> u32 \<Rightarrow> 'a cpu_scheme \<Rightarrow> 'a cpu_scheme" where
  "scratch J c = (case J of (a, b, d, f) \<Rightarrow> c\<lparr>r_eax := a, r_ecx := b, r_edx := d, r_eflags := f\<rparr>)"

text \<open>
  \<open>HANDLER(name, end_name, send_to_fn)\<close>; the function returns or not, and where its \<open>ret\<close> leads decides
  whether the rest of the wrapper runs.
\<close>

definition HANDLER ::
  "u32 \<Rightarrow> ('a cpu_scheme \<Rightarrow> 'a cpu_scheme option) \<Rightarrow> u32 \<Rightarrow> u32 \<times> u32 \<times> u32 \<times> u32 \<Rightarrow> 'a cpu_scheme \<Rightarrow> 'a cpu_scheme option" where
  "HANDLER end_name send_to_fn locals J c =
     Option.bind (send_to_fn (c_entry end_name locals (save_registers c))) (\<lambda>c.
       let c = leave_ret (scratch J c) in if r_eip c = end_name then Some (end_handler c) else None)"

definition keyboard_handler where
  "keyboard_handler addr dv = HANDLER addr (keyboard_interruption dv)"

definition clock_handler where
  "clock_handler addr dv = HANDLER addr (\<lambda>c. Some (clock_interruption dv c))"

definition pit_handler where
  "pit_handler L = HANDLER (end_pit_handler_addr L) (pit_interruption L)"

section \<open>The entry of a system call and the way to a program\<close>

definition save_syscall :: "'a cpu_scheme \<Rightarrow> 'a cpu_scheme" where
  "save_syscall c =
     (let c = pushl (ebp c) c; c = pushl (r_edi c) c; c = pushl (r_esi c) c; c = pushl (r_edx c) c;
          c = pushl (r_ecx c) c; c = pushl (r_ebx c) c; c = pushl (r_edx c) c; c = pushl (r_ecx c) c
      in pushl (r_ebx c) c)"

definition restore_syscall :: "'a cpu_scheme \<Rightarrow> 'a cpu_scheme" where
  "restore_syscall c =
     (let c = c\<lparr>esp := esp c + 12\<rparr>;
          (v, c) = popl c; c = c\<lparr>r_ebx := v\<rparr>;
          (v, c) = popl c; c = c\<lparr>r_ecx := v\<rparr>;
          (v, c) = popl c; c = c\<lparr>r_edx := v\<rparr>;
          (v, c) = popl c; c = c\<lparr>r_esi := v\<rparr>;
          (v, c) = popl c; c = c\<lparr>r_edi := v\<rparr>;
          (v, c) = popl c
      in c\<lparr>ebp := v\<rparr>)"

definition end_syscall :: "'a cpu_scheme \<Rightarrow> 'a cpu_scheme" where
  "end_syscall c = iret (restore_syscall c)"

definition enter_program :: "u32 \<Rightarrow> 'a cpu_scheme \<Rightarrow> 'a cpu_scheme" where
  "enter_program entry_point c =
     (let c = cli c;
          c = c\<lparr>r_ebx := entry_point, r_eax := USER_DS, r_ds := USER_DS\<rparr>;
          c = pushl (r_eax c) c;
          c = pushl 0x083FFFF0 c;
          c = c\<lparr>r_eax := get_flags c OR 0x4200\<rparr>;
          c = pushl (r_eax c) c;
          c = pushl USER_CS c;
          c = pushl (r_ebx c) c
      in iret c)"

section \<open>Words on a stack\<close>

fun words_at :: "memory \<Rightarrow> u32 \<Rightarrow> u32 list \<Rightarrow> bool" where
  "words_at m a [] \<longleftrightarrow> True"
| "words_at m a (w # ws) \<longleftrightarrow> load32 m a = w \<and> words_at m (a + 4) ws"

lemma words_at_cong:
  "(\<And>i. i < 4 * length ws \<Longrightarrow> m' (a + of_nat i) = m (a + of_nat i)) \<Longrightarrow> words_at m' a ws \<longleftrightarrow> words_at m a ws"
proof (induction ws arbitrary: a)
  case (Cons w ws)
  have "m' (a + 4 + of_nat i) = m (a + 4 + of_nat i)" if "i < 4 * length ws" for i
    using Cons.prems [of "i + 4"] that by (simp add: ac_simps)
  moreover have "load32 m' a = load32 m a"
    using Cons.prems [of 0] Cons.prems [of 1] Cons.prems [of 2] Cons.prems [of 3] by (simp add: load32_def)
  ultimately show ?case using Cons.IH by simp
qed simp

lemma words_at_store:
  assumes "words_at m a ws" and "length ws < 2 ^ 29"
  shows "words_at (store32 m (a - 4) v) (a - 4) (v # ws)"
proof -
  have "store32 m (a - 4) v (a + of_nat i) = m (a + of_nat i)" if "i < 4 * length ws" for i
  proof (rule store32_outside)
    have "a + of_nat i - (a - 4) = of_nat (i + 4)" by simp
    then show "4 \<le> unat (a + of_nat i - (a - 4))" using that assms(2) unat_of_nat_u32 [of "i + 4"] by simp
  qed
  then show ?thesis using assms(1) words_at_cong [of ws "store32 m (a - 4) v" a m] by (simp add: load32_store32)
qed

text \<open>Pushing and popping, with the stack as a list.\<close>

abbreviation stack :: "'a kernel_state_scheme \<Rightarrow> u32 list \<Rightarrow> bool" where
  "stack c ws \<equiv> words_at (mem c) (esp c) ws"

lemma stack_pushl: "stack c ws \<Longrightarrow> length ws < 2 ^ 29 \<Longrightarrow> stack (pushl v c) (v # ws)"
  using words_at_store by (simp add: pushl_def del: words_at.simps)

lemma popl_stack: "stack c (w # ws) \<Longrightarrow> popl c = (w, c\<lparr>esp := esp c + 4\<rparr>)"
  by (simp add: popl_def)

lemma flags_kept [simp]: "bit v 9 \<Longrightarrow> set_bit 9 v = (v :: u32)" "\<not> bit v 9 \<Longrightarrow> unset_bit 9 v = (v :: u32)"
  by (auto intro!: bit_word_eqI simp: bit_set_bit_iff bit_unset_bit_iff)

lemma flags_interrupts: "bit (get_flags c) 9 \<longleftrightarrow> interrupts_on c"
  by (simp add: get_flags_def bit_set_bit_iff bit_unset_bit_iff)

lemma flags_set [simp]: "r_eflags c = v \<Longrightarrow> interrupts_on c = bit v 9 \<Longrightarrow> get_flags c = v"
  by (simp add: get_flags_def)

section \<open>The frame of an interrupted program\<close>

text \<open>
  What the processor, the wrapper and the call put on the kernel stack, from the \<open>ebp\<close> of the C function up.
\<close>

definition frame_words :: "u32 \<Rightarrow> 'a cpu_scheme \<Rightarrow> u32 list" where
  "frame_words ret_addr c =
     [ebp c, ret_addr, unset_bit 9 (r_eflags c), r_esi c, r_edi c, r_edx c, r_ecx c, r_ebx c, r_eax c, ebp c,
      r_eip c, r_cs c, get_flags c] @ (if user_mode c then [esp c, r_ss c] else [])"

definition frame_top :: "'a cpu_scheme \<Rightarrow> u32" where
  "frame_top c = (if user_mode c then tss_esp0 c - 60 else esp c - 52)"

text \<open>The registers that a program can see.\<close>

definition program_registers :: "'a cpu_scheme \<Rightarrow> u32 list" where
  "program_registers c = [r_eax c, r_ebx c, r_ecx c, r_edx c, r_esi c, r_edi c, ebp c, esp c, get_flags c, r_eip c, r_cs c, r_ss c]"

lemma pushl_simps [simp]:
  "esp (pushl v c) = esp c - 4" "ebp (pushl v c) = ebp c" "tss_esp0 (pushl v c) = tss_esp0 c" "interrupts_on (pushl v c) = interrupts_on c"
  by (simp_all add: pushl_def)

lemma pushl_registers [simp]:
  "r_eax (pushl v c) = r_eax c" "r_ebx (pushl v c) = r_ebx c" "r_ecx (pushl v c) = r_ecx c" "r_edx (pushl v c) = r_edx c"
  "r_esi (pushl v c) = r_esi c" "r_edi (pushl v c) = r_edi c" "r_eflags (pushl v c) = r_eflags c" "r_cs (pushl v c) = r_cs c"
  "r_eip (pushl v c) = r_eip c" "r_ss (pushl v c) = r_ss c" "get_flags (pushl v c) = get_flags c"
  by (simp_all add: pushl_def get_flags_def)

lemma stack_fold: "stack c ws \<Longrightarrow> length vs + length ws < 2 ^ 29 \<Longrightarrow> stack (fold pushl vs c) (rev vs @ ws)"
proof (induction vs arbitrary: c ws)
  case (Cons v vs)
  then have "stack (pushl v c) (v # ws)" by (intro stack_pushl) auto
  then show ?case using Cons.IH [of "pushl v c" "v # ws"] Cons.prems(2) by simp
qed simp

lemma save_fold:
  "save_registers c = fold pushl [ebp c, r_eax c, r_ebx c, r_ecx c, r_edx c, r_edi c, r_esi c, get_flags c] c"
  by (simp add: save_registers_def Let_def)

lemma gate_fold:
  "through_gate handler c =
     (let c' = (if user_mode c then c\<lparr>esp := tss_esp0 c, r_ss := ucast KERNEL_DS\<rparr> else c)
      in (fold pushl ((if user_mode c then [r_ss c, esp c] else []) @ [get_flags c, r_cs c, r_eip c]) c')
           \<lparr>r_eip := handler, r_cs := ucast KERNEL_CS, interrupts_on := False\<rparr>)"
  by (simp add: through_gate_def Let_def)

lemma gate_registers:
  fixes c :: "'a cpu_scheme" and handler :: u32
  defines "g \<equiv> through_gate handler c"
  shows "r_eax g = r_eax c" "r_ebx g = r_ebx c" "r_ecx g = r_ecx c" "r_edx g = r_edx c" "r_esi g = r_esi c" "r_edi g = r_edi c"
    "ebp g = ebp c" "get_flags g = unset_bit 9 (r_eflags c)"
  by (simp_all add: g_def through_gate_def Let_def get_flags_def)

lemma entry_frame:
  fixes c :: "'a cpu_scheme" and ret_addr locals handler :: u32
  defines "d \<equiv> c_entry ret_addr locals (save_registers (through_gate handler c))"
  shows "words_at (mem d) (ebp d) (frame_words ret_addr c)" and "ebp d = frame_top c" and "esp d = frame_top c - locals"
proof -
  let ?g = "through_gate handler c"
  let ?hw = "[r_eip c, r_cs c, get_flags c] @ (if user_mode c then [esp c, r_ss c] else [])"
  have g: "stack ?g ?hw"
    using stack_fold [of "if user_mode c then c\<lparr>esp := tss_esp0 c, r_ss := ucast KERNEL_DS\<rparr> else c" "[]"
        "(if user_mode c then [r_ss c, esp c] else []) @ [get_flags c, r_cs c, r_eip c]"]
    by (cases "user_mode c") (simp_all add: gate_fold Let_def del: words_at.simps(2))
  have "stack (fold pushl [ret_addr, ebp c] (save_registers ?g)) (frame_words ret_addr c)"
    using stack_fold [OF g, of "[ebp c, r_eax c, r_ebx c, r_ecx c, r_edx c, r_edi c, r_esi c, unset_bit 9 (r_eflags c), ret_addr, ebp c]"]
    by (simp add: save_fold gate_registers frame_words_def del: words_at.simps)
  moreover have "ebp (save_registers ?g) = ebp c" by (simp add: save_fold gate_registers)
  ultimately show "words_at (mem d) (ebp d) (frame_words ret_addr c)"
    by (simp add: d_def c_entry_def Let_def)
  show "ebp d = frame_top c" "esp d = frame_top c - locals"
    by (simp_all add: d_def c_entry_def save_registers_def through_gate_def frame_top_def Let_def)
qed

text \<open>The way back through such a frame.\<close>

lemma exit_frame:
  fixes c :: "'a cpu_scheme" and d :: "'b cpu_scheme"
  assumes "words_at (mem d) (ebp d) (frame_words ret_addr c)" and "user_mode c \<or> ebp d = frame_top c \<and> r_ss d = r_ss c"
  shows "r_eip (leave_ret d) = ret_addr" and "program_registers (end_handler (leave_ret d)) = program_registers c"
proof -
  have w: "words_at (mem d) (ebp d) ([ebp c, ret_addr, unset_bit 9 (r_eflags c), r_esi c, r_edi c, r_edx c, r_ecx c, r_ebx c, r_eax c,
      ebp c, r_eip c, r_cs c, get_flags c] @ (if user_mode c then [esp c, r_ss c] else []))"
    using assms(1) by (simp only: frame_words_def)
  show "r_eip (leave_ret d) = ret_addr" using w by (simp add: leave_ret_def popl_def Let_def)
  show "program_registers (end_handler (leave_ret d)) = program_registers c"
    using w assms(2)
    by (cases "user_mode c") (simp_all add: program_registers_def end_handler_def restore_registers_def leave_ret_def iret_def popl_def Let_def
      sti_def user_mode_def frame_top_def set_flags_def)
qed

section \<open>Interrupts that come back to the same process\<close>

lemma upper_registers:
  fixes s t :: "'a cpu_scheme"
  assumes "upper t = upper s"
  shows "ebp t = ebp s" "r_ss t = r_ss s"
  using assms by (cases s; cases t; simp)+

lemma wrapper_transparent:
  fixes c :: "'a cpu_scheme"
  assumes f: "f (c_entry end_name locals (save_registers (through_gate handler c))) = Some d"
    and d: "ebp d = frame_top c" "user_mode c \<or> r_ss d = r_ss c"
    and kept: "\<And>i. i < 60 \<Longrightarrow> mem d (frame_top c + of_nat i) =
      mem (c_entry end_name locals (save_registers (through_gate handler c))) (frame_top c + of_nat i)"
  shows "\<exists>e. HANDLER end_name f locals J (through_gate handler c) = Some e \<and> program_registers e = program_registers c"
proof -
  let ?d = "scratch J d"
  have s: "mem ?d = mem d" "ebp ?d = ebp d" "r_ss ?d = r_ss d" by (cases J; simp add: scratch_def)+
  have len: "4 * length (frame_words end_name c) \<le> 60" by (simp add: frame_words_def)
  have "words_at (mem ?d) (ebp ?d) (frame_words end_name c)"
    unfolding s d(1) using entry_frame(1,2) [of end_name locals handler c] words_at_cong [of "frame_words end_name c" "mem d" "frame_top c"] kept len
    by auto
  from exit_frame [OF this] d s show ?thesis using f by (simp add: HANDLER_def Let_def)
qed

text \<open>
  C27. A clock interrupt is invisible to the code it interrupts: the wrapper saves the registers, calls the handler, which
  repaints the screen memory, restores them and returns, and then every register, the flags and the stack pointer included,
  has the value it had, whether a program or the kernel itself was interrupted, as long as the stack lies above the screen memory.
\<close>

theorem clock_interrupt_transparent:
  fixes c :: "'a cpu_scheme"
  assumes "0x100000 \<le> unat (frame_top c)" and "unat (frame_top c) + 60 \<le> 2 ^ 32" and "active_term c < 3"
  shows "\<exists>e. clock_handler addr dv locals J (through_gate handler c) = Some e \<and> program_registers e = program_registers c"
proof -
  let ?c = "c_entry addr locals (save_registers (through_gate handler c))"
  let ?d = "clock_interruption dv ?c"
  have c: "active_term ?c = active_term c" "\<not> user_mode c \<Longrightarrow> r_ss ?c = r_ss c"
    by (simp_all add: c_entry_def save_registers_def through_gate_def pushl_def Let_def)
  have d: "ebp ?d = frame_top c" "r_ss ?d = r_ss ?c"
    using upper_registers [of ?d ?c] entry_frame(2) [of addr locals handler c] by simp_all
  have "mem ?d = blit (mem ?c) VIDEO 4096 (ptr (mem ?c) (video_buff (active_term c)))"
    using memcpy_video [OF assms(3), of "mem ?c"] assms(3) c(1)
    by (simp add: clock_interruption_def Let_def cli_def sti_def outb_def inb_def send_eoi_def update_vid_shows)
  moreover have "4096 \<le> unat (frame_top c + of_nat i - VIDEO)" if "i < 60" for i
  proof -
    have "unat (frame_top c + of_nat i) = unat (frame_top c) + i"
      using assms(2) that unat_of_nat_u32 [of i] by (simp add: unat_word_ariths)
    then show ?thesis using assms(1) by (simp add: unat_sub_if_size word_size video_defs)
  qed
  ultimately have "mem ?d (frame_top c + of_nat i) = mem ?c (frame_top c + of_nat i)" if "i < 60" for i
    using that by (simp add: blit_outside)
  then show ?thesis unfolding clock_handler_def
    using wrapper_transparent [of "\<lambda>c. Some (clock_interruption dv c)" addr locals handler c ?d J] d c(2) by auto
qed

section \<open>Interrupts that come back to another process\<close>

lemma fold_pushl_cong:
  "mem c = mem d \<Longrightarrow> esp c = esp d \<Longrightarrow> mem (fold pushl vs c) = mem (fold pushl vs d)"
  by (induction vs arbitrary: c d) (simp_all add: pushl_def)

lemma fold_pushl_outside:
  "4 * length vs < 2 ^ 32 \<Longrightarrow> 4 * length vs \<le> unat (b - (esp c - 4 * of_nat (length vs))) \<Longrightarrow> mem (fold pushl vs c) b = mem c b"
proof (induction vs arbitrary: c)
  case (Cons v vs)
  let ?e = "esp c - 4 * of_nat (length (v # vs))"
  have e: "esp (pushl v c) - 4 * of_nat (length vs) = ?e" by simp
  have n: "unat (4 * of_nat (length vs) :: u32) = 4 * length vs"
    using Cons.prems(1) unat_of_nat_u32 [of "4 * length vs"] by simp
  have "b - (esp c - 4) = (b - ?e) - 4 * of_nat (length vs)" by simp
  moreover have "4 * of_nat (length vs) \<le> b - ?e" using Cons.prems(2) n by (simp add: word_le_nat_alt)
  ultimately have "unat (b - (esp c - 4)) = unat (b - ?e) - 4 * length vs" using unat_sub n by metis
  then have "mem (pushl v c) b = mem c b"
    unfolding pushl_def using Cons.prems(2) by (simp add: store32_outside)
  moreover have "mem (fold pushl vs (pushl v c)) b = mem (pushl v c) b"
    by (rule Cons.IH) (use Cons.prems in \<open>simp_all only: e\<close>, simp_all)
  ultimately show ?case by simp
qed simp

lemma pit_switches:
  fixes c :: "'a cpu_scheme"
  assumes "pit_interruption L c = Some d" and "current_process_number d \<noteq> current_process_number c"
  shows "\<not> in_program_page b \<Longrightarrow> mem d b = mem c b" and "kbp_before_change (pcbs d (pcb_addr (current_process_number c))) = ebp c"
    and "pcb_addr (current_process_number d) \<noteq> pcb_addr (current_process_number c) \<Longrightarrow>
      ebp d = kbp_before_change (pcbs c (pcb_addr (current_process_number d)))"
    and "cr3 d = (page_directories_addr L + 0x1000 * ucast (current_process_number d)) AND 0xFFFFFFE7"
    and "tss_esp0 d = stack_bottom (current_process_number d)"
proof -
  let ?c = "send_eoi 0 (cli c)"
  have e: "mem ?c = mem c" "pcbs ?c = pcbs c" "ebp ?c = ebp c" "current_process_number ?c = current_process_number c"
    by (simp_all add: send_eoi_def cli_def outb_def)
  obtain n where n: "d = switch_to L n ?c"
    using assms e by (auto simp: pit_interruption_def Let_def get_current_process_number_def split: option.splits if_splits)
  note f = switch_to_fields [of L n ?c, folded n]
  show "mem d b = mem c b" if "\<not> in_program_page b"
    using that e(1) by (simp add: n switch_to_def Let_def set_current_process_number_def get_current_process_number_def
        set_process_term_number_def set_page_dir_addr_def load_cr3_def enable_paging_def set_kernel_stack_bottom_def)
  show "kbp_before_change (pcbs d (pcb_addr (current_process_number c))) = ebp c" using f(6) e by simp
  show "cr3 d = (page_directories_addr L + 0x1000 * ucast (current_process_number d)) AND 0xFFFFFFE7" using f(2,5) by simp
  show "tss_esp0 d = stack_bottom (current_process_number d)" using f(2,4) by simp
  show "ebp d = kbp_before_change (pcbs c (pcb_addr (current_process_number d)))"
    if "pcb_addr (current_process_number d) \<noteq> pcb_addr (current_process_number c)"
    using that f(2,6,8) e by simp
qed

text \<open>The state at the entry of \<open>pit_interruption\<close>, when a timer interrupt meets \<open>c\<close>.\<close>

abbreviation at_pit :: "layout \<Rightarrow> u32 \<Rightarrow> u32 \<Rightarrow> 'a cpu_scheme \<Rightarrow> 'a cpu_scheme" where
  "at_pit L locals handler c \<equiv> c_entry (end_pit_handler_addr L) locals (save_registers (through_gate handler c))"

lemma at_pit_fields:
  "current_process_number (at_pit L k h c) = current_process_number c" "pcbs (at_pit L k h c) = pcbs c" "tss_esp0 (at_pit L k h c) = tss_esp0 c"
  by (simp_all add: c_entry_def save_registers_def through_gate_def pushl_def Let_def)

lemma entry_fold:
  "mem (c_entry ret_addr k (save_registers (through_gate h c))) =
     mem (fold pushl ((if user_mode c then [r_ss c, esp c] else []) @ [get_flags c, r_cs c, r_eip c] @
         [ebp c, r_eax c, r_ebx c, r_ecx c, r_edx c, r_edi c, r_esi c, unset_bit 9 (r_eflags c), ret_addr, ebp c])
       (if user_mode c then c\<lparr>esp := tss_esp0 c, r_ss := ucast KERNEL_DS\<rparr> else c))"
proof -
  let ?g = "through_gate h c"
  let ?vs = "[ebp c, r_eax c, r_ebx c, r_ecx c, r_edx c, r_edi c, r_esi c, unset_bit 9 (r_eflags c), ret_addr, ebp c]"
  let ?us = "(if user_mode c then [r_ss c, esp c] else []) @ [get_flags c, r_cs c, r_eip c]"
  let ?c = "if user_mode c then c\<lparr>esp := tss_esp0 c, r_ss := ucast KERNEL_DS\<rparr> else c"
  have "mem (c_entry ret_addr k (save_registers ?g)) = mem (fold pushl ?vs ?g)"
    by (simp add: c_entry_def save_fold Let_def gate_registers)
  also have "\<dots> = mem (fold pushl ?vs (fold pushl ?us ?c))"
    by (rule fold_pushl_cong) (simp_all add: gate_fold Let_def)
  finally show ?thesis by simp
qed

text \<open>The entry of an interrupt writes only the frame.\<close>

definition frame_bytes :: "'a cpu_scheme \<Rightarrow> nat" where
  "frame_bytes c = (if user_mode c then 60 else 52)"

lemma entry_outside:
  assumes "frame_bytes c \<le> unat (b - frame_top c)"
  shows "mem (c_entry ret_addr k (save_registers (through_gate h c))) b = mem c b"
proof -
  let ?vs = "(if user_mode c then [r_ss c, esp c] else []) @ [get_flags c, r_cs c, r_eip c] @
      [ebp c, r_eax c, r_ebx c, r_ecx c, r_edx c, r_edi c, r_esi c, unset_bit 9 (r_eflags c), ret_addr, ebp c]"
  let ?c = "if user_mode c then c\<lparr>esp := tss_esp0 c, r_ss := ucast KERNEL_DS\<rparr> else c"
  have "mem (fold pushl ?vs ?c) b = mem ?c b"
    by (rule fold_pushl_outside) (use assms in \<open>auto simp: frame_bytes_def frame_top_def split: if_splits\<close>)
  then show ?thesis by (simp add: entry_fold)
qed

section \<open>While another process runs\<close>

text \<open>
  The 8KB block of a process: its PCB and its kernel stack. The frame of an interrupt has room there, which for an
  interrupted program follows from the context.
\<close>

definition in_block :: "u8 \<Rightarrow> u32 \<Rightarrow> bool" where
  "in_block p a \<longleftrightarrow> a AND ALIGN_8KB = pcb_addr p"

definition frame_room :: "'a cpu_scheme \<Rightarrow> bool" where
  "frame_room c \<longleftrightarrow> (\<forall>i < frame_bytes c. in_block (current_process_number c) (frame_top c + of_nat i))"

lemma pcb_addr_eq: "pcb_addr p = pcb_addr q \<longleftrightarrow> p = q"
proof
  assume "pcb_addr p = pcb_addr q"
  then have "SZ_8KB * ucast p = SZ_8KB * (ucast q :: u32)" by (simp add: pcb_addr_def algebra_simps)
  then have "unat (SZ_8KB * ucast p :: u32) = unat (SZ_8KB * ucast q :: u32)" by simp
  moreover have "unat (SZ_8KB * ucast r :: u32) = 8192 * unat r" for r :: u8
  proof -
    have "unat r < 256" using unsigned_less [of r] by simp
    moreover have "unat (ucast r :: u32) = unat r" using \<open>unat r < 256\<close> by (simp add: unsigned_ucast_eq take_bit_nat_eq_self)
    ultimately show ?thesis by (simp add: size_defs unat_word_ariths)
  qed
  ultimately show "p = q" by (simp add: word_unat_eq_iff)
qed simp

lemma unat_align: "unat (a AND ALIGN_8KB) = 8192 * (unat a div 8192)"
proof -
  have "a AND ALIGN_8KB = push_bit 13 (drop_bit 13 a)"
  proof (rule bit_word_eqI)
    fix n :: nat
    assume "n < LENGTH(32)"
    moreover have m: "ALIGN_8KB = NOT (mask 13)" by (simp add: ALIGN_8KB_def mask_eq_exp_minus_1)
    have "bit ALIGN_8KB n \<longleftrightarrow> 13 \<le> n \<and> n < 32" unfolding m by (auto simp: bit_simps)
    ultimately show "bit (a AND ALIGN_8KB) n \<longleftrightarrow> bit (push_bit 13 (drop_bit 13 a)) n" by (auto simp: bit_simps)
  qed
  moreover have "8192 * (unat a div 8192) \<le> unat a" by simp
  then have "8192 * (unat a div 8192) < 4294967296" using unat_u32_lt [of a] by linarith
  ultimately show ?thesis by (simp add: push_bit_eq_mult drop_bit_eq_div unat_word_ariths unat_div)
qed

lemma in_block_iff: "p < 8 \<Longrightarrow> in_block (of_nat p) a \<longleftrightarrow> unat a div 8192 = 1023 - p"
proof -
  assume p: "p < 8"
  then have "unat (pcb_addr (of_nat p)) = 8192 * (1023 - p)" by (simp add: unat_pcb_addr)
  then show ?thesis by (simp add: in_block_def word_unat_eq_iff unat_align)
qed

lemma in_block_kernel: "in_block p a \<Longrightarrow> p < 8 \<Longrightarrow> kernel_block a"
proof -
  assume a: "in_block p a" and p: "p < 8"
  have "unat p < 8" using p by (simp add: word_less_nat_alt)
  then have "unat a div 8192 = 1023 - unat p" using a in_block_iff [of "unat p" a] by (simp add: u8_of_unat)
  then have "0x7F0000 \<le> unat a" "unat a < 0x800000" using \<open>unat p < 8\<close> by linarith+
  then show ?thesis by (simp add: kernel_block_def size_defs word_le_nat_alt word_less_nat_alt)
qed

lemma stack_frame_block:
  assumes "p < 8" and "i < 60"
  shows "in_block (of_nat p) (stack_bottom (of_nat p) - 60 + of_nat i)"
proof -
  have "\<forall>p\<in>set [0..<8]. unat (stack_bottom (of_nat p) - 60) = 8192 * (1023 - p) + 8128" by (simp add: upt_rec stack_bottom_def size_defs)
  moreover have "p \<in> set [0..<8]" using assms(1) by simp
  ultimately have "unat (stack_bottom (of_nat p) - 60) = 8192 * (1023 - p) + 8128" by blast
  then have "unat (stack_bottom (of_nat p) - 60 + of_nat i) = 8192 * (1023 - p) + (8128 + i)"
    using assms unat_of_nat_u32 [of i] by (simp add: unat_word_ariths)
  then show ?thesis using assms by (simp add: in_block_iff)
qed

lemma user_frame_block:
  assumes "ctx_ok L s" and "user_mode c" and "tss_esp0 c = tss_esp0 s" and "i < 60"
  shows "in_block (current_process_number s) (frame_top c + of_nat i)"
proof -
  have "tss_esp0 s = stack_bottom (current_process_number s)"
    using assms(1) ctx_ok_cur(3) [OF assms(1)] by (simp add: ctx_ok_def regs_ok_def abs_table_def)
  then show ?thesis
    using stack_frame_block [OF ctx_ok_cur(2) [OF assms(1)] assms(4)] ctx_ok_cur(3) [OF assms(1)] assms(2,3) by (simp add: frame_top_def)
qed

lemma frame_room_user:
  assumes "user_mode c" and "ctx_ok L (at_pit L k h c)"
  shows "frame_room c"
  using user_frame_block [OF assms(2,1)] assms(1) by (simp add: frame_room_def frame_bytes_def at_pit_fields)

lemma entry_spares:
  assumes "frame_room c" and "in_block p b" and "current_process_number c \<noteq> p"
  shows "mem (c_entry ret_addr k (save_registers (through_gate h c))) b = mem c b"
proof (rule entry_outside, rule ccontr)
  assume "\<not> frame_bytes c \<le> unat (b - frame_top c)"
  then have "in_block (current_process_number c) (frame_top c + of_nat (unat (b - frame_top c)))" using assms(1) unfolding frame_room_def not_le by blast
  then show False using assms(2,3) pcb_addr_eq by (simp add: in_block_def u32_of_unat)
qed

lemma handler_end [simp]:
  "mem (end_handler (leave_ret (scratch J d))) = mem d" "pcbs (end_handler (leave_ret (scratch J d))) = pcbs d"
  "current_process_number (end_handler (leave_ret (scratch J d))) = current_process_number d"
  "running_processes (end_handler (leave_ret (scratch J d))) = running_processes d"
  "kernel_stack_bottom (end_handler (leave_ret (scratch J d))) = kernel_stack_bottom d"
  "cr3 (end_handler (leave_ret (scratch J d))) = cr3 d" "tss_esp0 (end_handler (leave_ret (scratch J d))) = tss_esp0 d"
  by (cases J; simp add: scratch_def end_handler_def restore_registers_def leave_ret_def iret_def popl_def Let_def sti_def set_flags_def)+

lemma HANDLER_Some:
  "HANDLER end_name f k J c = Some e \<Longrightarrow> \<exists>d. f (c_entry end_name k (save_registers c)) = Some d \<and> e = end_handler (leave_ret (scratch J d))"
  by (auto simp: HANDLER_def Let_def split: bind_splits if_splits)

lemma entry_fields:
  "current_process_number (c_entry r k (save_registers (through_gate h c))) = current_process_number c"
  "pcbs (c_entry r k (save_registers (through_gate h c))) = pcbs c"
  "active_term (c_entry r k (save_registers (through_gate h c))) = active_term c"
  "user_mode c \<or> r_ss c = ucast KERNEL_DS \<Longrightarrow> r_ss (c_entry r k (save_registers (through_gate h c))) = ucast KERNEL_DS"
  by (auto simp: c_entry_def save_registers_def through_gate_def pushl_def Let_def)

lemma pit_leaves:
  fixes c :: "'a cpu_scheme"
  assumes "pit_interruption L c = Some d"
  shows "r_ss d = r_ss c" and "a \<noteq> pcb_addr (current_process_number c) \<Longrightarrow> pcbs d a = pcbs c a"
proof -
  let ?c = "send_eoi 0 (cli c)"
  have e: "r_ss ?c = r_ss c" "pcbs ?c = pcbs c" "current_process_number ?c = current_process_number c"
    by (simp_all add: send_eoi_def cli_def outb_def)
  have n: "d = ?c \<or> (\<exists>n. d = switch_to L n ?c)" using assms by (auto simp: pit_interruption_def Let_def split: option.splits if_splits)
  have "r_ss (switch_to L n ?c) = r_ss ?c" for n
    by (simp add: switch_to_def Let_def set_current_process_number_def get_current_process_number_def
        set_process_term_number_def set_page_dir_addr_def load_cr3_def enable_paging_def set_kernel_stack_bottom_def update_pcb_def)
  then show "r_ss d = r_ss c" using n e(1) by auto
  show "pcbs d a = pcbs c a" if "a \<noteq> pcb_addr (current_process_number c)"
    using n that e switch_to_fields(6) [of L _ ?c] by auto
qed

text \<open>
  What happens while process \<open>p\<close> does not have the processor: the current process runs, in user mode or on its own kernel
  stack, the clock interrupts it, the timer switches among the others, calls are made and waited in, with their buffers in the program
  page and the terminals' positions on their screens. Any other kernel code of another process (the keyboard interrupt, \<open>execute\<close>,
  \<open>halt\<close>) may run that does not write to the block of \<open>p\<close>.
\<close>

inductive beside :: "layout \<Rightarrow> u8 \<Rightarrow> 'a cpu_scheme \<Rightarrow> 'a cpu_scheme \<Rightarrow> bool" for L p c where
  starts: "beside L p c c"
| runs: "beside L p c d \<Longrightarrow> (\<And>a. \<not> user_writable a \<Longrightarrow> \<not> in_block (current_process_number d) a \<Longrightarrow> mem e a = mem d a) \<Longrightarrow>
    pcbs e = pcbs d \<Longrightarrow> current_process_number e = current_process_number d \<Longrightarrow> beside L p c e"
| clock: "beside L p c d \<Longrightarrow> frame_room d \<Longrightarrow> active_term d < 3 \<Longrightarrow>
    clock_handler addr dv k J (through_gate h d) = Some e \<Longrightarrow> beside L p c e"
| timer: "beside L p c d \<Longrightarrow> frame_room d \<Longrightarrow> pit_handler L k J (through_gate h d) = Some e \<Longrightarrow>
    current_process_number e \<noteq> p \<Longrightarrow> beside L p c e"
| syscall: "beside L p c d \<Longrightarrow> safe_buffers eax ebx ecx edx d \<Longrightarrow> irqs E = [] \<Longrightarrow>
    syscall_handler E eax ebx ecx edx d = Ok (x, e) \<Longrightarrow> beside L p c e"
| waits: "beside L p c d \<Longrightarrow> read_begins ebx ecx edx d = Some (r, e) \<Longrightarrow> beside L p c e"
| woken: "beside L p c d \<Longrightarrow> page_run (rd_buf r) (unat (rd_nbytes r)) \<Longrightarrow> screens_ready d \<Longrightarrow>
    read_ends r d = Ok (v, e) \<Longrightarrow> beside L p c e"
| other: "beside L p c d \<Longrightarrow> (\<And>a. in_block p a \<Longrightarrow> mem e a = mem d a) \<Longrightarrow>
    kbp_before_change (pcbs e (pcb_addr p)) = kbp_before_change (pcbs d (pcb_addr p)) \<Longrightarrow>
    current_process_number e \<noteq> p \<Longrightarrow> beside L p c e"

text \<open>The block of \<open>p\<close>, its kernel stack included, and its saved frame pointer stay as they are.\<close>

definition block_kept :: "u8 \<Rightarrow> 'a kernel_state_scheme \<Rightarrow> 'a kernel_state_scheme \<Rightarrow> bool" where
  "block_kept p c d \<longleftrightarrow> current_process_number d \<noteq> p \<and> (\<forall>a. in_block p a \<longrightarrow> mem d a = mem c a) \<and>
     kbp_before_change (pcbs d (pcb_addr p)) = kbp_before_change (pcbs c (pcb_addr p))"

lemma block_kept_call:
  "block_kept p c d \<Longrightarrow> p < 8 \<Longrightarrow> spares_blocks d e \<Longrightarrow> same_ctx d e \<Longrightarrow> block_kept p c e"
  using in_block_kernel by (auto simp: block_kept_def spares_blocks_def same_ctx_def pcb_core_def)

lemma block_kept_clock:
  assumes "block_kept p c d" and "p < 8" and "frame_room d" and "active_term d < 3"
    and "clock_handler addr dv k J (through_gate h d) = Some e"
  shows "block_kept p c e"
proof -
  let ?d = "c_entry addr k (save_registers (through_gate h d))"
  have e: "e = end_handler (leave_ret (scratch J (clock_interruption dv ?d)))"
    using HANDLER_Some assms(5) unfolding clock_handler_def by fastforce
  have s: "spares_blocks ?d (clock_interruption dv ?d)" "same_ctx ?d (clock_interruption dv ?d)"
    using assms(4) by (simp_all add: clock_spares entry_fields same_ctx_upper)
  have "block_kept p c ?d" using assms(1,3) entry_spares [of d p _ addr k h] by (auto simp: block_kept_def entry_fields)
  from block_kept_call [OF this assms(2) s] show ?thesis by (simp add: e block_kept_def)
qed

lemma block_kept_timer:
  assumes "block_kept p c d" and "p < 8" and "frame_room d" and "pit_handler L k J (through_gate h d) = Some e"
    and "current_process_number e \<noteq> p"
  shows "block_kept p c e"
proof -
  obtain d' where d': "pit_interruption L (at_pit L k h d) = Some d'" and e: "e = end_handler (leave_ret (scratch J d'))"
    using HANDLER_Some assms(4) unfolding pit_handler_def by blast
  have q: "current_process_number d \<noteq> p" using assms(1) by (simp add: block_kept_def)
  have "mem d' a = mem d a" if "in_block p a" for a
    using timer_spares [OF d'] in_block_kernel [OF that assms(2)] entry_spares [OF assms(3) that q] by (simp add: spares_blocks_def)
  moreover have "pcbs d' (pcb_addr p) = pcbs d (pcb_addr p)" using pit_leaves(2) [OF d', of "pcb_addr p"] q by (simp add: entry_fields pcb_addr_eq)
  ultimately show ?thesis using assms(1,5) by (simp add: e block_kept_def)
qed

lemma beside_keeps: "beside L p c d \<Longrightarrow> p < 8 \<Longrightarrow> current_process_number c \<noteq> p \<Longrightarrow> block_kept p c d"
proof (induction rule: beside.induct)
  case starts
  then show ?case by (simp add: block_kept_def)
next
  case (runs d e)
  then have "mem e a = mem d a" if "in_block p a" for a
    using that block_not_user(1) [OF in_block_kernel [OF that]] by (auto simp: block_kept_def in_block_def pcb_addr_eq)
  then show ?case using runs by (simp add: block_kept_def)
next
  case (clock d addr dv k J h e)
  then show ?case using block_kept_clock by blast
next
  case (timer d k J h e)
  then show ?case using block_kept_timer by blast
next
  case (syscall d eax ebx ecx edx E x e)
  then have "eax \<noteq> 1" "eax \<noteq> 2" by (simp_all add: safe_buffers_def)
  then show ?case using syscall block_kept_call [OF _ _ calls_spare_blocks same_ctx_syscall] by blast
next
  case (waits d ebx ecx edx r e)
  then show ?case using block_kept_call [OF _ _ read_begins_spares same_ctx_read_begins] by blast
next
  case (woken d r v e)
  then show ?case using block_kept_call [OF _ _ read_ends_spares same_ctx_read_ends] by blast
next
  case (other d e)
  then show ?case by (simp add: block_kept_def)
qed

text \<open>
  C5. Preemption is invisible to the process. The timer interrupts a process, in its program or in the kernel while its
  \<open>read\<close> waits; the kernel saves its registers on the kernel stack of the process, and the stack pointers in its PCB, and continues
  another process. While the others run (user code, clock and timer interrupts, system calls with their buffers in the
  program page, waits inside \<open>read\<close>, and any other kernel code that does not write to the 8KB block of the first process), nothing touches
  that block. When a later timer interrupt of one of the others, again in its program or in the kernel, chooses the first process
  again, the wrapper comes back to the interrupted code with every register, the flags and the stack pointer as at the
  first interrupt, with the kernel stack, the page directory and the task state segment of the process. The frame of an interrupt of
  kernel code has to fit in the block of the process; for an interrupted program it always does.
\<close>

theorem preempted_process_resumes:
  fixes c c1 d d' :: "'a cpu_scheme"
  assumes c: "ctx_ok L (at_pit L k h c)" "frame_room c" "user_mode c \<or> r_ss c = ucast KERNEL_DS"
    and left: "pit_handler L k J (through_gate h c) = Some c1" "current_process_number c1 \<noteq> current_process_number c"
    and others: "beside L (current_process_number c) c1 d"
    and d: "frame_room d" "user_mode d \<or> r_ss d = ucast KERNEL_DS"
    and again: "pit_interruption L (at_pit L k' h' d) = Some d'" "current_process_number d' = current_process_number c"
  shows "\<exists>e. pit_handler L k' J' (through_gate h' d) = Some e \<and> program_registers e = program_registers c \<and>
    current_process_number e = current_process_number c \<and> tss_esp0 e = stack_bottom (current_process_number c) \<and>
    cr3 e = (page_directories_addr L + 0x1000 * ucast (current_process_number c)) AND 0xFFFFFFE7 \<and>
    (\<forall>a. in_block (current_process_number c) a \<longrightarrow> mem e a = mem (at_pit L k h c) a)"
proof -
  define p where "p = current_process_number c"
  have p8: "p < 8" using ctx_ok_cur(2) [OF c(1)] by (simp add: p_def at_pit_fields word_less_nat_alt)
  obtain c' where c': "pit_interruption L (at_pit L k h c) = Some c'" and c1: "c1 = end_handler (leave_ret (scratch J c'))"
    using HANDLER_Some left(1) unfolding pit_handler_def by blast
  have ne: "current_process_number c' \<noteq> p" using left(2) by (simp add: c1 p_def)
  note s1 = pit_switches [OF c', unfolded at_pit_fields, folded p_def, OF ne]
  have keep: "block_kept p c1 d" using beside_keeps [OF others] p8 ne by (simp add: p_def c1)
  then have q: "current_process_number d \<noteq> p" by (simp add: block_kept_def)
  note s2 = pit_switches [OF again(1), unfolded at_pit_fields again(2) p_def [symmetric], OF q [symmetric]]
  have stack: "mem d' a = mem (at_pit L k h c) a" if "in_block p a" for a
    using timer_spares [OF c'] timer_spares [OF again(1)] in_block_kernel [OF that p8] entry_spares [OF d(1) that q] keep that
    by (simp add: spares_blocks_def block_kept_def c1)
  have "pcb_addr p \<noteq> pcb_addr (current_process_number d)" using q pcb_addr_eq by simp
  then have ebp: "ebp d' = frame_top c"
    using s2(3) s1(2) keep entry_frame(2) [of "end_pit_handler_addr L" k h c] by (simp add: block_kept_def c1)
  have ss: "user_mode c \<or> r_ss d' = r_ss c" using pit_leaves(1) [OF again(1)] entry_fields(4) [OF d(2)] c(3) by auto
  let ?d = "scratch J' d'"
  have sc: "mem ?d = mem d'" "ebp ?d = ebp d'" "r_ss ?d = r_ss d'" by (cases J'; simp add: scratch_def)+
  have len: "4 * length (frame_words (end_pit_handler_addr L) c) = frame_bytes c" by (simp add: frame_words_def frame_bytes_def)
  have "words_at (mem ?d) (ebp ?d) (frame_words (end_pit_handler_addr L) c)"
    unfolding sc ebp using entry_frame(1,2) [of "end_pit_handler_addr L" k h c] stack c(2)
      words_at_cong [of "frame_words (end_pit_handler_addr L) c" "mem d'" "frame_top c" "mem (at_pit L k h c)"]
    by (simp add: len frame_room_def p_def)
  note x = exit_frame [OF this]
  have "r_eip (leave_ret ?d) = end_pit_handler_addr L" "program_registers (end_handler (leave_ret ?d)) = program_registers c"
    using x ss ebp sc by auto
  then show ?thesis using again s2(4,5) stack by (simp add: pit_handler_def HANDLER_def Let_def p_def)
qed

section \<open>The first run of a shell\<close>

lemma exit_to_user:
  assumes "words_at (mem d) (ebp d) [b0, ret_addr, f0, si, di, dx, cx, bx, ax, bp, ip, sel, fl, sp, seg]" and "sel AND 3 = 3"
  shows "r_eip (leave_ret d) = ret_addr"
    and "program_registers (end_handler (leave_ret d)) = [ax, bx, cx, dx, si, di, bp, sp, fl, ip, sel, seg]"
  using assms by (simp_all add: program_registers_def end_handler_def restore_registers_def leave_ret_def iret_def popl_def Let_def
      sti_def user_mode_def set_flags_def)

lemma push_words_at: "length ws < 2 ^ 29 \<Longrightarrow> words_at (push_words ws sp m) (sp - 4 * of_nat (length ws)) (rev ws)"
proof -
  assume len: "length ws < 2 ^ 29"
  have f: "mem (fold pushl vs c) = push_words vs (esp c) (mem c) \<and> esp (fold pushl vs c) = esp c - 4 * of_nat (length vs)" for vs and c :: kernel_state
    by (induction vs arbitrary: c) (simp_all add: push_words_def pushl_def)
  let ?c = "undefined\<lparr>mem := m, esp := sp\<rparr> :: kernel_state"
  show ?thesis using stack_fold [of ?c "[]" ws] len f [of ws ?c] by simp
qed

lemma first_switch:
  fixes d :: "'a cpu_scheme"
  assumes d: "frame_room d"
    and pit: "pit_interruption L (at_pit L k h d) = Some d'" "current_process_number d' = n" "n \<noteq> current_process_number d" "n < 8"
    and pcb: "kbp_before_change (pcbs d (pcb_addr n)) = stack_bottom n - 60"
    and frame: "\<forall>i < 60. mem d (stack_bottom n - 60 + of_nat i) =
      push_words (switch_frame L entry_point (stack_bottom n)) (stack_bottom n) m (stack_bottom n - 60 + of_nat i)"
  shows "\<exists>e. pit_handler L k J (through_gate h d) = Some e \<and>
    program_registers e = [0, 0, 0, 0, 0, 0, 0, 0x083FFFF0, 0, entry_point, USER_CS, USER_DS] \<and> user_mode e \<and> \<not> interrupts_on e \<and>
    e = end_handler (leave_ret (scratch J d'))"
proof -
  have p: "unat n < 8" "of_nat (unat n) = n" using pit(4) by (simp_all add: word_less_nat_alt)
  note s = pit_switches [OF pit(1), unfolded at_pit_fields pit(2), OF pit(3)]
  let ?m = "push_words (switch_frame L entry_point (stack_bottom n)) (stack_bottom n) m"
  have "mem d' (stack_bottom n - 60 + of_nat i) = ?m (stack_bottom n - 60 + of_nat i)" if "i < 60" for i
    using stack_frame_block [OF p(1) that, unfolded p(2)] timer_spares [OF pit(1)] in_block_kernel [OF _ pit(4)]
      entry_spares [OF d _ pit(3) [symmetric]] frame that by (simp add: spares_blocks_def)
  moreover have "words_at ?m (stack_bottom n - 60) (rev (switch_frame L entry_point (stack_bottom n)))"
    using push_words_at [of "switch_frame L entry_point (stack_bottom n)" "stack_bottom n" m] by (simp add: switch_frame_def)
  ultimately have "words_at (mem d') (stack_bottom n - 60) (rev (switch_frame L entry_point (stack_bottom n)))"
    using words_at_cong [of "rev (switch_frame L entry_point (stack_bottom n))" "mem d'" "stack_bottom n - 60" ?m] by (simp add: switch_frame_def)
  moreover have "pcb_addr n \<noteq> pcb_addr (current_process_number d)" using pcb_addr_eq pit(3) by simp
  then have "ebp d' = stack_bottom n - 60" using s(3) pcb by simp
  moreover have "mem (scratch J d') = mem d'" "ebp (scratch J d') = ebp d'" by (cases J; simp add: scratch_def)+
  ultimately have x: "r_eip (leave_ret (scratch J d')) = end_pit_handler_addr L"
    "program_registers (end_handler (leave_ret (scratch J d'))) = [0, 0, 0, 0, 0, 0, 0, 0x083FFFF0, 0, entry_point, 0x23, 0x2B]"
    using exit_to_user [of "scratch J d'" "stack_bottom n" "end_pit_handler_addr L" 0 0 0 0 0 0 0 0 entry_point "0x23" 0 "0x083FFFF0" "0x2B"]
    by (simp_all add: switch_frame_def)
  let ?e = "end_handler (leave_ret (scratch J d'))"
  have "user_mode ?e" "\<not> interrupts_on ?e"
    using x(2) flags_interrupts [of ?e] by (simp_all add: program_registers_def user_mode_def)
  then show ?thesis using x pit(1) by (simp add: pit_handler_def HANDLER_def Let_def USER_CS_def USER_DS_def)
qed

text \<open>
  C6. The frame that \<open>bootup\<close> builds on the kernel stack of a shell that has not run yet lets the first timer interrupt that
  chooses it enter the shell: in user mode at its entry point, on the top of its program page, with all general registers zero.
  The flags are zero too, so that the shell starts with interrupts disabled.
\<close>

theorem first_switch_enters_shell:
  fixes d :: "'a cpu_scheme"
  assumes d: "user_mode d" "ctx_ok L (at_pit L k h d)"
    and pit: "pit_interruption L (at_pit L k h d) = Some d'" "current_process_number d' = n" "n \<noteq> current_process_number d" "n < 8"
    and pcb: "kbp_before_change (pcbs d (pcb_addr n)) = stack_bottom n - 60"
    and frame: "\<forall>i < 60. mem d (stack_bottom n - 60 + of_nat i) =
      push_words (switch_frame L entry_point (stack_bottom n)) (stack_bottom n) m (stack_bottom n - 60 + of_nat i)"
  shows "\<exists>e. pit_handler L k J (through_gate h d) = Some e \<and>
    program_registers e = [0, 0, 0, 0, 0, 0, 0, 0x083FFFF0, 0, entry_point, USER_CS, USER_DS] \<and> user_mode e \<and> \<not> interrupts_on e"
  using first_switch [OF frame_room_user [OF assms(1,2)] assms(3-8)] by blast

section \<open>System calls and the start of a program\<close>

text \<open>The words of a system call on the kernel stack, from the arguments of the C function up.\<close>

definition syscall_words :: "'a cpu_scheme \<Rightarrow> u32 list" where
  "syscall_words c = [r_ebx c, r_ecx c, r_edx c, r_ebx c, r_ecx c, r_edx c, r_esi c, r_edi c, ebp c, r_eip c, r_cs c, get_flags c, esp c, r_ss c]"

lemma syscall_entry:
  assumes "user_mode c"
  shows "stack (save_syscall (through_gate handler c)) (syscall_words c)"
proof -
  let ?c = "c\<lparr>esp := tss_esp0 c, r_ss := ucast KERNEL_DS\<rparr>"
  have "stack (through_gate handler c) [r_eip c, r_cs c, get_flags c, esp c, r_ss c]"
    using stack_fold [of ?c "[]" "[r_ss c, esp c, get_flags c, r_cs c, r_eip c]"] assms
    by (simp add: gate_fold del: words_at.simps(2))
  from stack_fold [OF this, of "[ebp c, r_edi c, r_esi c, r_edx c, r_ecx c, r_ebx c, r_edx c, r_ecx c, r_ebx c]"]
  show ?thesis by (simp add: save_syscall_def Let_def gate_registers syscall_words_def del: words_at.simps(2))
qed

text \<open>
  A system call comes back with its result in \<open>eax\<close> and every other register, the flags and the stack pointer as the program
  had them, when the C function leaves the saved words alone.
\<close>

lemma exit_syscall:
  assumes "stack d [a1, a2, a3, bx, cx, dx, si, di, bp, ip, sel, fl, sp, seg]" and "sel AND 3 = 3"
  shows "program_registers (end_syscall d) = [r_eax d, bx, cx, dx, si, di, bp, sp, fl, ip, sel, seg]"
  using assms by (simp add: program_registers_def end_syscall_def restore_syscall_def iret_def popl_def Let_def user_mode_def set_flags_def
      add.commute [of "esp d" 12])

theorem syscall_keeps_registers:
  assumes "user_mode c" and "stack d (syscall_words c)"
  shows "program_registers (end_syscall d) = (program_registers c)[0 := r_eax d]"
  using exit_syscall [OF assms(2) [unfolded syscall_words_def]] assms(1) by (simp add: user_mode_def program_registers_def)

text \<open>A program starts in user mode on the top of its page with interrupts enabled.\<close>

lemma pushl_updates: "pushl v (c\<lparr>r_eax := x\<rparr>) = (pushl v c)\<lparr>r_eax := x\<rparr>" "pushl v (c\<lparr>r_ds := x\<rparr>) = (pushl v c)\<lparr>r_ds := x\<rparr>"
  "pushl v (c\<lparr>r_ebx := x\<rparr>) = (pushl v c)\<lparr>r_ebx := x\<rparr>"
  by (simp_all add: pushl_def)

theorem program_entered:
  fixes c :: "'a cpu_scheme"
  defines "fl \<equiv> get_flags (cli c) OR 0x4200"
  shows "program_registers (enter_program entry_point c) = (program_registers c)
      [0 := fl, 1 := entry_point, 7 := 0x083FFFF0, 8 := fl, 9 := entry_point, 10 := USER_CS, 11 := USER_DS] \<and>
    interrupts_on (enter_program entry_point c)"
proof -
  define b where "b = (cli c)\<lparr>r_ebx := entry_point, r_ds := USER_DS, r_eax := fl\<rparr>"
  define d where "d = fold pushl [USER_DS, 0x083FFFF0, fl, USER_CS, entry_point] b"
  have "stack d [entry_point, USER_CS, fl, 0x083FFFF0, USER_DS]"
    using stack_fold [of b "[]" "[USER_DS, 0x083FFFF0, fl, USER_CS, entry_point]"] by (simp add: d_def del: words_at.simps(2))
  moreover have "r_eax d = fl" "r_ebx d = entry_point" "r_ecx d = r_ecx c" "r_edx d = r_edx c" "r_esi d = r_esi c" "r_edi d = r_edi c" "ebp d = ebp c"
    by (simp_all add: d_def b_def cli_def)
  moreover have "bit fl 9" by (simp add: fl_def bit_or_iff)
  moreover have "enter_program entry_point c = iret d"
    by (simp add: d_def b_def enter_program_def Let_def fl_def pushl_updates get_flags_def)
  ultimately show ?thesis
    by (simp add: iret_def popl_def Let_def user_mode_def program_registers_def set_flags_def USER_CS_def)
qed

section \<open>Examples\<close>

text \<open>The entry of an interrupt leaves the kernel in the context of the interrupted process.\<close>

lemma ctx_ok_at_pit:
  fixes s :: "'a kernel_state_scheme" and c :: "'b cpu_scheme"
  assumes ok: "ctx_ok L s" and top: "in_block (current_process_number s) (frame_top c)"
    and same: "running_processes c = running_processes s" "kernel_stack_bottom c = kernel_stack_bottom s"
      "current_process_number c = current_process_number s" "tss_esp0 c = tss_esp0 s" "cr3 c = cr3 s" "pcbs c = pcbs s"
  shows "ctx_ok L (at_pit L 0 h c)" and "abs_table (at_pit L 0 h c) = abs_table s"
proof -
  let ?c = "at_pit L 0 h c"
  let ?s = "s\<lparr>esp := frame_top c\<rparr>"
  have p: "proc ?s = proc s" by (auto simp: proc_def)
  then have t: "abs_table ?s = abs_table s" by (simp add: abs_table_def cong: if_cong)
  have "of_nat (cur (abs_table s)) = current_process_number s" using ctx_ok_cur(3) [OF ok] by (simp add: abs_table_def)
  then have "ctx_ok L ?s" "abs_table ?s = abs_table s" using ok top p t by (simp_all add: ctx_ok_def regs_ok_def in_block_def)
  moreover have "running_processes ?c = running_processes ?s" "kernel_stack_bottom ?c = kernel_stack_bottom ?s"
    "current_process_number ?c = current_process_number ?s" "tss_esp0 ?c = tss_esp0 ?s" "cr3 ?c = cr3 ?s" "pcbs ?c = pcbs ?s"
    by (simp_all add: same c_entry_def save_registers_def through_gate_def pushl_def Let_def)
  moreover have "esp ?c = esp ?s" using entry_frame(3) [of "end_pit_handler_addr L" 0 h c] by simp
  ultimately show "ctx_ok L ?c" "abs_table ?c = abs_table s" using ctx_ok_cong [of ?c ?s] by simp_all
qed

lemmas user_frame_top = user_frame_block [where i = 0, simplified]

definition sample_cpu :: "kernel_state \<Rightarrow> cpu" where
  "sample_cpu s = kernel_state.extend s
     \<lparr>r_eax = 1, r_ebx = 2, r_ecx = 3, r_edx = 4, r_esi = 5, r_edi = 6, r_eflags = 0x202, r_eip = 0x08048000, r_cs = 0x23, r_ss = 0x2B, r_ds = 0x2B\<rparr>"

lemma sample_cpu_fields [simp]:
  "running_processes (sample_cpu s) = running_processes s" "kernel_stack_bottom (sample_cpu s) = kernel_stack_bottom s"
  "current_process_number (sample_cpu s) = current_process_number s" "tss_esp0 (sample_cpu s) = tss_esp0 s" "cr3 (sample_cpu s) = cr3 s"
  "pcbs (sample_cpu s) = pcbs s" "mem (sample_cpu s) = mem s" "user_mode (sample_cpu s)" "active_term (sample_cpu s) = active_term s"
  by (simp_all add: sample_cpu_def kernel_state.defs user_mode_def)

theorem clock_interrupt_transparent_witness:
  "\<exists>e. clock_handler 0x402000 (\<lambda>_ _. 0) 32 (0, 0, 0, 0) (through_gate 0x402100 (sample_cpu (sample_kernel\<lparr>active_term := 0\<rparr>))) = Some e \<and>
    program_registers e = program_registers (sample_cpu (sample_kernel\<lparr>active_term := 0\<rparr>))"
  by (rule clock_interrupt_transparent)
    (simp_all add: frame_top_def stack_bottom_def size_defs)

text \<open>Three shells of which the first runs, and the frame of the second.\<close>

definition sample_first :: cpu where
  "sample_first = sample_cpu (sample_kernel\<lparr>mem := push_words (switch_frame sample_layout 0x08048000 (stack_bottom 2)) (stack_bottom 2) (mem sample_kernel)\<rparr>)"

lemma pit_picks:
  fixes c :: "'a cpu_scheme" and s :: "'b kernel_state_scheme"
  assumes ok: "ctx_ok L (at_pit L k h c)" and s: "abs_table (at_pit L k h c) = T"
    and n: "pick {p \<in> live T. \<not> waits T p} (cur T) = n" "n < 8"
  obtains d where "pit_interruption L (at_pit L k h c) = Some d" and "current_process_number d = of_nat n" and "ctx_ok L d"
    and "abs_table d = T\<lparr>cur := n\<rparr>"
proof -
  obtain d where d: "pit_interruption L (at_pit L k h c) = Some d" "ctx_ok L d" "abs_table d = T\<lparr>cur := n\<rparr>"
    using pit_interruption_ok [OF ok] n(1) by (auto simp: leaves_abs s)
  have "unat (current_process_number d) = cur (abs_table d)" by (simp add: abs_table_def)
  then have "unat (current_process_number d) = n" using d(3) by simp
  then have "current_process_number d = of_nat n" using u8_of_unat [of "current_process_number d"] by simp
  then show thesis using that d by blast
qed

theorem first_switch_enters_shell_witness:
  "\<exists>e. pit_handler sample_layout 0 (0, 0, 0, 0) (through_gate 0 sample_first) = Some e \<and>
    program_registers e = [0, 0, 0, 0, 0, 0, 0, 0x083FFFF0, 0, 0x08048000, USER_CS, USER_DS] \<and> user_mode e \<and> \<not> interrupts_on e"
proof -
  let ?d = "at_pit sample_layout 0 0 sample_first"
  have ok: "ctx_ok sample_layout ?d" "abs_table ?d = abs_table sample_kernel"
    using ctx_ok_at_pit [OF sample_kernel_ok(1) user_frame_top [OF sample_kernel_ok(1)], of sample_first 0] by (simp_all add: sample_first_def)
  have "pick {p \<in> live (abs_table sample_kernel). \<not> waits (abs_table sample_kernel) p} (cur (abs_table sample_kernel)) = 2"
    using sample_kernel_ok(2) by (simp add: table_boot_def pick_def upt_rec)
  then obtain d' where "pit_interruption sample_layout ?d = Some d'" "current_process_number d' = 2"
    using pit_picks [OF ok, of 2] by auto
  then show ?thesis
    using first_switch_enters_shell [OF _ ok(1), of d' 2 "0x08048000" "mem sample_kernel" "(0, 0, 0, 0)"]
    by (simp add: sample_first_def sample_pcb_def)
qed

text \<open>Two shells of which the first is interrupted, and the second in its turn.\<close>

definition sample_two :: kernel_state where
  "sample_two = sample_kernel\<lparr>running_processes := 0xE0\<rparr>"

lemma slots_E0: "slots 0xE0 = {0, 1, 2}"
proof -
  have "p \<in> slots 0xE0 \<longleftrightarrow> p = 0 \<or> p = 1 \<or> p = 2" for p by (auto simp: slots_def dest!: less_8_cases)
  then show ?thesis by auto
qed

lemma sample_two_ok: "ctx_ok sample_layout sample_two" "live (abs_table sample_two) = {1, 2}" "cur (abs_table sample_two) = 1"
  "p \<in> {1, 2} \<Longrightarrow> \<not> waits (abs_table sample_two) p"
proof -
  have T: "live (abs_table sample_two) = {1, 2}" "cur (abs_table sample_two) = 1"
    "par (abs_table sample_two) = par (abs_table sample_kernel)" "waits (abs_table sample_two) = waits (abs_table sample_kernel)"
    "live (abs_table sample_kernel) = {1, 2, 3}" "cur (abs_table sample_kernel) = 1"
    by (auto simp: abs_table_def sample_two_def slots_E0 slots_F0 proc_def)
  then show "live (abs_table sample_two) = {1, 2}" "cur (abs_table sample_two) = 1" by simp_all
  have b: "\<forall>p\<in>{1, 2, 3}. par (abs_table sample_kernel) p = 0" "\<forall>p\<in>{1..<8}. \<not> waits (abs_table sample_kernel) p"
    using sample_kernel_ok(2) T(5) by (simp_all add: table_boot_def)
  then show "p \<in> {1, 2} \<Longrightarrow> \<not> waits (abs_table sample_two) p" using T(4) by auto
  have "table_ok (abs_table sample_two)" using T b by (auto simp: table_ok_def)
  moreover have p: "proc sample_two = proc sample_kernel" by (auto simp: proc_def sample_two_def)
  have "regs_ok sample_layout (abs_table sample_two) sample_two"
    using sample_kernel_ok(1) T p by (simp add: ctx_ok_def regs_ok_def) (simp add: sample_two_def)
  ultimately show "ctx_ok sample_layout sample_two" by (simp add: ctx_ok_def sample_two_def slots_E0)
qed

text \<open>The first of them is interrupted in the kernel, on its kernel stack; the second has the frame of a shell that has not run yet.\<close>

definition sample_reading :: cpu where
  "sample_reading =
     (sample_cpu (sample_two\<lparr>mem := push_words (switch_frame sample_layout 0x08048000 (stack_bottom 2)) (stack_bottom 2) (mem sample_kernel)\<rparr>))
       \<lparr>r_cs := 0x10, r_ss := 0x18, r_eip := 0x00402000, esp := 0x7FDF00\<rparr>"

lemma sample_reading_ok:
  "ctx_ok sample_layout (at_pit sample_layout 0 0 sample_reading)" "abs_table (at_pit sample_layout 0 0 sample_reading) = abs_table sample_two"
  "frame_room sample_reading" "\<not> user_mode sample_reading" "r_ss sample_reading = ucast KERNEL_DS" "current_process_number sample_reading = 1"
proof -
  have f: "current_process_number sample_reading = 1" "frame_top sample_reading = 0x7FDECC" "\<not> user_mode sample_reading"
    by (simp_all add: sample_reading_def sample_two_def frame_top_def user_mode_def)
  then show "\<not> user_mode sample_reading" "current_process_number sample_reading = 1" by simp_all
  show "r_ss sample_reading = ucast KERNEL_DS" by (simp add: sample_reading_def KERNEL_DS_def)
  have "unat (0x7FDECC + of_nat i :: u32) = 0x7FDECC + i" if "i < 52" for i
    using that unat_of_nat_u32 [of i] by (simp add: unat_word_ariths)
  then have r: "in_block 1 (0x7FDECC + of_nat i)" if "i < 52" for i
    using that in_block_iff [of 1 "0x7FDECC + of_nat i"] by simp
  then show "frame_room sample_reading" using f by (simp add: frame_room_def frame_bytes_def)
  have "in_block (current_process_number sample_two) (frame_top sample_reading)" using r [of 0] f(2) by (simp add: sample_two_def)
  from ctx_ok_at_pit [OF sample_two_ok(1) this, of 0]
  show "ctx_ok sample_layout (at_pit sample_layout 0 0 sample_reading)" "abs_table (at_pit sample_layout 0 0 sample_reading) = abs_table sample_two"
    by (simp_all add: sample_reading_def)
qed

theorem preempted_process_resumes_witness:
  "\<exists>c1 e. pit_handler sample_layout 0 (0, 0, 0, 0) (through_gate 0 sample_reading) = Some c1 \<and> current_process_number c1 = 2 \<and> user_mode c1 \<and>
    pit_handler sample_layout 0 (0, 0, 0, 0) (through_gate 0 (c1\<lparr>interrupts_on := True, r_ebx := 7\<rparr>)) = Some e \<and>
    program_registers e = program_registers sample_reading \<and> current_process_number e = 1"
proof -
  let ?T = "abs_table sample_two" and ?J = "(0, 0, 0, 0) :: u32 \<times> u32 \<times> u32 \<times> u32"
  note r = sample_reading_ok
  have two: "{p \<in> live ?T. \<not> waits ?T p} = {1, 2}" using sample_two_ok(2,4) by auto
  then have "pick {p \<in> live ?T. \<not> waits ?T p} (cur ?T) = 2" using sample_two_ok(3) by (simp add: pick_def upt_rec)
  then obtain c' where c': "pit_interruption sample_layout (at_pit sample_layout 0 0 sample_reading) = Some c'" "current_process_number c' = 2"
    "ctx_ok sample_layout c'" "abs_table c' = ?T\<lparr>cur := 2\<rparr>"
    using pit_picks [OF r(1,2), of 2] by auto
  define c1 where "c1 = end_handler (leave_ret (scratch ?J c'))"
  have c1: "pit_handler sample_layout 0 ?J (through_gate 0 sample_reading) = Some c1" "user_mode c1"
    using first_switch [OF r(3) c'(1,2), of "0x08048000" "mem sample_kernel" ?J] r(6)
    by (auto simp: c1_def sample_reading_def sample_two_def sample_pcb_def)
  let ?d = "c1\<lparr>interrupts_on := True, r_ebx := 7\<rparr>"
  have f: "running_processes ?d = running_processes c'" "kernel_stack_bottom ?d = kernel_stack_bottom c'"
    "current_process_number ?d = current_process_number c'" "tss_esp0 ?d = tss_esp0 c'" "cr3 ?d = cr3 c'" "pcbs ?d = pcbs c'"
    by (simp_all add: c1_def)
  have u: "user_mode ?d" using c1(2) by (simp add: user_mode_def)
  note d = ctx_ok_at_pit [OF c'(3) user_frame_top [OF c'(3) u f(4)] f, of 0, unfolded c'(4)]
  have "pick {p \<in> live (?T\<lparr>cur := 2\<rparr>). \<not> waits (?T\<lparr>cur := 2\<rparr>) p} (cur (?T\<lparr>cur := 2\<rparr>)) = 1"
    using two by (simp add: pick_def upt_rec)
  then obtain d' where d': "pit_interruption sample_layout (at_pit sample_layout 0 0 ?d) = Some d'" "current_process_number d' = 1"
    using pit_picks [OF d, of 1] by auto
  have b: "beside sample_layout (current_process_number sample_reading) c1 ?d"
    by (rule beside.runs [OF beside.starts]) simp_all
  have n: "current_process_number c1 = 2" using f(3) c'(2) by simp
  show ?thesis
    using preempted_process_resumes [OF r(1,3) disjI2 [OF r(5)] c1(1) _ b frame_room_user [OF u d(1)] disjI1 [OF u] d'(1), of ?J]
      c1 n d'(2) r(6) by auto
qed

end
