(* ===== verification/Startup.thy ===== *)
theory Startup
  imports Wrappers
begin

text \<open>
  Before \<open>entry\<close>: the static tables of \<open>x86_desc.S\<close>, the start-up code of \<open>boot.S\<close>, and the layouts of the structures
  that the hardware and the boot loader share with the kernel (\<open>x86_desc.h\<close>, \<open>multiboot.h\<close>).
\<close>

section \<open>Structure layouts\<close>

text \<open>
  A structure as its fields with their sizes in bytes, in order. Every field is aligned to its size, so that there is no padding.
\<close>

type_synonym layout_of = "(string \<times> nat) list"

definition field_size :: "layout_of \<Rightarrow> nat" where
  "field_size fs = sum_list (map snd fs)"

fun offset_of :: "string \<Rightarrow> layout_of \<Rightarrow> nat option" where
  "offset_of f [] = None"
| "offset_of f ((g, n) # fs) = (if f = g then Some 0 else map_option ((+) n) (offset_of f fs))"

definition multiboot_header :: layout_of where
  "multiboot_header = [(''magic'', 4), (''flags'', 4), (''checksum'', 4), (''header_addr'', 4), (''load_addr'', 4), (''load_end_addr'', 4),
     (''bss_end_addr'', 4), (''entry_addr'', 4)]"

definition elf_section_header_table :: layout_of where
  "elf_section_header_table = [(''num'', 4), (''size'', 4), (''addr'', 4), (''shndx'', 4)]"

definition multiboot_info :: layout_of where
  "multiboot_info = [(''flags'', 4), (''mem_lower'', 4), (''mem_upper'', 4), (''boot_device'', 4), (''cmdline'', 4), (''mods_count'', 4),
     (''mods_addr'', 4), (''elf_sec'', field_size elf_section_header_table), (''mmap_length'', 4), (''mmap_addr'', 4)]"

definition boot_module :: layout_of where
  "boot_module = [(''mod_start'', 4), (''mod_end'', 4), (''string'', 4), (''reserved'', 4)]"

definition memory_map :: layout_of where
  "memory_map = [(''size'', 4), (''base_addr_low'', 4), (''base_addr_high'', 4), (''length_low'', 4), (''length_high'', 4), (''type'', 4)]"

text \<open>The one-bit field and the 15 bits behind it share two bytes.\<close>

definition tss_layout :: layout_of where
  "tss_layout = [(''prev_task_link'', 2), (''prev_task_link_pad'', 2), (''esp0'', 4), (''ss0'', 2), (''ss0_pad'', 2), (''esp1'', 4),
     (''ss1'', 2), (''ss1_pad'', 2), (''esp2'', 4), (''ss2'', 2), (''ss2_pad'', 2), (''cr3'', 4), (''eip'', 4), (''eflags'', 4),
     (''eax'', 4), (''ecx'', 4), (''edx'', 4), (''ebx'', 4), (''esp'', 4), (''ebp'', 4), (''esi'', 4), (''edi'', 4),
     (''es'', 2), (''es_pad'', 2), (''cs'', 2), (''cs_pad'', 2), (''ss'', 2), (''ss_pad'', 2), (''ds'', 2), (''ds_pad'', 2),
     (''fs'', 2), (''fs_pad'', 2), (''gs'', 2), (''gs_pad'', 2), (''ldt_segment_selector'', 2), (''ldt_pad'', 2),
     (''debug_trap'', 2), (''io_base_addr'', 2)]"

text \<open>The offsets at which the kernel entry reads the boot loader's information are those of the structures.\<close>

lemma multiboot_offsets:
  "offset_of ''mods_count'' multiboot_info = Some k \<Longrightarrow> mbi_mods_count mbi m = load32 m (mbi + of_nat k)"
  "offset_of ''mods_addr'' multiboot_info = Some k \<Longrightarrow> mbi_mods_addr mbi m = load32 m (mbi + of_nat k)"
  "offset_of ''mmap_length'' multiboot_info = Some k \<Longrightarrow> mbi_mmap_length mbi m = load32 m (mbi + of_nat k)"
  "offset_of ''mmap_addr'' multiboot_info = Some k \<Longrightarrow> mbi_mmap_addr mbi m = load32 m (mbi + of_nat k)"
  "offset_of ''mod_start'' boot_module = Some k \<Longrightarrow> mod_start md m = load32 m (md + of_nat k)"
  "offset_of ''mod_end'' boot_module = Some k \<Longrightarrow> mod_end md m = load32 m (md + of_nat k)"
  by (auto simp: multiboot_info_def elf_section_header_table_def boot_module_def field_size_def mbi_mods_count_def mbi_mods_addr_def
      mbi_mmap_length_def mbi_mmap_addr_def mod_start_def mod_end_def)

text \<open>The processor's TSS: 104 bytes, the kernel stack at offsets 4 and 8, the LDT selector at 96.\<close>

lemma tss_layout_ok:
  "field_size tss_layout = unat TSS_SIZE" "offset_of ''esp0'' tss_layout = Some 4" "offset_of ''ss0'' tss_layout = Some 8"
  "offset_of ''cr3'' tss_layout = Some 28" "offset_of ''ldt_segment_selector'' tss_layout = Some 96"
  "offset_of ''io_base_addr'' tss_layout = Some 102"
  by (simp_all add: tss_layout_def field_size_def TSS_SIZE_def)

section \<open>The global descriptor table\<close>

text \<open>The eight entries of \<open>gdt\<close>; the last two are filled in by \<open>entry\<close>.\<close>

definition gdt :: "64 word list" where
  "gdt = [0, 0, 0x00CF9A000000FFFF, 0x00CF92000000FFFF, 0x00CFFA000000FFFF, 0x00CFF2000000FFFF, 0, 0]"

definition gdt_desc_ptr :: "u32 \<Rightarrow> u16 \<times> u32" where
  "gdt_desc_ptr gdt_addr = (of_nat (8 * length gdt - 1), gdt_addr)"

text \<open>The processor's reading of an entry, by the bit layout of \<open>seg_desc_t\<close>.\<close>

definition desc_bits :: "nat \<Rightarrow> nat \<Rightarrow> 64 word \<Rightarrow> u32" where
  "desc_bits lo n d = ucast (take_bit n (drop_bit lo d))"

definition desc_base :: "64 word \<Rightarrow> u32" where
  "desc_base d = desc_bits 16 24 d OR push_bit 24 (desc_bits 56 8 d)"

definition desc_limit :: "64 word \<Rightarrow> u32" where
  "desc_limit d = (let l = desc_bits 0 16 d OR push_bit 16 (desc_bits 48 4 d)
     in if bit d 55 then push_bit 12 l OR 0xFFF else l)"

text \<open>The entry that a selector names, with the checks of loading it: inside the table, not null, present.\<close>

definition select :: "u32 \<Rightarrow> 64 word option" where
  "select sel =
     (let i = unat (drop_bit 3 sel)
      in if sel AND 4 = 0 \<and> i \<noteq> 0 \<and> i < length gdt \<and> bit (gdt ! i) 47 then Some (gdt ! i) else None)"

definition flat_segment :: "bool \<Rightarrow> u32 \<Rightarrow> 64 word \<Rightarrow> bool" where
  "flat_segment code dpl d \<longleftrightarrow> desc_base d = 0 \<and> desc_limit d = 0xFFFFFFFF \<and> desc_bits 45 2 d = dpl \<and> bit d 44 \<and> bit d 54 \<and>
     bit d 43 = code \<and> bit d 41"

definition segment_ok :: "u32 \<Rightarrow> bool \<Rightarrow> bool" where
  "segment_ok sel code \<longleftrightarrow> (case select sel of None \<Rightarrow> False | Some d \<Rightarrow> flat_segment code (sel AND 3) d)"

text \<open>
  The four segments that the kernel loads are present, cover the whole address space, are readable code or writable data of 32 bits,
  and each selector asks for exactly the privilege of its segment; the entries of the TSS and of the LDT are still empty.
\<close>

theorem gdt_segments:
  "segment_ok (ucast KERNEL_CS) True \<and> segment_ok (ucast KERNEL_DS) False \<and> segment_ok USER_CS True \<and> segment_ok USER_DS False \<and>
   USER_CS AND 3 = 3 \<and> USER_DS AND 3 = 3 \<and> ucast KERNEL_CS AND 3 = (0 :: u32) \<and> ucast KERNEL_DS AND 3 = (0 :: u32) \<and>
   select (ucast KERNEL_TSS) = None \<and> select (ucast KERNEL_LDT) = None"
  by (simp add: segment_ok_def select_def gdt_def flat_segment_def desc_base_def desc_limit_def desc_bits_def KERNEL_CS_def KERNEL_DS_def
      USER_CS_def USER_DS_def KERNEL_TSS_def KERNEL_LDT_def)

section \<open>The start-up code\<close>

definition MULTIBOOT_HEADER_FLAGS :: u32 where "MULTIBOOT_HEADER_FLAGS = 3"
definition MULTIBOOT_HEADER_MAGIC :: u32 where "MULTIBOOT_HEADER_MAGIC = 0x1BADB002"

definition header_words :: "u32 list" where
  "header_words = [MULTIBOOT_HEADER_MAGIC, MULTIBOOT_HEADER_FLAGS, - (MULTIBOOT_HEADER_MAGIC + MULTIBOOT_HEADER_FLAGS)]"

lemma header_checksum: "sum_list header_words = 0"
  by (simp add: header_words_def MULTIBOOT_HEADER_MAGIC_def MULTIBOOT_HEADER_FLAGS_def)

record startup = cpu +
  gdtr :: "u16 \<times> u32"
  idt_table :: "nat \<Rightarrow> idt_desc"
  r_es :: u32
  r_fs :: u32
  r_gs :: u32

text \<open>
  \<open>J\<close> is what the call of \<open>init_idt\<close> leaves in the registers that it may use.
\<close>

definition call_init_idt :: "(handler \<Rightarrow> u32) \<Rightarrow> u32 \<times> u32 \<times> u32 \<times> u32 \<Rightarrow> 'a startup_scheme \<Rightarrow> 'a startup_scheme" where
  "call_init_idt at J s =
     (let s = pushl (r_eax s) s; s = pushl (r_edx s) s; s = pushl (r_ecx s) s;
          s = scratch J (s\<lparr>idt_table := init_idt at (idt_table s)\<rparr>);
          (v, s) = popl s; s = s\<lparr>r_ecx := v\<rparr>;
          (v, s) = popl s; s = s\<lparr>r_edx := v\<rparr>;
          (v, s) = popl s
      in s\<lparr>r_eax := v\<rparr>)"

text \<open>From the label \<open>keep_going\<close> to the call of \<open>entry\<close>, whose arguments are then on top of the stack.\<close>

definition keep_going :: "'a startup_scheme \<Rightarrow> 'a startup_scheme" where
  "keep_going s =
     (let s = s\<lparr>esp := 0x800000\<rparr>;
          s = s\<lparr>r_ecx := (r_ecx s AND 0xFFFF0000) OR ucast KERNEL_DS\<rparr>;
          s = s\<lparr>r_ss := ucast KERNEL_DS, r_ds := ucast KERNEL_DS, r_es := ucast KERNEL_DS, r_fs := ucast KERNEL_DS, r_gs := ucast KERNEL_DS\<rparr>;
          s = pushl (r_ebx s) s
      in pushl (r_eax s) s)"

definition start :: "(handler \<Rightarrow> u32) \<Rightarrow> u32 \<Rightarrow> u32 \<times> u32 \<times> u32 \<times> u32 \<Rightarrow> 'a startup_scheme \<Rightarrow> 'a startup_scheme" where
  "start at gdt_addr J s =
     (let s = cli s;
          s = s\<lparr>gdtr := gdt_desc_ptr gdt_addr\<rparr>;
          s = call_init_idt at J s;
          s = s\<lparr>r_cs := ucast KERNEL_CS\<rparr>
      in keep_going s)"

lemma call_init_idt_keeps:
  "r_eax (call_init_idt at J s) = r_eax s" "r_ebx (call_init_idt at J s) = r_ebx s" "interrupts_on (call_init_idt at J s) = interrupts_on s"
  "idt_table (call_init_idt at J s) = init_idt at (idt_table s)"
proof -
  have w: "words_at (mem (pushl (r_ecx s) (pushl (r_edx s) (pushl (r_eax s) s)))) (esp s - 12) [r_ecx s, r_edx s, r_eax s]"
    using stack_fold [of s "[]" "[r_eax s, r_edx s, r_ecx s]"] by (simp del: words_at.simps(2))
  obtain a b d f where J: "J = (a, b, d, f)" by (cases J)
  show "r_eax (call_init_idt at J s) = r_eax s" "r_ebx (call_init_idt at J s) = r_ebx s" "interrupts_on (call_init_idt at J s) = interrupts_on s"
    "idt_table (call_init_idt at J s) = init_idt at (idt_table s)"
    using w by (simp_all add: call_init_idt_def Let_def popl_def scratch_def J) (simp add: pushl_def)
qed

lemma keep_going_facts:
  "stack (keep_going s) [r_eax s, r_ebx s]" "esp (keep_going s) = 0x7FFFF8" "interrupts_on (keep_going s) = interrupts_on s"
  "idt_table (keep_going s) = idt_table s" "r_cs (keep_going s) = r_cs s" "r_ss (keep_going s) = ucast KERNEL_DS" "r_ds (keep_going s) = ucast KERNEL_DS"
proof -
  define b where "b = s\<lparr>esp := 0x800000, r_ecx := (r_ecx s AND 0xFFFF0000) OR ucast KERNEL_DS, r_ss := ucast KERNEL_DS, r_ds := ucast KERNEL_DS,
    r_es := ucast KERNEL_DS, r_fs := ucast KERNEL_DS, r_gs := ucast KERNEL_DS\<rparr>"
  have k: "keep_going s = fold pushl [r_ebx s, r_eax s] b" by (simp add: keep_going_def Let_def b_def)
  show "stack (keep_going s) [r_eax s, r_ebx s]" unfolding k using stack_fold [of b "[]" "[r_ebx s, r_eax s]"] by simp
  show "esp (keep_going s) = 0x7FFFF8" "interrupts_on (keep_going s) = interrupts_on s" "idt_table (keep_going s) = idt_table s"
    "r_cs (keep_going s) = r_cs s" "r_ss (keep_going s) = ucast KERNEL_DS" "r_ds (keep_going s) = ucast KERNEL_DS"
    by (simp_all add: k b_def) (simp_all add: pushl_def)
qed

text \<open>
  The start-up code hands the boot loader's two registers to \<open>entry\<close>, although \<open>init_idt\<close> is called in between, on a stack below 8MB,
  with interrupts off, the interrupt table set up and the kernel's flat segments loaded.
\<close>

theorem start_calls_entry:
  "stack (start at gdt_addr J s) [r_eax s, r_ebx s] \<and> esp (start at gdt_addr J s) = 0x7FFFF8 \<and> \<not> interrupts_on (start at gdt_addr J s) \<and>
   idt_table (start at gdt_addr J s) = init_idt at (idt_table s) \<and> segment_ok (r_cs (start at gdt_addr J s)) True \<and>
   segment_ok (r_ss (start at gdt_addr J s)) False \<and> segment_ok (r_ds (start at gdt_addr J s)) False"
proof -
  let ?c = "(call_init_idt at J ((cli s)\<lparr>gdtr := gdt_desc_ptr gdt_addr\<rparr>))\<lparr>r_cs := ucast KERNEL_CS\<rparr>"
  have "start at gdt_addr J s = keep_going ?c" by (simp add: start_def Let_def)
  moreover have "r_eax ?c = r_eax s" "r_ebx ?c = r_ebx s" "\<not> interrupts_on ?c" "idt_table ?c = init_idt at (idt_table s)"
    using call_init_idt_keeps [of at J "(cli s)\<lparr>gdtr := gdt_desc_ptr gdt_addr\<rparr>"] by (simp_all add: cli_def)
  ultimately show ?thesis using keep_going_facts [of ?c] gdt_segments by (simp del: words_at.simps)
qed

end
