(* ===== verification/Ports.thy ===== *)
theory Ports
  imports Wrappers
begin

text \<open>
  The rest of the inline functions and macros of \<open>student-distrib/lib.h\<close>: port accesses of two and four bytes,
  which go to consecutive ports with the lowest byte first, and the macros around a critical section.
\<close>

section \<open>Wide port accesses\<close>

definition inw :: "device \<Rightarrow> u16 \<Rightarrow> 'a machine_scheme \<Rightarrow> u32 \<times> 'a machine_scheme" where
  "inw dv port s =
     (let (lo, s) = inb dv port s; (hi, s) = inb dv (port + 1) s
      in (ucast lo OR push_bit 8 (ucast hi), s))"

definition inl :: "device \<Rightarrow> u16 \<Rightarrow> 'a machine_scheme \<Rightarrow> u32 \<times> 'a machine_scheme" where
  "inl dv port s =
     (let (lo, s) = inw dv port s; (hi, s) = inw dv (port + 2) s
      in (lo OR push_bit 16 hi, s))"

definition outw :: "u16 \<Rightarrow> u16 \<Rightarrow> 'a machine_scheme \<Rightarrow> 'a machine_scheme" where
  "outw data port s = outb (ucast (drop_bit 8 data)) (port + 1) (outb (ucast data) port s)"

definition outl :: "u32 \<Rightarrow> u16 \<Rightarrow> 'a machine_scheme \<Rightarrow> 'a machine_scheme" where
  "outl data port s = outw (ucast (drop_bit 16 data)) (port + 2) (outw (ucast data) port s)"

text \<open>
  A device with a register at each port, which answers a read with the last byte written there. What was written
  wide is read back wide.
\<close>

definition latch :: device where
  "latch evs port = (case rev (written_to port evs) of [] \<Rightarrow> 0 | v # _ \<Rightarrow> v)"

lemma latch_append [simp]:
  "latch (evs @ [Out q v]) p = (if p = q then v else latch evs p)" "latch (evs @ [In q v]) p = latch evs p"
  by (simp_all add: latch_def)

lemma bytes_of_word16: "ucast (ucast d :: u8) OR push_bit 8 (ucast (ucast (drop_bit 8 d) :: u8)) = (ucast (d :: u16) :: u32)"
  by (rule bit_word_eqI) (auto simp: bit_or_iff bit_push_bit_iff bit_unsigned_iff bit_drop_bit_eq dest: bit_imp_le_length)

lemma halves_of_word32: "ucast (ucast d :: u16) OR push_bit 16 (ucast (ucast (drop_bit 16 d) :: u16)) = (d :: u32)"
  by (rule bit_word_eqI) (auto simp: bit_or_iff bit_push_bit_iff bit_unsigned_iff bit_drop_bit_eq)

lemma inw_latch: "fst (inw latch p s) = ucast (latch (io s) p) OR push_bit 8 (ucast (latch (io s) (p + 1)))"
  "latch (io (snd (inw latch p s))) q = latch (io s) q"
  by (simp_all add: inw_def inb_def Let_def append_assoc [symmetric] del: append_assoc)

lemma outw_latch:
  "latch (io (outw d p s)) q = (if q = p + 1 then ucast (drop_bit 8 d) else if q = p then ucast d else latch (io s) q)"
  by (simp add: outw_def append_assoc [symmetric] del: append_assoc)

theorem wide_ports_round_trip:
  "fst (inw latch p (outw d p s)) = ucast d" "fst (inl latch p (outl v p s)) = v"
proof -
  show w: "fst (inw latch p (outw d p s)) = ucast d" for d p s by (simp add: inw_latch outw_latch bytes_of_word16)
  let ?t = "outl v p s"
  have "fst (inl latch p ?t) = fst (inw latch p ?t) OR push_bit 16 (fst (inw latch (p + 2) (snd (inw latch p ?t))))"
    by (simp add: inl_def case_prod_beta Let_def)
  moreover have "fst (inw latch p ?t) = ucast (ucast v :: u16)" "fst (inw latch (p + 2) (snd (inw latch p ?t))) = ucast (ucast (drop_bit 16 v) :: u16)"
    by (simp_all add: inw_latch outw_latch outl_def bytes_of_word16)
  ultimately show "fst (inl latch p ?t) = v" by (simp only: halves_of_word32)
qed

section \<open>Critical sections\<close>

text \<open>\<open>pushfl\<close> followed by \<open>popl\<close>, and \<open>pushl\<close> followed by \<open>popfl\<close>.\<close>

definition cli_and_save :: "'a cpu_scheme \<Rightarrow> u32 \<times> 'a cpu_scheme" where
  "cli_and_save c = (let c = pushl (get_flags c) c; (v, c) = popl c in (v, cli c))"

definition restore_flags :: "u32 \<Rightarrow> 'a cpu_scheme \<Rightarrow> 'a cpu_scheme" where
  "restore_flags v c = (let c = pushl v c; (v, c) = popl c in set_flags v c)"

lemma pop_pushed: "popl (pushl v c) = (v, c\<lparr>mem := store32 (mem c) (esp c - 4) v\<rparr>)"
  by (simp add: popl_def pushl_def load32_store32)

text \<open>
  Whatever runs between the two macros, the flags come back, and interrupts are on again exactly when they were on
  before; inside the section they are off. Unlike with \<open>cli\<close> and \<open>sti\<close>, sections may be nested.
\<close>

theorem critical_section:
  assumes "cli_and_save c = (v, d)"
  shows "\<not> interrupts_on d" and "esp d = esp c" and "get_flags (restore_flags v e) = get_flags c"
    and "interrupts_on (restore_flags v e) = interrupts_on c" and "esp (restore_flags v e) = esp e"
  using assms flags_interrupts [of c]
  by (auto simp: cli_and_save_def restore_flags_def pop_pushed cli_def set_flags_def)

end
