(* ===== verification/Scan_Codes.thy ===== *)
theory Scan_Codes
  imports Keyboard
begin

text \<open>
  The scan codes of \<open>student-distrib/keyboard.h\<close> by name, and the character table of \<open>keyboard.c\<close> against them: a key types what
  it is named after, and a released key sends its code with bit 7 set.
\<close>

section \<open>The constants\<close>

definition MAKE_1 :: u8 where "MAKE_1 = 0x02"
definition MAKE_EQUALS :: u8 where "MAKE_EQUALS = 0x0D"
definition MAKE_Q :: u8 where "MAKE_Q = 0x10"
definition MAKE_R_SQUARE_BRACKET :: u8 where "MAKE_R_SQUARE_BRACKET = 0x1B"
definition MAKE_A :: u8 where "MAKE_A = 0x1E"
definition MAKE_ACCENT :: u8 where "MAKE_ACCENT = 0x29"
definition MAKE_BACKSLASH :: u8 where "MAKE_BACKSLASH = 0x2B"
definition MAKE_SLASH :: u8 where "MAKE_SLASH = 0x35"
definition MAKE_SPACE :: u8 where "MAKE_SPACE = 0x39"
definition MAKE_ENTER :: u8 where "MAKE_ENTER = 0x1C"
definition MAKE_BKSP :: u8 where "MAKE_BKSP = 0x0E"
definition MAKE_DELETE :: u8 where "MAKE_DELETE = 0x53"
definition MAKE_CAPS :: u8 where "MAKE_CAPS = 0x3A"
definition MAKE_L_SHFT :: u8 where "MAKE_L_SHFT = 0x2A"
definition MAKE_R_SHFT :: u8 where "MAKE_R_SHFT = 0x36"
definition BREAK_L_SHFT :: u8 where "BREAK_L_SHFT = 0xAA"
definition BREAK_R_SHFT :: u8 where "BREAK_R_SHFT = 0xB6"
definition MAKE_L_CTRL :: u8 where "MAKE_L_CTRL = 0x1D"
definition BREAK_L_CTRL :: u8 where "BREAK_L_CTRL = 0x9D"
definition MAKE_L_ALT :: u8 where "MAKE_L_ALT = 0x38"
definition BREAK_L_ALT :: u8 where "BREAK_L_ALT = 0xB8"
definition EXTRAS :: u8 where "EXTRAS = 0xE0"
definition MAKE_L_ARROW :: u8 where "MAKE_L_ARROW = 0x4B"
definition MAKE_R_ARROW :: u8 where "MAKE_R_ARROW = 0x4D"
definition MAKE_L :: u8 where "MAKE_L = 0x26"
definition MAKE_F1 :: u8 where "MAKE_F1 = 0x3B"
definition MAKE_F2 :: u8 where "MAKE_F2 = 0x3C"
definition MAKE_F3 :: u8 where "MAKE_F3 = 0x3D"
definition MAKE_B :: u8 where "MAKE_B = 0x30"
definition MAKE_C :: u8 where "MAKE_C = 0x2E"
definition MAKE_D :: u8 where "MAKE_D = 0x20"
definition MAKE_E :: u8 where "MAKE_E = 0x12"
definition MAKE_F :: u8 where "MAKE_F = 0x21"
definition MAKE_G :: u8 where "MAKE_G = 0x22"
definition MAKE_H :: u8 where "MAKE_H = 0x23"
definition MAKE_I :: u8 where "MAKE_I = 0x17"
definition MAKE_J :: u8 where "MAKE_J = 0x24"
definition MAKE_K :: u8 where "MAKE_K = 0x25"
definition MAKE_M :: u8 where "MAKE_M = 0x32"
definition MAKE_N :: u8 where "MAKE_N = 0x31"
definition MAKE_O :: u8 where "MAKE_O = 0x18"
definition MAKE_P :: u8 where "MAKE_P = 0x19"
definition MAKE_R :: u8 where "MAKE_R = 0x13"
definition MAKE_S :: u8 where "MAKE_S = 0x1F"
definition MAKE_T :: u8 where "MAKE_T = 0x14"
definition MAKE_U :: u8 where "MAKE_U = 0x16"
definition MAKE_V :: u8 where "MAKE_V = 0x2F"
definition MAKE_W :: u8 where "MAKE_W = 0x11"
definition MAKE_X :: u8 where "MAKE_X = 0x2D"
definition MAKE_Y :: u8 where "MAKE_Y = 0x15"
definition MAKE_Z :: u8 where "MAKE_Z = 0x2C"
definition MAKE_0 :: u8 where "MAKE_0 = 0x0B"
definition MAKE_2 :: u8 where "MAKE_2 = 0x03"
definition MAKE_3 :: u8 where "MAKE_3 = 0x04"
definition MAKE_4 :: u8 where "MAKE_4 = 0x05"
definition MAKE_5 :: u8 where "MAKE_5 = 0x06"
definition MAKE_6 :: u8 where "MAKE_6 = 0x07"
definition MAKE_7 :: u8 where "MAKE_7 = 0x08"
definition MAKE_8 :: u8 where "MAKE_8 = 0x09"
definition MAKE_9 :: u8 where "MAKE_9 = 0x0A"
definition MAKE_HYPHEN :: u8 where "MAKE_HYPHEN = 0x0C"
definition MAKE_TAB :: u8 where "MAKE_TAB = 0x0F"
definition MAKE_ESC :: u8 where "MAKE_ESC = 0x01"
definition MAKE_F4 :: u8 where "MAKE_F4 = 0x3E"
definition MAKE_F5 :: u8 where "MAKE_F5 = 0x3F"
definition MAKE_F6 :: u8 where "MAKE_F6 = 0x40"
definition MAKE_F7 :: u8 where "MAKE_F7 = 0x41"
definition MAKE_F8 :: u8 where "MAKE_F8 = 0x42"
definition MAKE_F9 :: u8 where "MAKE_F9 = 0x43"
definition MAKE_F10 :: u8 where "MAKE_F10 = 0x44"
definition MAKE_F11 :: u8 where "MAKE_F11 = 0x57"
definition MAKE_F12 :: u8 where "MAKE_F12 = 0x58"
definition MAKE_SCROLL :: u8 where "MAKE_SCROLL = 0x46"
definition MAKE_L_SQUARE_BRACKET :: u8 where "MAKE_L_SQUARE_BRACKET = 0x1A"
definition MAKE_NUM :: u8 where "MAKE_NUM = 0x45"
definition MAKE_SEMICOLON :: u8 where "MAKE_SEMICOLON = 0x27"
definition MAKE_APOSTRPHE :: u8 where "MAKE_APOSTRPHE = 0x28"
definition MAKE_COMMA :: u8 where "MAKE_COMMA = 0x33"
definition MAKE_PERIOD :: u8 where "MAKE_PERIOD = 0x34"
definition BREAK_A :: u8 where "BREAK_A = 0x9E"
definition BREAK_B :: u8 where "BREAK_B = 0xB0"
definition BREAK_C :: u8 where "BREAK_C = 0xAE"
definition BREAK_D :: u8 where "BREAK_D = 0xA0"
definition BREAK_E :: u8 where "BREAK_E = 0x92"
definition BREAK_F :: u8 where "BREAK_F = 0xA1"
definition BREAK_G :: u8 where "BREAK_G = 0xA2"
definition BREAK_H :: u8 where "BREAK_H = 0xA3"
definition BREAK_I :: u8 where "BREAK_I = 0x97"
definition BREAK_J :: u8 where "BREAK_J = 0xA4"
definition BREAK_K :: u8 where "BREAK_K = 0xA5"
definition BREAK_L :: u8 where "BREAK_L = 0xA6"
definition BREAK_M :: u8 where "BREAK_M = 0xB2"
definition BREAK_N :: u8 where "BREAK_N = 0xB1"
definition BREAK_O :: u8 where "BREAK_O = 0x98"
definition BREAK_P :: u8 where "BREAK_P = 0x99"
definition BREAK_Q :: u8 where "BREAK_Q = 0x90"
definition BREAK_R :: u8 where "BREAK_R = 0x93"
definition BREAK_S :: u8 where "BREAK_S = 0x9F"
definition BREAK_T :: u8 where "BREAK_T = 0x94"
definition BREAK_U :: u8 where "BREAK_U = 0x96"
definition BREAK_V :: u8 where "BREAK_V = 0xAF"
definition BREAK_W :: u8 where "BREAK_W = 0x91"
definition BREAK_X :: u8 where "BREAK_X = 0xAD"
definition BREAK_Y :: u8 where "BREAK_Y = 0x95"
definition BREAK_Z :: u8 where "BREAK_Z = 0xAC"
definition BREAK_0 :: u8 where "BREAK_0 = 0x8B"
definition BREAK_1 :: u8 where "BREAK_1 = 0x82"
definition BREAK_2 :: u8 where "BREAK_2 = 0x83"
definition BREAK_3 :: u8 where "BREAK_3 = 0x84"
definition BREAK_4 :: u8 where "BREAK_4 = 0x85"
definition BREAK_5 :: u8 where "BREAK_5 = 0x86"
definition BREAK_6 :: u8 where "BREAK_6 = 0x87"
definition BREAK_7 :: u8 where "BREAK_7 = 0x88"
definition BREAK_8 :: u8 where "BREAK_8 = 0x89"
definition BREAK_9 :: u8 where "BREAK_9 = 0x8A"
definition BREAK_ACCENT :: u8 where "BREAK_ACCENT = 0x89"
definition BREAK_HYPHEN :: u8 where "BREAK_HYPHEN = 0x8C"
definition BREAK_EQUALS :: u8 where "BREAK_EQUALS = 0x8D"
definition BREAK_BACKSLASH :: u8 where "BREAK_BACKSLASH = 0xAB"
definition BREAK_BKSP :: u8 where "BREAK_BKSP = 0x8E"
definition BREAK_SPACE :: u8 where "BREAK_SPACE = 0xB9"
definition BREAK_TAB :: u8 where "BREAK_TAB = 0x8F"
definition BREAK_CAPS :: u8 where "BREAK_CAPS = 0xBA"
definition BREAK_ENTER :: u8 where "BREAK_ENTER = 0x9C"
definition BREAK_ESC :: u8 where "BREAK_ESC = 0x81"
definition BREAK_F1 :: u8 where "BREAK_F1 = 0xBB"
definition BREAK_F2 :: u8 where "BREAK_F2 = 0xBC"
definition BREAK_F3 :: u8 where "BREAK_F3 = 0xBD"
definition BREAK_F4 :: u8 where "BREAK_F4 = 0xBE"
definition BREAK_F5 :: u8 where "BREAK_F5 = 0xBF"
definition BREAK_F6 :: u8 where "BREAK_F6 = 0xC0"
definition BREAK_F7 :: u8 where "BREAK_F7 = 0xC1"
definition BREAK_F8 :: u8 where "BREAK_F8 = 0xC2"
definition BREAK_F9 :: u8 where "BREAK_F9 = 0xC3"
definition BREAK_F10 :: u8 where "BREAK_F10 = 0xC4"
definition BREAK_F11 :: u8 where "BREAK_F11 = 0xD7"
definition BREAK_F12 :: u8 where "BREAK_F12 = 0xD8"
definition BREAK_SCROLL :: u8 where "BREAK_SCROLL = 0xC6"
definition BREAK_L_SQUARE_BRACKET :: u8 where "BREAK_L_SQUARE_BRACKET = 0x9A"
definition BREAK_NUM :: u8 where "BREAK_NUM = 0xC5"
definition BREAK_R_SQUARE_BRACKET :: u8 where "BREAK_R_SQUARE_BRACKET = 0x9B"
definition BREAK_SEMICOLON :: u8 where "BREAK_SEMICOLON = 0xA7"
definition BREAK_APOSTRPHE :: u8 where "BREAK_APOSTRPHE = 0xA8"
definition BREAK_COMMA :: u8 where "BREAK_COMMA = 0xB3"
definition BREAK_PERIOD :: u8 where "BREAK_PERIOD = 0xB4"
definition BREAK_SLASH :: u8 where "BREAK_SLASH = 0xB5"
definition BREAK_L_ARROW :: u8 where "BREAK_L_ARROW = 0xCB"
definition BREAK_R_ARROW :: u8 where "BREAK_R_ARROW = 0xCD"
definition BREAK_DELETE :: u8 where "BREAK_DELETE = 0xD3"

lemmas code_defs [simp] =
  MAKE_1_def MAKE_EQUALS_def MAKE_Q_def MAKE_R_SQUARE_BRACKET_def MAKE_A_def MAKE_ACCENT_def MAKE_BACKSLASH_def
  MAKE_SLASH_def MAKE_SPACE_def MAKE_ENTER_def MAKE_BKSP_def MAKE_DELETE_def MAKE_CAPS_def MAKE_L_SHFT_def MAKE_R_SHFT_def
  BREAK_L_SHFT_def BREAK_R_SHFT_def MAKE_L_CTRL_def BREAK_L_CTRL_def MAKE_L_ALT_def BREAK_L_ALT_def EXTRAS_def
  MAKE_L_ARROW_def MAKE_R_ARROW_def MAKE_L_def MAKE_F1_def MAKE_F2_def MAKE_F3_def MAKE_B_def MAKE_C_def MAKE_D_def
  MAKE_E_def MAKE_F_def MAKE_G_def MAKE_H_def MAKE_I_def MAKE_J_def MAKE_K_def MAKE_M_def MAKE_N_def MAKE_O_def MAKE_P_def
  MAKE_R_def MAKE_S_def MAKE_T_def MAKE_U_def MAKE_V_def MAKE_W_def MAKE_X_def MAKE_Y_def MAKE_Z_def MAKE_0_def MAKE_2_def
  MAKE_3_def MAKE_4_def MAKE_5_def MAKE_6_def MAKE_7_def MAKE_8_def MAKE_9_def MAKE_HYPHEN_def MAKE_TAB_def MAKE_ESC_def
  MAKE_F4_def MAKE_F5_def MAKE_F6_def MAKE_F7_def MAKE_F8_def MAKE_F9_def MAKE_F10_def MAKE_F11_def MAKE_F12_def
  MAKE_SCROLL_def MAKE_L_SQUARE_BRACKET_def MAKE_NUM_def MAKE_SEMICOLON_def MAKE_APOSTRPHE_def MAKE_COMMA_def MAKE_PERIOD_def
  BREAK_A_def BREAK_B_def BREAK_C_def BREAK_D_def BREAK_E_def BREAK_F_def BREAK_G_def BREAK_H_def BREAK_I_def BREAK_J_def
  BREAK_K_def BREAK_L_def BREAK_M_def BREAK_N_def BREAK_O_def BREAK_P_def BREAK_Q_def BREAK_R_def BREAK_S_def BREAK_T_def
  BREAK_U_def BREAK_V_def BREAK_W_def BREAK_X_def BREAK_Y_def BREAK_Z_def BREAK_0_def BREAK_1_def BREAK_2_def BREAK_3_def
  BREAK_4_def BREAK_5_def BREAK_6_def BREAK_7_def BREAK_8_def BREAK_9_def BREAK_ACCENT_def BREAK_HYPHEN_def BREAK_EQUALS_def
  BREAK_BACKSLASH_def BREAK_BKSP_def BREAK_SPACE_def BREAK_TAB_def BREAK_CAPS_def BREAK_ENTER_def BREAK_ESC_def BREAK_F1_def
  BREAK_F2_def BREAK_F3_def BREAK_F4_def BREAK_F5_def BREAK_F6_def BREAK_F7_def BREAK_F8_def BREAK_F9_def BREAK_F10_def
  BREAK_F11_def BREAK_F12_def BREAK_SCROLL_def BREAK_L_SQUARE_BRACKET_def BREAK_NUM_def BREAK_R_SQUARE_BRACKET_def
  BREAK_SEMICOLON_def BREAK_APOSTRPHE_def BREAK_COMMA_def BREAK_PERIOD_def BREAK_SLASH_def BREAK_L_ARROW_def
  BREAK_R_ARROW_def BREAK_DELETE_def

section \<open>Make and break codes\<close>

text \<open>
  The break code of a key is its make code with bit 7 set; the one exception is the constant \<open>BREAK_ACCENT\<close>, which is the
  break code of the key 8.
\<close>

lemma break_codes:
  "map (\<lambda>c. c OR 0x80)
   [
    MAKE_L_SHFT, MAKE_R_SHFT, MAKE_L_CTRL, MAKE_L_ALT, MAKE_A, MAKE_B, MAKE_C, MAKE_D, MAKE_E, MAKE_F, MAKE_G, MAKE_H, MAKE_I,
    MAKE_J, MAKE_K, MAKE_L, MAKE_M, MAKE_N, MAKE_O, MAKE_P, MAKE_Q, MAKE_R, MAKE_S, MAKE_T, MAKE_U, MAKE_V, MAKE_W, MAKE_X,
    MAKE_Y, MAKE_Z, MAKE_0, MAKE_1, MAKE_2, MAKE_3, MAKE_4, MAKE_5, MAKE_6, MAKE_7, MAKE_8, MAKE_9, MAKE_HYPHEN, MAKE_EQUALS,
    MAKE_BACKSLASH, MAKE_BKSP, MAKE_SPACE, MAKE_TAB, MAKE_CAPS, MAKE_ENTER, MAKE_ESC, MAKE_F1, MAKE_F2, MAKE_F3, MAKE_F4,
    MAKE_F5, MAKE_F6, MAKE_F7, MAKE_F8, MAKE_F9, MAKE_F10, MAKE_F11, MAKE_F12, MAKE_SCROLL, MAKE_L_SQUARE_BRACKET, MAKE_NUM,
    MAKE_R_SQUARE_BRACKET, MAKE_SEMICOLON, MAKE_APOSTRPHE, MAKE_COMMA, MAKE_PERIOD, MAKE_SLASH, MAKE_L_ARROW, MAKE_R_ARROW,
    MAKE_DELETE] =
   [
    BREAK_L_SHFT, BREAK_R_SHFT, BREAK_L_CTRL, BREAK_L_ALT, BREAK_A, BREAK_B, BREAK_C, BREAK_D, BREAK_E, BREAK_F, BREAK_G,
    BREAK_H, BREAK_I, BREAK_J, BREAK_K, BREAK_L, BREAK_M, BREAK_N, BREAK_O, BREAK_P, BREAK_Q, BREAK_R, BREAK_S, BREAK_T,
    BREAK_U, BREAK_V, BREAK_W, BREAK_X, BREAK_Y, BREAK_Z, BREAK_0, BREAK_1, BREAK_2, BREAK_3, BREAK_4, BREAK_5, BREAK_6,
    BREAK_7, BREAK_8, BREAK_9, BREAK_HYPHEN, BREAK_EQUALS, BREAK_BACKSLASH, BREAK_BKSP, BREAK_SPACE, BREAK_TAB, BREAK_CAPS,
    BREAK_ENTER, BREAK_ESC, BREAK_F1, BREAK_F2, BREAK_F3, BREAK_F4, BREAK_F5, BREAK_F6, BREAK_F7, BREAK_F8, BREAK_F9,
    BREAK_F10, BREAK_F11, BREAK_F12, BREAK_SCROLL, BREAK_L_SQUARE_BRACKET, BREAK_NUM, BREAK_R_SQUARE_BRACKET, BREAK_SEMICOLON,
    BREAK_APOSTRPHE, BREAK_COMMA, BREAK_PERIOD, BREAK_SLASH, BREAK_L_ARROW, BREAK_R_ARROW, BREAK_DELETE]"
  by simp

lemma break_accent: "BREAK_ACCENT = BREAK_8" "BREAK_ACCENT \<noteq> MAKE_ACCENT OR 0x80"
  by simp_all

section \<open>What the keys type\<close>

definition letter_keys :: "u8 list" where
  "letter_keys = [
    MAKE_A, MAKE_B, MAKE_C, MAKE_D, MAKE_E, MAKE_F, MAKE_G, MAKE_H, MAKE_I, MAKE_J, MAKE_K, MAKE_L, MAKE_M, MAKE_N, MAKE_O,
    MAKE_P, MAKE_Q, MAKE_R, MAKE_S, MAKE_T, MAKE_U, MAKE_V, MAKE_W, MAKE_X, MAKE_Y, MAKE_Z]"

definition digit_keys :: "u8 list" where
  "digit_keys = [MAKE_0, MAKE_1, MAKE_2, MAKE_3, MAKE_4, MAKE_5, MAKE_6, MAKE_7, MAKE_8, MAKE_9]"

lemma kbd_rows:
  "map (kbd_char 0) (digit_keys @ [MAKE_EQUALS, MAKE_HYPHEN, MAKE_COMMA, MAKE_PERIOD, MAKE_SEMICOLON, MAKE_SLASH, MAKE_SPACE]) =
   map of_char ''0123456789=-,.;/ ''"
  by (simp add: digit_keys_def kbd_char_def kbd_chars_def)

text \<open>
  Every letter and digit key is taken as a printable key; the letter keys type their letter in lower case without Shift and Caps Lock
  and with both, in upper case with one of them; the digit and punctuation keys type what they are named after.
\<close>

theorem keys_type_their_names:
  "list_all printable (letter_keys @ digit_keys) \<and>
   map (kbd_char 0) letter_keys = map of_char ''abcdefghijklmnopqrstuvwxyz'' \<and>
   map (kbd_char FLAG_SHIFT) letter_keys = map of_char ''ABCDEFGHIJKLMNOPQRSTUVWXYZ'' \<and>
   map (kbd_char FLAG_CAPS) letter_keys = map of_char ''ABCDEFGHIJKLMNOPQRSTUVWXYZ'' \<and>
   map (kbd_char (FLAG_SHIFT OR FLAG_CAPS)) letter_keys = map of_char ''abcdefghijklmnopqrstuvwxyz'' \<and>
   map (kbd_char 0) digit_keys = map of_char ''0123456789'' \<and> map (kbd_char FLAG_CAPS) digit_keys = map of_char ''0123456789''"
  by (intro conjI) (simp_all add: letter_keys_def digit_keys_def printable_def kbd_char_def kbd_chars_def FLAG_SHIFT_def FLAG_CAPS_def)

end
