(* ===== verification/Sigtest.thy ===== *)
theory Sigtest
  imports User_Shell
begin

text \<open>
  The signal test program, \<open>syscalls/ece391sigtest.c\<close>: it installs two signal handlers when its argument
  starts with \<open>1\<close>, asks for a name, writes through a null pointer, and reports whether a handler has
  repaired the pointer. The addresses of its variables \<open>charbuf\<close> and \<open>badbuf\<close>, of its handlers and of its local
  arrays are arguments, as are the addresses \<open>L\<close> of its strings. What the kernel makes of a page fault is
  a further argument; on this kernel it is the page-fault handler of \<open>Idt\<close>.
\<close>

section \<open>The program\<close>

definition SEGFAULT :: i32 where "SEGFAULT = 1"
definition ALARM :: i32 where "ALARM = 3"

text \<open>The \<open>switch\<close> of both handlers.\<close>

definition signum_text :: "i32 \<Rightarrow> string" where
  "signum_text signum =
     (if signum = 0 then ''0\<newline>'' else if signum = 1 then ''1\<newline>'' else if signum = 2 then ''2\<newline>''
      else if signum = 3 then ''3\<newline>'' else ''invalid\<newline>'')"

text \<open>
  The handler finds its argument at \<open>signum_addr\<close> on the stack and takes the word seven words above it for the
  saved \<open>eax\<close> of the interrupted program, which it overwrites.
\<close>

definition segfault_sighandler ::
  "'a machine_scheme kernel_call \<Rightarrow> (string \<Rightarrow> u32) \<Rightarrow> u32 \<Rightarrow> u32 \<Rightarrow> u32 \<Rightarrow> u32 \<Rightarrow> 'a machine_scheme \<Rightarrow> 'a machine_scheme outcome" where
  "segfault_sighandler K L charbuf badbuf buf signum_addr s =
     obind (ece391_fdputs K 1 (L ''Segfault signal handler called, signum: '') s) (\<lambda>s.
     obind (ece391_fdputs K 1 (L (signum_text (load32 (mem s) signum_addr))) s) (\<lambda>s.
     obind (ece391_fdputs K 1 (L ''Press enter to continue...\<newline>'') s) (\<lambda>s.
     obind (ece391_read K 0 buf 1 s) (\<lambda>(_, s).
       let s = s\<lparr>mem := store32 (mem s) badbuf charbuf\<rparr>;
           s = s\<lparr>mem := store32 (mem s) (signum_addr + 28) charbuf\<rparr>
       in ece391_fdputs K 1 (L ''Signal handler returning\<newline>'') s))))"

definition alarm_sighandler ::
  "'a machine_scheme kernel_call \<Rightarrow> (string \<Rightarrow> u32) \<Rightarrow> i32 \<Rightarrow> 'a machine_scheme \<Rightarrow> 'a machine_scheme outcome" where
  "alarm_sighandler K L signum s =
     obind (ece391_fdputs K 1 (L ''Alarm signal handler called, signum: '') s) (\<lambda>s.
       ece391_fdputs K 1 (L (signum_text signum)) s)"

text \<open>
  The store through \<open>badbuf\<close>, whose value is in \<open>eax\<close>. The pointer is null or leads into the program's page; in the
  first case the processor faults, and if the kernel returns from the fault the instruction runs again, with
  the \<open>eax\<close> that the kernel returns with.
\<close>

partial_function (option) store_through ::
  "(u32 \<Rightarrow> 'a machine_scheme \<Rightarrow> (u32 \<times> 'a machine_scheme) outcome) \<Rightarrow> u32 \<Rightarrow> u8 \<Rightarrow> 'a machine_scheme \<Rightarrow> 'a machine_scheme outcome option" where
  "store_through F eax v s =
     (if in_user eax then Some (Ok (s\<lparr>mem := (mem s)(eax := v)\<rparr>))
      else lbind (F eax s) (\<lambda>(eax, s). store_through F eax v s))"

definition install_handlers ::
  "'a machine_scheme kernel_call \<Rightarrow> (string \<Rightarrow> u32) \<Rightarrow> u32 \<Rightarrow> u32 \<Rightarrow> u32 \<Rightarrow> 'a machine_scheme \<Rightarrow> 'a machine_scheme outcome" where
  "install_handlers K L segv alrm buf s =
     (if mem s buf = 49 then
        obind (ece391_fdputs K 1 (L ''Installing signal handlers\<newline>'') s) (\<lambda>s.
        obind (ece391_set_handler K SEGFAULT segv s) (\<lambda>(_, s).
        obind (ece391_set_handler K ALARM alrm s) (\<lambda>(_, s). Ok s)))
      else Ok s)"

text \<open>The end of \<open>main\<close>, after the store.\<close>

definition sigtest_report ::
  "'a machine_scheme kernel_call \<Rightarrow> (string \<Rightarrow> u32) \<Rightarrow> u32 \<Rightarrow> u32 \<Rightarrow> i32 \<Rightarrow> 'a machine_scheme \<Rightarrow> (i32 \<times> 'a machine_scheme) outcome" where
  "sigtest_report K L charbuf buf cnt s =
     obind (put_at 1024 buf cnt 0 s) (\<lambda>s.
     obind (ece391_fdputs K 1 (L ''Hello, '') s) (\<lambda>s.
     obind (ece391_fdputs K 1 buf s) (\<lambda>s.
       if mem s charbuf = 1 then quit_with K (L ''success\<newline>'') 0 s else quit_with K (L ''failure\<newline>'') 0 s)))"

definition sigtest_main ::
  "'a machine_scheme kernel_call \<Rightarrow> (u32 \<Rightarrow> 'a machine_scheme \<Rightarrow> (u32 \<times> 'a machine_scheme) outcome) \<Rightarrow> (string \<Rightarrow> u32) \<Rightarrow>
   u32 \<Rightarrow> u32 \<Rightarrow> u32 \<Rightarrow> u32 \<Rightarrow> u32 \<Rightarrow> 'a machine_scheme \<Rightarrow> (i32 \<times> 'a machine_scheme) outcome" where
  "sigtest_main K F L charbuf badbuf segv alrm buf s =
     obind (ece391_getargs K buf 1024 s) (\<lambda>(r, s).
       if 0 \<noteq> r then quit_with K (L ''could not read argument\<newline>'') 3 s
       else
         obind (install_handlers K L segv alrm buf s) (\<lambda>s.
         obind (ece391_fdputs K 1 (L ''Hi, what's your name? '') s) (\<lambda>s.
         obind (ece391_read K 0 buf 1023 s) (\<lambda>(cnt, s).
           if -1 = cnt then quit_with K (L ''Can't read name from keyboard.\<newline>'') 3 s
           else
             obind (loop_value (store_through F (load32 (mem s) badbuf) 1 s)) (\<lambda>s.
               sigtest_report K L charbuf buf cnt s)))))"

section \<open>What the program expects of its kernel\<close>

text \<open>A string of the program: its bytes \<open>T c\<close> stand at \<open>L c\<close>, away from the \<open>n\<close> bytes at \<open>b\<close>.\<close>

definition text_at :: "(string \<Rightarrow> u32) \<Rightarrow> (string \<Rightarrow> u8 list) \<Rightarrow> u32 \<Rightarrow> nat \<Rightarrow> string \<Rightarrow> memory \<Rightarrow> bool" where
  "text_at L T b n c m \<longleftrightarrow> str_at m (L c) (T c) \<and> user_run (L c) (Suc (length (T c))) \<and> disjoint_runs b n (L c) (Suc (length (T c)))"

lemma text_at_same: "text_at L T b n c (mem s) \<Longrightarrow> same_user s t \<Longrightarrow> text_at L T b n c (mem t)"
  by (auto simp: text_at_def intro: same_user_str_at)

lemma text_at_but: "text_at L T b n c (mem s) \<Longrightarrow> same_user_but b n s t \<Longrightarrow> text_at L T b n c (mem t)"
  by (auto simp: text_at_def intro: same_user_but_str_at)

lemma same_user_load32: "same_user s t \<Longrightarrow> user_run a 4 \<Longrightarrow> load32 (mem t) a = load32 (mem s) a"
  using user_run_at [of a 4] by (intro load32_cong) (simp add: same_user_def)

lemma same_user_but_load32:
  "same_user_but b n s t \<Longrightarrow> user_run a 4 \<Longrightarrow> disjoint_runs b n a 4 \<Longrightarrow> load32 (mem t) a = load32 (mem s) a"
  using user_run_at [of a 4] disjoint_runs_outside [of b n a 4] by (intro load32_cong) (simp add: same_user_but_def)

locale signal_kernel = file_kernel K ok shown remaining args can_open has_file no_file + console_kernel K ok shown typed
  for K :: "'a machine_scheme kernel_call" and ok :: "'a machine_scheme \<Rightarrow> bool"
    and shown :: "'a machine_scheme \<Rightarrow> text_term" and remaining :: "nat \<Rightarrow> u8 list \<Rightarrow> 'a machine_scheme \<Rightarrow> bool"
    and args :: "'a machine_scheme \<Rightarrow> u8 list" and can_open :: "'a machine_scheme \<Rightarrow> bool"
    and has_file :: "'a machine_scheme \<Rightarrow> u8 list \<Rightarrow> u8 list \<Rightarrow> bool" and no_file :: "'a machine_scheme \<Rightarrow> u8 list \<Rightarrow> bool"
    and typed :: "u8 list \<Rightarrow> text_term \<Rightarrow> 'a machine_scheme \<Rightarrow> bool" +
  assumes handler_set: "ok s \<Longrightarrow> K SYS_SET_HANDLER n h 0 s = Ok (0, s)"
begin

lemma text_prints:
  assumes "ok s" and "text_at L T b n c (mem s)"
  shows "\<exists>t. ece391_fdputs K 1 (L c) s = Ok t \<and> ok t \<and> same_user s t \<and> shown t = fold term_putc (T c) (shown s)"
  using fdputs_prints [OF assms(1)] assms(2) by (simp add: text_at_def)

lemma store32_user:
  assumes "ok s" and "user_run a 4"
  shows "ok (s\<lparr>mem := store32 (mem s) a v\<rparr>)" "shown (s\<lparr>mem := store32 (mem s) a v\<rparr>) = shown s"
    "same_user_but a 4 s (s\<lparr>mem := store32 (mem s) a v\<rparr>)"
proof -
  have out: "store32 (mem s) a v b = mem s b" if "\<not> in_user b" for b
    using outside_user [OF assms(2) order_refl that] by (rule store32_outside)
  show "ok (s\<lparr>mem := store32 (mem s) a v\<rparr>)" using assms(1) out by (rule user_ok)
  show "shown (s\<lparr>mem := store32 (mem s) a v\<rparr>) = shown s" using assms(1) out by (rule user_shown)
  show "same_user_but a 4 s (s\<lparr>mem := store32 (mem s) a v\<rparr>)" by (simp add: same_user_but_def store32_outside)
qed

text \<open>The handlers are announced exactly when the argument starts with \<open>1\<close>; nothing else changes.\<close>

lemma handlers_installed:
  assumes "ok s" and "text_at L T b n ''Installing signal handlers\<newline>'' (mem s)"
  shows "\<exists>t. install_handlers K L segv alrm buf s = Ok t \<and> ok t \<and> same_user s t \<and>
    shown t = (if mem s buf = 49 then fold term_putc (T ''Installing signal handlers\<newline>'') (shown s) else shown s)"
  using text_prints [OF assms] assms(1) handler_set by (auto simp: install_handlers_def ece391_set_handler_def)

text \<open>The program up to the store: it is about to write through \<open>badbuf\<close>, which nothing has set, with the name in its buffer.\<close>

lemma sigtest_reaches_store:
  assumes s: "ok s" "can_open s" "length (args s) < 1024" and buf: "user_run buf 1024"
    and strs: "\<And>c. c \<in> {''Installing signal handlers\<newline>'', ''Hi, what's your name? ''} \<Longrightarrow> text_at L T buf 1024 c (mem s)"
    and bad: "user_run badbuf 4" "disjoint_runs buf 1024 badbuf 4"
    and typed: "\<And>t u v. ok t \<Longrightarrow> str_at (mem t) buf (args s) \<Longrightarrow> install_handlers K L segv alrm buf t = Ok u \<Longrightarrow>
      ece391_fdputs K 1 (L ''Hi, what's your name? '') u = Ok v \<Longrightarrow> typed line scr v"
  shows "\<exists>t. ok t \<and> shown t = term_putc 10 scr \<and> load32 (mem t) badbuf = load32 (mem s) badbuf \<and>
    same_user_but buf 1024 s t \<and> str_at ((mem t)(buf + 1023 := 0)) buf line \<and>
    sigtest_main K F L charbuf badbuf segv alrm buf s =
      obind (loop_value (store_through F (load32 (mem s) badbuf) 1 t)) (sigtest_report K L charbuf buf 1023)"
proof -
  obtain t where t: "K SYS_GETARGS buf 1024 0 s = Ok (0, t)" "ok t" "same_user_but buf 1024 s t" "str_at (mem t) buf (args s)"
    using get_args [OF s(1,2) buf s(3)] by auto
  have tt: "text_at L T buf 1024 ''Installing signal handlers\<newline>'' (mem t)" "text_at L T buf 1024 ''Hi, what's your name? '' (mem t)"
    using text_at_but [OF strs t(3)] by simp_all
  obtain u where u: "install_handlers K L segv alrm buf t = Ok u" "ok u" "same_user t u" using handlers_installed [OF t(2) tt(1)] by blast
  obtain v where v: "ece391_fdputs K 1 (L ''Hi, what's your name? '') u = Ok v" "ok v" "same_user u v"
    using text_prints [OF u(2) text_at_same [OF tt(2) u(3)]] by blast
  have ty: "typed line scr v" using typed [OF t(2,4) u(1) v(1)] .
  obtain w where w: "ece391_read K 0 buf 1023 v = Ok (1023, w)" "ok w" "same_user_but buf 1024 v w" "str_at ((mem w)(buf + 1023 := 0)) buf line"
    using read_string [OF v(2) ty buf] by blast
  have "shown w = term_putc 10 scr"
    using read_line [OF v(2) ty user_run_le [OF buf, of 1023]] w(1) by (auto simp: ece391_read_def)
  moreover have same: "same_user_but buf 1024 s w" using t(3) u(3) v(3) w(3) by (meson same_user_but_trans)
  moreover have l: "load32 (mem w) badbuf = load32 (mem s) badbuf" by (rule same_user_but_load32 [OF same bad])
  ultimately show ?thesis
    using w(2,4) t(1) u(1) v(1) w(1) by (intro exI [of _ w]) (simp add: sigtest_main_def ece391_getargs_def)
qed

text \<open>
  The handler, when a kernel calls it: after the next line on the terminal the pointer and the word it takes for the saved \<open>eax\<close> both
  hold the address of \<open>charbuf\<close>.
\<close>

lemma segfault_handler_repairs:
  assumes s: "ok s" and run: "user_run buf 1" "user_run badbuf 4" "user_run (signum_addr + 28) 4" "disjoint_runs badbuf 4 (signum_addr + 28) 4"
    and strs: "\<And>b n c. (b, n) \<in> {(buf, 1), (badbuf, 4), (signum_addr + 28, 4)} \<Longrightarrow> c \<in> {''Segfault signal handler called, signum: '',
      signum_text (load32 (mem s) signum_addr), ''Press enter to continue...\<newline>'', ''Signal handler returning\<newline>''} \<Longrightarrow> text_at L T b n c (mem s)"
    and sig: "user_run signum_addr 4"
    and typed: "\<And>t u. ece391_fdputs K 1 (L ''Press enter to continue...\<newline>'') t = Ok u \<Longrightarrow> typed line scr u"
  shows "\<exists>t. segfault_sighandler K L charbuf badbuf buf signum_addr s = Ok t \<and> ok t \<and> load32 (mem t) badbuf = charbuf \<and>
    load32 (mem t) (signum_addr + 28) = charbuf \<and> shown t = fold term_putc (T ''Signal handler returning\<newline>'') (term_putc 10 scr)"
proof -
  let ?eax = "signum_addr + 28" and ?fin = "''Signal handler returning\<newline>''"
  obtain t where t: "ece391_fdputs K 1 (L ''Segfault signal handler called, signum: '') s = Ok t" "ok t" "same_user s t"
    using text_prints [OF s strs [of buf 1]] by blast
  have "load32 (mem t) signum_addr = load32 (mem s) signum_addr" by (rule same_user_load32 [OF t(3) sig])
  then obtain u where u: "ece391_fdputs K 1 (L (signum_text (load32 (mem t) signum_addr))) t = Ok u" "ok u" "same_user t u"
    using text_prints [OF t(2) text_at_same [OF strs [of buf 1] t(3)]] by auto
  have su: "same_user s u" using t(3) u(3) by (rule same_user_trans)
  obtain v where v: "ece391_fdputs K 1 (L ''Press enter to continue...\<newline>'') u = Ok v" "ok v" "same_user u v"
    using text_prints [OF u(2) text_at_same [OF strs [of buf 1] su]] by auto
  have sv: "same_user s v" using su v(3) by (rule same_user_trans)
  obtain r w where w: "ece391_read K 0 buf 1 v = Ok (r, w)" "ok w" "same_user_but buf 1 v w" "shown w = term_putc 10 scr"
    using read_line [OF v(2) typed [OF v(1)] run(1)] by (auto simp: ece391_read_def)
  define x where "x = w\<lparr>mem := store32 (mem w) badbuf charbuf\<rparr>"
  define y where "y = x\<lparr>mem := store32 (mem x) ?eax charbuf\<rparr>"
  have x: "ok x" "shown x = term_putc 10 scr" "same_user_but badbuf 4 w x" using store32_user [OF w(2) run(2)] w(4) by (simp_all add: x_def)
  have y: "ok y" "shown y = term_putc 10 scr" "same_user_but ?eax 4 x y" using store32_user [OF x(1) run(3)] x(2) by (simp_all add: y_def)
  have "text_at L T b n ?fin (mem w)" if "(b, n) \<in> {(buf, 1), (badbuf, 4), (?eax, 4)}" for b n
    using text_at_but [OF text_at_same [OF strs [of buf 1 ?fin] sv] w(3)] text_at_same [OF strs [OF that, of ?fin] sv]
    by (auto simp: text_at_def)
  then have "text_at L T badbuf 4 ?fin (mem x)" "text_at L T ?eax 4 ?fin (mem x)"
    using text_at_but [OF _ x(3), of L T ?fin] by (auto simp: text_at_def)
  then have "text_at L T ?eax 4 ?fin (mem y)" using text_at_but [OF _ y(3)] by blast
  then obtain z where z: "ece391_fdputs K 1 (L ?fin) y = Ok z" "ok z" "same_user y z" "shown z = fold term_putc (T ?fin) (shown y)"
    using text_prints [OF y(1)] by blast
  have "load32 (mem y) badbuf = charbuf"
    using same_user_but_load32 [OF y(3) run(2)] run(4) by (simp add: disjoint_runs_def x_def load32_store32)
  then have "load32 (mem z) badbuf = charbuf" "load32 (mem z) ?eax = charbuf"
    using same_user_load32 [OF z(3)] run(2,3) by (simp_all add: y_def load32_store32)
  moreover have "y = w\<lparr>mem := store32 (store32 (mem w) badbuf charbuf) ?eax charbuf\<rparr>" by (simp add: x_def y_def)
  ultimately show ?thesis using t(1) u(1) v(1) w(1) z(1,2,4) y(2) by (simp add: segfault_sighandler_def)
qed

text \<open>The report after the store, which is right about \<open>charbuf\<close>.\<close>

lemma sigtest_reports:
  assumes s: "ok s" and buf: "user_run buf 1024" and line: "str_at ((mem s)(buf + 1023 := 0)) buf line" "length line < 1024"
    and strs: "\<And>c. c \<in> {''Hello, '', ''success\<newline>'', ''failure\<newline>''} \<Longrightarrow> text_at L T buf 1024 c (mem s)"
    and c: "in_user charbuf" "1024 \<le> unat (charbuf - buf)"
  shows "\<exists>t. sigtest_report K L charbuf buf 1023 s = Ok (0, t) \<and> ok t \<and>
    shown t = fold term_putc (T ''Hello, '' @ line @ T (if mem s charbuf = 1 then ''success\<newline>'' else ''failure\<newline>'')) (shown s)"
proof -
  define t where "t = s\<lparr>mem := (mem s)(buf + 1023 := 0)\<rparr>"
  let ?fin = "if mem s charbuf = 1 then ''success\<newline>'' else ''failure\<newline>''"
  have "in_user (buf + 1023)" using user_run_at [OF buf, of 1023] by simp
  then have t: "ok t" "shown t = shown s" "same_user_but buf 1024 s t"
    using store_ok [OF s] store_shown [OF s] by (auto simp: t_def same_user_but_def)
  obtain u where u: "ece391_fdputs K 1 (L ''Hello, '') t = Ok u" "ok u" "same_user t u" "shown u = fold term_putc (T ''Hello, '') (shown s)"
    using text_prints [OF t(1) text_at_but [OF strs t(3)]] t(2) by auto
  have "str_at (mem u) buf line" by (rule same_user_str_at [OF u(3)]) (use line user_run_le [OF buf] in \<open>simp_all add: t_def\<close>)
  then obtain v where v: "ece391_fdputs K 1 buf u = Ok v" "ok v" "same_user u v" "shown v = fold term_putc line (shown u)"
    using fdputs_prints [OF u(2)] user_run_le [OF buf, of "Suc (length line)"] line(2) by auto
  have tv: "same_user t v" using u(3) v(3) by (rule same_user_trans)
  have m: "mem v charbuf = mem s charbuf" using tv t(3) c by (simp add: same_user_def same_user_but_def)
  have "?fin \<in> {''Hello, '', ''success\<newline>'', ''failure\<newline>''}" by (cases "mem s charbuf = 1") simp_all
  then have "text_at L T buf 1024 ?fin (mem v)" by (rule text_at_same [OF text_at_but [OF strs t(3)] tv])
  then obtain w where w: "ece391_fdputs K 1 (L ?fin) v = Ok w" "ok w" "shown w = fold term_putc (T ?fin) (shown v)"
    using text_prints [OF v(2)] by blast
  then have "shown w = fold term_putc (T ''Hello, '' @ line @ T ?fin) (shown s)" using u(4) v(4) by simp
  moreover have "sigtest_report K L charbuf buf 1023 s = Ok (0, w)"
    using u(1) v(1) w(1) m by (cases "mem s charbuf = 1") (simp_all add: sigtest_report_def put_at_def t_def [symmetric] quit_with_def)
  ultimately show ?thesis using w(2) by blast
qed

end

text \<open>A fault that the kernel returns from with \<open>eax\<close> at a byte of the program's page lets the store reach that byte.\<close>

lemma store_retried:
  assumes "F 0 s = Ok (a, t)" and "in_user a"
  shows "store_through F 0 v s = Some (Ok (t\<lparr>mem := (mem t)(a := v)\<rparr>))"
proof -
  have "store_through F 0 v s = store_through F a v t" using assms(1) by (subst store_through.simps) (simp add: in_user_def)
  then show ?thesis using assms(2) by (simp add: store_through.simps [of F a])
qed

section \<open>The program on this kernel\<close>

interpretation kernel_signals: signal_kernel "int80 W run" user_ok user_screen user_remaining user_args user_can_open user_file user_no_file "line_typed W"
  for W :: "'a kernel_state_scheme \<Rightarrow> 'a kernel_state_scheme env" and run
  by unfold_locales (simp add: int80_def syscall_handler_def sysnum_defs returns_def set_handler_def)

text \<open>The page-fault handler that \<open>init_idt\<close> installs: it prints and never returns, so no \<open>eax\<close> is ever returned.\<close>

definition page_fault :: "cstr \<Rightarrow> u32 \<Rightarrow> u32 \<Rightarrow> 'a lib_state_scheme \<Rightarrow> (u32 \<times> 'a lib_state_scheme) outcome" where
  "page_fault conv_buf msg eax s = obind (EXCEPTION conv_buf msg s) (\<lambda>s. Ok (eax, s))"

lemma page_fault_final: "page_fault conv_buf msg eax s \<noteq> Ok x"
  by (cases "printf conv_buf (lit ''%s\<newline>'') (\<lambda>_. msg) s") (auto simp: page_fault_def EXCEPTION_def)

text \<open>
  On this kernel \<open>set_handler\<close> reports success for both handlers but no signal is ever delivered: with its handlers announced
  and the name typed, the program stays in the kernel's page-fault handler and reports neither success nor failure.
\<close>

theorem sigtest_never_reports:
  fixes s :: "'a kernel_state_scheme"
  assumes s: "user_ok s" "user_can_open s" "length (user_args s) < 1024" and buf: "user_run buf 1024"
    and strs: "\<And>c. c \<in> {''Installing signal handlers\<newline>'', ''Hi, what's your name? ''} \<Longrightarrow> text_at L T buf 1024 c (mem s)"
    and bad: "user_run badbuf 4" "disjoint_runs buf 1024 badbuf 4" "load32 (mem s) badbuf = 0"
    and typed: "\<And>t u v. user_ok t \<Longrightarrow> str_at (mem t) buf (user_args s) \<Longrightarrow> install_handlers (int80 W run) L segv alrm buf t = Ok u \<Longrightarrow>
      ece391_fdputs (int80 W run) 1 (L ''Hi, what's your name? '') u = Ok v \<Longrightarrow> line_typed W line scr v"
  shows "\<exists>t :: 'a kernel_state_scheme. user_ok t \<and> user_screen t = term_putc 10 scr \<and>
    sigtest_main (int80 W run) (page_fault conv_buf msg) L charbuf badbuf segv alrm buf s =
      obind (printf conv_buf (lit ''%s\<newline>'') (\<lambda>_. msg) t) (\<lambda>_. No_Return)"
proof -
  obtain t where t: "user_ok t" "user_screen t = term_putc 10 scr"
      "sigtest_main (int80 W run) (page_fault conv_buf msg) L charbuf badbuf segv alrm buf s =
       obind (loop_value (store_through (page_fault conv_buf msg) 0 1 t)) (sigtest_report (int80 W run) L charbuf buf 1023)"
    using kernel_signals.sigtest_reaches_store [OF s buf strs bad(1,2) typed] bad(3) by force
  moreover have "loop_value (store_through (page_fault conv_buf msg) 0 1 t) = obind (printf conv_buf (lit ''%s\<newline>'') (\<lambda>_. msg) t) (\<lambda>_. No_Return)"
    by (subst store_through.simps, cases "printf conv_buf (lit ''%s\<newline>'') (\<lambda>_. msg) t")
      (auto simp: page_fault_def EXCEPTION_def in_user_def)
  ultimately have "sigtest_main (int80 W run) (page_fault conv_buf msg) L charbuf badbuf segv alrm buf s =
      obind (printf conv_buf (lit ''%s\<newline>'') (\<lambda>_. msg) t) (\<lambda>_. No_Return)"
    by (simp add: obind_assoc)
  then show ?thesis using t(1,2) by blast
qed

end
