(* ===== verification/Spec2Isabelle.thy ===== *)
theory Spec2Isabelle
  imports User_Animation Emulate_Calls Startup Ports Scan_Codes Sigtest
begin

text \<open>
  A verification development for a small teaching operating system: the kernel under
  \<open>student-distrib/\<close>, the user programs and their support library under \<open>syscalls/\<close>, and the fish
  demonstration under \<open>fish/\<close>.

  \<^bold>\<open>The program.\<close> A 32-bit x86 kernel with three terminals. GRUB loads it with a read-only file system
  image as its only module; \<open>entry\<close> (\<open>kernel.c\<close>) sets up descriptors, interrupt controllers, keyboard,
  clock, timer, paging and the file system, and \<open>bootup\<close> (\<open>syscalls.c\<close>) starts a shell on each terminal.
  From then on the processor runs user programs, which enter the kernel through \<open>int 0x80\<close>
  (\<open>syscall_handler\<close> in \<open>interrupthandler.S\<close>), and three interrupts run beside them: the keyboard edits the
  line of the active terminal, the real-time clock sets the flag that \<open>rtc_read\<close> waits for, and the timer
  switches to the next process. A process has a PCB in the 8KB block of its kernel stack, a page
  directory, and a 4MB program page at 128MB.

  \<^bold>\<open>State.\<close> One record per component, each extending the one below, so that an operation of a component
  is polymorphic in what lies above it: \<open>machine\<close> (byte memory, interrupt flag, ports) \<open>\<le> lib_state\<close>
  (screen positions) \<open>\<le> files_state \<le> pic_state \<le> rtc_state \<le> kbd_state \<le> paging_state \<le> kernel_state\<close>
  (PCBs, process mask, registers that name the current process), extended by \<open>boot_state\<close> for the kernel entry and by
  \<open>cpu \<le> startup\<close> (the other registers) for the assembly code. Integers are words of
  the width they have in C; only the screen positions, signed \<open>int\<close>s that are set or moved by one, are mathematical integers, which
  differs from C only where C leaves the overflow undefined. Memory is the current process's view: \<open>load_cr3\<close> exchanges the bytes
  at 128MB when the directory it loads maps them to another physical frame. PCBs, bytes at the bottom of the 8KB blocks below 8MB in the
  machine, are a store of their own; \<open>kernel_step\<close> and the theorems on it are about runs in which no store to memory hits those bytes.
  Results are \<open>outcome\<close> values: \<open>Ok\<close>, \<open>Fault\<close> (a store outside an array, a
  division error, a call of a null pointer) or \<open>No_Return\<close>.

  \<^bold>\<open>Theories, in the order they are built.\<close>
  \<^item> \<open>Prelude\<close>: word sizes of \<open>types.h\<close>, outcomes, loops, runs of memory (\<open>blit\<close>), and the generic locales
    \<open>kept_by\<close>, \<open>refined_by\<close>, \<open>transitions\<close>, \<open>simulation\<close> and \<open>sequential_reader\<close>.
  \<^item> \<open>Machine\<close>: \<open>inb\<close>, \<open>outb\<close>, \<open>cli\<close>, \<open>sti\<close> of \<open>lib.h\<close> over an ordered trace of port accesses.
  \<^item> \<open>Lib_Strings\<close>, \<open>Lib_Memory\<close>, \<open>Screen\<close>, \<open>Printf\<close>: \<open>lib.c\<close>. Strings (\<open>strlen\<close> ends exactly when there is a
    zero byte, \<open>itoa\<close> can be parsed back); the inline assembly of \<open>memset\<close>, \<open>memcpy\<close>, \<open>memmove\<close> against
    byte-wise references; the screen as an abstract text terminal (\<open>text_term\<close>) that \<open>putc\<close> and \<open>puts\<close>
    refine, through an interpretation of \<open>refined_by\<close>; \<open>printf\<close> against a rendering function.
  \<^item> \<open>Files\<close>, \<open>Image\<close>: \<open>files.c\<close>. The image as directory, inodes and data blocks; the block-walking read
    delivers exactly the bytes of the file, and repeated reads are a \<open>sequential_reader\<close>.
  \<^item> \<open>Pic\<close>, \<open>Rtc\<close>, \<open>Keyboard\<close>: \<open>i8259.c\<close>, \<open>rtc.c\<close>, \<open>keyboard.c\<close>. Interrupt lines (locale \<open>irq_controller\<close>), clock
    rates and waiting for a tick, the line editor (locale \<open>line_editor\<close>), terminal read and write.
  \<^item> \<open>Paging\<close>: \<open>paging.c\<close> and the entry layouts of \<open>x86_desc.h\<close>; the processor's page walk is the
    specification: what each task can reach, and that program pages are isolated.
  \<^item> \<open>Process\<close>, \<open>Command\<close>, \<open>Scheduler\<close>, \<open>Process_Table\<close>, \<open>Context\<close>, \<open>Execute\<close>, \<open>Execute_Errors\<close>, \<open>Boot\<close>, \<open>System\<close>,
    \<open>Blocks\<close>, \<open>Lifecycle\<close>, \<open>Descriptors\<close>: \<open>syscalls.c\<close>, \<open>scheduler.c\<close> and the entry code of \<open>interrupthandler.S\<close>. The slots
    of the process mask (locale \<open>slot_allocator\<close>), the round-robin search, an abstract table machine
    (\<open>table_step\<close>: spawn, exit, switch) with its invariant by rule induction, and the step relation
    \<open>kernel_step\<close> of interrupts, system calls and the waits inside \<open>read\<close>, which is cut at its loop (\<open>read_begins\<close>,
    \<open>read_waits\<close>, \<open>read_ends\<close>) so that the timer can switch away from it, and which simulates it: in every reachable state the stack
    pointer, task state segment, page directory and saved stack pointers are those of the process that
    the table names (\<open>ctx_ok\<close>). \<open>Blocks\<close>: which steps cannot write to a PCB or a kernel stack. On top: what \<open>execute\<close>, \<open>halt\<close>, \<open>getargs\<close>, \<open>open\<close>, \<open>read\<close> and \<open>close\<close> do, errors
    included.
  \<^item> \<open>Idt\<close>, \<open>Kernel_Entry\<close>: \<open>idt.c\<close>, \<open>kernel.c\<close>. The gates after \<open>init_idt\<close>; the initialisation sequence of
    \<open>entry\<close> reaches the shell in a consistent context.
  \<^item> \<open>Wrappers\<close>, \<open>Startup\<close>, \<open>Ports\<close>: the assembly of \<open>interrupthandler.S\<close>, \<open>boot.S\<close>, \<open>x86_desc.S\<close> and the rest of the inline
    assembly of \<open>lib.h\<close>, instruction by instruction over registers and stack, with the processor's gates and \<open>iret\<close>.
    Interrupted code gets all its registers back, from the clock interrupt at once and from the timer
    when its process is chosen again after a run of the others (\<open>beside\<close>), which leaves its kernel stack alone; a shell that has not run yet is entered through the frame that
    \<open>bootup\<close> built; the start-up code hands the boot loader's registers to \<open>entry\<close>.
  \<^item> \<open>Scan_Codes\<close>: the key codes of \<open>keyboard.h\<close>, and what the driver's table makes of them.
  \<^item> \<open>User_Lib\<close>, \<open>User_Programs\<close>, \<open>User_Interface\<close>, \<open>User_Grep\<close>: \<open>ece391support.c\<close>, the stubs of \<open>ece391syscall.S\<close>,
    and \<open>cat\<close>, \<open>ls\<close>, \<open>grep\<close>, \<open>hello\<close>, \<open>shell\<close>, \<open>testprint\<close>, \<open>pingpong\<close>, \<open>sched\<close>, written over an arbitrary kernel
    (\<open>kernel_call\<close>). What they rely on is stated as locales: \<open>terminal_kernel\<close>, extended by \<open>file_kernel\<close>,
    \<open>dir_kernel\<close>, \<open>console_kernel\<close> and \<open>clock_kernel\<close>; each program is verified inside the locale it needs.
  \<^item> \<open>User_Kernel\<close>, \<open>User_Properties\<close>, \<open>User_Dir\<close>, \<open>User_Shell\<close>, \<open>User_Clock\<close>, \<open>User_Animation\<close>: the kernel's own
    system calls (\<open>int80\<close>, which runs \<open>syscall_handler\<close>) interpret these locales, so that the programs
    are shown correct on the kernel model itself.
  \<^item> \<open>Blink\<close>, \<open>Blink_Table\<close>, \<open>Blink_Ops\<close>, \<open>Fish\<close>: \<open>blink.S\<close> and \<open>fish.c\<close>. The linked list of blinking characters and its
    allocator, byte by byte in memory, refine a finite table; the clock tasklet is one step of an
    abstract animation.
  \<^item> \<open>Sigtest\<close>: \<open>ece391sigtest.c\<close> over the locale \<open>signal_kernel\<close>; what its handler repairs, and that on this kernel,
    which delivers no signals, it stays in the page-fault handler.
  \<^item> \<open>Emulate\<close>, \<open>Emulate_Calls\<close>: \<open>ece391emulate.c\<close>, the same system calls for programs run under Linux; the record
    \<open>host\<close> is what it uses of Linux. The splitting of a command into words, the joining of the arguments, the
    reading of a directory.

  \<^bold>\<open>Loops.\<close> Loops that need not end are \<open>partial_function (option)\<close>, with \<open>None\<close> turned into \<open>No_Return\<close>
  (\<open>of_loop\<close>, \<open>loop_value\<close>), and the theorems show that they return. A loop that waits for an interrupt
  takes the interrupts that arrive while it waits as a list; waiting with an empty list does not return.
  No fuel is used. Sizes in the witnesses (one directory, a few files) are those of small concrete images.

  \<^bold>\<open>Parameters.\<close> What lies outside the sources is an argument: the bytes a device port delivers, the
  values of uninitialised locals, the addresses the linker chooses (\<open>layout\<close>, \<open>segments\<close>, handler
  addresses), what a C function leaves in the registers it need not keep, Linux under the emulated calls,
  and, where \<open>execute\<close> enters a program, what happens until that program ends.

  \<^bold>\<open>Not modelled.\<close> \<open>debug.h\<close> holds printing macros that are compiled out and that no function uses. The \<open>hlt\<close> loop of
  \<open>boot.S\<close> behind the call of \<open>entry\<close>, which does not return, is left out. Interrupts between two instructions
  of a user program are not interleaved with the user-program theorems: \<open>kernel_step\<close> covers their effect
  on the kernel. The gate of \<open>int 0x80\<close> disables interrupts and only \<open>read\<close> enables them; interrupts are taken in user mode
  and where \<open>read\<close> waits, not between the other instructions of \<open>read\<close>.
\<close>

end
